(* ===== verification/Runlet_Prelude.thy ===== *)
theory Runlet_Prelude
  imports Main "HOL-Library.Word"
begin

text \<open>
  Shared vocabulary of the runlet development.

  Strings are byte lists (\<^typ>\<open>string\<close>): a Rust \<^verbatim>\<open>&str\<close> is modelled by its UTF-8 bytes, so
  \<^verbatim>\<open>len()\<close> is \<^const>\<open>length\<close>. Fixed-width counters are words (\<open>u16\<close>, \<open>u32\<close>, \<open>u64\<close>); byte sizes that the
  source derives from \<^verbatim>\<open>String::len\<close> are naturals with the saturation of \<^verbatim>\<open>usize\<close> written out.
  The theory also holds the text operations of the standard library the components use, Rust's
  \<^verbatim>\<open>Result\<close> as a sum (\<open>Inl\<close> the error), and the collections of simplification rules
  the component theories extend.
\<close>

named_theorems runlet_defs \<comment> \<open>definitional unfoldings of the request pipeline\<close>
named_theorems class_simps \<comment> \<open>facts about the classification an error envelope carries\<close>
named_theorems conserve \<comment> \<open>conservation facts of permits and in-flight counters\<close>

type_synonym u8 = "8 word"
type_synonym u16 = "16 word"
type_synonym u32 = "32 word"
type_synonym u64 = "64 word"

subsection \<open>Saturating and checked machine arithmetic\<close>

definition saturating_add :: "'a::len word \<Rightarrow> 'a word \<Rightarrow> 'a word" where
  "saturating_add a b = (if unat a + unat b < 2 ^ LENGTH('a) then a + b else - 1)"

definition saturating_sub :: "'a::len word \<Rightarrow> 'a word \<Rightarrow> 'a word" where
  "saturating_sub a b = (if b \<le> a then a - b else 0)"

lemma unat_minus_one_word_len: "unat (- 1 :: 'a::len word) = 2 ^ LENGTH('a) - 1"
  by (simp add: unsigned_minus_1_eq_mask mask_eq_exp_minus_1)

lemma unat_saturating_add:
  "unat (saturating_add a b) = min (unat a + unat b) (2 ^ LENGTH('a) - 1)"
  for a b :: "'a::len word"
proof (cases "unat a + unat b < 2 ^ LENGTH('a)")
  case True
  then have "unat (a + b) = unat a + unat b"
    by (simp add: unat_word_ariths)
  with True show ?thesis by (simp add: saturating_add_def)
next
  case False
  then show ?thesis by (simp add: saturating_add_def unat_minus_one_word_len)
qed

lemma unat_saturating_sub: "unat (saturating_sub a b) = unat a - unat b"
  for a b :: "'a::len word"
  by (auto simp: saturating_sub_def unat_sub word_le_nat_alt)

lemma saturating_add_one_nonzero: "saturating_add a 1 \<noteq> 0"
  for a :: "'a::len word"
proof -
  have "0 < unat (saturating_add a 1)"
    using len_gt_0 [where 'a = 'a] one_less_power [of "2 :: nat" "LENGTH('a)"]
    by (simp add: unat_saturating_add)
  then show ?thesis by (metis less_not_refl2 unat_0)
qed

lemma unat_u64_less: "unat (w :: u64) < 2 ^ 64"
  using unsigned_less [where 'a = nat, of w] by simp

lemma unat_of_nat_u64: "n < 2 ^ 64 \<Longrightarrow> unat (of_nat n :: u64) = n"
  by (simp add: unat_of_nat)

definition usize_max :: nat where
  "usize_max = 2 ^ 64 - 1"

definition usat_add :: "nat \<Rightarrow> nat \<Rightarrow> nat" where
  "usat_add a b = min (a + b) usize_max"

definition usat_mul :: "nat \<Rightarrow> nat \<Rightarrow> nat" where
  "usat_mul a b = min (a * b) usize_max"

definition checked_mul :: "nat \<Rightarrow> nat \<Rightarrow> nat option" where
  "checked_mul a b = (if a * b \<le> usize_max then Some (a * b) else None)"

lemma usat_add_exact: "a + b \<le> usize_max \<Longrightarrow> usat_add a b = a + b"
  by (simp add: usat_add_def)

lemma usat_add_le_max: "usat_add a b \<le> usize_max"
  by (simp add: usat_add_def)

lemma usat_add_assoc: "usat_add (usat_add a b) c = usat_add a (usat_add b c)"
  by (auto simp: usat_add_def min_def)

lemma fold_usat_add:
  "fold (\<lambda>x acc. usat_add acc x) xs a = (if xs = [] then a else min (a + sum_list xs) usize_max)"
proof (induction xs arbitrary: a)
  case Nil
  then show ?case by simp
next
  case (Cons x xs)
  have "fold (\<lambda>x acc. usat_add acc x) (x # xs) a = fold (\<lambda>x acc. usat_add acc x) xs (usat_add a x)"
    by simp
  also have "\<dots> = min (a + sum_list (x # xs)) usize_max"
    by (subst Cons.IH) (auto simp: usat_add_def)
  finally show ?case by simp
qed

subsection \<open>Results\<close>

type_synonym ('e, 'a) result = "'e + 'a"

fun ok :: "('e, 'a) result \<Rightarrow> 'a option" where
  "ok (Inl e) = None"
| "ok (Inr a) = Some a"

fun is_ok :: "('e, 'a) result \<Rightarrow> bool" where
  "is_ok (Inl e) = False"
| "is_ok (Inr a) = True"

definition and_then :: "('e, 'a) result \<Rightarrow> ('a \<Rightarrow> ('e, 'b) result) \<Rightarrow> ('e, 'b) result" where
  "and_then r k = (case r of Inl e \<Rightarrow> Inl e | Inr a \<Rightarrow> k a)"

lemma and_then_Inr: "and_then r k = Inr y \<longleftrightarrow> (\<exists>x. r = Inr x \<and> k x = Inr y)"
  by (simp add: and_then_def split: sum.split)

lemma is_ok_iff: "is_ok r \<longleftrightarrow> (\<exists>a. r = Inr a)"
  by (cases r) auto

primrec then_check :: "('e, unit) result \<Rightarrow> ('e, 'a) result \<Rightarrow> ('e, 'a) result" where
  "then_check (Inl e) k = Inl e"
| "then_check (Inr u) k = k"

lemma then_check_Inr [simp]: "then_check r k = Inr a \<longleftrightarrow> is_ok r \<and> k = Inr a"
  by (cases r) auto

subsection \<open>Text\<close>

definition ascii_ws :: "char \<Rightarrow> bool" where
  "ascii_ws c \<longleftrightarrow> of_char c \<in> {9::nat, 10, 11, 12, 13, 32}"

definition trim_start :: "string \<Rightarrow> string" where
  "trim_start s = dropWhile ascii_ws s"

definition trim :: "string \<Rightarrow> string" where
  "trim s = rev (dropWhile ascii_ws (rev (dropWhile ascii_ws s)))"

definition to_ascii_lower :: "char \<Rightarrow> char" where
  "to_ascii_lower c = (let n = of_char c :: nat in if 65 \<le> n \<and> n \<le> 90 then char_of (n + 32) else c)"

definition to_ascii_lowercase :: "string \<Rightarrow> string" where
  "to_ascii_lowercase s = map to_ascii_lower s"

fun strip_prefix :: "string \<Rightarrow> string \<Rightarrow> string option" where
  "strip_prefix [] s = Some s"
| "strip_prefix (p # ps) [] = None"
| "strip_prefix (p # ps) (c # cs) = (if p = c then strip_prefix ps cs else None)"

fun split_on :: "char \<Rightarrow> string \<Rightarrow> string list" where
  "split_on d [] = [[]]"
| "split_on d (c # cs) =
     (if c = d then [] # split_on d cs
      else (case split_on d cs of [] \<Rightarrow> [[c]] | w # ws \<Rightarrow> (c # w) # ws))"

lemma strip_prefix_Some: "strip_prefix p s = Some r \<longleftrightarrow> s = p @ r"
  by (induction p s rule: strip_prefix.induct) auto

lemma split_on_nonempty: "split_on d s \<noteq> []"
  by (induction s) (auto split: list.splits)

lemma split_on_no_delim: "w \<in> set (split_on d s) \<Longrightarrow> d \<notin> set w"
proof (induction s arbitrary: w)
  case Nil
  then show ?case by simp
next
  case (Cons c cs)
  then show ?case by (force split: if_splits list.splits)
qed

lemma trim_empty_iff: "trim s = [] \<longleftrightarrow> (\<forall>c \<in> set s. ascii_ws c)"
proof -
  have "(\<forall>c \<in> set (dropWhile ascii_ws s). ascii_ws c) \<longleftrightarrow> (\<forall>c \<in> set s. ascii_ws c)"
    by (induction s) auto
  then show ?thesis by (simp add: trim_def dropWhile_eq_Nil_conv)
qed

lemma hd_trim_not_ws: "trim s \<noteq> [] \<Longrightarrow> \<not> ascii_ws (hd (trim s))"
proof -
  let ?d = "dropWhile ascii_ws s"
  assume ne: "trim s \<noteq> []"
  then have "?d \<noteq> []" by (cases "?d = []") (simp_all add: trim_def)
  then obtain c cs where d: "?d = c # cs" and c: "\<not> ascii_ws c"
    by (metis hd_dropWhile list.collapse)
  have "dropWhile ascii_ws (rev cs @ [c]) = dropWhile ascii_ws (rev cs) @ [c]"
    by (cases "\<forall>x\<in>set (rev cs). ascii_ws x") (auto simp: c dropWhile_append dropWhile_eq_Nil_conv)
  then show ?thesis by (simp add: trim_def d c)
qed

lemma last_trim_not_ws: "trim s \<noteq> [] \<Longrightarrow> \<not> ascii_ws (last (trim s))"
  unfolding trim_def by (simp add: last_rev hd_dropWhile)

subsection \<open>Decimal numerals\<close>

fun show_nat :: "nat \<Rightarrow> string" where
  "show_nat n =
     (if n < 10 then [char_of (48 + n)] else show_nat (n div 10) @ [char_of (48 + n mod 10)])"

declare show_nat.simps [simp del]

text \<open>Zero-padded to a width.\<close>

definition pad :: "nat \<Rightarrow> string \<Rightarrow> string" where
  "pad width s = replicate (width - length s) CHR ''0'' @ s"

definition digit_val :: "char \<Rightarrow> nat option" where
  "digit_val c = (let n = of_char c :: nat in if 48 \<le> n \<and> n \<le> 57 then Some (n - 48) else None)"

fun read_digits :: "nat \<Rightarrow> string \<Rightarrow> nat option" where
  "read_digits acc [] = Some acc"
| "read_digits acc (c # cs) =
     (case digit_val c of
        None \<Rightarrow> None
      | Some d \<Rightarrow>
          if acc * 10 + d \<le> usize_max then read_digits (acc * 10 + d) cs else None)"

text \<open>\<^verbatim>\<open>str::parse::<usize>\<close>: an optional \<open>+\<close>, at least one digit, \<open>Err\<close> on overflow.\<close>

definition parse_usize :: "string \<Rightarrow> nat option" where
  "parse_usize s =
     (let t = (case s of c # cs \<Rightarrow> if c = CHR ''+'' then cs else s | [] \<Rightarrow> [])
      in if t = [] then None else read_digits 0 t)"

lemma digit_val_show: "n < 10 \<Longrightarrow> digit_val (char_of (48 + n)) = Some n"
  by (simp add: digit_val_def of_char_of)

lemma read_digits_append_digit:
  "read_digits a s = Some m \<Longrightarrow> d < 10 \<Longrightarrow> m * 10 + d \<le> usize_max \<Longrightarrow>
   read_digits a (s @ [char_of (48 + d)]) = Some (m * 10 + d)"
proof (induction s arbitrary: a)
  case Nil
  then show ?case by (simp add: digit_val_show)
next
  case (Cons c cs)
  then show ?case by (auto split: option.splits if_splits)
qed

lemma read_digits_show_nat: "n \<le> usize_max \<Longrightarrow> read_digits 0 (show_nat n) = Some n"
proof (induction n rule: show_nat.induct)
  case (1 n)
  show ?case
  proof (cases "n < 10")
    case True
    then show ?thesis
      using "1.prems" digit_val_show [of n] by (simp add: show_nat.simps [of n])
  next
    case False
    have "read_digits 0 (show_nat (n div 10)) = Some (n div 10)"
      using 1 False by (meson div_le_dividend le_trans)
    then have "read_digits 0 (show_nat (n div 10) @ [char_of (48 + n mod 10)])
        = Some (n div 10 * 10 + n mod 10)"
      using "1.prems" by (intro read_digits_append_digit) simp_all
    then show ?thesis using False by (simp add: show_nat.simps [of n])
  qed
qed

lemma show_nat_nonempty: "show_nat n \<noteq> []"
  by (subst show_nat.simps) simp

lemma show_nat_digits: "c \<in> set (show_nat n) \<Longrightarrow> digit_val c \<noteq> None"
proof (induction n rule: show_nat.induct)
  case (1 n)
  then show ?case
    by (subst (asm) (2) show_nat.simps) (auto simp: digit_val_show split: if_splits)
qed

lemma parse_usize_show_nat: "n \<le> usize_max \<Longrightarrow> parse_usize (show_nat n) = Some n"
proof -
  assume n: "n \<le> usize_max"
  obtain c cs where s: "show_nat n = c # cs"
    using show_nat_nonempty [of n] by (cases "show_nat n") auto
  have "digit_val c \<noteq> None" using show_nat_digits [of c n] s by simp
  then have "c \<noteq> CHR ''+''" by (auto simp: digit_val_def)
  then show ?thesis using read_digits_show_nat [OF n] s by (simp add: parse_usize_def)
qed

subsection \<open>Lists and maps\<close>

lemma sum_list_map_le:
  "(\<And>x. x \<in> set xs \<Longrightarrow> f x \<le> g x) \<Longrightarrow> sum_list (map f xs) \<le> sum_list (map g xs)"
  for f g :: "'a \<Rightarrow> nat"
  by (induction xs) (auto simp: add_mono)

lemma card_filter_remove1:
  "x \<in> set xs \<Longrightarrow> P x \<Longrightarrow> length (filter P (remove1 x xs)) + 1 = length (filter P xs)"
  by (induction xs) auto

lemma length_filter_remove1_other:
  "\<not> P x \<Longrightarrow> length (filter P (remove1 x xs)) = length (filter P xs)"
  by (induction xs) auto

subsection \<open>Updating one element of a list\<close>

lemma sum_list_map_update:
  "i < length xs \<Longrightarrow> sum_list (map f (xs[i := y])) + f (xs ! i) = sum_list (map f xs) + (f y :: 'b :: comm_monoid_add)"
proof (induction xs arbitrary: i)
  case (Cons x xs)
  then show ?case by (cases i) (simp_all add: ac_simps)
qed simp

end
