(* ===== verification/Keyed_State.thy ===== *)
theory Keyed_State
  imports Runlet_Prelude
begin

text \<open>
  The interface of a component that keeps one independent cell of state per key (a breaker target, a
  quota tenant, a partition bucket). The contract has two laws: an event touches only the cell of its
  own key, and what it does there depends on that cell alone. Every component that satisfies it is
  isolated: the cell of a key after any interleaving of events is the one its own events produce.
\<close>

locale keyed_state =
  fixes step :: "'s \<Rightarrow> 'e \<Rightarrow> 's"
    and key :: "'e \<Rightarrow> 'k"
    and view :: "'s \<Rightarrow> 'k \<Rightarrow> 'v"
  assumes frame: "key e \<noteq> k \<Longrightarrow> view (step s e) k = view s k"
    and local: "key e = k \<Longrightarrow> view s k = view s' k \<Longrightarrow> view (step s e) k = view (step s' e) k"
begin

definition run :: "'s \<Rightarrow> 'e list \<Rightarrow> 's" where
  "run s es = foldl step s es"

lemma run_Nil [simp]: "run s [] = s"
  by (simp add: run_def)

lemma run_Cons [simp]: "run s (e # es) = run (step s e) es"
  by (simp add: run_def)

lemma run_snoc [simp]: "run s (es @ [e]) = step (run s es) e"
  by (simp add: run_def)

lemma run_local: "view s k = view s' k \<Longrightarrow> view (run s es) k = view (run s' (filter (\<lambda>e. key e = k) es)) k"
proof (induction es arbitrary: s s')
  case Nil
  then show ?case by simp
next
  case (Cons e es)
  show ?case
  proof (cases "key e = k")
    case True
    then have "view (step s e) k = view (step s' e) k" using Cons.prems by (rule local)
    with True show ?thesis using Cons.IH by simp
  next
    case False
    then have "view (step s e) k = view s' k" using Cons.prems frame by simp
    with False show ?thesis using Cons.IH by simp
  qed
qed

lemma isolation: "view (run s es) k = view (run s (filter (\<lambda>e. key e = k) es)) k"
  by (rule run_local) (rule refl)

lemma foreign_events: "(\<And>e. e \<in> set es \<Longrightarrow> key e \<noteq> k) \<Longrightarrow> view (run s es) k = view s k"
proof -
  assume "\<And>e. e \<in> set es \<Longrightarrow> key e \<noteq> k"
  then have "filter (\<lambda>e. key e = k) es = []" by (simp add: filter_empty_conv)
  then show ?thesis using isolation [of s es k] by simp
qed

end

end
