(* ===== verification/Error_Taxonomy.thy ===== *)
theory Error_Taxonomy
  imports Runlet_Prelude
begin

text \<open>
  The error vocabulary of the response contract and its projection on the HTTP status line.

  \<^item> \<open>error_owner\<close>, \<open>fault\<close>: \<^verbatim>\<open>runlet-wire/src/errors.rs\<close>; \<open>egress_error\<close>: \<^verbatim>\<open>runlet-wire/src/egress.rs\<close>.
  \<^item> \<open>error_category\<close>, \<open>error_source\<close>, \<open>error_envelope\<close> and its builders: \<^verbatim>\<open>runlet-core/src/errors.rs\<close>.
  \<^item> \<open>engine_error\<close>, \<open>capability_err\<close>, the classification of a throw and \<open>into_envelope\<close>:
    \<^verbatim>\<open>runlet-core/src/engine/{types,classify}.rs\<close>.
  \<^item> \<open>project\<close>, \<open>park_status\<close>: \<^verbatim>\<open>runlet/src/status.rs\<close>.

  A \<^verbatim>\<open>serde_json::Value\<close> is the datatype \<open>json\<close> (numbers keep their literal text).
\<close>

subsection \<open>Wire primitives\<close>

datatype json =
    JNull
  | JBool bool
  | JNum string
  | JStr string
  | JArr "json list"
  | JObj "(string \<times> json) list"

datatype error_owner = Caller | Developer | Operator

text \<open>The \<^verbatim>\<open>rename_all = "lowercase"\<close> serialisation of the enum.\<close>

fun owner_tag :: "error_owner \<Rightarrow> string" where
  "owner_tag Caller = ''caller''"
| "owner_tag Developer = ''developer''"
| "owner_tag Operator = ''operator''"

definition owner_parse :: "string \<Rightarrow> error_owner option" where
  "owner_parse v =
     (if v = ''caller'' then Some Caller
      else if v = ''developer'' then Some Developer
      else if v = ''operator'' then Some Operator
      else None)"

record fault =
  fa_code :: string
  fa_retryable :: bool
  fa_owner :: error_owner

definition fault_new :: "string \<Rightarrow> bool \<Rightarrow> error_owner \<Rightarrow> fault" where
  "fault_new code retryable owner = \<lparr>fa_code = code, fa_retryable = retryable, fa_owner = owner\<rparr>"

record egress_error =
  eg_code :: string
  eg_message :: string
  eg_source :: string
  eg_details :: "json option"
  eg_retryable :: bool
  eg_owner :: error_owner

definition egress_error_new :: "string \<Rightarrow> string \<Rightarrow> string \<Rightarrow> egress_error" where
  "egress_error_new source code message =
     \<lparr>eg_code = code, eg_message = message, eg_source = source, eg_details = None,
      eg_retryable = False, eg_owner = Operator\<rparr>"

definition egress_retryable :: "egress_error \<Rightarrow> egress_error" where
  "egress_retryable e = e\<lparr>eg_retryable := True\<rparr>"

definition egress_owner :: "egress_error \<Rightarrow> error_owner \<Rightarrow> egress_error" where
  "egress_owner e owner = e\<lparr>eg_owner := owner\<rparr>"

text \<open>
  \<open>DynamicFault\<close> serialised: the fields in declaration order, \<open>details\<close> skipped when absent. The
  value is the JSON object \<^verbatim>\<open>to_tag_json\<close> renders; the text rendering itself is serde's.
\<close>

definition to_tag :: "egress_error \<Rightarrow> json" where
  "to_tag e =
     JObj ([(''error'', JStr (eg_message e)), (''code'', JStr (eg_code e)),
            (''retryable'', JBool (eg_retryable e)), (''owner'', JStr (owner_tag (eg_owner e))),
            (''source'', JStr (eg_source e))]
           @ (case eg_details e of None \<Rightarrow> [] | Some d \<Rightarrow> [(''details'', d)]))"

subsection \<open>Categories, sources, envelopes\<close>

datatype error_category = CatRequest | CatRuntime | CatScript | CatCapability

datatype error_source =
  SrcRequest | SrcEngine | SrcHandler | SrcDb | SrcMongo | SrcMail | SrcS3 | SrcApi
| SrcRedis | SrcAmq | SrcAuth

fun source_tag :: "error_source \<Rightarrow> string" where
  "source_tag SrcRequest = ''request''"
| "source_tag SrcEngine = ''engine''"
| "source_tag SrcHandler = ''handler''"
| "source_tag SrcDb = ''db''"
| "source_tag SrcMongo = ''mongo''"
| "source_tag SrcMail = ''mail''"
| "source_tag SrcS3 = ''s3''"
| "source_tag SrcApi = ''api''"
| "source_tag SrcRedis = ''redis''"
| "source_tag SrcAmq = ''amq''"
| "source_tag SrcAuth = ''auth''"

definition source_parse :: "string \<Rightarrow> error_source option" where
  "source_parse v =
     (if v = ''request'' then Some SrcRequest
      else if v = ''engine'' then Some SrcEngine
      else if v = ''handler'' then Some SrcHandler
      else if v = ''db'' then Some SrcDb
      else if v = ''mongo'' then Some SrcMongo
      else if v = ''mail'' then Some SrcMail
      else if v = ''s3'' then Some SrcS3
      else if v = ''api'' then Some SrcApi
      else if v = ''redis'' then Some SrcRedis
      else if v = ''amq'' then Some SrcAmq
      else if v = ''auth'' then Some SrcAuth
      else None)"

text \<open>
  The JSON texts the native functions answer with; \<open>print\<close> is serde's serialiser, whose failure the code covers with a
  constant.
\<close>

definition quoted_text :: "string \<Rightarrow> string" where
  "quoted_text s = [CHR 0x22] @ s @ [CHR 0x22]"

definition json_envelope :: "string \<Rightarrow> string \<Rightarrow> string" where
  "json_envelope key inner = ''{'' @ quoted_text key @ '':'' @ inner @ ''}''"

definition printed :: "(json \<Rightarrow> (string, string) result) \<Rightarrow> string \<Rightarrow> json \<Rightarrow> string" where
  "printed print fallback j = (case print j of Inr s \<Rightarrow> s | Inl e \<Rightarrow> fallback)"

definition error_json :: "(json \<Rightarrow> (string, string) result) \<Rightarrow> string \<Rightarrow> string" where
  "error_json print message = json_envelope ''error'' (printed print (quoted_text ''internal error'') (JStr message))"

definition FALLBACK_FAULT_JSON :: string where
  "FALLBACK_FAULT_JSON =
     ''{'' @ quoted_text ''error'' @ '':'' @ quoted_text ''internal error'' @ '','' @ quoted_text ''code'' @ '':'' @ quoted_text ''INTERNAL'' @
     '','' @ quoted_text ''retryable'' @ '':true,'' @ quoted_text ''owner'' @ '':'' @ quoted_text ''operator'' @ '','' @
     quoted_text ''source'' @ '':'' @ quoted_text ''engine'' @ ''}''"

definition FALLBACK_API_JSON :: string where
  "FALLBACK_API_JSON =
     ''{'' @ quoted_text ''status'' @ '':0,'' @ quoted_text ''error'' @ '':{'' @ quoted_text ''code'' @ '':'' @ quoted_text ''HTTP_ERROR'' @
     '','' @ quoted_text ''retryable'' @ '':true,'' @ quoted_text ''owner'' @ '':'' @ quoted_text ''operator'' @ '','' @
     quoted_text ''source'' @ '':'' @ quoted_text ''api'' @ ''}}''"

definition capability_fault :: "error_source \<Rightarrow> fault \<Rightarrow> string \<Rightarrow> json option \<Rightarrow> json" where
  "capability_fault source f message details =
     JObj ([(''error'', JStr message), (''code'', JStr (fa_code f)), (''retryable'', JBool (fa_retryable f)),
            (''owner'', JStr (owner_tag (fa_owner f))), (''source'', JStr (source_tag source))] @
           (case details of None \<Rightarrow> [] | Some d \<Rightarrow> [(''details'', d)]))"

definition capability_fault_json ::
  "(json \<Rightarrow> (string, string) result) \<Rightarrow> error_source \<Rightarrow> fault \<Rightarrow> string \<Rightarrow> json option \<Rightarrow> string" where
  "capability_fault_json print source f message details = printed print FALLBACK_FAULT_JSON (capability_fault source f message details)"

definition inband_fault :: "fault \<Rightarrow> string \<Rightarrow> json" where
  "inband_fault f message =
     JObj [(''status'', JNum ''0''),
           (''error'', JObj [(''code'', JStr (fa_code f)), (''retryable'', JBool (fa_retryable f)),
                             (''owner'', JStr (owner_tag (fa_owner f))), (''source'', JStr (source_tag SrcApi)),
                             (''message'', JStr message)])]"

definition api_inband_error_json :: "(json \<Rightarrow> (string, string) result) \<Rightarrow> fault \<Rightarrow> string \<Rightarrow> string" where
  "api_inband_error_json print f message = printed print FALLBACK_API_JSON (inband_fault f message)"

record error_debug =
  db_stack :: "string option"
  db_raw :: "string option"

definition debug_is_empty :: "error_debug \<Rightarrow> bool" where
  "debug_is_empty d \<longleftrightarrow> db_stack d = None \<and> db_raw d = None"

record error_envelope =
  ee_category :: error_category
  ee_source :: error_source
  ee_code :: string
  ee_message :: "string option"
  ee_retryable :: bool
  ee_owner :: error_owner
  ee_details :: "json option"
  ee_debug :: "error_debug option"

definition envelope_new ::
  "error_category \<Rightarrow> error_source \<Rightarrow> string \<Rightarrow> bool \<Rightarrow> error_owner \<Rightarrow> error_envelope" where
  "envelope_new category source code retryable owner =
     \<lparr>ee_category = category, ee_source = source, ee_code = code, ee_message = None,
      ee_retryable = retryable, ee_owner = owner, ee_details = None, ee_debug = None\<rparr>"

definition with_message :: "error_envelope \<Rightarrow> string \<Rightarrow> error_envelope" where
  "with_message e m = e\<lparr>ee_message := Some m\<rparr>"

definition with_details :: "error_envelope \<Rightarrow> json option \<Rightarrow> error_envelope" where
  "with_details e d = e\<lparr>ee_details := d\<rparr>"

definition with_debug :: "error_envelope \<Rightarrow> error_debug \<Rightarrow> error_envelope" where
  "with_debug e d = e\<lparr>ee_debug := (if debug_is_empty d then None else Some d)\<rparr>"

lemmas envelope_builders = envelope_new_def with_message_def with_details_def with_debug_def

definition request_error :: "string \<Rightarrow> string \<Rightarrow> error_envelope" where
  "request_error code message =
     with_message (envelope_new CatRequest SrcRequest code False Caller) message"

subsection \<open>Engine errors and their classification\<close>

record capability_err =
  ce_source :: error_source
  ce_code :: string
  ce_retryable :: bool
  ce_owner :: error_owner
  ce_raw :: "string option"
  ce_stack :: "string option"
  ce_details :: "json option"

datatype engine_error =
    Syntax string
  | ScriptNotFound string
  | ModuleNotFound string
  | HandlerNotDefined
  | Timeout nat
  | MemoryLimit
  | Malformed string
  | OutputTooLarge nat nat
  | Internal string
  | ShuttingDown
  | ScriptErr string "string option"
  | CapabilityError capability_err

text \<open>The \<open>__runlet\<close> tag as serde reads it off the thrown object.\<close>

record capability_tag =
  ct_error :: "string option"
  ct_code :: string
  ct_retryable :: bool
  ct_source :: string
  ct_owner :: "string option"
  ct_details :: "json option"

definition capability_of_tag :: "capability_tag \<Rightarrow> string option \<Rightarrow> capability_err option" where
  "capability_of_tag tag stack =
     (case source_parse (ct_source tag) of
        None \<Rightarrow> None
      | Some source \<Rightarrow>
          Some \<lparr>ce_source = source, ce_code = ct_code tag, ce_retryable = ct_retryable tag,
                ce_owner = (case Option.bind (ct_owner tag) owner_parse of
                              None \<Rightarrow> Operator | Some ow \<Rightarrow> ow),
                ce_raw = ct_error tag, ce_stack = stack, ce_details = ct_details tag\<rparr>)"

text \<open>
  The derived deserialiser of the tag: \<open>code\<close> and \<open>source\<close> are required strings, the other fields default
  when missing (and an explicit \<open>null\<close> reads as absent for an \<^verbatim>\<open>Option\<close>), unknown fields are ignored, a field
  given twice or of another type is an error.
\<close>

definition opt_str :: "json option \<Rightarrow> string option option" where
  "opt_str v = (case v of None \<Rightarrow> Some None | Some JNull \<Rightarrow> Some None | Some (JStr s) \<Rightarrow> Some (Some s)
                | Some _ \<Rightarrow> None)"

definition tag_fields :: "string list" where
  "tag_fields = [''error'', ''code'', ''retryable'', ''source'', ''owner'', ''details'']"

definition read_tag :: "json \<Rightarrow> capability_tag option" where
  "read_tag j =
     (case j of
        JObj fs \<Rightarrow>
          if \<not> distinct (filter (\<lambda>k. k \<in> set tag_fields) (map fst fs)) then None
          else (case (opt_str (map_of fs ''error''), map_of fs ''code'',
                      (case map_of fs ''retryable'' of None \<Rightarrow> Some False
                         | Some (JBool b) \<Rightarrow> Some b | Some _ \<Rightarrow> None),
                      map_of fs ''source'', opt_str (map_of fs ''owner'')) of
                  (Some err, Some (JStr code), Some retry, Some (JStr source), Some owner) \<Rightarrow>
                    Some \<lparr>ct_error = err, ct_code = code, ct_retryable = retry, ct_source = source,
                          ct_owner = owner,
                          ct_details = (case map_of fs ''details'' of Some JNull \<Rightarrow> None | d \<Rightarrow> d)\<rparr>
                | _ \<Rightarrow> None)
      | _ \<Rightarrow> None)"

text \<open>
  What the engine observes of the pending exception: a non-object value with its string form, or an
  object with its non-empty \<open>stack\<close> and \<open>message\<close> properties and its well-formed \<open>__runlet\<close> tag.
\<close>

datatype thrown =
    ThrownValue "string option"
  | ThrownObject "string option" "string option" "capability_tag option"

definition classify_throw :: "bool \<Rightarrow> nat \<Rightarrow> thrown \<Rightarrow> engine_error" where
  "classify_throw timed_out limit_ms caught =
     (if timed_out then Timeout limit_ms
      else (case caught of
              ThrownValue s \<Rightarrow>
                ScriptErr (case s of Some t \<Rightarrow> t | None \<Rightarrow> ''script error'') None
            | ThrownObject stack message tag \<Rightarrow>
                (case Option.bind tag (\<lambda>t. capability_of_tag t stack) of
                   Some cap \<Rightarrow> CapabilityError cap
                 | None \<Rightarrow> ScriptErr (case message of Some m \<Rightarrow> m | None \<Rightarrow> []) stack)))"

definition runtime_envelope :: "string \<Rightarrow> bool \<Rightarrow> error_owner \<Rightarrow> string \<Rightarrow> error_envelope" where
  "runtime_envelope code retryable owner message =
     with_message (envelope_new CatRuntime SrcEngine code retryable owner) message"

definition attach_debug ::
  "error_envelope \<Rightarrow> string option \<Rightarrow> string option \<Rightarrow> bool \<Rightarrow> error_envelope" where
  "attach_debug e stack raw error_debug =
     (if error_debug then with_debug e \<lparr>db_stack = stack, db_raw = raw\<rparr> else e)"

definition script_envelope :: "string \<Rightarrow> string option \<Rightarrow> bool \<Rightarrow> error_envelope" where
  "script_envelope message stack error_debug =
     attach_debug
       (with_message (envelope_new CatScript SrcHandler ''SCRIPT_ERROR'' False Developer) message)
       stack None error_debug"

fun capability_message :: "error_source \<Rightarrow> string" where
  "capability_message SrcDb = ''database request failed''"
| "capability_message SrcMongo = ''database request failed''"
| "capability_message SrcMail = ''mail delivery failed''"
| "capability_message SrcS3 = ''object storage request failed''"
| "capability_message SrcApi = ''upstream request failed''"
| "capability_message SrcRedis = ''redis request failed''"
| "capability_message SrcAmq = ''message broker request failed''"
| "capability_message SrcAuth = ''identity request failed''"
| "capability_message SrcRequest = ''capability request failed''"
| "capability_message SrcEngine = ''capability request failed''"
| "capability_message SrcHandler = ''capability request failed''"

definition capability_envelope :: "capability_err \<Rightarrow> bool \<Rightarrow> error_envelope" where
  "capability_envelope c error_debug =
     attach_debug
       (with_details
          (with_message
             (envelope_new CatCapability (ce_source c) (ce_code c) (ce_retryable c) (ce_owner c))
             (capability_message (ce_source c)))
          (ce_details c))
       (ce_stack c) (ce_raw c) error_debug"

fun into_envelope :: "engine_error \<Rightarrow> bool \<Rightarrow> bool \<Rightarrow> error_envelope" where
  "into_envelope (Syntax m) dbg tr = runtime_envelope ''SYNTAX_ERROR'' False Developer m"
| "into_envelope (ScriptNotFound m) dbg tr =
     with_message (envelope_new CatRequest SrcRequest ''SCRIPT_NOT_FOUND'' False Caller) m"
| "into_envelope (ModuleNotFound m) dbg tr = runtime_envelope ''MODULE_NOT_FOUND'' False Developer m"
| "into_envelope HandlerNotDefined dbg tr =
     runtime_envelope ''HANDLER_NOT_DEFINED'' False Developer
       ''script must define a `handler(context)` function''"
| "into_envelope (Timeout limit_ms) dbg tr =
     runtime_envelope ''TIMEOUT'' tr Developer
       (''execution timed out ('' @ show_nat limit_ms @ ''ms limit)'')"
| "into_envelope MemoryLimit dbg tr =
     runtime_envelope ''MEMORY_LIMIT'' False Developer ''memory limit exceeded''"
| "into_envelope (Malformed m) dbg tr = runtime_envelope ''MALFORMED_RESPONSE'' False Developer m"
| "into_envelope (OutputTooLarge sz limit) dbg tr =
     runtime_envelope ''OUTPUT_TOO_LARGE'' False Developer
       (''handler output too large: '' @ show_nat sz @ '' bytes (max '' @ show_nat limit @ '')'')"
| "into_envelope (Internal raw) dbg tr =
     attach_debug (runtime_envelope ''INTERNAL'' True Operator ''internal error'') None (Some raw) dbg"
| "into_envelope ShuttingDown dbg tr =
     runtime_envelope ''SHUTTING_DOWN'' True Operator ''service is shutting down''"
| "into_envelope (ScriptErr m stack) dbg tr = script_envelope m stack dbg"
| "into_envelope (CapabilityError c) dbg tr = capability_envelope c dbg"

fun engine_error_outcome :: "engine_error \<Rightarrow> string" where
  "engine_error_outcome (Syntax m) = ''script_error''"
| "engine_error_outcome (ScriptNotFound m) = ''script_error''"
| "engine_error_outcome (ModuleNotFound m) = ''script_error''"
| "engine_error_outcome HandlerNotDefined = ''script_error''"
| "engine_error_outcome (ScriptErr m st) = ''script_error''"
| "engine_error_outcome (CapabilityError c) = ''capability_error''"
| "engine_error_outcome (Timeout l) = ''timeout''"
| "engine_error_outcome MemoryLimit = ''memory_limit''"
| "engine_error_outcome (Malformed m) = ''malformed_response''"
| "engine_error_outcome (OutputTooLarge s l) = ''malformed_response''"
| "engine_error_outcome (Internal r) = ''internal_error''"
| "engine_error_outcome ShuttingDown = ''internal_error''"

subsection \<open>Status projection\<close>

record projected =
  pr_status :: u16
  pr_retry_after :: bool

definition projected_retry :: "u16 \<Rightarrow> projected" where
  "projected_retry status = \<lparr>pr_status = status, pr_retry_after = True\<rparr>"

definition projected_park :: "u16 \<Rightarrow> projected" where
  "projected_park status = \<lparr>pr_status = status, pr_retry_after = False\<rparr>"

definition park_status :: "error_owner \<Rightarrow> string \<Rightarrow> u16" where
  "park_status owner code =
     (if code \<in> {''SCRIPT_TOO_LARGE'', ''CONTEXT_TOO_LARGE''} then 413
      else (case owner of
              Caller \<Rightarrow> if code = ''SCRIPT_NOT_FOUND'' then 404 else 400
            | Operator \<Rightarrow> 409
            | Developer \<Rightarrow> 422))"

definition project :: "bool \<Rightarrow> error_owner \<Rightarrow> string \<Rightarrow> projected" where
  "project retryable owner code =
     (if retryable then projected_retry (if code = ''INTERNAL'' then 500 else 503)
      else projected_park (park_status owner code))"

definition project_envelope :: "error_envelope \<Rightarrow> projected" where
  "project_envelope e = project (ee_retryable e) (ee_owner e) (ee_code e)"

text \<open>
  \<^verbatim>\<open>handler_status\<close> (\<^verbatim>\<open>handler/response.rs\<close>): the projection of a handler-returned error. \<open>read_retryable\<close>
  stands for \<^verbatim>\<open>serde_json::from_str::<HandlerRetryable>\<close>: \<open>None\<close> when the text does not deserialise,
  else the optional flag.
\<close>

definition handler_status :: "(string \<Rightarrow> bool option option) \<Rightarrow> string \<Rightarrow> projected" where
  "handler_status read_retryable error =
     (if trim error = ''null'' then \<lparr>pr_status = 200, pr_retry_after = False\<rparr>
      else if Option.bind (read_retryable error) id = Some True
      then \<lparr>pr_status = 503, pr_retry_after = True\<rparr>
      else \<lparr>pr_status = 422, pr_retry_after = False\<rparr>)"

subsection \<open>Facts\<close>

lemma owner_parse_iff: "owner_parse s = Some w \<longleftrightarrow> s = owner_tag w"
  by (cases w) (auto simp: owner_parse_def)

lemma source_parse_iff: "source_parse s = Some w \<longleftrightarrow> s = source_tag w"
  by (cases w) (auto simp: source_parse_def)

lemma request_error_class [class_simps]:
  "ee_retryable (request_error c m) = False" "ee_owner (request_error c m) = Caller"
  "ee_code (request_error c m) = c" "ee_category (request_error c m) = CatRequest"
  "ee_debug (request_error c m) = None" "ee_message (request_error c m) = Some m"
  by (simp_all add: request_error_def envelope_builders)

lemma with_debug_class [class_simps]:
  "ee_retryable (with_debug e d) = ee_retryable e" "ee_owner (with_debug e d) = ee_owner e"
  "ee_code (with_debug e d) = ee_code e" "ee_category (with_debug e d) = ee_category e"
  "ee_message (with_debug e d) = ee_message e" "ee_details (with_debug e d) = ee_details e"
  by (simp_all add: with_debug_def)

lemma runtime_envelope_class [class_simps]:
  "ee_retryable (runtime_envelope c r w m) = r" "ee_owner (runtime_envelope c r w m) = w"
  "ee_code (runtime_envelope c r w m) = c" "ee_debug (runtime_envelope c r w m) = None"
  "ee_category (runtime_envelope c r w m) = CatRuntime"
  by (simp_all add: runtime_envelope_def envelope_builders)

lemma attach_debug_class [class_simps]:
  "ee_retryable (attach_debug e s r d) = ee_retryable e"
  "ee_owner (attach_debug e s r d) = ee_owner e"
  "ee_code (attach_debug e s r d) = ee_code e"
  "ee_category (attach_debug e s r d) = ee_category e"
  by (simp_all add: attach_debug_def with_debug_def)

lemma script_envelope_class [class_simps]:
  "ee_retryable (script_envelope m s d) = False" "ee_owner (script_envelope m s d) = Developer"
  "ee_code (script_envelope m s d) = ''SCRIPT_ERROR''"
  by (simp_all add: script_envelope_def class_simps) (simp_all add: envelope_builders)

lemma capability_envelope_class [class_simps]:
  "ee_retryable (capability_envelope c d) = ce_retryable c"
  "ee_owner (capability_envelope c d) = ce_owner c"
  "ee_code (capability_envelope c d) = ce_code c"
  by (simp_all add: capability_envelope_def class_simps) (simp_all add: envelope_builders)

lemma project_status_cases:
  "pr_status (project r w c) \<in> (if r then {500, 503} else {400, 404, 409, 413, 422})"
  by (cases w) (simp_all add: project_def projected_retry_def projected_park_def park_status_def)

lemma project_retry_after: "pr_retry_after (project r w c) = r"
  by (simp add: project_def projected_retry_def projected_park_def)

lemma into_envelope_no_debug: "ee_debug (into_envelope e False tr) = None"
  by (cases e) (simp_all add: class_simps attach_debug_def script_envelope_def capability_envelope_def
      envelope_builders)

lemma read_tag_to_tag:
  "eg_details e \<noteq> Some JNull \<Longrightarrow>
   read_tag (to_tag e) =
     Some \<lparr>ct_error = Some (eg_message e), ct_code = eg_code e, ct_retryable = eg_retryable e,
           ct_source = eg_source e, ct_owner = Some (owner_tag (eg_owner e)),
           ct_details = eg_details e\<rparr>"
  by (cases "eg_details e")
     (auto simp: read_tag_def to_tag_def tag_fields_def opt_str_def split: json.splits)

subsection \<open>Properties\<close>

text \<open>The status class is a function of the retry hint alone. A retryable fault projects to
  \<open>500\<close> or \<open>503\<close> and carries \<open>Retry-After\<close>; a non-retryable one projects to a \<open>4xx\<close> without it; the owner
  and the code never move the class and \<open>429\<close> is never produced.\<close>

lemma project_class:
  "(pr_status (project r w c) \<in> {500, 503} \<longleftrightarrow> r) \<and>
   (pr_status (project r w c) \<in> {400, 404, 409, 413, 422} \<longleftrightarrow> \<not> r) \<and>
   pr_retry_after (project r w c) = r \<and> pr_status (project r w c) \<noteq> 429"
  using project_status_cases [of r w c] project_retry_after [of r w c] by (cases r) auto

text \<open>C36: with \<open>error_debug\<close> off, the response to an engine error is independent of the raw cause and the
  stack: an internal error, a script error and a capability error give the same json_envelope whatever
  their raw text or stack, and no debug block is present for any engine error.\<close>

theorem raw_cause_not_leaked:
  "into_envelope (Internal raw) False t = into_envelope (Internal raw') False t \<and>
   into_envelope (ScriptErr m st) False t = into_envelope (ScriptErr m st') False t \<and>
   into_envelope (CapabilityError (c\<lparr>ce_raw := raw1, ce_stack := st1\<rparr>)) False t =
     into_envelope (CapabilityError c) False t \<and>
   ee_debug (into_envelope e False t) = None"
  by (simp add: into_envelope_no_debug attach_debug_def script_envelope_def capability_envelope_def)

text \<open>What every engine error answers on the status line: box bugs and shutdown are retryable \<open>5xx\<close>, a
  wall-clock timeout follows the operator knob, an unknown script is \<open>404\<close>, a capability error follows
  its own classification, and every other engine error parks at \<open>422\<close>.\<close>

lemma engine_error_status:
  "project_envelope (into_envelope e dbg tr) =
     (case e of
        Internal raw \<Rightarrow> projected_retry 500
      | ShuttingDown \<Rightarrow> projected_retry 503
      | Timeout l \<Rightarrow> (if tr then projected_retry 503 else projected_park 422)
      | ScriptNotFound m \<Rightarrow> projected_park 404
      | CapabilityError c \<Rightarrow> project (ce_retryable c) (ce_owner c) (ce_code c)
      | _ \<Rightarrow> projected_park 422)"
  by (cases e) (simp_all add: project_envelope_def class_simps project_def park_status_def
      envelope_builders)

text \<open>A broker error survives the trip through the script. Rendering an egress error as the
  \<open>__runlet\<close> tag, throwing it and classifying the throw gives a capability error with the same code, retry
  hint, owner, details and raw message exactly when its source names a known capability; otherwise the
  throw is an ordinary script error. The timeout flag overrides both.\<close>

lemma egress_error_roundtrip:
  assumes "eg_details e \<noteq> Some JNull"
  shows "classify_throw timed_out lim (ThrownObject stack msg (read_tag (to_tag e))) =
     (if timed_out then Timeout lim
      else if \<exists>src. eg_source e = source_tag src
      then CapabilityError \<lparr>ce_source = the (source_parse (eg_source e)), ce_code = eg_code e,
             ce_retryable = eg_retryable e, ce_owner = eg_owner e, ce_raw = Some (eg_message e),
             ce_stack = stack, ce_details = eg_details e\<rparr>
      else ScriptErr (case msg of Some m \<Rightarrow> m | None \<Rightarrow> []) stack)"
proof -
  have own: "owner_parse (owner_tag (eg_owner e)) = Some (eg_owner e)"
    by (simp add: owner_parse_iff)
  show ?thesis
  proof (cases "source_parse (eg_source e)")
    case None
    then have "\<nexists>src. eg_source e = source_tag src"
      using source_parse_iff by (metis option.distinct(1))
    with None show ?thesis
      by (simp add: classify_throw_def read_tag_to_tag [OF assms] capability_of_tag_def)
  next
    case (Some src)
    then show ?thesis
      using source_parse_iff [of "eg_source e" src]
      by (auto simp: classify_throw_def read_tag_to_tag [OF assms] capability_of_tag_def own)
  qed
qed

text \<open>A handler response is \<open>2xx\<close> exactly when its \<open>error\<close> is JSON \<open>null\<close>; any other error is \<open>503\<close> with
  \<open>Retry-After\<close> when the handler opted into retry and \<open>422\<close> without it otherwise.\<close>

lemma handler_status_cases:
  "(pr_status (handler_status rd err) = 200 \<longleftrightarrow> trim err = ''null'') \<and>
   (pr_retry_after (handler_status rd err) \<longleftrightarrow> pr_status (handler_status rd err) = 503) \<and>
   (pr_status (handler_status rd err) = 503 \<longleftrightarrow>
      trim err \<noteq> ''null'' \<and> rd err = Some (Some True)) \<and>
   pr_status (handler_status rd err) \<in> {200, 422, 503}"
  by (cases "rd err") (auto simp: handler_status_def)

end
