(* ===== verification/Breaker.thy ===== *)
theory Breaker
  imports Keyed_State
begin

text \<open>
  The per-target circuit breaker of \<^verbatim>\<open>runlet-wire/src/breaker.rs\<close>.

  An \<^verbatim>\<open>Instant\<close> is a number of nanoseconds of the monotonic clock with the range of the platform's
  \<^verbatim>\<open>timespec\<close> (\<open>i64\<close> seconds), so \<^verbatim>\<open>checked_add\<close> is \<open>None\<close> past it. Every operation takes the instant it reads.
  The mutex is the atomicity of one operation; a poisoned lock is the flag \<open>br_poisoned\<close>. The model is
  specified by the history of outcomes: \<open>streak\<close> counts a target's failures since its last success.
\<close>

type_synonym instant = nat
type_synonym duration = nat

definition instant_max :: instant where
  "instant_max = 2 ^ 63 * 10 ^ 9 - 1"

definition instant_checked_add :: "instant \<Rightarrow> duration \<Rightarrow> instant option" where
  "instant_checked_add t d = (if t + d \<le> instant_max then Some (t + d) else None)"

record breaker_config =
  bc_threshold :: u32
  bc_cooldown :: duration

record target_state =
  ts_failures :: u32
  ts_open_until :: "instant option"

record circuit_breaker =
  br_config :: breaker_config
  br_targets :: "string \<rightharpoonup> target_state"
  br_trips :: u64
  br_poisoned :: bool

definition breaker_new :: "breaker_config \<Rightarrow> circuit_breaker option" where
  "breaker_new cfg =
     (if bc_threshold cfg = 0 then None
      else Some \<lparr>br_config = cfg, br_targets = Map.empty, br_trips = 0, br_poisoned = False\<rparr>)"

definition trips :: "circuit_breaker \<Rightarrow> u64" where
  "trips b = br_trips b"

definition allow :: "instant \<Rightarrow> circuit_breaker \<Rightarrow> string \<Rightarrow> bool \<times> circuit_breaker" where
  "allow now b target =
     (if br_poisoned b then (True, b)
      else (case br_targets b target of
              None \<Rightarrow> (True, b)
            | Some st \<Rightarrow>
                (case ts_open_until st of
                   Some until \<Rightarrow>
                     if now < until then (False, b)
                     else (True, b\<lparr>br_targets := (br_targets b)(target \<mapsto>
                             st\<lparr>ts_open_until := instant_checked_add now (bc_cooldown (br_config b))\<rparr>)\<rparr>)
                 | None \<Rightarrow> (True, b))))"

definition record_outcome :: "instant \<Rightarrow> circuit_breaker \<Rightarrow> string \<Rightarrow> bool \<Rightarrow> circuit_breaker" where
  "record_outcome now b target success =
     (if br_poisoned b then b
      else let st = (case br_targets b target of
                       Some st \<Rightarrow> st
                     | None \<Rightarrow> \<lparr>ts_failures = 0, ts_open_until = None\<rparr>)
           in if success
              then b\<lparr>br_targets := (br_targets b)(target \<mapsto> st\<lparr>ts_failures := 0, ts_open_until := None\<rparr>)\<rparr>
              else let failures = saturating_add (ts_failures st) 1
                   in if bc_threshold (br_config b) \<le> failures
                      then b\<lparr>br_targets := (br_targets b)(target \<mapsto>
                                st\<lparr>ts_failures := failures,
                                   ts_open_until :=
                                     instant_checked_add now (bc_cooldown (br_config b))\<rparr>),
                             br_trips := (if ts_open_until st = None then br_trips b + 1
                                          else br_trips b)\<rparr>
                      else b\<lparr>br_targets := (br_targets b)(target \<mapsto> st\<lparr>ts_failures := failures\<rparr>)\<rparr>)"

subsection \<open>Histories\<close>

datatype breaker_event =
    Allow instant string
  | Record instant string bool

fun event_target :: "breaker_event \<Rightarrow> string" where
  "event_target (Allow t k) = k"
| "event_target (Record t k good) = k"

fun event_time :: "breaker_event \<Rightarrow> instant" where
  "event_time (Allow t k) = t"
| "event_time (Record t k good) = t"

fun breaker_step :: "circuit_breaker \<Rightarrow> breaker_event \<Rightarrow> circuit_breaker" where
  "breaker_step b (Allow t k) = snd (allow t b k)"
| "breaker_step b (Record t k good) = record_outcome t b k good"

definition breaker_run :: "circuit_breaker \<Rightarrow> breaker_event list \<Rightarrow> circuit_breaker" where
  "breaker_run b es = foldl breaker_step b es"

definition target_view :: "circuit_breaker \<Rightarrow> string \<Rightarrow> breaker_config \<times> bool \<times> target_state option" where
  "target_view b k = (br_config b, br_poisoned b, br_targets b k)"

text \<open>The specification side: failures of a target since its last success.\<close>

fun streak_step :: "string \<Rightarrow> nat \<Rightarrow> breaker_event \<Rightarrow> nat" where
  "streak_step k n (Allow t k') = n"
| "streak_step k n (Record t k' good) = (if k' = k then if good then 0 else n + 1 else n)"

definition streak :: "string \<Rightarrow> breaker_event list \<Rightarrow> nat" where
  "streak k es = foldl (streak_step k) 0 es"

lemma streak_Nil [simp]: "streak k [] = 0"
  by (simp add: streak_def)

lemma streak_snoc [simp]: "streak k (es @ [e]) = streak_step k (streak k es) e"
  by (simp add: streak_def)

lemma breaker_run_Nil [simp]: "breaker_run b [] = b"
  by (simp add: breaker_run_def)

lemma breaker_run_snoc [simp]: "breaker_run b (es @ [e]) = breaker_step (breaker_run b es) e"
  by (simp add: breaker_run_def)

lemma breaker_step_config [simp]: "br_config (breaker_step b e) = br_config b"
  by (cases e) (auto simp: allow_def record_outcome_def Let_def split: option.splits)

lemma breaker_step_poisoned [simp]: "br_poisoned (breaker_step b e) = br_poisoned b"
  by (cases e) (auto simp: allow_def record_outcome_def Let_def split: option.splits)

lemma breaker_run_config [simp]: "br_config (breaker_run b es) = br_config b"
  by (induction es rule: rev_induct) simp_all

lemma breaker_run_poisoned [simp]: "br_poisoned (breaker_run b es) = br_poisoned b"
  by (induction es rule: rev_induct) simp_all

lemma breaker_step_frame:
  "event_target e \<noteq> k \<Longrightarrow> br_targets (breaker_step b e) k = br_targets b k"
  by (cases e) (auto simp: allow_def record_outcome_def Let_def split: option.splits)

lemma breaker_step_local:
  "event_target e = k \<Longrightarrow> target_view b k = target_view b' k \<Longrightarrow>
   target_view (breaker_step b e) k = target_view (breaker_step b' e) k"
  by (cases e) (auto simp: target_view_def allow_def record_outcome_def Let_def split: option.splits)

interpretation bk: keyed_state breaker_step event_target target_view
proof unfold_locales
  show "target_view (breaker_step s e) k = target_view s k" if "event_target e \<noteq> k" for s e k
    using that by (simp add: target_view_def breaker_step_frame)
qed (rule breaker_step_local)

lemma bk_run_eq: "bk.run b es = breaker_run b es"
  by (simp add: bk.run_def breaker_run_def)

subsection \<open>Refinement of the history\<close>

text \<open>
  What a target's cell says of its history: the failure counter is the streak (saturated at the
  counter's width), and the breaker is open exactly when the streak reached the threshold.
\<close>

definition cell_ok :: "circuit_breaker \<Rightarrow> string \<Rightarrow> nat \<Rightarrow> bool" where
  "cell_ok b k n \<longleftrightarrow>
     (case br_targets b k of
        None \<Rightarrow> n = 0
      | Some st \<Rightarrow>
          unat (ts_failures st) = min n (2 ^ 32 - 1) \<and>
          (ts_open_until st \<noteq> None \<longleftrightarrow> unat (bc_threshold (br_config b)) \<le> n))"

definition no_overflow :: "circuit_breaker \<Rightarrow> breaker_event \<Rightarrow> bool" where
  "no_overflow b e \<longleftrightarrow> event_time e + bc_cooldown (br_config b) \<le> instant_max"

lemma threshold_le_sat:
  "bc_threshold c \<le> w \<longleftrightarrow> unat (bc_threshold c) \<le> n" if "unat w = min n (2 ^ 32 - 1)" for w :: u32
proof -
  have "unat (bc_threshold c) < 2 ^ 32" using unsigned_less [of "bc_threshold c"] by simp
  with that show ?thesis by (simp add: word_le_nat_alt)
qed

lemma cell_ok_allow:
  assumes "cell_ok b k n" and "no_overflow b (Allow t k')"
  shows "cell_ok (snd (allow t b k')) k n"
  using assms
  by (auto simp: cell_ok_def allow_def no_overflow_def instant_checked_add_def split: option.splits)

lemma cell_ok_success:
  assumes "\<not> br_poisoned b" and "0 < bc_threshold (br_config b)"
  shows "cell_ok (record_outcome t b k True) k 0"
proof -
  have "0 < unat (bc_threshold (br_config b))" using assms(2) by (simp add: word_less_nat_alt)
  then show ?thesis using assms(1) by (simp add: cell_ok_def record_outcome_def Let_def)
qed

lemma cell_ok_failure:
  assumes "\<not> br_poisoned b" and "cell_ok b k n" and "0 < bc_threshold (br_config b)"
    and "no_overflow b (Record t k False)"
  shows "cell_ok (record_outcome t b k False) k (n + 1)"
proof -
  define st where "st = (case br_targets b k of Some st \<Rightarrow> st | None \<Rightarrow> \<lparr>ts_failures = 0, ts_open_until = None\<rparr>)"
  have thr: "0 < unat (bc_threshold (br_config b))" using assms(3) by (simp add: word_less_nat_alt)
  have st: "unat (ts_failures st) = min n (2 ^ 32 - 1)"
      "ts_open_until st \<noteq> None \<longleftrightarrow> unat (bc_threshold (br_config b)) \<le> n"
    using assms(2) thr by (auto simp: st_def cell_ok_def split: option.splits)
  have f: "unat (saturating_add (ts_failures st) 1) = min (n + 1) (2 ^ 32 - 1)"
    by (simp add: unat_saturating_add st(1))
  show ?thesis
    using assms(1,4) st f threshold_le_sat [OF f, of "br_config b"]
    by (auto simp: cell_ok_def record_outcome_def no_overflow_def instant_checked_add_def Let_def
        st_def [symmetric])
qed

lemma cell_ok_frame:
  "event_target e \<noteq> k \<Longrightarrow> cell_ok (breaker_step b e) k n = cell_ok b k n"
  using breaker_step_frame [of e k b] by (simp add: cell_ok_def split: option.splits)

lemma cell_ok_step:
  assumes "\<not> br_poisoned b" and "0 < bc_threshold (br_config b)" and "no_overflow b e"
    and "cell_ok b k n"
  shows "cell_ok (breaker_step b e) k (streak_step k n e)"
proof (cases "event_target e = k")
  case True
  with assms show ?thesis
    by (cases e) (auto intro: cell_ok_allow cell_ok_success cell_ok_failure [simplified])
next
  case False
  then have "streak_step k n e = n" by (cases e) simp_all
  with False assms(4) show ?thesis by (simp add: cell_ok_frame)
qed

lemma cell_ok_run:
  assumes "breaker_new cfg = Some b" and "list_all (no_overflow b) es"
  shows "cell_ok (breaker_run b es) k (streak k es)"
  using assms(2)
proof (induction es rule: rev_induct)
  case Nil
  then show ?case using assms(1) by (auto simp: breaker_new_def cell_ok_def split: if_splits)
next
  case (snoc e es)
  have b: "\<not> br_poisoned b" "0 < bc_threshold (br_config b)"
    using assms(1) by (auto simp: breaker_new_def word_neq_0_conv split: if_splits)
  have "no_overflow (breaker_run b es) e" using snoc.prems by (simp add: no_overflow_def)
  moreover have "cell_ok (breaker_run b es) k (streak k es)" using snoc by simp
  ultimately show ?case using b by (simp add: cell_ok_step)
qed

subsection \<open>The open window\<close>

text \<open>Events that leave an open cell alone: anything on another target, and probes inside the window.\<close>

definition quiet :: "string \<Rightarrow> instant \<Rightarrow> breaker_event \<Rightarrow> bool" where
  "quiet k until e \<longleftrightarrow> event_target e \<noteq> k \<or> (\<exists>t. e = Allow t k \<and> t < until)"

lemma open_cell_quiet_step:
  assumes "br_targets b k = Some st" and "ts_open_until st = Some u" and "quiet k u e"
  shows "br_targets (breaker_step b e) k = Some st"
proof (cases "event_target e = k")
  case True
  then obtain t where "e = Allow t k" "t < u" using assms(3) by (auto simp: quiet_def)
  then show ?thesis using assms(1,2) by (simp add: allow_def)
next
  case False
  then show ?thesis using assms(1) by (simp add: breaker_step_frame)
qed

lemma open_cell_quiet_run:
  assumes "br_targets b k = Some st" and "ts_open_until st = Some u" and "list_all (quiet k u) es"
  shows "br_targets (breaker_run b es) k = Some st"
  using assms(3)
proof (induction es rule: rev_induct)
  case Nil
  then show ?case using assms(1) by simp
next
  case (snoc e es)
  then show ?case using assms(2) by (simp add: open_cell_quiet_step)
qed

lemma open_cell_refuses:
  assumes "\<not> br_poisoned b" and "br_targets b k = Some st" and "ts_open_until st = Some u"
    and "list_all (quiet k u) es" and "now < u"
  shows "\<not> fst (allow now (breaker_run b es) k)"
  using open_cell_quiet_run [OF assms(2-4)] assms(1,3,5) by (simp add: allow_def)

lemma closed_cell_allows:
  assumes "cell_ok b k n" and "n < unat (bc_threshold (br_config b))"
  shows "fst (allow now b k)"
  using assms by (auto simp: cell_ok_def allow_def split: option.splits)

lemma new_breaker:
  assumes "breaker_new cfg = Some b"
  shows "br_config b = cfg" and "\<not> br_poisoned b" and "0 < bc_threshold cfg"
    and "br_targets b = Map.empty" and "br_trips b = 0"
  using assms by (auto simp: breaker_new_def word_neq_0_conv split: if_splits)

lemma tripped_cell:
  assumes "breaker_new cfg = Some b" and "list_all (no_overflow b) (es @ [Record t k False])"
    and "unat (bc_threshold cfg) \<le> streak k es + 1"
  obtains st where "br_targets (breaker_run b (es @ [Record t k False])) k = Some st"
    and "ts_open_until st = Some (t + bc_cooldown cfg)"
proof -
  note nb = new_breaker [OF assms(1)]
  have "cell_ok (breaker_run b es) k (streak k es)"
    using cell_ok_run [OF assms(1)] assms(2) by simp
  define st where "st = (case br_targets (breaker_run b es) k of Some st \<Rightarrow> st
      | None \<Rightarrow> \<lparr>ts_failures = 0, ts_open_until = None\<rparr>)"
  have "unat (ts_failures st) = min (streak k es) (2 ^ 32 - 1)"
    using \<open>cell_ok (breaker_run b es) k (streak k es)\<close>
    by (auto simp: st_def cell_ok_def split: option.splits)
  then have f: "unat (saturating_add (ts_failures st) 1) = min (streak k es + 1) (2 ^ 32 - 1)"
    by (simp add: unat_saturating_add)
  have "bc_threshold cfg \<le> saturating_add (ts_failures st) 1"
    using threshold_le_sat [OF f, of cfg] assms(3) by simp
  moreover have "t + bc_cooldown cfg \<le> instant_max"
    using assms(2) nb(1) by (simp add: no_overflow_def)
  ultimately show ?thesis
    using nb(1,2)
    by (intro that [of "st\<lparr>ts_failures := saturating_add (ts_failures st) 1,
              ts_open_until := Some (t + bc_cooldown cfg)\<rparr>"])
       (simp_all add: record_outcome_def Let_def st_def [symmetric] instant_checked_add_def)
qed

subsection \<open>Properties\<close>

text \<open>C33: the breaker implements its history specification. In every run of a fresh breaker (as long as the
  clock does not run out), a target's failure counter is its streak of failures since the last success,
  saturated at the counter's width; the target is open exactly when that streak has reached the
  threshold; and while it has not, every call is allowed.\<close>

theorem breaker_refines_streak:
  assumes "breaker_new cfg = Some b" and "list_all (no_overflow b) es"
  shows "(case br_targets (breaker_run b es) k of
            None \<Rightarrow> streak k es = 0
          | Some st \<Rightarrow> unat (ts_failures st) = min (streak k es) (2 ^ 32 - 1) \<and>
              (ts_open_until st \<noteq> None \<longleftrightarrow> unat (bc_threshold cfg) \<le> streak k es)) \<and>
         (streak k es < unat (bc_threshold cfg) \<longrightarrow> fst (allow now (breaker_run b es) k))"
proof -
  have c: "cell_ok (breaker_run b es) k (streak k es)" by (rule cell_ok_run [OF assms])
  with closed_cell_allows [OF c] show ?thesis
    using new_breaker(1) [OF assms(1)] by (simp add: cell_ok_def split: option.splits)
qed

theorem breaker_refines_streak_witness:
  "fst (allow 9 (breaker_run \<lparr>br_config = \<lparr>bc_threshold = 3, bc_cooldown = 10\<rparr>, br_targets = Map.empty,
     br_trips = 0, br_poisoned = False\<rparr>
     [Record 1 ''db:1'' False, Record 2 ''db:1'' False, Record 3 ''db:1'' True, Record 4 ''db:1'' False])
     ''db:1'')"
proof -
  let ?cfg = "\<lparr>bc_threshold = 3, bc_cooldown = 10\<rparr>"
  let ?b = "\<lparr>br_config = ?cfg, br_targets = Map.empty, br_trips = 0, br_poisoned = False\<rparr>"
  let ?es = "[Record 1 ''db:1'' False, Record 2 ''db:1'' False, Record 3 ''db:1'' True, Record 4 ''db:1'' False]"
  have "breaker_new ?cfg = Some ?b" by (simp add: breaker_new_def)
  moreover have "list_all (no_overflow ?b) ?es" by (simp add: no_overflow_def instant_max_def)
  ultimately show ?thesis
    using breaker_refines_streak [of ?cfg ?b ?es "''db:1''" 9] by (simp add: streak_def)
qed

text \<open>Once the failure that completes the threshold is recorded at time \<open>t\<close>, every later call on that
  target before \<open>t + cooldown\<close> fast-fails, whatever happens on other targets and however many callers ask in
  between.\<close>

lemma trip_fast_fails:
  assumes "breaker_new cfg = Some b" and "list_all (no_overflow b) (es @ [Record t k False])"
    and "unat (bc_threshold cfg) \<le> streak k es + 1"
    and "list_all (quiet k (t + bc_cooldown cfg)) es'" and "now < t + bc_cooldown cfg"
  shows "\<not> fst (allow now (breaker_run (breaker_run b (es @ [Record t k False])) es') k)"
proof -
  obtain st where st: "br_targets (breaker_run b (es @ [Record t k False])) k = Some st"
      "ts_open_until st = Some (t + bc_cooldown cfg)"
    by (rule tripped_cell [OF assms(1-3)])
  show ?thesis
    by (rule open_cell_refuses [OF _ st assms(4,5)]) (simp only: breaker_run_poisoned new_breaker(2) [OF assms(1)] not_False_eq_True)
qed

text \<open>Half-open. When the cool-down of an open target has elapsed, one call is let through as the probe
  and the window is re-armed: until it resolves, every other call on the target in the next cool-down
  is refused. A successful probe closes the target; a failed one re-opens it from its own time without
  counting another trip.\<close>

lemma half_open_single_probe:
  assumes "\<not> br_poisoned b" and "br_targets b k = Some st" and "ts_open_until st = Some u"
    and "u \<le> now" and "now + bc_cooldown (br_config b) \<le> instant_max"
    and "list_all (quiet k (now + bc_cooldown (br_config b))) es"
    and "now' < now + bc_cooldown (br_config b)"
  shows "fst (allow now b k) \<and>
         \<not> fst (allow now' (breaker_run (snd (allow now b k)) es) k) \<and>
         fst (allow later (record_outcome t (breaker_run (snd (allow now b k)) es) k True) k) \<and>
         br_trips (record_outcome t (breaker_run (snd (allow now b k)) es) k False) =
         br_trips (breaker_run (snd (allow now b k)) es)"
proof -
  let ?b = "snd (allow now b k)" and ?u = "now + bc_cooldown (br_config b)"
  have al: "allow now b k = (True, b\<lparr>br_targets := (br_targets b)(k \<mapsto> st\<lparr>ts_open_until := Some ?u\<rparr>)\<rparr>)"
    using assms(1-5) by (simp add: allow_def instant_checked_add_def)
  have cell: "br_targets ?b k = Some (st\<lparr>ts_open_until := Some ?u\<rparr>)" and np: "\<not> br_poisoned ?b"
    using al assms(1) by simp_all
  have run: "br_targets (breaker_run ?b es) k = Some (st\<lparr>ts_open_until := Some ?u\<rparr>)"
    using open_cell_quiet_run [OF cell] assms(6) by simp
  have "fst (allow now b k)" using al by simp
  moreover have "\<not> fst (allow now' (breaker_run ?b es) k)"
    using open_cell_refuses [OF np cell] assms(6,7) by simp
  moreover have "fst (allow later (record_outcome t (breaker_run ?b es) k True) k)"
    using np by (simp add: record_outcome_def allow_def Let_def)
  moreover have "br_trips (record_outcome t (breaker_run ?b es) k False) = br_trips (breaker_run ?b es)"
    using np run by (simp add: record_outcome_def Let_def)
  ultimately show ?thesis by blast
qed

text \<open>Targets are independent. The cell of a target after any interleaving of calls and outcomes is
  the one its own calls and outcomes alone produce, so a failing target never opens another.\<close>

lemma breaker_targets_isolated:
  "br_targets (breaker_run b es) k =
   br_targets (breaker_run b (filter (\<lambda>e. event_target e = k) es)) k"
  using bk.isolation [of b es k] by (simp add: bk_run_eq target_view_def)

end
