(* ===== verification/Quota.thy ===== *)
theory Quota
  imports Keyed_State "HOL-Library.Multiset"
begin

text \<open>
  Per-tenant, plan-gated usage quota: \<^verbatim>\<open>runlet/src/quota.rs\<close>.

  The plan table and the in-flight table are \<^verbatim>\<open>HashMap\<close>s: the first, which is enumerated, is the list of
  its entries, the second a map. A \<^verbatim>\<open>QuotaGuard\<close> is the tenant it holds; dropping it is \<open>guard_drop\<close>. The
  system of all outstanding guards is a step relation over the accountant and the multiset of guards
  alive, so every interleaving of concurrent requests is a path of it.
\<close>

record plan_limit =
  pl_max_concurrent :: u64

record quota_exceeded =
  qe_plan :: string
  qe_limit :: u64
  qe_usage :: u64

datatype quota_decision = Allowed | Exceeded quota_exceeded

type_synonym plan_limits = "(string \<times> plan_limit) list"

definition most_restrictive :: "plan_limits \<Rightarrow> u64" where
  "most_restrictive plans =
     (case map (\<lambda>p. pl_max_concurrent (snd p)) plans of
        [] \<Rightarrow> 0
      | x # xs \<Rightarrow> fold min xs x)"

definition limit_for :: "plan_limits \<Rightarrow> string option \<Rightarrow> u64" where
  "limit_for plans plan =
     (case Option.bind plan (map_of plans) of
        None \<Rightarrow> most_restrictive plans
      | Some lim \<Rightarrow> pl_max_concurrent lim)"

definition check :: "plan_limits \<Rightarrow> string option \<Rightarrow> u64 \<Rightarrow> quota_decision" where
  "check plans plan usage =
     (let limit = limit_for plans plan
      in if limit \<le> usage
         then Exceeded \<lparr>qe_plan = (case plan of None \<Rightarrow> ''unknown'' | Some p \<Rightarrow> p),
                        qe_limit = limit, qe_usage = usage\<rparr>
         else Allowed)"

record tenant_quota =
  tq_limits :: plan_limits
  tq_inflight :: "string \<rightharpoonup> u64"

definition tenant_quota_new :: "plan_limits \<Rightarrow> tenant_quota" where
  "tenant_quota_new plans = \<lparr>tq_limits = plans, tq_inflight = Map.empty\<rparr>"

text \<open>\<open>Inr\<close> is the accountant after the increment; the guard it returns is the tenant.\<close>

definition quota_admit ::
  "tenant_quota \<Rightarrow> string \<Rightarrow> string option \<Rightarrow> (quota_exceeded, tenant_quota) result" where
  "quota_admit q tenant plan =
     (let usage = (case tq_inflight q tenant of None \<Rightarrow> 0 | Some c \<Rightarrow> c)
      in case check (tq_limits q) plan usage of
           Allowed \<Rightarrow>
             Inr (q\<lparr>tq_inflight := (tq_inflight q)(tenant \<mapsto> saturating_add usage 1)\<rparr>)
         | Exceeded detail \<Rightarrow> Inl detail)"

definition guard_drop :: "tenant_quota \<Rightarrow> string \<Rightarrow> tenant_quota" where
  "guard_drop q tenant =
     (case tq_inflight q tenant of
        None \<Rightarrow> q
      | Some c \<Rightarrow>
          let c' = saturating_sub c 1
          in if c' = 0 then q\<lparr>tq_inflight := (tq_inflight q)(tenant := None)\<rparr>
             else q\<lparr>tq_inflight := (tq_inflight q)(tenant \<mapsto> c')\<rparr>)"

subsection \<open>The gate\<close>

lemma most_restrictive_Min:
  "plans \<noteq> [] \<Longrightarrow> most_restrictive plans = Min ((\<lambda>p. pl_max_concurrent (snd p)) ` set plans)"
  by (cases plans) (simp_all add: most_restrictive_def Min.set_eq_fold [symmetric])

lemma most_restrictive_le:
  assumes "(name, lim) \<in> set plans"
  shows "most_restrictive plans \<le> pl_max_concurrent lim"
proof -
  have "plans \<noteq> []" using assms by auto
  then show ?thesis using assms by (auto simp: most_restrictive_Min intro!: Min_le rev_image_eqI)
qed

lemma most_restrictive_in:
  assumes "plans \<noteq> []"
  shows "\<exists>p \<in> set plans. most_restrictive plans = pl_max_concurrent (snd p)"
proof -
  have "Min ((\<lambda>p. pl_max_concurrent (snd p)) ` set plans) \<in> (\<lambda>p. pl_max_concurrent (snd p)) ` set plans"
    using assms by (intro Min_in) simp_all
  then show ?thesis using most_restrictive_Min [OF assms] by auto
qed

lemma limit_for_bound:
  "\<forall>(name, lim) \<in> set plans. pl_max_concurrent lim \<le> m \<Longrightarrow> limit_for plans plan \<le> m"
proof (cases "Option.bind plan (map_of plans)")
  case None
  assume m: "\<forall>(name, lim) \<in> set plans. pl_max_concurrent lim \<le> m"
  show ?thesis
  proof (cases "plans = []")
    case True
    with None show ?thesis by (simp add: limit_for_def most_restrictive_def)
  next
    case False
    with None m most_restrictive_in [OF False] show ?thesis by (fastforce simp: limit_for_def)
  qed
next
  case (Some lim)
  assume "\<forall>(name, lim) \<in> set plans. pl_max_concurrent lim \<le> m"
  moreover obtain name where "(name, lim) \<in> set plans"
    using Some by (auto simp: bind_eq_Some_conv dest: map_of_SomeD)
  ultimately show ?thesis using Some by (auto simp: limit_for_def)
qed

lemma check_Allowed: "check plans plan usage = Allowed \<longleftrightarrow> usage < limit_for plans plan"
  by (auto simp: check_def Let_def)

subsection \<open>Isolation of tenants\<close>

datatype quota_event = Admit string "string option" | Drop string

fun quota_event_tenant :: "quota_event \<Rightarrow> string" where
  "quota_event_tenant (Admit t p) = t"
| "quota_event_tenant (Drop t) = t"

fun quota_apply :: "tenant_quota \<Rightarrow> quota_event \<Rightarrow> tenant_quota" where
  "quota_apply q (Admit t p) = (case quota_admit q t p of Inr q' \<Rightarrow> q' | Inl e \<Rightarrow> q)"
| "quota_apply q (Drop t) = guard_drop q t"

definition tenant_view :: "tenant_quota \<Rightarrow> string \<Rightarrow> plan_limits \<times> u64 option" where
  "tenant_view q t = (tq_limits q, tq_inflight q t)"

interpretation qk: keyed_state quota_apply quota_event_tenant tenant_view
proof unfold_locales
  show "tenant_view (quota_apply q e) t = tenant_view q t" if "quota_event_tenant e \<noteq> t" for q e t
    using that
    by (cases e) (auto simp: tenant_view_def quota_admit_def guard_drop_def Let_def
        split: quota_decision.splits option.splits)
next
  show "tenant_view (quota_apply q e) t = tenant_view (quota_apply q' e) t"
    if "quota_event_tenant e = t" and "tenant_view q t = tenant_view q' t" for q q' e t
    using that
    by (cases e) (auto simp: tenant_view_def quota_admit_def guard_drop_def Let_def
        split: quota_decision.splits option.splits)
qed

subsection \<open>The system of outstanding guards\<close>

inductive quota_step ::
  "tenant_quota \<times> string multiset \<Rightarrow> tenant_quota \<times> string multiset \<Rightarrow> bool" where
  q_admit: "quota_admit q t p = Inr q' \<Longrightarrow> quota_step (q, G) (q', add_mset t G)"
| q_deny: "quota_admit q t p = Inl e \<Longrightarrow> quota_step (q, G) (q, G)"
| q_drop: "t \<in># G \<Longrightarrow> quota_step (q, G) (guard_drop q t, G - {#t#})"

inductive quota_reachable :: "plan_limits \<Rightarrow> tenant_quota \<times> string multiset \<Rightarrow> bool"
  for plans where
  q_start: "quota_reachable plans (tenant_quota_new plans, {#})"
| q_step: "quota_reachable plans s \<Longrightarrow> quota_step s s' \<Longrightarrow> quota_reachable plans s'"

inductive_cases quota_stepE: "quota_step (q, G) s'"

definition inflight_of :: "nat \<Rightarrow> u64 option" where
  "inflight_of n = (if n = 0 then None else Some (of_nat n))"

definition quota_inv :: "tenant_quota \<times> string multiset \<Rightarrow> bool" where
  "quota_inv s \<longleftrightarrow>
     (\<forall>t. tq_inflight (fst s) t = inflight_of (count (snd s) t) \<and> count (snd s) t < 2 ^ 64)"

lemma of_nat_u64_eq_0: "n < 2 ^ 64 \<Longrightarrow> (of_nat n :: u64) = 0 \<longleftrightarrow> n = 0"
proof
  assume n: "n < 2 ^ 64" and z: "(of_nat n :: u64) = 0"
  show "n = 0" using unat_of_nat_u64 [OF n] by (simp only: z unat_0)
qed simp

lemma usage_of_inv:
  assumes "quota_inv (q, G)"
  shows "(case tq_inflight q t of None \<Rightarrow> 0 | Some c \<Rightarrow> c) = (of_nat (count G t) :: u64)"
    and "unat (of_nat (count G t) :: u64) = count G t"
  using assms by (auto simp: quota_inv_def inflight_of_def unat_of_nat_u64 split: if_splits)

lemma quota_admit_Inr:
  assumes "quota_inv (q, G)" and "quota_admit q t p = Inr q'"
  shows "count G t < unat (limit_for (tq_limits q) p)"
    and "tq_limits q' = tq_limits q"
    and "tq_inflight q' = (tq_inflight q)(t := inflight_of (count G t + 1))"
proof -
  note us = usage_of_inv [OF assms(1)]
  have ck: "check (tq_limits q) p (of_nat (count G t)) = Allowed"
    and q': "q' = q\<lparr>tq_inflight := (tq_inflight q)(t \<mapsto> saturating_add (of_nat (count G t)) 1)\<rparr>"
    using assms(2) us(1) [of t]
    by (auto simp: quota_admit_def Let_def split: quota_decision.splits)
  show lt: "count G t < unat (limit_for (tq_limits q) p)"
    using ck us(2) [of t] by (simp add: check_Allowed word_less_nat_alt)
  then have "count G t + 1 < 2 ^ 64"
    using unat_u64_less [of "limit_for (tq_limits q) p"] by simp
  then have "saturating_add (of_nat (count G t)) (1 :: u64) = of_nat (count G t + 1)"
    using us(2) [of t] by (simp add: saturating_add_def)
  then show "tq_inflight q' = (tq_inflight q)(t := inflight_of (count G t + 1))"
    using q' by (simp add: inflight_of_def)
  show "tq_limits q' = tq_limits q" using q' by simp
qed

lemma guard_drop_inv:
  assumes "quota_inv (q, G)" and "t \<in># G"
  shows "tq_inflight (guard_drop q t) = (tq_inflight q)(t := inflight_of (count G t - 1))"
proof -
  let ?n = "count G t"
  have pos: "0 < ?n" and lt: "?n < 2 ^ 64"
    using assms by (simp_all add: quota_inv_def)
  have cell: "tq_inflight q t = Some (of_nat ?n)"
    using assms(1) pos by (simp add: quota_inv_def inflight_of_def)
  have un: "unat (of_nat ?n :: u64) = ?n" by (rule usage_of_inv(2) [OF assms(1)])
  have "unat (saturating_sub (of_nat ?n) 1 :: u64) = ?n - 1"
    by (simp add: unat_saturating_sub un)
  moreover have "unat (of_nat (?n - 1) :: u64) = ?n - 1"
    using lt by (simp add: unat_of_nat_u64)
  ultimately have sub: "saturating_sub (of_nat ?n) 1 = (of_nat (?n - 1) :: u64)"
    by (simp add: word_unat_eq_iff)
  have "(of_nat (?n - 1) :: u64) = 0 \<longleftrightarrow> ?n - 1 = 0"
    using of_nat_u64_eq_0 [of "?n - 1"] lt by simp
  then have z: "(of_nat (?n - 1) :: u64) = 0 \<longleftrightarrow> ?n = 1" using pos by linarith
  show ?thesis
  proof (cases "?n = 1")
    case True
    then show ?thesis using cell sub z by (simp add: guard_drop_def Let_def inflight_of_def)
  next
    case False
    then have "?n - 1 \<noteq> 0" using pos by linarith
    with False z have "inflight_of (?n - 1) = Some (of_nat (?n - 1))" "(of_nat (?n - 1) :: u64) \<noteq> 0"
      unfolding inflight_of_def by argo+
    then show ?thesis unfolding guard_drop_def cell option.case Let_def sub by simp
  qed
qed

lemma guard_drop_limits [simp]: "tq_limits (guard_drop q t) = tq_limits q"
  by (simp add: guard_drop_def Let_def split: option.splits)

lemma quota_inv_step:
  assumes "quota_step s s'" and "quota_inv s"
  shows "quota_inv s' \<and> tq_limits (fst s') = tq_limits (fst s)"
  using assms
proof (induction rule: quota_step.induct)
  case (q_admit q t p q' G)
  note a = quota_admit_Inr [OF q_admit.prems q_admit.hyps]
  have "count G t + 1 < 2 ^ 64"
    using a(1) unat_u64_less [of "limit_for (tq_limits q) p"] by simp
  then show ?case using q_admit.prems a(2,3) by (auto simp: quota_inv_def)
next
  case (q_deny q t p e G)
  then show ?case by simp
next
  case (q_drop t G q)
  have le: "count G t - 1 < 2 ^ 64"
    using q_drop.prems by (simp add: quota_inv_def less_imp_diff_less)
  show ?case
    using q_drop.prems guard_drop_inv [OF q_drop.prems q_drop.hyps] le by (auto simp: quota_inv_def)
qed

lemma quota_reachable_inv:
  "quota_reachable plans s \<Longrightarrow> quota_inv s \<and> tq_limits (fst s) = plans"
proof (induction rule: quota_reachable.induct)
  case q_start
  show ?case by (simp add: quota_inv_def tenant_quota_new_def inflight_of_def)
next
  case (q_step s s')
  then show ?case using quota_inv_step [of s s'] by simp
qed

lemma reachable_count_bound:
  assumes "quota_reachable plans s"
    and "\<forall>(name, lim) \<in> set plans. pl_max_concurrent lim \<le> m"
  shows "count (snd s) t \<le> unat m"
  using assms(1)
proof (induction rule: quota_reachable.induct)
  case q_start
  show ?case by simp
next
  case (q_step s s')
  note inv = quota_reachable_inv [OF q_step.hyps(1)]
  from q_step.hyps(2) show ?case
  proof (cases rule: quota_step.cases)
    case (q_admit q t' p q' G)
    have lt: "count G t' < unat (limit_for plans p)"
      using quota_admit_Inr(1) [of q G t' p q'] q_admit inv by simp
    have "limit_for plans p \<le> m" by (rule limit_for_bound) (rule assms(2))
    then have "count G t' + 1 \<le> unat m" using lt by (simp add: word_le_nat_alt)
    then show ?thesis using q_admit q_step.IH by (cases "t' = t") simp_all
  next
    case q_deny
    then show ?thesis using q_step.IH by simp
  next
    case (q_drop t' G q)
    then show ?thesis using q_step.IH by (auto intro: le_trans [OF diff_le_self])
  qed
qed

lemma quota_admit_iff:
  assumes "quota_inv (q, G)"
  shows "quota_admit q t p =
     (if count G t < unat (limit_for (tq_limits q) p)
      then Inr (q\<lparr>tq_inflight := (tq_inflight q)(t := inflight_of (count G t + 1))\<rparr>)
      else Inl \<lparr>qe_plan = (case p of None \<Rightarrow> ''unknown'' | Some n \<Rightarrow> n),
                qe_limit = limit_for (tq_limits q) p, qe_usage = of_nat (count G t)\<rparr>)"
proof -
  note us = usage_of_inv [OF assms, of t]
  show ?thesis
  proof (cases "count G t < unat (limit_for (tq_limits q) p)")
    case True
    then have "\<not> limit_for (tq_limits q) p \<le> of_nat (count G t)"
      using us(2) by (simp add: word_le_nat_alt)
    then obtain q' where "quota_admit q t p = Inr q'"
        and "q' = q\<lparr>tq_inflight := (tq_inflight q)(t \<mapsto> saturating_add (of_nat (count G t)) 1)\<rparr>"
      by (simp add: quota_admit_def us(1) check_def Let_def)
    moreover have "tq_inflight q' = (tq_inflight q)(t := inflight_of (count G t + 1))"
      using quota_admit_Inr(3) [OF assms] calculation(1) by blast
    ultimately show ?thesis using True by simp
  next
    case False
    then have "limit_for (tq_limits q) p \<le> of_nat (count G t)"
      using us(2) by (simp add: word_le_nat_alt)
    then show ?thesis using False by (simp add: quota_admit_def us(1) check_def Let_def)
  qed
qed

subsection \<open>Properties\<close>

text \<open>C32: the accountant is exact. In every interleaving of admissions, refusals and guard drops, the entry of a
  tenant is the number of its guards alive (absent at zero, so the table is bounded by the live tenants),
  and an admission succeeds exactly when that number is below the limit of the plan; a refusal reports
  the plan, the limit and the usage and counts nothing.\<close>

theorem quota_exact:
  assumes "quota_reachable plans (q, G)"
  shows "tq_inflight q t = inflight_of (count G t) \<and>
         dom (tq_inflight q) = set_mset G \<and>
         quota_admit q t p =
           (if count G t < unat (limit_for plans p)
            then Inr (q\<lparr>tq_inflight := (tq_inflight q)(t := inflight_of (count G t + 1))\<rparr>)
            else Inl \<lparr>qe_plan = (case p of None \<Rightarrow> ''unknown'' | Some n \<Rightarrow> n),
                      qe_limit = limit_for plans p, qe_usage = of_nat (count G t)\<rparr>)"
proof -
  have inv: "quota_inv (q, G)" "tq_limits q = plans"
    using quota_reachable_inv [OF assms] by simp_all
  have cell: "tq_inflight q u = inflight_of (count G u)" for u
    using inv(1) by (simp add: quota_inv_def)
  have "dom (tq_inflight q) = set_mset G"
    by (auto simp: dom_def cell inflight_of_def count_eq_zero_iff)
  then show ?thesis using cell quota_admit_iff [OF inv(1), of t p] inv(2) by simp
qed

theorem quota_exact_witness:
  "is_ok (quota_admit (tenant_quota_new [(''free'', \<lparr>pl_max_concurrent = 1\<rparr>)]) ''acme'' (Some ''free''))"
  using quota_exact [OF q_start [of "[(''free'', \<lparr>pl_max_concurrent = 1\<rparr>)]"], of "''acme''" "Some ''free''"]
  by (simp add: limit_for_def)

text \<open>No tenant ever holds more executions than the most permissive configured plan allows, whatever plans
  its requests name and in whatever order admissions and completions interleave.\<close>

lemma quota_bound:
  assumes "quota_reachable plans (q, G)"
    and "\<forall>(name, lim) \<in> set plans. pl_max_concurrent lim \<le> m"
  shows "count G t \<le> unat m"
  using reachable_count_bound [OF assms] by simp

text \<open>The gate fails closed. An empty plan table refuses every request; a request with no plan or an
  unconfigured one is held to a limit no larger than any configured plan's; and a plan of limit \<open>0\<close> admits
  nothing.\<close>

lemma quota_fail_closed:
  "check [] p u \<noteq> Allowed \<and>
   (Option.bind p (map_of plans) = None \<longrightarrow> (name, lim) \<in> set plans \<longrightarrow>
      limit_for plans p \<le> pl_max_concurrent lim) \<and>
   (limit_for plans p = 0 \<longrightarrow> check plans p u \<noteq> Allowed)"
  using most_restrictive_le [of name lim plans]
  by (auto simp: check_Allowed limit_for_def most_restrictive_def split: option.splits)

text \<open>Tenants are isolated. A tenant's in-flight entry after any interleaving is the one its own admissions
  and drops alone produce, so one tenant's flood never denies another.\<close>

lemma quota_tenants_isolated:
  "tq_inflight (foldl quota_apply q es) t =
   tq_inflight (foldl quota_apply q (filter (\<lambda>e. quota_event_tenant e = t) es)) t"
  using qk.isolation [of q es t] by (simp add: qk.run_def tenant_view_def)

end
