(* ===== verification/Admission.thy ===== *)
theory Admission
  imports Runlet_Prelude
begin

text \<open>
  Concurrency admission: the per-partition limiter (\<^verbatim>\<open>runlet-core/src/partition.rs\<close>), the global bulkhead and
  their composition \<^verbatim>\<open>acquire_permits\<close> (\<^verbatim>\<open>runlet/src/handler/gates.rs\<close>), and the batch fan-out ceiling
  (\<^verbatim>\<open>runlet/src/handler/batch.rs\<close>).

  \<^verbatim>\<open>tokio::sync::Semaphore\<close> is outside the repository: its operations are the record \<open>semaphore_ops\<close>, an argument
  of every definition, and what the code relies on of it is the locale \<open>semaphore\<close>. The hash of a partition
  key (\<^verbatim>\<open>DefaultHasher\<close>) is likewise the argument \<open>hash\<close>. A permit is the index of its bucket; dropping it
  releases that bucket.
\<close>

record 's semaphore_ops =
  sem_new :: "nat \<Rightarrow> 's"
  sem_try_acquire :: "'s \<Rightarrow> 's option"
  sem_release :: "'s \<Rightarrow> 's"
  sem_available :: "'s \<Rightarrow> nat"

record 's partition_limiter =
  pt_buckets :: "'s list"

definition partition_limiter_new ::
  "'s semaphore_ops \<Rightarrow> nat \<Rightarrow> nat \<Rightarrow> 's partition_limiter option" where
  "partition_limiter_new ops n per_partition =
     (if per_partition = 0 \<or> n = 0 then None
      else Some \<lparr>pt_buckets = map (\<lambda>_. sem_new ops per_partition) [0..<n]\<rparr>)"

definition bucket_for :: "(string \<Rightarrow> u64) \<Rightarrow> 's partition_limiter \<Rightarrow> string \<Rightarrow> nat option" where
  "bucket_for hash lim pkey =
     (let len = length (pt_buckets lim);
          idx = (if len = 0 then 0 else unat (hash pkey) mod len)
      in if idx < len then Some idx else None)"

definition partition_try_acquire ::
  "'s semaphore_ops \<Rightarrow> (string \<Rightarrow> u64) \<Rightarrow> 's partition_limiter \<Rightarrow> string \<Rightarrow>
   (nat \<times> 's partition_limiter) option" where
  "partition_try_acquire ops hash lim pkey =
     (case bucket_for hash lim pkey of
        None \<Rightarrow> None
      | Some i \<Rightarrow>
          (case sem_try_acquire ops (pt_buckets lim ! i) of
             None \<Rightarrow> None
           | Some s \<Rightarrow> Some (i, lim\<lparr>pt_buckets := (pt_buckets lim)[i := s]\<rparr>)))"

text \<open>The drop of an owned bucket permit.\<close>

definition partition_release :: "'s semaphore_ops \<Rightarrow> 's partition_limiter \<Rightarrow> nat \<Rightarrow> 's partition_limiter" where
  "partition_release ops lim i =
     lim\<lparr>pt_buckets := (pt_buckets lim)[i := sem_release ops (pt_buckets lim ! i)]\<rparr>"

subsection \<open>The two gates\<close>

record 's gate_state =
  gt_partition :: "'s partition_limiter option"
  gt_global :: 's

datatype admission = Granted "nat option" | PartitionBusy | GlobalBusy

definition release_partition ::
  "'s semaphore_ops \<Rightarrow> 's gate_state \<Rightarrow> nat option \<Rightarrow> 's gate_state" where
  "release_partition ops st permit =
     (case permit of
        None \<Rightarrow> st
      | Some i \<Rightarrow> st\<lparr>gt_partition := map_option (\<lambda>lim. partition_release ops lim i) (gt_partition st)\<rparr>)"

definition take_partition ::
  "'s semaphore_ops \<Rightarrow> (string \<Rightarrow> u64) \<Rightarrow> 's gate_state \<Rightarrow> string option \<Rightarrow>
   (nat option \<times> 's gate_state) option" where
  "take_partition ops hash st pkey =
     (case (gt_partition st, pkey) of
        (Some lim, Some k) \<Rightarrow>
          (case partition_try_acquire ops hash lim k of
             None \<Rightarrow> None
           | Some (i, lim') \<Rightarrow> Some (Some i, st\<lparr>gt_partition := Some lim'\<rparr>))
      | _ \<Rightarrow> Some (None, st))"

text \<open>
  On a saturated bulkhead the partition permit just taken goes out of scope, so it is released
  before \<open>GlobalBusy\<close> is returned.
\<close>

definition acquire_permits ::
  "'s semaphore_ops \<Rightarrow> (string \<Rightarrow> u64) \<Rightarrow> 's gate_state \<Rightarrow> string option \<Rightarrow> admission \<times> 's gate_state" where
  "acquire_permits ops hash st pkey =
     (case take_partition ops hash st pkey of
        None \<Rightarrow> (PartitionBusy, st)
      | Some (permit, st1) \<Rightarrow>
          (case sem_try_acquire ops (gt_global st1) of
             None \<Rightarrow> (GlobalBusy, release_partition ops st1 permit)
           | Some g \<Rightarrow> (Granted permit, st1\<lparr>gt_global := g\<rparr>)))"

text \<open>The drops of both permits at the end of the execution span.\<close>

definition release_permits :: "'s semaphore_ops \<Rightarrow> 's gate_state \<Rightarrow> nat option \<Rightarrow> 's gate_state" where
  "release_permits ops st permit =
     (let st1 = release_partition ops st permit
      in st1\<lparr>gt_global := sem_release ops (gt_global st1)\<rparr>)"

text \<open>The gates as \<^verbatim>\<open>main.rs\<close> builds them from the resolved configuration.\<close>

definition gate_new :: "'s semaphore_ops \<Rightarrow> nat \<Rightarrow> nat \<Rightarrow> nat \<Rightarrow> 's gate_state" where
  "gate_new ops max_concurrent buckets per_partition =
     \<lparr>gt_partition = partition_limiter_new ops buckets per_partition,
      gt_global = sem_new ops max_concurrent\<rparr>"

definition batch_ceiling :: "nat \<Rightarrow> nat \<Rightarrow> nat" where
  "batch_ceiling per_partition bulkhead_capacity =
     (let ceiling = (if per_partition > 0 then per_partition else bulkhead_capacity)
      in max (min ceiling bulkhead_capacity) 1)"

subsection \<open>The contract of a permit pool\<close>

text \<open>
  A pool hands out tickets against resources of fixed capacity. A request for \<open>k\<close> demands a set of
  resources; it is granted by taking one unit of each, or refused because one of them is exhausted,
  and then nothing is consumed.
\<close>

locale permit_pool =
  fixes acquire :: "'p \<Rightarrow> 'k \<Rightarrow> 't option \<times> 'p"
    and release :: "'p \<Rightarrow> 't \<Rightarrow> 'p"
    and free :: "'p \<Rightarrow> 'r \<Rightarrow> nat"
    and cap :: "'r \<Rightarrow> nat"
    and uses :: "'t \<Rightarrow> 'r set"
    and demand :: "'k \<Rightarrow> 'r set"
    and valid :: "'p \<Rightarrow> bool"
  assumes acquire_valid: "valid p \<Longrightarrow> valid (snd (acquire p k))"
    and acquire_granted: "valid p \<Longrightarrow> acquire p k = (Some t, p') \<Longrightarrow>
      uses t = demand k \<and> (\<forall>r. free p r = free p' r + (if r \<in> uses t then 1 else 0))"
    and acquire_refused: "valid p \<Longrightarrow> (\<And>r. free p r \<le> cap r) \<Longrightarrow> acquire p k = (None, p') \<Longrightarrow>
      (\<exists>r \<in> demand k. free p r = 0) \<and> (\<forall>r. free p' r = free p r)"
    and release_valid: "valid p \<Longrightarrow> valid (release p t)"
    and release_free: "valid p \<Longrightarrow> (\<And>r. r \<in> uses t \<Longrightarrow> free p r < cap r) \<Longrightarrow>
      free (release p t) r = free p r + (if r \<in> uses t then 1 else 0)"
begin

definition held :: "'t list \<Rightarrow> 'r \<Rightarrow> nat" where
  "held G r = length (filter (\<lambda>t. r \<in> uses t) G)"

definition balanced :: "'p \<Rightarrow> 't list \<Rightarrow> bool" where
  "balanced p G \<longleftrightarrow> valid p \<and> (\<forall>r. free p r + held G r = cap r)"

lemma held_Cons: "held (t # G) r = held G r + (if r \<in> uses t then 1 else 0)"
  by (simp add: held_def)

lemma held_remove1: "t \<in> set G \<Longrightarrow> held G r = held (remove1 t G) r + (if r \<in> uses t then 1 else 0)"
  using card_filter_remove1 [of t G "\<lambda>t. r \<in> uses t"]
    length_filter_remove1_other [of "\<lambda>t. r \<in> uses t" t G]
  by (auto simp: held_def)

lemma balanced_acquire:
  assumes "balanced p G" and "acquire p k = (Some t, p')"
  shows "balanced p' (t # G)"
  unfolding balanced_def
proof
  show "valid p'" using acquire_valid [of p k] assms by (simp add: balanced_def)
  have g: "free p r = free p' r + (if r \<in> uses t then 1 else 0)" for r
    using acquire_granted [OF _ assms(2)] assms(1) by (simp add: balanced_def)
  have b: "free p r + held G r = cap r" for r using assms(1) by (simp add: balanced_def)
  have "free p' r + held (t # G) r = cap r" for r
    using g [of r] b [of r] held_Cons [of t G r] by linarith
  then show "\<forall>r. free p' r + held (t # G) r = cap r" by simp
qed

lemma balanced_refused:
  assumes "balanced p G" and "acquire p k = (None, p')"
  shows "balanced p' G"
proof -
  have le: "free p r \<le> cap r" for r using assms(1) by (metis balanced_def le_add1)
  show ?thesis
    using acquire_refused [OF _ le assms(2)] acquire_valid [of p k] assms by (simp add: balanced_def)
qed

lemma balanced_release:
  assumes "balanced p G" and "t \<in> set G"
  shows "balanced (release p t) (remove1 t G)"
proof -
  have lt: "free p r < cap r" if "r \<in> uses t" for r
  proof -
    have "0 < held G r" using held_remove1 [OF assms(2), of r] that by simp
    moreover have "free p r + held G r = cap r" using assms(1) by (simp add: balanced_def)
    ultimately show ?thesis by linarith
  qed
  have "free (release p t) r + held (remove1 t G) r = cap r" for r
  proof -
    have "free p r + held G r = cap r" using assms(1) by (simp add: balanced_def)
    moreover have "free (release p t) r = free p r + (if r \<in> uses t then 1 else 0)"
      using release_free [of p t r] lt assms(1) by (simp add: balanced_def)
    ultimately show ?thesis using held_remove1 [OF assms(2), of r] by linarith
  qed
  moreover have "valid (release p t)" using release_valid assms(1) by (simp add: balanced_def)
  ultimately show ?thesis by (simp add: balanced_def)
qed

lemma held_le_cap: "balanced p G \<Longrightarrow> held G r \<le> cap r"
  by (metis balanced_def le_add2)

lemma granted_iff:
  assumes "balanced p G"
  shows "fst (acquire p k) \<noteq> None \<longleftrightarrow> (\<forall>r \<in> demand k. held G r < cap r)"
proof (cases "fst (acquire p k)")
  case None
  then have "acquire p k = (None, snd (acquire p k))" by (metis prod.collapse)
  moreover have "free p r \<le> cap r" for r using assms by (metis balanced_def le_add1)
  ultimately have "\<exists>r \<in> demand k. free p r = 0"
    using acquire_refused [of p k "snd (acquire p k)"] assms unfolding balanced_def by blast
  then obtain r where "r \<in> demand k" "free p r = 0" by blast
  then have "held G r = cap r" using assms by (metis balanced_def add_0)
  then show ?thesis using None \<open>r \<in> demand k\<close> by fastforce
next
  case (Some t)
  then have "acquire p k = (Some t, snd (acquire p k))" by (metis prod.collapse)
  then have g: "uses t = demand k" "\<And>r. free p r = free (snd (acquire p k)) r + (if r \<in> uses t then 1 else 0)"
    using acquire_granted [of p k t] assms by (auto simp: balanced_def)
  have "held G r < cap r" if "r \<in> demand k" for r
  proof -
    have "free p r + held G r = cap r" using assms by (simp add: balanced_def)
    then show ?thesis using g that by (metis add.commute add_gr_0 less_add_same_cancel2 less_numeral_extra(1))
  qed
  then show ?thesis using Some by simp
qed

end

subsection \<open>What the code relies on of the semaphore\<close>

text \<open>
  The documented behaviour of \<^verbatim>\<open>tokio::sync::Semaphore\<close> for an open semaphore: it starts with the given
  permits (up to \<^verbatim>\<open>MAX_PERMITS\<close>), \<^verbatim>\<open>try_acquire_owned\<close> takes one or fails when there is none, and
  dropping a permit returns it.
\<close>

definition max_permits :: nat where
  "max_permits = 2 ^ 61 - 1"

locale semaphore =
  fixes ops :: "'s semaphore_ops"
  assumes new_available: "n \<le> max_permits \<Longrightarrow> sem_available ops (sem_new ops n) = n"
    and try_acquire_None: "sem_try_acquire ops s = None \<longleftrightarrow> sem_available ops s = 0"
    and try_acquire_Some:
      "sem_try_acquire ops s = Some s' \<Longrightarrow> sem_available ops s = Suc (sem_available ops s')"
    and release_available: "sem_available ops s < max_permits \<Longrightarrow>
      sem_available ops (sem_release ops s) = Suc (sem_available ops s)"

text \<open>The plain counter meets the contract.\<close>

definition counting :: "nat semaphore_ops" where
  "counting = \<lparr>sem_new = (\<lambda>n. n), sem_try_acquire = (\<lambda>s. if s = 0 then None else Some (s - 1)),
     sem_release = Suc, sem_available = (\<lambda>s. s)\<rparr>"

interpretation counting: semaphore counting
  by unfold_locales (auto simp: counting_def split: if_splits)

subsection \<open>The gates are a permit pool\<close>

datatype resource = Bulkhead | Bucket nat

text \<open>Resources a request needs, a ticket uses, and the free units of each.\<close>

definition gate_demand :: "(string \<Rightarrow> u64) \<Rightarrow> nat \<Rightarrow> string option \<Rightarrow> resource set" where
  "gate_demand hash n pkey =
     (case pkey of Some k \<Rightarrow> if n = 0 then {Bulkhead} else {Bulkhead, Bucket (unat (hash k) mod n)}
      | None \<Rightarrow> {Bulkhead})"

definition gate_uses :: "nat option \<Rightarrow> resource set" where
  "gate_uses permit = (case permit of None \<Rightarrow> {Bulkhead} | Some i \<Rightarrow> {Bulkhead, Bucket i})"

definition buckets_of :: "'s gate_state \<Rightarrow> 's list" where
  "buckets_of st = (case gt_partition st of None \<Rightarrow> [] | Some lim \<Rightarrow> pt_buckets lim)"

fun gate_free :: "'s semaphore_ops \<Rightarrow> 's gate_state \<Rightarrow> resource \<Rightarrow> nat" where
  "gate_free ops st Bulkhead = sem_available ops (gt_global st)"
| "gate_free ops st (Bucket i) =
     (if i < length (buckets_of st) then sem_available ops (buckets_of st ! i) else 0)"

fun gate_cap :: "nat \<Rightarrow> nat \<Rightarrow> nat \<Rightarrow> resource \<Rightarrow> nat" where
  "gate_cap capacity n per Bulkhead = capacity"
| "gate_cap capacity n per (Bucket i) = (if i < n then per else 0)"

definition gate_valid :: "nat \<Rightarrow> 's gate_state \<Rightarrow> bool" where
  "gate_valid n st \<longleftrightarrow> length (buckets_of st) = n \<and> (n = 0 \<longleftrightarrow> gt_partition st = None)"

definition gate_acquire ::
  "'s semaphore_ops \<Rightarrow> (string \<Rightarrow> u64) \<Rightarrow> 's gate_state \<Rightarrow> string option \<Rightarrow> nat option option \<times> 's gate_state" where
  "gate_acquire ops hash st pkey =
     (case acquire_permits ops hash st pkey of
        (Granted permit, st') \<Rightarrow> (Some permit, st')
      | (_, st') \<Rightarrow> (None, st'))"

lemma gate_uses_simps [simp]:
  "Bulkhead \<in> gate_uses permit" "Bucket i \<in> gate_uses permit \<longleftrightarrow> permit = Some i"
  by (auto simp: gate_uses_def split: option.splits)

lemma bucket_for_eq:
  "bucket_for hash lim k =
     (if pt_buckets lim = [] then None else Some (unat (hash k) mod length (pt_buckets lim)))"
  by (auto simp: bucket_for_def Let_def)

lemma take_partition_cases:
  assumes "gate_valid n st"
  shows "take_partition ops hash st pkey =
     (case pkey of
        None \<Rightarrow> Some (None, st)
      | Some k \<Rightarrow>
          if n = 0 then Some (None, st)
          else (let i = unat (hash k) mod n in
                map_option (\<lambda>s. (Some i, st\<lparr>gt_partition := Some \<lparr>pt_buckets = (buckets_of st)[i := s]\<rparr>\<rparr>))
                  (sem_try_acquire ops (buckets_of st ! i))))"
  using assms
  by (cases "gt_partition st")
     (auto simp: take_partition_def partition_try_acquire_def bucket_for_eq gate_valid_def buckets_of_def
       Let_def split: option.splits)

lemma gate_valid_update:
  "gate_valid n st \<Longrightarrow> 0 < n \<Longrightarrow> gate_valid n (st\<lparr>gt_partition := Some \<lparr>pt_buckets = (buckets_of st)[i := s]\<rparr>\<rparr>)"
  by (simp add: gate_valid_def buckets_of_def)

lemma gate_valid_global [simp]: "gate_valid n (st\<lparr>gt_global := g\<rparr>) = gate_valid n st"
  by (simp add: gate_valid_def buckets_of_def)

lemma buckets_of_simps [simp]:
  "buckets_of (st\<lparr>gt_global := g\<rparr>) = buckets_of st"
  "buckets_of (st\<lparr>gt_partition := Some lim\<rparr>) = pt_buckets lim"
  by (simp_all add: buckets_of_def)

lemma take_partition_valid:
  "gate_valid n st \<Longrightarrow> take_partition ops hash st pkey = Some (permit, st1) \<Longrightarrow> gate_valid n st1"
  by (auto simp: take_partition_cases Let_def split: option.splits if_splits intro!: gate_valid_update)

lemma release_partition_valid: "gate_valid n st \<Longrightarrow> gate_valid n (release_partition ops st permit)"
  by (auto simp: release_partition_def partition_release_def gate_valid_def buckets_of_def
      split: option.splits)

context semaphore
begin

lemma take_partition_granted:
  assumes "gate_valid n st" and "take_partition ops hash st pkey = Some (permit, st1)"
  shows "gate_uses permit = gate_demand hash n pkey"
    and "gt_global st1 = gt_global st"
    and "gate_free ops st (Bucket i) = gate_free ops st1 (Bucket i) + (if Bucket i \<in> gate_uses permit then 1 else 0)"
proof -
  have len: "length (buckets_of st) = n" using assms(1) by (simp add: gate_valid_def)
  consider "permit = None" "st1 = st" "gate_demand hash n pkey = {Bulkhead}"
    | k j s where "pkey = Some k" "j = unat (hash k) mod n" "permit = Some j" "0 < n"
        "sem_try_acquire ops (buckets_of st ! j) = Some s"
        "st1 = st\<lparr>gt_partition := Some \<lparr>pt_buckets = (buckets_of st)[j := s]\<rparr>\<rparr>"
    using assms(2) unfolding take_partition_cases [OF assms(1), of ops hash pkey]
    by (auto simp: Let_def gate_demand_def split: option.splits if_splits)
  then have "gate_uses permit = gate_demand hash n pkey \<and> gt_global st1 = gt_global st \<and>
      gate_free ops st (Bucket i) = gate_free ops st1 (Bucket i) + (if Bucket i \<in> gate_uses permit then 1 else 0)"
  proof cases
    case 1
    then show ?thesis by (simp add: gate_uses_def)
  next
    case (2 k j s)
    then have "j < length (buckets_of st)" using len by simp
    with 2 show ?thesis
      using try_acquire_Some [of "buckets_of st ! j" s]
      by (simp add: gate_uses_def gate_demand_def nth_list_update)
  qed
  then show "gate_uses permit = gate_demand hash n pkey"
    and "gt_global st1 = gt_global st"
    and "gate_free ops st (Bucket i) = gate_free ops st1 (Bucket i) + (if Bucket i \<in> gate_uses permit then 1 else 0)"
    by blast+
qed

lemma take_partition_refused:
  assumes "gate_valid n st" and "take_partition ops hash st pkey = None"
  shows "\<exists>i. Bucket i \<in> gate_demand hash n pkey \<and> gate_free ops st (Bucket i) = 0"
proof -
  obtain k where k: "pkey = Some k" "0 < n"
      "sem_try_acquire ops (buckets_of st ! (unat (hash k) mod n)) = None"
    using assms(2) unfolding take_partition_cases [OF assms(1), of ops hash pkey]
    by (auto simp: Let_def split: option.splits if_splits)
  then have "gate_free ops st (Bucket (unat (hash k) mod n)) = 0"
    by (simp add: try_acquire_None)
  then show ?thesis using k by (auto simp: gate_demand_def)
qed

lemma release_partition_free:
  assumes "gate_valid n st" and "\<And>i. Bucket i \<in> gate_uses permit \<Longrightarrow> i < n \<and> gate_free ops st (Bucket i) < max_permits"
  shows "gate_free ops (release_partition ops st permit) (Bucket i) =
      gate_free ops st (Bucket i) + (if Bucket i \<in> gate_uses permit then 1 else 0)"
    and "gt_global (release_partition ops st permit) = gt_global st"
proof -
  show "gt_global (release_partition ops st permit) = gt_global st"
    by (simp add: release_partition_def split: option.splits)
  show "gate_free ops (release_partition ops st permit) (Bucket i) =
      gate_free ops st (Bucket i) + (if Bucket i \<in> gate_uses permit then 1 else 0)"
  proof (cases permit)
    case None
    then show ?thesis by (simp add: release_partition_def gate_uses_def)
  next
    case (Some j)
    then have j: "j < n" "gate_free ops st (Bucket j) < max_permits"
      using assms(2) [of j] by (simp_all add: gate_uses_def)
    then obtain lim where lim: "gt_partition st = Some lim" "length (pt_buckets lim) = n"
      using assms(1) by (auto simp: gate_valid_def buckets_of_def split: option.splits)
    then have b: "buckets_of st = pt_buckets lim" by (simp add: buckets_of_def)
    show ?thesis
      using Some j lim b
      by (auto simp: release_partition_def partition_release_def gate_uses_def release_available
          nth_list_update)
  qed
qed

end

text \<open>
  A deployment of the gates: \<open>n\<close> buckets of \<open>per\<close> permits (none when fairness is off) under a bulkhead of
  \<open>capacity\<close>. It is a permit pool whose tickets are the pairs of permits \<^verbatim>\<open>Admission::Granted\<close> carries.
\<close>

locale gates = semaphore ops for ops :: "'s semaphore_ops" +
  fixes hash :: "string \<Rightarrow> u64" and n per capacity :: nat
  assumes per_le: "per \<le> max_permits" and capacity_le: "capacity \<le> max_permits"
begin

lemma gate_acquire_granted:
  assumes "gate_valid n st" and "gate_acquire ops hash st k = (Some permit, st')"
  shows "gate_uses permit = gate_demand hash n k"
    and "gate_free ops st r = gate_free ops st' r + (if r \<in> gate_uses permit then 1 else 0)"
proof -
  obtain st1 g where t: "take_partition ops hash st k = Some (permit, st1)"
      and g: "sem_try_acquire ops (gt_global st1) = Some g" and st': "st' = st1\<lparr>gt_global := g\<rparr>"
    using assms(2)
    by (auto simp: gate_acquire_def acquire_permits_def split: option.splits prod.splits admission.splits)
  note tp = take_partition_granted [OF assms(1) t]
  show "gate_uses permit = gate_demand hash n k" by (rule tp(1))
  have "Bulkhead \<in> gate_uses permit" by (simp add: gate_uses_def split: option.splits)
  then show "gate_free ops st r = gate_free ops st' r + (if r \<in> gate_uses permit then 1 else 0)"
    using tp(2,3) try_acquire_Some [OF g] by (cases r) (simp_all add: st')
qed

lemma gate_acquire_refused:
  assumes "gate_valid n st" and le: "\<And>r. gate_free ops st r \<le> gate_cap capacity n per r"
    and "gate_acquire ops hash st k = (None, st')"
  shows "(\<exists>r \<in> gate_demand hash n k. gate_free ops st r = 0) \<and> (\<forall>r. gate_free ops st' r = gate_free ops st r)"
proof (cases "take_partition ops hash st k")
  case None
  then have "st' = st" using assms(3) by (simp add: gate_acquire_def acquire_permits_def)
  then show ?thesis using take_partition_refused [OF assms(1) None] by blast
next
  case (Some ps)
  obtain permit st1 where ps: "ps = (permit, st1)" by (cases ps)
  note tp = take_partition_granted [OF assms(1) Some [unfolded ps]]
  have g: "sem_try_acquire ops (gt_global st1) = None" and st': "st' = release_partition ops st1 permit"
    using assms(3) Some ps by (auto simp: gate_acquire_def acquire_permits_def split: option.splits)
  have b: "i < n \<and> gate_free ops st1 (Bucket i) < max_permits" if "Bucket i \<in> gate_uses permit" for i
    using tp(3) [of i] that le [of "Bucket i"] per_le by (auto split: if_splits)
  note v1 = take_partition_valid [OF assms(1) Some [unfolded ps]]
  have rp: "gate_free ops st' (Bucket i) = gate_free ops st (Bucket i)" for i
    using release_partition_free(1) [of n st1 permit i, OF v1 b] tp(3) [of i] unfolding st' by linarith
  have "gt_global st' = gt_global st"
    using release_partition_free(2) [of n st1 permit, OF v1 b] tp(2) unfolding st' by simp
  then have "gate_free ops st' r = gate_free ops st r" for r
    using rp by (cases r) (simp_all del: gate_free.simps(2))
  moreover have "Bulkhead \<in> gate_demand hash n k" by (simp add: gate_demand_def split: option.splits)
  moreover have "gate_free ops st Bulkhead = 0" using g tp(2) by (simp add: try_acquire_None)
  ultimately show ?thesis by blast
qed

lemma gate_release_free:
  assumes "gate_valid n st" and lt: "\<And>r. r \<in> gate_uses permit \<Longrightarrow> gate_free ops st r < gate_cap capacity n per r"
  shows "gate_free ops (release_permits ops st permit) r =
    gate_free ops st r + (if r \<in> gate_uses permit then 1 else 0)"
proof -
  have bk: "Bulkhead \<in> gate_uses permit" by (simp add: gate_uses_def split: option.splits)
  have b: "i < n \<and> gate_free ops st (Bucket i) < max_permits" if "Bucket i \<in> gate_uses permit" for i
    using lt [OF that] per_le by (auto split: if_splits)
  note rp = release_partition_free [of n st permit, OF assms(1) b]
  have lt_max: "sem_available ops (gt_global st) < max_permits" using lt [OF bk] capacity_le by simp
  show ?thesis
  proof (cases r)
    case Bulkhead
    then show ?thesis
      using rp(2) bk lt_max by (simp add: release_permits_def Let_def release_available)
  next
    case (Bucket i)
    have "gate_free ops (release_permits ops st permit) r = gate_free ops (release_partition ops st permit) r"
      by (simp add: Bucket release_permits_def Let_def)
    then show ?thesis using rp(1) [of i] by (simp only: Bucket)
  qed
qed

lemma gate_acquire_valid: "gate_valid n st \<Longrightarrow> gate_valid n (snd (gate_acquire ops hash st k))"
  using take_partition_valid [of n st ops hash k]
  by (auto simp: gate_acquire_def acquire_permits_def release_partition_valid
      split: option.splits prod.splits admission.splits)

end

sublocale gates \<subseteq> pool: permit_pool "gate_acquire ops hash" "release_permits ops" "gate_free ops"
  "gate_cap capacity n per" gate_uses "gate_demand hash n" "gate_valid n"
proof unfold_locales
  show "gate_valid n (snd (gate_acquire ops hash st k))" if "gate_valid n st" for st k
    using that by (rule gate_acquire_valid)
  show "gate_uses t = gate_demand hash n k \<and>
      (\<forall>r. gate_free ops st r = gate_free ops st' r + (if r \<in> gate_uses t then 1 else 0))"
    if "gate_valid n st" "gate_acquire ops hash st k = (Some t, st')" for st k t st'
    using gate_acquire_granted [OF that] by blast
  show "(\<exists>r \<in> gate_demand hash n k. gate_free ops st r = 0) \<and> (\<forall>r. gate_free ops st' r = gate_free ops st r)"
    if "gate_valid n st" "\<And>r. gate_free ops st r \<le> gate_cap capacity n per r"
      "gate_acquire ops hash st k = (None, st')" for st k st'
    using that by (rule gate_acquire_refused)
  show "gate_valid n (release_permits ops st t)" if "gate_valid n st" for st t
    using release_partition_valid [OF that] by (simp add: release_permits_def Let_def)
  show "gate_free ops (release_permits ops st t) r = gate_free ops st r + (if r \<in> gate_uses t then 1 else 0)"
    if "gate_valid n st" "\<And>r. r \<in> gate_uses t \<Longrightarrow> gate_free ops st r < gate_cap capacity n per r" for st t r
    using that by (rule gate_release_free)
qed

text \<open>Every configuration of the counting semaphore, clipped to the permits a semaphore can hold.\<close>

interpretation counting_gates:
  gates counting hash n "min per max_permits" "min capacity max_permits" for hash n per capacity
  by unfold_locales simp_all

subsection \<open>All interleavings of requests\<close>

text \<open>The gates together with the permits held by the executions in flight.\<close>

inductive gate_reachable ::
  "'s semaphore_ops \<Rightarrow> (string \<Rightarrow> u64) \<Rightarrow> nat \<Rightarrow> nat \<Rightarrow> nat \<Rightarrow> 's gate_state \<Rightarrow> nat option list \<Rightarrow> bool"
  for ops hash capacity buckets per where
  g_start: "gate_reachable ops hash capacity buckets per (gate_new ops capacity buckets per) []"
| g_request: "gate_reachable ops hash capacity buckets per st G \<Longrightarrow>
    acquire_permits ops hash st k = (a, st') \<Longrightarrow>
    gate_reachable ops hash capacity buckets per st'
      (case a of Granted permit \<Rightarrow> permit # G | _ \<Rightarrow> G)"
| g_finish: "gate_reachable ops hash capacity buckets per st G \<Longrightarrow> permit \<in> set G \<Longrightarrow>
    gate_reachable ops hash capacity buckets per (release_permits ops st permit) (remove1 permit G)"

text \<open>The number of buckets a configuration really has: fairness is off when either number is zero.\<close>

definition live_buckets :: "nat \<Rightarrow> nat \<Rightarrow> nat" where
  "live_buckets buckets per = (if per = 0 then 0 else buckets)"

definition in_bucket :: "nat option list \<Rightarrow> nat \<Rightarrow> nat" where
  "in_bucket G i = length (filter (\<lambda>permit. permit = Some i) G)"

context gates
begin

lemma held_Bulkhead: "pool.held G Bulkhead = length G"
  by (simp add: pool.held_def)

lemma held_Bucket: "pool.held G (Bucket i) = in_bucket G i"
  by (simp add: pool.held_def in_bucket_def)

lemma balanced_new:
  "n = live_buckets buckets per \<Longrightarrow> pool.balanced (gate_new ops capacity buckets per) []"
proof -
  assume n: "n = live_buckets buckets per"
  have "gate_free ops (gate_new ops capacity buckets per) r = gate_cap capacity n per r" for r
    using new_available [OF per_le] new_available [OF capacity_le]
    by (cases r) (auto simp: gate_new_def partition_limiter_new_def buckets_of_def n live_buckets_def)
  moreover have "gate_valid n (gate_new ops capacity buckets per)"
    by (auto simp: gate_valid_def gate_new_def partition_limiter_new_def buckets_of_def n live_buckets_def)
  ultimately show ?thesis by (simp add: pool.balanced_def pool.held_def)
qed

lemma gate_acquire_of:
  "acquire_permits ops hash st k = (a, st') \<Longrightarrow>
   gate_acquire ops hash st k = (case a of Granted permit \<Rightarrow> (Some permit, st') | _ \<Rightarrow> (None, st'))"
  by (simp add: gate_acquire_def split: admission.splits)

lemma reachable_balanced:
  assumes "gate_reachable ops hash capacity buckets per st G" and "n = live_buckets buckets per"
  shows "pool.balanced st G"
  using assms(1)
proof (induction rule: gate_reachable.induct)
  case g_start
  show ?case by (rule balanced_new [OF assms(2)])
next
  case (g_request st G k a st')
  then show ?case
    using gate_acquire_of [OF g_request.hyps(2)]
    by (cases a) (auto intro: pool.balanced_acquire pool.balanced_refused)
next
  case (g_finish st G permit)
  then show ?case by (auto intro: pool.balanced_release)
qed

lemma acquire_permits_exact:
  assumes "pool.balanced st G"
  shows "fst (acquire_permits ops hash st k) =
     (case k of
        Some p \<Rightarrow>
          if n \<noteq> 0 \<and> per \<le> in_bucket G (unat (hash p) mod n) then PartitionBusy
          else if capacity \<le> length G then GlobalBusy
          else Granted (if n = 0 then None else Some (unat (hash p) mod n))
      | None \<Rightarrow> if capacity \<le> length G then GlobalBusy else Granted None)"
proof -
  have v: "gate_valid n st" and free: "gate_free ops st r + pool.held G r = gate_cap capacity n per r" for r
    using assms by (simp_all add: pool.balanced_def)
  have global: "sem_try_acquire ops (gt_global st) = None \<longleftrightarrow> capacity \<le> length G"
    using free [of Bulkhead] by (auto simp: try_acquire_None held_Bulkhead)
  have bucket: "sem_try_acquire ops (buckets_of st ! i) = None \<longleftrightarrow> per \<le> in_bucket G i" if "i < n" for i
    using free [of "Bucket i"] v that by (auto simp: try_acquire_None held_Bucket gate_valid_def)
  show ?thesis
  proof (cases "k = None \<or> n = 0")
    case True
    then have "take_partition ops hash st k = Some (None, st)"
      unfolding take_partition_cases [OF v] by (auto split: option.splits)
    then show ?thesis
      using True global by (cases k) (auto simp: acquire_permits_def split: option.splits)
  next
    case False
    then obtain p where p: "k = Some p" and n: "0 < n" by auto
    let ?i = "unat (hash p) mod n"
    have "take_partition ops hash st k = map_option
        (\<lambda>s. (Some ?i, st\<lparr>gt_partition := Some \<lparr>pt_buckets = (buckets_of st)[?i := s]\<rparr>\<rparr>))
        (sem_try_acquire ops (buckets_of st ! ?i))"
      unfolding take_partition_cases [OF v] using p n by (simp add: Let_def)
    then show ?thesis
      using p n global bucket [of ?i] by (auto simp: acquire_permits_def split: option.splits)
  qed
qed

lemma reachable_conserved:
  assumes "gate_reachable ops hash capacity buckets per st G" and "n = live_buckets buckets per"
  shows "sem_available ops (gt_global st) + length G = capacity"
    and "length (buckets_of st) = n"
    and "i < n \<Longrightarrow> sem_available ops (buckets_of st ! i) + in_bucket G i = per"
proof -
  have v: "gate_valid n st" and free: "gate_free ops st r + pool.held G r = gate_cap capacity n per r" for r
    using reachable_balanced [OF assms] by (simp_all add: pool.balanced_def)
  show "sem_available ops (gt_global st) + length G = capacity"
    using free [of Bulkhead] by (simp add: held_Bulkhead)
  show len: "length (buckets_of st) = n" using v by (simp add: gate_valid_def)
  show "sem_available ops (buckets_of st ! i) + in_bucket G i = per" if "i < n"
    using free [of "Bucket i"] that len by (simp add: held_Bucket)
qed

end

lemma gatesI: "semaphore ops \<Longrightarrow> per \<le> max_permits \<Longrightarrow> capacity \<le> max_permits \<Longrightarrow> gates ops per capacity"
  by (simp add: gates_def gates_axioms_def)

subsection \<open>Properties\<close>

text \<open>Permits are conserved. In every interleaving of requests and completions, the free permits of the
  bulkhead plus the executions in flight are its capacity, and the free permits of each bucket plus the
  executions holding it are the per-partition share; so neither limit is ever exceeded and no permit leaks,
  in particular not the partition permit of a request the bulkhead sheds.\<close>

lemma permits_conserved:
  assumes "semaphore ops" and "per \<le> max_permits" and "capacity \<le> max_permits"
    and "gate_reachable ops hash capacity buckets per st G"
  shows "sem_available ops (gt_global st) + length G = capacity \<and>
         length (buckets_of st) = live_buckets buckets per \<and>
         (i < live_buckets buckets per \<longrightarrow>
            sem_available ops (buckets_of st ! i) + in_bucket G i = per)"
  using gates.reachable_conserved [OF gatesI [OF assms(1-3)] assms(4) refl] by blast

text \<open>Admission is exact. In every reachable state a request is refused as \<open>PARTITION_OVERLOADED\<close> exactly
  when fairness is on, it names a partition and that partition's bucket is full; otherwise it is refused
  as \<open>OVERLOADED\<close> exactly when the bulkhead is full; otherwise it is granted. The partition share is
  checked first, so a noisy partition is refused even when the bulkhead has room, and other buckets do
  not matter.\<close>

lemma admission_exact:
  assumes "semaphore ops" and "per \<le> max_permits" and "capacity \<le> max_permits"
    and "gate_reachable ops hash capacity buckets per st G"
  shows "fst (acquire_permits ops hash st k) =
     (let n = live_buckets buckets per in
      case k of
        Some p \<Rightarrow>
          if n \<noteq> 0 \<and> per \<le> in_bucket G (unat (hash p) mod n) then PartitionBusy
          else if capacity \<le> length G then GlobalBusy
          else Granted (if n = 0 then None else Some (unat (hash p) mod n))
      | None \<Rightarrow> if capacity \<le> length G then GlobalBusy else Granted None)"
proof -
  note g = gatesI [OF assms(1-3)]
  show ?thesis
    using gates.acquire_permits_exact [OF g gates.reachable_balanced [OF g assms(4) refl]]
    unfolding Let_def .
qed

text \<open>The fan-out ceiling is at least one item and within the bulkhead and, with fairness on, the share.\<close>

lemma batch_ceiling_bounds:
  "1 \<le> batch_ceiling per cap \<and>
   batch_ceiling per cap \<le> max cap 1 \<and>
   (0 < per \<longrightarrow> batch_ceiling per cap \<le> per)"
  by (auto simp: batch_ceiling_def Let_def)

end
