(* ===== verification/Ssrf.thy ===== *)
theory Ssrf
  imports Runlet_Prelude "HOL-Library.Monad_Syntax" "HOL-Library.Sublist"
begin

text \<open>
  SSRF protection: \<^verbatim>\<open>runlet-core/src/ssrf.rs\<close>.

  Addresses are their octets (IPv4) and segments (IPv6), as \<^verbatim>\<open>std::net\<close> reads them; \<open>parse_ip\<close> follows the
  grammar of \<^verbatim>\<open>str::parse::<IpAddr>\<close>. The system resolver is outside the program: an answer (\<open>None\<close> for
  a failure) is an argument of each function that looks a name up, so nothing relates two lookups of the
  same name. Error texts are the constructors of \<open>ssrf_error\<close>.
\<close>

unbundle bit_operations_syntax

datatype ipv4 = Ipv4 u8 u8 u8 u8
datatype ipv6 = Ipv6 u16 u16 u16 u16 u16 u16 u16 u16
datatype ip_addr = V4 ipv4 | V6 ipv6

subsection \<open>The standard library's address predicates\<close>

fun v4_is_loopback :: "ipv4 \<Rightarrow> bool" where
  "v4_is_loopback (Ipv4 a b c d) \<longleftrightarrow> a = 127"

fun v4_is_private :: "ipv4 \<Rightarrow> bool" where
  "v4_is_private (Ipv4 a b c d) \<longleftrightarrow>
     a = 10 \<or> (a = 172 \<and> 16 \<le> b \<and> b \<le> 31) \<or> (a = 192 \<and> b = 168)"

fun v4_is_link_local :: "ipv4 \<Rightarrow> bool" where
  "v4_is_link_local (Ipv4 a b c d) \<longleftrightarrow> a = 169 \<and> b = 254"

definition hi_octet :: "u16 \<Rightarrow> u8" where
  "hi_octet s = ucast (drop_bit 8 s)"

definition lo_octet :: "u16 \<Rightarrow> u8" where
  "lo_octet s = ucast s"

fun v6_to_ipv4_mapped :: "ipv6 \<Rightarrow> ipv4 option" where
  "v6_to_ipv4_mapped (Ipv6 s0 s1 s2 s3 s4 s5 s6 s7) =
     (if s0 = 0 \<and> s1 = 0 \<and> s2 = 0 \<and> s3 = 0 \<and> s4 = 0 \<and> s5 = 0xffff
      then Some (Ipv4 (hi_octet s6) (lo_octet s6) (hi_octet s7) (lo_octet s7)) else None)"

subsection \<open>The classifier\<close>

fun is_private_v4 :: "ipv4 \<Rightarrow> bool" where
  "is_private_v4 (Ipv4 a b c d) \<longleftrightarrow>
     v4_is_loopback (Ipv4 a b c d) \<or> v4_is_private (Ipv4 a b c d) \<or> v4_is_link_local (Ipv4 a b c d) \<or>
     Ipv4 a b c d = Ipv4 255 255 255 255 \<or> Ipv4 a b c d = Ipv4 0 0 0 0 \<or>
     (a = 100 \<and> 64 \<le> b \<and> b \<le> 127) \<or> 224 \<le> a"

fun v6_v4_compatible_private :: "ipv6 \<Rightarrow> bool" where
  "v6_v4_compatible_private (Ipv6 s0 s1 s2 s3 s4 s5 s6 s7) \<longleftrightarrow>
     (\<forall>s \<in> set [s0, s1, s2, s3, s4, s5]. hi_octet s = 0 \<and> lo_octet s = 0) \<and>
     is_private_v4 (Ipv4 (hi_octet s6) (lo_octet s6) (hi_octet s7) (lo_octet s7))"

fun v6_embeds_private_v4 :: "ipv6 \<Rightarrow> bool" where
  "v6_embeds_private_v4 (Ipv6 s0 s1 s2 s3 s4 s5 s6 s7) \<longleftrightarrow>
     (s0 = 0x2002 \<and> is_private_v4 (Ipv4 (hi_octet s1) (lo_octet s1) (hi_octet s2) (lo_octet s2))) \<or>
     (s0 = 0x0064 \<and> s1 = 0xff9b \<and>
      is_private_v4 (Ipv4 (hi_octet s6) (lo_octet s6) (hi_octet s7) (lo_octet s7)))"

fun is_private_v6 :: "ipv6 \<Rightarrow> bool" where
  "is_private_v6 (Ipv6 s0 s1 s2 s3 s4 s5 s6 s7) =
     (let ip = Ipv6 s0 s1 s2 s3 s4 s5 s6 s7 in
      if ip = Ipv6 0 0 0 0 0 0 0 1 \<or> ip = Ipv6 0 0 0 0 0 0 0 0 then True
      else if (case v6_to_ipv4_mapped ip of Some v \<Rightarrow> is_private_v4 v | None \<Rightarrow> False) then True
      else (let unique_local = (s0 AND 0xfe00 = 0xfc00);
                link_local = (s0 AND 0xffc0 = 0xfe80);
                multicast = (s0 AND 0xff00 = 0xff00)
            in unique_local \<or> link_local \<or> multicast \<or>
               v6_v4_compatible_private ip \<or> v6_embeds_private_v4 ip))"

fun is_private_ip :: "ip_addr \<Rightarrow> bool" where
  "is_private_ip (V4 ip) = is_private_v4 ip"
| "is_private_ip (V6 ip) = is_private_v6 ip"

subsection \<open>Literals\<close>

definition hex_val :: "char \<Rightarrow> nat option" where
  "hex_val c =
     (let n = of_char c :: nat in
      if 48 \<le> n \<and> n \<le> 57 then Some (n - 48)
      else if 97 \<le> n \<and> n \<le> 102 then Some (n - 87)
      else if 65 \<le> n \<and> n \<le> 70 then Some (n - 55)
      else None)"

text \<open>
  The digits of a number and what follows them: at most \<open>fuel\<close> digits, the value at most \<open>bound\<close>. \<open>None\<close> when
  a further digit follows or the value overflows.
\<close>

fun scan_number :: "(char \<Rightarrow> nat option) \<Rightarrow> nat \<Rightarrow> nat \<Rightarrow> nat \<Rightarrow> nat \<Rightarrow> string \<Rightarrow> (nat \<times> string) option" where
  "scan_number dig radix bound fuel acc [] = Some (acc, [])"
| "scan_number dig radix bound fuel acc (c # cs) =
     (case dig c of
        None \<Rightarrow> Some (acc, c # cs)
      | Some d \<Rightarrow>
          (case fuel of
             0 \<Rightarrow> None
           | Suc f \<Rightarrow>
               if acc * radix + d \<le> bound then scan_number dig radix bound f (acc * radix + d) cs else None))"

definition read_v4_octet :: "string \<Rightarrow> (u8 \<times> string) option" where
  "read_v4_octet s =
     (case s of
        [] \<Rightarrow> None
      | c # cs \<Rightarrow>
          (case digit_val c of
             None \<Rightarrow> None
           | Some d \<Rightarrow>
               if c = CHR ''0'' \<and> (case cs of c2 # _ \<Rightarrow> digit_val c2 \<noteq> None | [] \<Rightarrow> False) then None
               else map_option (\<lambda>(n, rest). (of_nat n, rest)) (scan_number digit_val 10 255 3 0 s)))"

definition read_v6_group :: "string \<Rightarrow> (u16 \<times> string) option" where
  "read_v6_group s =
     (case s of
        [] \<Rightarrow> None
      | c # _ \<Rightarrow>
          if hex_val c = None then None
          else map_option (\<lambda>(n, rest). (of_nat n, rest)) (scan_number hex_val 16 65535 4 0 s))"

fun read_char :: "char \<Rightarrow> string \<Rightarrow> string option" where
  "read_char x [] = None"
| "read_char x (c # cs) = (if c = x then Some cs else None)"

definition read_ipv4 :: "string \<Rightarrow> (ipv4 \<times> string) option" where
  "read_ipv4 s =
     do {
       (a, s) \<leftarrow> read_v4_octet s;
       s \<leftarrow> read_char CHR ''.'' s;
       (b, s) \<leftarrow> read_v4_octet s;
       s \<leftarrow> read_char CHR ''.'' s;
       (c, s) \<leftarrow> read_v4_octet s;
       s \<leftarrow> read_char CHR ''.'' s;
       (d, s) \<leftarrow> read_v4_octet s;
       Some (Ipv4 a b c d, s)
     }"

definition join_octets :: "u8 \<Rightarrow> u8 \<Rightarrow> u16" where
  "join_octets h l = push_bit 8 (ucast h) OR ucast l"

text \<open>
  The separator before group \<open>i\<close>, the groups from \<open>i\<close> on (\<open>left\<close> of them at most) and whether they ended in an
  embedded IPv4.
\<close>

definition separator :: "nat \<Rightarrow> string \<Rightarrow> string option" where
  "separator i s = (if i = 0 then Some s else read_char CHR '':'' s)"

fun read_groups :: "nat \<Rightarrow> nat \<Rightarrow> string \<Rightarrow> u16 list \<times> bool \<times> string" where
  "read_groups 0 i s = ([], False, s)"
| "read_groups (Suc left) i s =
     (case (if left = 0 then None else Option.bind (separator i s) read_ipv4) of
        Some (Ipv4 a b c d, rest) \<Rightarrow> ([join_octets a b, join_octets c d], True, rest)
      | None \<Rightarrow>
          (case Option.bind (separator i s) read_v6_group of
             None \<Rightarrow> ([], False, s)
           | Some (g, rest) \<Rightarrow>
               (let (gs, v4, rest') = read_groups left (Suc i) rest in (g # gs, v4, rest'))))"

fun ipv6_of :: "u16 list \<Rightarrow> ipv6 option" where
  "ipv6_of [s0, s1, s2, s3, s4, s5, s6, s7] = Some (Ipv6 s0 s1 s2 s3 s4 s5 s6 s7)"
| "ipv6_of _ = None"

definition read_ipv6 :: "string \<Rightarrow> (ipv6 \<times> string) option" where
  "read_ipv6 s =
     (let (front, v4, s1) = read_groups 8 0 s in
      if length front = 8 then map_option (\<lambda>ip. (ip, s1)) (ipv6_of front)
      else if v4 then None
      else do {
        s2 \<leftarrow> read_char CHR '':'' s1;
        s3 \<leftarrow> read_char CHR '':'' s2;
        (let (back, _, s4) = read_groups (8 - (length front + 1)) 0 s3 in
         map_option (\<lambda>ip. (ip, s4))
           (ipv6_of (front @ replicate (8 - length front - length back) 0 @ back)))
      })"

definition parse_ip :: "string \<Rightarrow> ip_addr option" where
  "parse_ip s =
     (case read_ipv4 s of
        Some (ip, rest) \<Rightarrow> if rest = [] then Some (V4 ip) else None
      | None \<Rightarrow>
          (case read_ipv6 s of
             Some (ip, rest) \<Rightarrow> if rest = [] then Some (V6 ip) else None
           | None \<Rightarrow> None))"

subsection \<open>The checks\<close>

datatype ssrf_error =
    PrivateLiteral ip_addr
  | ResolvesPrivate string ip_addr
  | PublicLiteral ip_addr
  | DidNotResolve string
  | ResolvesPublic string ip_addr
  | NoAddress string
  | NoPublicAddress string

type_synonym dns_answer = "ip_addr list option"

definition block_private_ip :: "dns_answer \<Rightarrow> string \<Rightarrow> bool \<Rightarrow> (ssrf_error, unit) result" where
  "block_private_ip dns host allow_private =
     (if allow_private then Inr ()
      else (case parse_ip host of
              Some addr \<Rightarrow> if is_private_ip addr then Inl (PrivateLiteral addr) else Inr ()
            | None \<Rightarrow>
                (case dns of
                   Some addrs \<Rightarrow>
                     (case List.find is_private_ip addrs of
                        Some a \<Rightarrow> Inl (ResolvesPrivate host a)
                      | None \<Rightarrow> Inr ())
                 | None \<Rightarrow> Inr ())))"

definition require_private_target :: "dns_answer \<Rightarrow> string \<Rightarrow> (ssrf_error, unit) result" where
  "require_private_target dns host =
     (case parse_ip host of
        Some addr \<Rightarrow> if is_private_ip addr then Inr () else Inl (PublicLiteral addr)
      | None \<Rightarrow>
          (case dns of
             None \<Rightarrow> Inl (DidNotResolve host)
           | Some addrs \<Rightarrow>
               (case List.find (\<lambda>a. \<not> is_private_ip a) addrs of
                  Some a \<Rightarrow> Inl (ResolvesPublic host a)
                | None \<Rightarrow> if addrs \<noteq> [] then Inr () else Inl (NoAddress host))))"

definition resolve_filtered :: "dns_answer \<Rightarrow> string \<Rightarrow> bool \<Rightarrow> (ssrf_error, ip_addr list) result" where
  "resolve_filtered dns host allow_private =
     (case dns of
        None \<Rightarrow> Inl (DidNotResolve host)
      | Some addrs \<Rightarrow>
          (let kept = filter (\<lambda>a. allow_private \<or> \<not> is_private_ip a) addrs
           in if kept = [] then Inl (NoPublicAddress host) else Inr kept))"

record ssrf_resolver =
  rs_allow_private :: bool
  rs_bypass_hosts :: "string set"

definition ssrf_resolver_new :: "bool \<Rightarrow> ssrf_resolver" where
  "ssrf_resolver_new allow_private = \<lparr>rs_allow_private = allow_private, rs_bypass_hosts = {}\<rparr>"

definition with_bypass :: "bool \<Rightarrow> string set \<Rightarrow> ssrf_resolver" where
  "with_bypass allow_private bypass_hosts =
     \<lparr>rs_allow_private = allow_private, rs_bypass_hosts = bypass_hosts\<rparr>"

text \<open>Host names reach the resolver in their ASCII form, so \<^verbatim>\<open>to_lowercase\<close> is the ASCII one.\<close>

definition ssrf_resolve :: "ssrf_resolver \<Rightarrow> dns_answer \<Rightarrow> string \<Rightarrow> (ssrf_error, ip_addr list) result" where
  "ssrf_resolve rs dns host =
     resolve_filtered dns host
       (rs_allow_private rs \<or> to_ascii_lowercase host \<in> rs_bypass_hosts rs)"

subsection \<open>Specification of the blocks\<close>

text \<open>An address as a number, and membership in a block \<open>base/len\<close>.\<close>

definition v4_num :: "ipv4 \<Rightarrow> nat" where
  "v4_num ip = (case ip of Ipv4 a b c d \<Rightarrow> unat a * 2 ^ 24 + unat b * 2 ^ 16 + unat c * 2 ^ 8 + unat d)"

definition in_v4_block :: "ipv4 \<Rightarrow> ipv4 \<times> nat \<Rightarrow> bool" where
  "in_v4_block ip blk \<longleftrightarrow>
     v4_num ip div 2 ^ (32 - snd blk) = v4_num (fst blk) div 2 ^ (32 - snd blk)"

definition private_v4_blocks :: "(ipv4 \<times> nat) list" where
  "private_v4_blocks =
     [(Ipv4 127 0 0 0, 8), (Ipv4 10 0 0 0, 8), (Ipv4 172 16 0 0, 12), (Ipv4 192 168 0 0, 16),
      (Ipv4 169 254 0 0, 16), (Ipv4 0 0 0 0, 32), (Ipv4 100 64 0 0, 10), (Ipv4 224 0 0 0, 3)]"

lemma unat_u8_less: "unat (w :: u8) < 256"
  using unsigned_less [where 'a = nat, of w] by simp

lemma u8_eq_iff: "(w :: u8) = numeral k \<longleftrightarrow> unat w = unat (numeral k :: u8)"
  by (simp add: word_unat_eq_iff)

lemma v4_block_8: "v4_num (Ipv4 a b c d) div 2 ^ 24 = unat a"
  using unat_u8_less [of b] unat_u8_less [of c] unat_u8_less [of d] by (simp add: v4_num_def)

lemma v4_block_16: "v4_num (Ipv4 a b c d) div 2 ^ 16 = unat a * 256 + unat b"
  using unat_u8_less [of b] unat_u8_less [of c] unat_u8_less [of d] by (simp add: v4_num_def)

lemma v4_block_sub: 
  "n \<le> 8 \<Longrightarrow> v4_num (Ipv4 a b c d) div 2 ^ (16 + n) = (unat a * 256 + unat b) div 2 ^ n"
  unfolding v4_block_16 [of a b c d, symmetric] power_add div_mult2_eq ..

lemma digit_eq: "x < k \<Longrightarrow> y < k \<Longrightarrow> a * k + x = c * k + y \<longleftrightarrow> a = c \<and> x = y" for a c k x y :: nat
proof
  assume lt: "x < k" "y < k" and eq: "a * k + x = c * k + y"
  have "a = (a * k + x) div k" "c = (c * k + y) div k" using lt by simp_all
  then show "a = c \<and> x = y" using eq by simp
qed simp

lemma drop_disjunct:
  "(E \<Longrightarrow> Z) \<Longrightarrow> (A \<or> (B \<or> C \<or> D) \<or> F \<or> E \<or> G \<or> H \<or> Z) = (A \<or> B \<or> C \<or> D \<or> F \<or> G \<or> H \<or> Z)"
  by blast

lemma private_v4_cidr:
  "is_private_v4 ip \<longleftrightarrow> (\<exists>blk \<in> set private_v4_blocks. in_v4_block ip blk)"
proof (cases ip)
  case (Ipv4 a b c d)
  have num: "w = numeral k \<longleftrightarrow> unat w = unat (numeral k :: u8)" "w = 0 \<longleftrightarrow> unat w = 0"
    for w :: u8 and k by (simp_all add: word_unat_eq_iff)
  have k: "unat (127 :: u8) = 127" "unat (10 :: u8) = 10" "unat (172 :: u8) = 172" "unat (16 :: u8) = 16"
    "unat (31 :: u8) = 31" "unat (192 :: u8) = 192" "unat (168 :: u8) = 168" "unat (169 :: u8) = 169"
    "unat (254 :: u8) = 254" "unat (255 :: u8) = 255" "unat (100 :: u8) = 100" "unat (64 :: u8) = 64"
    "unat (224 :: u8) = 224" by simp_all
  have le: "v \<le> w \<longleftrightarrow> unat v \<le> unat w" for v w :: u8 by (simp add: word_le_nat_alt)
  have "is_private_v4 ip \<longleftrightarrow>
    unat a = 127 \<or> unat a = 10 \<or> (unat a = 172 \<and> 16 \<le> unat b \<and> unat b \<le> 31) \<or>
    (unat a = 192 \<and> unat b = 168) \<or> (unat a = 169 \<and> unat b = 254) \<or>
    (unat a = 0 \<and> unat b = 0 \<and> unat c = 0 \<and> unat d = 0) \<or>
    (unat a = 100 \<and> 64 \<le> unat b \<and> unat b \<le> 127) \<or> 224 \<le> unat a"
    unfolding Ipv4 is_private_v4.simps v4_is_loopback.simps v4_is_private.simps v4_is_link_local.simps
      ipv4.inject num le k
    by (rule drop_disjunct) simp
  also have "\<dots> \<longleftrightarrow> (\<exists>blk \<in> set private_v4_blocks. in_v4_block ip blk)"
  proof -
    let ?a = "unat a" and ?b = "unat b"
    have lt: "?a < 256" "?b < 256" "unat c < 256" "unat d < 256" by (simp_all add: unat_u8_less)
    have "(?a * 256 + ?b) div 16 = ?a * 16 + ?b div 16" "(?a * 256 + ?b) div 64 = ?a * 4 + ?b div 64"
      using div_mult_self3 [of 16 "?a * 16" ?b] div_mult_self3 [of 64 "?a * 4" ?b] by simp_all
    then have e12: "(?a * 256 + ?b) div 16 = 2753 \<longleftrightarrow> ?a = 172 \<and> 16 \<le> ?b \<and> ?b \<le> 31"
      and e10: "(?a * 256 + ?b) div 64 = 401 \<longleftrightarrow> ?a = 100 \<and> 64 \<le> ?b \<and> ?b \<le> 127"
      using digit_eq [of "?b div 16" 16 1 ?a 172] digit_eq [of "?b div 64" 4 1 ?a 100] lt(2) by auto
    have e16: "?a * 256 + ?b = 49320 \<longleftrightarrow> ?a = 192 \<and> ?b = 168" "?a * 256 + ?b = 43518 \<longleftrightarrow> ?a = 169 \<and> ?b = 254"
      using digit_eq [of ?b 256 168 ?a 192] digit_eq [of ?b 256 254 ?a 169] lt(2) by simp_all
    have e3: "v4_num ip div 2 ^ 29 = 7 \<longleftrightarrow> 224 \<le> ?a"
    proof -
      have "v4_num ip div 2 ^ 29 = v4_num ip div 2 ^ 24 div 2 ^ 5"
        by (simp add: div_mult2_eq [symmetric])
      then have "v4_num ip div 2 ^ 29 = ?a div 32" unfolding Ipv4 v4_block_8 by simp
      then show ?thesis using lt(1) by auto
    qed
    have e32: "v4_num ip = 0 \<longleftrightarrow> ?a = 0 \<and> ?b = 0 \<and> unat c = 0 \<and> unat d = 0"
      by (simp add: Ipv4 v4_num_def)
    have n20: "v4_num ip div 2 ^ 20 = (?a * 256 + ?b) div 16"
      using v4_block_sub [of 4 a b c d] by (simp add: Ipv4)
    have n22: "v4_num ip div 2 ^ 22 = (?a * 256 + ?b) div 64"
      using v4_block_sub [of 6 a b c d] by (simp add: Ipv4)
    note n24 = v4_block_8 [of a b c d, folded Ipv4] and n16 = v4_block_16 [of a b c d, folded Ipv4]
    have "in_v4_block ip (Ipv4 127 0 0 0, 8) \<longleftrightarrow> ?a = 127"
      "in_v4_block ip (Ipv4 10 0 0 0, 8) \<longleftrightarrow> ?a = 10"
      using n24 by (simp_all add: in_v4_block_def v4_num_def [of "Ipv4 _ _ _ _"])
    moreover have "in_v4_block ip (Ipv4 172 16 0 0, 12) \<longleftrightarrow> ?a = 172 \<and> 16 \<le> ?b \<and> ?b \<le> 31"
      "in_v4_block ip (Ipv4 100 64 0 0, 10) \<longleftrightarrow> ?a = 100 \<and> 64 \<le> ?b \<and> ?b \<le> 127"
      using n20 n22 e12 e10 by (simp_all add: in_v4_block_def v4_num_def [of "Ipv4 _ _ _ _"])
    moreover have "in_v4_block ip (Ipv4 192 168 0 0, 16) \<longleftrightarrow> ?a = 192 \<and> ?b = 168"
      "in_v4_block ip (Ipv4 169 254 0 0, 16) \<longleftrightarrow> ?a = 169 \<and> ?b = 254"
      using n16 e16 by (simp_all add: in_v4_block_def v4_num_def [of "Ipv4 _ _ _ _"])
    moreover have "in_v4_block ip (Ipv4 224 0 0 0, 3) \<longleftrightarrow> 224 \<le> ?a"
      "in_v4_block ip (Ipv4 0 0 0 0, 32) \<longleftrightarrow> ?a = 0 \<and> ?b = 0 \<and> unat c = 0 \<and> unat d = 0"
      using e3 e32 by (simp_all add: in_v4_block_def v4_num_def [of "Ipv4 _ _ _ _"])
    ultimately show ?thesis by (auto simp: private_v4_blocks_def)
  qed
  finally show ?thesis .
qed

lemma and_high_mask: "(s AND NOT (mask n)) = push_bit n (drop_bit n s)" for s :: "'a::len word"
  by (rule bit_word_eqI) (auto simp: bit_simps)

lemma unat_push_drop: "unat (push_bit n (drop_bit n s)) = unat s div 2 ^ n * 2 ^ n" for s :: "'a::len word"
proof -
  have "unat s div 2 ^ n * 2 ^ n \<le> unat s" by (simp add: div_times_less_eq_dividend)
  then have "unat s div 2 ^ n * 2 ^ n < 2 ^ LENGTH('a)"
    by (meson le_less_trans unsigned_less)
  moreover have self: "take_bit LENGTH('a) (unat s) = unat s"
    by (simp add: take_bit_eq_mod unsigned_less)
  moreover have "unat (push_bit n (drop_bit n s)) = take_bit LENGTH('a) (push_bit n (drop_bit n (unat s)))"
    by (simp only: unsigned_push_bit_eq unsigned_drop_bit_eq self)
  ultimately show ?thesis
    by (simp only: push_bit_eq_mult drop_bit_eq_div take_bit_eq_mod mod_less)
qed

lemma high_bits_eq: "s AND NOT (mask n) = y \<longleftrightarrow> unat s div 2 ^ n * 2 ^ n = unat y" for s y :: "'a::len word"
  by (simp only: and_high_mask word_unat_eq_iff unat_push_drop)

lemma v6_prefix_masks:
  "(s AND 0xfe00 = 0xfc00) \<longleftrightarrow> unat s div 2 ^ 9 = 0x7e"
  "(s AND 0xffc0 = 0xfe80) \<longleftrightarrow> unat s div 2 ^ 6 = 0x3fa"
  "(s AND 0xff00 = 0xff00) \<longleftrightarrow> unat s div 2 ^ 8 = 0xff" for s :: u16
proof -
  have m: "(0xfe00 :: u16) = NOT (mask 9)" "(0xffc0 :: u16) = NOT (mask 6)" "(0xff00 :: u16) = NOT (mask 8)"
    by (simp_all add: mask_eq_exp_minus_1)
  show "(s AND 0xfe00 = 0xfc00) \<longleftrightarrow> unat s div 2 ^ 9 = 0x7e"
    unfolding m(1) high_bits_eq by simp
  show "(s AND 0xffc0 = 0xfe80) \<longleftrightarrow> unat s div 2 ^ 6 = 0x3fa"
    unfolding m(2) high_bits_eq by simp
  have "(s AND NOT (mask 8) = 0xff00) \<longleftrightarrow> unat s div 2 ^ 8 = 0xff"
    unfolding high_bits_eq by simp
  then show "(s AND 0xff00 = 0xff00) \<longleftrightarrow> unat s div 2 ^ 8 = 0xff"
    unfolding m(3) by (simp add: mask_eq_exp_minus_1)
qed

lemma octets_join [simp]:
  "hi_octet (join_octets h l) = h" "lo_octet (join_octets h l) = l"
  "join_octets (hi_octet s) (lo_octet s) = s"
proof -
  show "hi_octet (join_octets h l) = h"
    by (rule bit_word_eqI) (auto simp: hi_octet_def join_octets_def bit_simps dest: bit_imp_le_length)
  show "lo_octet (join_octets h l) = l"
    by (rule bit_word_eqI) (auto simp: lo_octet_def join_octets_def bit_simps)
  show "join_octets (hi_octet s) (lo_octet s) = s"
    by (rule bit_word_eqI) (auto simp: hi_octet_def lo_octet_def join_octets_def bit_simps)
qed

lemma octets_zero: "hi_octet s = 0 \<and> lo_octet s = 0 \<longleftrightarrow> s = 0"
proof
  assume "hi_octet s = 0 \<and> lo_octet s = 0"
  then have "s = join_octets 0 0" using octets_join(3) [of s] by simp
  then show "s = 0" by (simp add: join_octets_def)
qed (simp add: hi_octet_def lo_octet_def)

text \<open>The four ways an IPv6 address carries an IPv4 one.\<close>

fun embeds_v4 :: "ipv6 \<Rightarrow> ipv4 \<Rightarrow> bool" where
  "embeds_v4 ip (Ipv4 a b c d) \<longleftrightarrow>
     ip = Ipv6 0 0 0 0 0 0xffff (join_octets a b) (join_octets c d) \<or>
     ip = Ipv6 0 0 0 0 0 0 (join_octets a b) (join_octets c d) \<or>
     (\<exists>s3 s4 s5 s6 s7. ip = Ipv6 0x2002 (join_octets a b) (join_octets c d) s3 s4 s5 s6 s7) \<or>
     (\<exists>s2 s3 s4 s5. ip = Ipv6 0x64 0xff9b s2 s3 s4 s5 (join_octets a b) (join_octets c d))"

lemma embeds_of_octets:
  "(\<exists>v. is_private_v4 v \<and> embeds_v4 (Ipv6 s0 s1 s2 s3 s4 s5 s6 s7) v) \<longleftrightarrow>
   (is_private_v4 (Ipv4 (hi_octet s6) (lo_octet s6) (hi_octet s7) (lo_octet s7)) \<and>
      (s0 = 0 \<and> s1 = 0 \<and> s2 = 0 \<and> s3 = 0 \<and> s4 = 0 \<and> (s5 = 0xffff \<or> s5 = 0) \<or> s0 = 0x64 \<and> s1 = 0xff9b)) \<or>
   (is_private_v4 (Ipv4 (hi_octet s1) (lo_octet s1) (hi_octet s2) (lo_octet s2)) \<and> s0 = 0x2002)"
  (is "?L \<longleftrightarrow> ?R")
proof
  assume ?L
  then obtain a b c d where p: "is_private_v4 (Ipv4 a b c d)"
      and e: "embeds_v4 (Ipv6 s0 s1 s2 s3 s4 s5 s6 s7) (Ipv4 a b c d)"
    by (metis ipv4.exhaust)
  from e consider "s6 = join_octets a b" "s7 = join_octets c d"
       "s0 = 0 \<and> s1 = 0 \<and> s2 = 0 \<and> s3 = 0 \<and> s4 = 0 \<and> (s5 = 0xffff \<or> s5 = 0) \<or> s0 = 0x64 \<and> s1 = 0xff9b"
    | "s1 = join_octets a b" "s2 = join_octets c d" "s0 = 0x2002"
    by auto
  then show ?R
  proof cases
    case 1
    then show ?thesis using p by (simp only: octets_join simp_thms)
  next
    case 2
    then show ?thesis using p by (simp only: octets_join simp_thms)
  qed
next
  assume ?R
  then show ?L
  proof
    assume "is_private_v4 (Ipv4 (hi_octet s6) (lo_octet s6) (hi_octet s7) (lo_octet s7)) \<and>
      (s0 = 0 \<and> s1 = 0 \<and> s2 = 0 \<and> s3 = 0 \<and> s4 = 0 \<and> (s5 = 0xffff \<or> s5 = 0) \<or> s0 = 0x64 \<and> s1 = 0xff9b)"
    then show ?L
      by (intro exI [of _ "Ipv4 (hi_octet s6) (lo_octet s6) (hi_octet s7) (lo_octet s7)"])
         (simp del: is_private_v4.simps, blast)
  next
    assume "is_private_v4 (Ipv4 (hi_octet s1) (lo_octet s1) (hi_octet s2) (lo_octet s2)) \<and> s0 = 0x2002"
    then show ?L
      by (intro exI [of _ "Ipv4 (hi_octet s1) (lo_octet s1) (hi_octet s2) (lo_octet s2)"])
         (simp del: is_private_v4.simps)
  qed
qed

lemma if_True_else: "(if A then True else B) \<longleftrightarrow> A \<or> B"
  by simp

lemma mapped_case: "(case (if M then Some v else None) of Some x \<Rightarrow> P x | None \<Rightarrow> False) \<longleftrightarrow> M \<and> P v"
  by simp

lemma private_v6_cases:
  "is_private_v6 (Ipv6 s0 s1 s2 s3 s4 s5 s6 s7) \<longleftrightarrow>
     Ipv6 s0 s1 s2 s3 s4 s5 s6 s7 \<in> {Ipv6 0 0 0 0 0 0 0 0, Ipv6 0 0 0 0 0 0 0 1} \<or>
     unat s0 div 2 ^ 9 = 0x7e \<or> unat s0 div 2 ^ 6 = 0x3fa \<or> unat s0 div 2 ^ 8 = 0xff \<or>
     (\<exists>v. is_private_v4 v \<and> embeds_v4 (Ipv6 s0 s1 s2 s3 s4 s5 s6 s7) v)"
proof -
  let ?p67 = "is_private_v4 (Ipv4 (hi_octet s6) (lo_octet s6) (hi_octet s7) (lo_octet s7))"
  let ?p12 = "is_private_v4 (Ipv4 (hi_octet s1) (lo_octet s1) (hi_octet s2) (lo_octet s2))"
  have "is_private_v6 (Ipv6 s0 s1 s2 s3 s4 s5 s6 s7) \<longleftrightarrow>
     Ipv6 s0 s1 s2 s3 s4 s5 s6 s7 \<in> {Ipv6 0 0 0 0 0 0 0 0, Ipv6 0 0 0 0 0 0 0 1} \<or>
     unat s0 div 2 ^ 9 = 0x7e \<or> unat s0 div 2 ^ 6 = 0x3fa \<or> unat s0 div 2 ^ 8 = 0xff \<or>
     s0 = 0 \<and> s1 = 0 \<and> s2 = 0 \<and> s3 = 0 \<and> s4 = 0 \<and> s5 = 0xffff \<and> ?p67 \<or>
     s0 = 0 \<and> s1 = 0 \<and> s2 = 0 \<and> s3 = 0 \<and> s4 = 0 \<and> s5 = 0 \<and> ?p67 \<or>
     s0 = 0x2002 \<and> ?p12 \<or> s0 = 0x64 \<and> s1 = 0xff9b \<and> ?p67"
    unfolding is_private_v6.simps Let_def v6_prefix_masks v6_to_ipv4_mapped.simps
      v6_v4_compatible_private.simps v6_embeds_private_v4.simps octets_zero
      if_True_else mapped_case list.set ipv6.inject insert_iff empty_iff ball_simps
    by argo
  then show ?thesis unfolding embeds_of_octets by argo
qed

subsection \<open>Literals are read back\<close>

definition show_ipv4 :: "ipv4 \<Rightarrow> string" where
  "show_ipv4 ip = (case ip of Ipv4 a b c d \<Rightarrow>
     show_nat (unat a) @ ''.'' @ show_nat (unat b) @ ''.'' @ show_nat (unat c) @ ''.'' @ show_nat (unat d))"

definition no_digit :: "string \<Rightarrow> bool" where
  "no_digit s \<longleftrightarrow> (case s of [] \<Rightarrow> True | c # _ \<Rightarrow> digit_val c = None)"

lemma scan_number_stop: "no_digit rest \<Longrightarrow> scan_number digit_val r b f acc rest = Some (acc, rest)"
  by (cases rest) (simp_all add: no_digit_def)

lemma char_0: "CHR ''0'' = char_of (48 + (0 :: nat))"
proof -
  have "of_char (CHR ''0'') = (48 :: nat)" by simp
  then show ?thesis by (metis add_0_right char_of_char)
qed

lemma digit_char_zero: "n < 10 \<Longrightarrow> char_of (48 + n) = CHR ''0'' \<longleftrightarrow> n = 0" for n :: nat
  using digit_val_show [of n] digit_val_show [of 0] by (auto simp: char_0)

lemma scan_digit:
  "d < 10 \<Longrightarrow> acc * 10 + d \<le> 255 \<Longrightarrow>
   scan_number digit_val 10 255 (Suc f) acc (char_of (48 + d) # cs) =
   scan_number digit_val 10 255 f (acc * 10 + d) cs"
  by (simp add: digit_val_show)

lemma read_v4_octet_scan:
  fixes d :: nat
  assumes "d < 10" and "d = 0 \<longrightarrow> no_digit cs"
  shows "read_v4_octet (char_of (48 + d) # cs) =
    map_option (\<lambda>(n, rest). (of_nat n, rest))
      (scan_number digit_val 10 255 (Suc (Suc (Suc 0))) 0 (char_of (48 + d) # cs))"
proof -
  have "\<not> (char_of (48 + d) = CHR ''0'' \<and> (case cs of c2 # _ \<Rightarrow> digit_val c2 \<noteq> None | [] \<Rightarrow> False))"
    using assms by (cases cs) (auto simp: digit_char_zero no_digit_def)
  then have "read_v4_octet (char_of (48 + d) # cs) =
    map_option (\<lambda>(n, rest). (of_nat n, rest)) (scan_number digit_val 10 255 3 0 (char_of (48 + d) # cs))"
    unfolding read_v4_octet_def list.case digit_val_show [OF assms(1)] option.case by argo
  then show ?thesis unfolding numeral_3_eq_3 .
qed

lemma read_v4_octet_show:
  assumes "no_digit rest"
  shows "read_v4_octet (show_nat (unat w) @ rest) = Some (w, rest)"
proof -
  let ?n = "unat w"
  have n: "?n < 256" by (rule unat_u8_less)
  note stop = scan_number_stop [OF assms]
  consider "?n < 10" | "10 \<le> ?n" "?n < 100" | "100 \<le> ?n" by linarith
  then show ?thesis
  proof cases
    case 1
    then have s: "show_nat ?n @ rest = char_of (48 + ?n) # rest" by (simp add: show_nat.simps [of ?n])
    have "?n = 0 \<longrightarrow> no_digit rest" using assms by simp
    then show ?thesis
      unfolding s read_v4_octet_scan [OF 1 \<open>?n = 0 \<longrightarrow> no_digit rest\<close>]
      using 1 n by (subst scan_digit) (simp_all add: stop)
  next
    case 2
    let ?a = "?n div 10" and ?b = "?n mod 10"
    have d: "?a < 10" "?b < 10" "?a = 0 \<longrightarrow> no_digit (char_of (48 + ?b) # rest)" "?a * 10 + ?b = ?n"
      using 2 by auto
    have s: "show_nat ?n @ rest = char_of (48 + ?a) # char_of (48 + ?b) # rest"
      using 2 d(1) by (simp add: show_nat.simps [of ?n] show_nat.simps [of "?n div 10"])
    have le: "?a \<le> 255" "?n \<le> 255" using d(1) n by linarith+
    show ?thesis
      unfolding s read_v4_octet_scan [OF d(1,3)]
      using scan_digit [OF d(1), of 0 "Suc (Suc 0)"] scan_digit [OF d(2), of ?a "Suc 0", unfolded d(4)] le stop
      by simp
  next
    case 3
    let ?a = "?n div 10 div 10" and ?b = "?n div 10 mod 10" and ?c = "?n mod 10"
    have d: "?a < 10" "?b < 10" "?c < 10" "?a * 10 + ?b = ?n div 10" "?n div 10 * 10 + ?c = ?n" "?a \<noteq> 0"
      using 3 n by auto
    have s: "show_nat ?n @ rest = char_of (48 + ?a) # char_of (48 + ?b) # char_of (48 + ?c) # rest"
      using 3 d(1) by (simp add: show_nat.simps [of ?n] show_nat.simps [of "?n div 10"]
          show_nat.simps [of "?n div 10 div 10"])
    have z: "?a = 0 \<longrightarrow> no_digit (char_of (48 + ?b) # char_of (48 + ?c) # rest)" using d(6) by simp
    have le: "?a \<le> 255" "?n div 10 \<le> 255" "?n \<le> 255" using d(1) n by linarith+
    show ?thesis
      unfolding s read_v4_octet_scan [OF d(1) z]
      using scan_digit [OF d(1), of 0 "Suc (Suc 0)"] scan_digit [OF d(2), of ?a "Suc 0", unfolded d(4)]
        scan_digit [OF d(3), of "?n div 10" 0, unfolded d(5)] le stop
      by simp
  qed
qed

lemma parse_show_ipv4: "parse_ip (show_ipv4 ip) = Some (V4 ip)"
proof (cases ip)
  case (Ipv4 a b c d)
  have "no_digit (CHR ''.'' # s)" and "no_digit []" for s
    by (simp_all add: no_digit_def digit_val_def)
  then show ?thesis
    using read_v4_octet_show [of "[]" d]
    by (simp add: parse_ip_def show_ipv4_def Ipv4 read_ipv4_def read_v4_octet_show)
qed

subsection \<open>Properties\<close>

text \<open>The IPv4 filter blocks exactly these ranges: \<open>127/8\<close>, \<open>10/8\<close>, \<open>172.16/12\<close>, \<open>192.168/16\<close>,
  \<open>169.254/16\<close>, \<open>0.0.0.0/32\<close>, \<open>100.64/10\<close> and \<open>224/3\<close> (multicast, reserved and broadcast).\<close>

lemma is_private_v4_blocks:
  "is_private_v4 ip \<longleftrightarrow> (\<exists>blk \<in> set private_v4_blocks. in_v4_block ip blk)"
  by (rule private_v4_cidr)

text \<open>C34: the IPv6 filter blocks exactly \<open>::\<close>, \<open>::1\<close>, \<open>fc00::/7\<close>, \<open>fe80::/10\<close>, \<open>ff00::/8\<close> and every address that
  carries a blocked IPv4 address in its IPv4-mapped, IPv4-compatible, 6to4 or NAT64 form: no such form
  smuggles a private IPv4 address through, and a public IPv4 address is not blocked for being wrapped.\<close>

theorem is_private_v6_exact:
  "is_private_v6 (Ipv6 s0 s1 s2 s3 s4 s5 s6 s7) \<longleftrightarrow>
     Ipv6 s0 s1 s2 s3 s4 s5 s6 s7 \<in> {Ipv6 0 0 0 0 0 0 0 0, Ipv6 0 0 0 0 0 0 0 1} \<or>
     unat s0 div 2 ^ 9 = 0xfc00 div 2 ^ 9 \<or> unat s0 div 2 ^ 6 = 0xfe80 div 2 ^ 6 \<or>
     unat s0 div 2 ^ 8 = 0xff00 div 2 ^ 8 \<or>
     (\<exists>v. is_private_v4 v \<and> embeds_v4 (Ipv6 s0 s1 s2 s3 s4 s5 s6 s7) v)"
  using private_v6_cases [of s0 s1 s2 s3 s4 s5 s6 s7] by simp

text \<open>Connect-time pinning. Whatever the name server answers at connect time (it may differ from every earlier
  answer), the resolver hands the client a non-empty list that keeps the order of the answer and, unless the
  operator relaxed the filter or allowlisted the host, holds only addresses the classifier calls public; when
  no such address is left it fails.\<close>

lemma resolver_pins_public:
  "(ssrf_resolve rs dns host = Inr kept \<longrightarrow>
      kept \<noteq> [] \<and> (\<exists>addrs. dns = Some addrs \<and> subseq kept addrs) \<and>
      (\<not> rs_allow_private rs \<and> to_ascii_lowercase host \<notin> rs_bypass_hosts rs \<longrightarrow>
         list_all (\<lambda>a. \<not> is_private_ip a) kept)) \<and>
   (is_ok (ssrf_resolve rs dns host) \<longleftrightarrow>
      (\<exists>addrs. dns = Some addrs \<and>
         (\<exists>a \<in> set addrs. rs_allow_private rs \<or> to_ascii_lowercase host \<in> rs_bypass_hosts rs \<or>
            \<not> is_private_ip a)))"
  by (auto simp: ssrf_resolve_def resolve_filtered_def Let_def list_all_iff filter_empty_conv
      split: option.splits if_splits)

text \<open>The pre-check and the box-direct guard are opposite and both exact. On the same answer no target passes
  both; the guard accepts a target only if it is a private literal or resolves, to private addresses only; the
  unrelaxed pre-check refuses a target exactly when it is a private literal or resolves to some private
  address; and the text of every private IPv4 address is refused without a lookup.\<close>

lemma ssrf_checks_exact:
  "(is_ok (require_private_target dns host) \<longleftrightarrow>
      (case parse_ip host of
         Some a \<Rightarrow> is_private_ip a
       | None \<Rightarrow> (\<exists>addrs. dns = Some addrs \<and> addrs \<noteq> [] \<and> (\<forall>a \<in> set addrs. is_private_ip a)))) \<and>
   (is_ok (block_private_ip dns host False) \<longleftrightarrow>
      (case parse_ip host of
         Some a \<Rightarrow> \<not> is_private_ip a
       | None \<Rightarrow> (\<forall>addrs. dns = Some addrs \<longrightarrow> (\<forall>a \<in> set addrs. \<not> is_private_ip a)))) \<and>
   \<not> (is_ok (require_private_target dns host) \<and> is_ok (block_private_ip dns host False)) \<and>
   (is_private_v4 ip \<longrightarrow> block_private_ip dns (show_ipv4 ip) False = Inl (PrivateLiteral (V4 ip)))"
proof -
  have guard: "is_ok (require_private_target dns host) \<longleftrightarrow>
      (case parse_ip host of
         Some a \<Rightarrow> is_private_ip a
       | None \<Rightarrow> (\<exists>addrs. dns = Some addrs \<and> addrs \<noteq> [] \<and> (\<forall>a \<in> set addrs. is_private_ip a)))"
    by (auto simp: require_private_target_def find_None_iff find_Some_iff split: option.splits)
  have pre: "is_ok (block_private_ip dns host False) \<longleftrightarrow>
      (case parse_ip host of
         Some a \<Rightarrow> \<not> is_private_ip a
       | None \<Rightarrow> (\<forall>addrs. dns = Some addrs \<longrightarrow> (\<forall>a \<in> set addrs. \<not> is_private_ip a)))"
    by (auto simp: block_private_ip_def find_None_iff find_Some_iff split: option.splits)
  have "\<not> (is_ok (require_private_target dns host) \<and> is_ok (block_private_ip dns host False))"
    unfolding guard pre by (cases dns; cases "parse_ip host") (auto simp: neq_Nil_conv)
  moreover have "is_private_v4 ip \<longrightarrow> block_private_ip dns (show_ipv4 ip) False = Inl (PrivateLiteral (V4 ip))"
    by (simp add: block_private_ip_def parse_show_ipv4 del: is_private_v4.simps)
  ultimately show ?thesis using guard pre by blast
qed

end
