(* ===== verification/Identity.thy ===== *)
theory Identity
  imports Error_Taxonomy
begin

text \<open>
  The trusted identity of a request: its extraction from the edge-injected headers and the overlay of a
  verified contract (\<^verbatim>\<open>runlet/src/identity.rs\<close>), the header names (\<^verbatim>\<open>runlet/src/config/mod.rs\<close>), the
  member-capability gate (\<^verbatim>\<open>runlet/src/authz.rs\<close>), the bearer gate (\<^verbatim>\<open>handler/gates.rs\<close>, \<^verbatim>\<open>runlet-wire/src/ct.rs\<close>)
  and the fairness key (\<^verbatim>\<open>resolve_partition\<close>).

  A header map is a function from lower-case names to the value the program can read (\<open>None\<close> when the header
  is absent or not text); lookups fold the case of the configured name as \<^verbatim>\<open>HeaderMap::get\<close> does.
\<close>

datatype log_level = LTrace | LDebug | LInfo | LWarn | LError

fun log_level_as_str :: "log_level \<Rightarrow> string" where
  "log_level_as_str LTrace = ''trace''"
| "log_level_as_str LDebug = ''debug''"
| "log_level_as_str LInfo = ''info''"
| "log_level_as_str LWarn = ''warn''"
| "log_level_as_str LError = ''error''"

fun log_level_ordinal :: "log_level \<Rightarrow> nat" where
  "log_level_ordinal LTrace = 0"
| "log_level_ordinal LDebug = 1"
| "log_level_ordinal LInfo = 2"
| "log_level_ordinal LWarn = 3"
| "log_level_ordinal LError = 4"

definition log_level_parse :: "string \<Rightarrow> log_level option" where
  "log_level_parse name =
     (if name = ''trace'' then Some LTrace
      else if name = ''debug'' then Some LDebug
      else if name = ''info'' then Some LInfo
      else if name = ''warn'' then Some LWarn
      else if name = ''error'' then Some LError
      else None)"

text \<open>The derived order of the levels is their rank.\<close>

instantiation log_level :: linorder
begin

definition less_eq_log_level :: "log_level \<Rightarrow> log_level \<Rightarrow> bool" where
  "a \<le> b \<longleftrightarrow> log_level_ordinal a \<le> log_level_ordinal b"

definition less_log_level :: "log_level \<Rightarrow> log_level \<Rightarrow> bool" where
  "a < b \<longleftrightarrow> log_level_ordinal a < log_level_ordinal b"

instance
proof
  fix x y z :: log_level
  show "(x < y) = (x \<le> y \<and> \<not> y \<le> x)" "x \<le> x" "x \<le> y \<Longrightarrow> y \<le> z \<Longrightarrow> x \<le> z" "x \<le> y \<or> y \<le> x"
    by (auto simp: less_eq_log_level_def less_log_level_def)
  show "x \<le> y \<Longrightarrow> y \<le> x \<Longrightarrow> x = y"
    by (cases x; cases y) (simp_all add: less_eq_log_level_def)
qed

end

lemma log_level_parse_as_str: "log_level_parse s = Some l \<longleftrightarrow> s = log_level_as_str l"
  by (cases l) (auto simp: log_level_parse_def)

subsection \<open>Headers\<close>

type_synonym header_map = "string \<Rightarrow> string option"

definition header_get :: "header_map \<Rightarrow> string \<Rightarrow> string option" where
  "header_get headers name = headers (to_ascii_lowercase name)"

definition header_value :: "header_map \<Rightarrow> string \<Rightarrow> string option" where
  "header_value headers name =
     (case header_get headers name of
        None \<Rightarrow> None
      | Some v \<Rightarrow> let text = trim v in if text = [] then None else Some text)"

definition header_list :: "header_map \<Rightarrow> string \<Rightarrow> string list" where
  "header_list headers name =
     (case header_value headers name of
        None \<Rightarrow> []
      | Some raw \<Rightarrow> filter (\<lambda>s. s \<noteq> []) (map trim (split_on CHR '','' raw)))"

datatype run_mode = Live | Test

definition header_mode :: "header_map \<Rightarrow> string \<Rightarrow> run_mode" where
  "header_mode headers name =
     (case map_option to_ascii_lowercase (header_value headers name) of
        Some v \<Rightarrow> if v = ''test'' \<or> v = ''playground'' then Test else Live
      | None \<Rightarrow> Live)"

definition header_flag :: "header_map \<Rightarrow> string \<Rightarrow> bool" where
  "header_flag headers name =
     (case header_value headers name of
        None \<Rightarrow> False
      | Some v \<Rightarrow> let lowered = to_ascii_lowercase v in lowered = ''true'' \<or> lowered = ''1'')"

definition header_partition :: "header_map \<Rightarrow> string option" where
  "header_partition headers = header_value headers ''x-partition-key''"

record trusted_headers =
  th_tenant :: string
  th_user :: string
  th_roles :: string
  th_entitlements :: string
  th_suspended :: string
  th_anonymous :: string
  th_plan :: string
  th_scope :: string
  th_mode :: string
  th_capture :: string
  th_log_level :: string
  th_contract :: string

definition trusted_headers_default :: trusted_headers where
  "trusted_headers_default =
     \<lparr>th_tenant = ''x-workspace-id'', th_user = ''x-user-id'', th_roles = ''x-user-roles'',
      th_entitlements = ''x-user-entitlements'', th_suspended = ''x-user-suspended'',
      th_anonymous = ''x-auth-anonymous'', th_plan = ''x-workspace-plan'',
      th_scope = ''x-tenant-scope'', th_mode = ''x-runlet-mode'', th_capture = ''x-runlet-capture'',
      th_log_level = ''x-runlet-log-level'', th_contract = ''x-identity-contract''\<rparr>"

subsection \<open>The identity\<close>

record trusted_identity =
  id_tenant :: "string option"
  id_user :: "string option"
  id_roles :: "string list"
  id_entitlements :: "string list"
  id_suspended :: bool
  id_anonymous :: bool
  id_plan :: "string option"
  id_principal_kind :: "string option"
  id_on_behalf_of :: "string option"
  id_scope :: "string option"
  id_mode :: run_mode
  id_capture :: bool
  id_log_level :: "log_level option"

definition from_headers :: "header_map \<Rightarrow> trusted_headers \<Rightarrow> trusted_identity" where
  "from_headers headers names =
     \<lparr>id_tenant = header_value headers (th_tenant names),
      id_user = header_value headers (th_user names),
      id_roles = header_list headers (th_roles names),
      id_entitlements = header_list headers (th_entitlements names),
      id_suspended = header_flag headers (th_suspended names),
      id_anonymous = header_flag headers (th_anonymous names),
      id_plan = header_value headers (th_plan names),
      id_principal_kind = None,
      id_on_behalf_of = None,
      id_scope = header_value headers (th_scope names),
      id_mode = header_mode headers (th_mode names),
      id_capture = header_flag headers (th_capture names),
      id_log_level = Option.bind (header_value headers (th_log_level names))
                       (\<lambda>raw. log_level_parse (to_ascii_lowercase raw))\<rparr>"

text \<open>The identity a verified contract carries (\<^verbatim>\<open>contract.rs\<close>).\<close>

record verified_claims =
  vc_tenant :: "string option"
  vc_user :: "string option"
  vc_principal_kind :: "string option"
  vc_on_behalf_of :: "string option"
  vc_roles :: "string list"
  vc_entitlements :: "string list"
  vc_suspended :: "bool option"
  vc_plan :: "string option"

definition apply_contract :: "trusted_identity \<Rightarrow> verified_claims \<Rightarrow> trusted_identity" where
  "apply_contract i claims =
     i\<lparr>id_tenant := vc_tenant claims, id_user := vc_user claims, id_roles := vc_roles claims,
       id_entitlements := vc_entitlements claims, id_plan := vc_plan claims,
       id_principal_kind := vc_principal_kind claims, id_on_behalf_of := vc_on_behalf_of claims,
       id_anonymous := False, id_suspended := False\<rparr>"

definition has_grant :: "trusted_identity \<Rightarrow> string \<Rightarrow> bool" where
  "has_grant i needle \<longleftrightarrow> needle \<in> set (id_entitlements i) \<or> needle \<in> set (id_roles i)"

subsection \<open>Member authorization\<close>

record capability_denied =
  cd_capability :: string
  cd_required :: string

text \<open>The loop over the requested kinds, and the shortcut for an empty table.\<close>

fun authorize_loop ::
  "(string \<rightharpoonup> string) \<Rightarrow> string list \<Rightarrow> trusted_identity \<Rightarrow> (capability_denied, unit) result" where
  "authorize_loop m [] i = Inr ()"
| "authorize_loop m (kind # rest) i =
     (case m kind of
        Some required \<Rightarrow>
          if \<not> has_grant i required
          then Inl \<lparr>cd_capability = kind, cd_required = required\<rparr>
          else authorize_loop m rest i
      | None \<Rightarrow> authorize_loop m rest i)"

definition authorize_capabilities ::
  "(string \<times> string) list \<Rightarrow> string list \<Rightarrow> trusted_identity \<Rightarrow> (capability_denied, unit) result" where
  "authorize_capabilities m requested i =
     (if m = [] then Inr () else authorize_loop (map_of m) requested i)"

subsection \<open>The bearer gate and the fairness key\<close>

text \<open>\<^verbatim>\<open>subtle\<close>'s comparison of two slices of the same length is equality.\<close>

definition ct_eq :: "string \<Rightarrow> string \<Rightarrow> bool" where
  "ct_eq lhs rhs = (if length lhs \<noteq> length rhs then False else lhs = rhs)"

definition request_authorized :: "header_map \<Rightarrow> string \<Rightarrow> bool" where
  "request_authorized headers expected =
     (case header_get headers ''authorization'' of
        None \<Rightarrow> False
      | Some v \<Rightarrow>
          (case (case strip_prefix ''Bearer '' v of Some t \<Rightarrow> Some t | None \<Rightarrow> strip_prefix ''bearer '' v) of
             None \<Rightarrow> False
           | Some token \<Rightarrow> ct_eq (trim token) expected))"

definition principal_kind_admitted :: "string list \<Rightarrow> string option \<Rightarrow> bool" where
  "principal_kind_admitted allowed kind =
     (allowed = [] \<or> (case kind of Some actual \<Rightarrow> actual \<in> set allowed | None \<Rightarrow> False))"

definition resolve_partition :: "trusted_identity option \<Rightarrow> string option \<Rightarrow> string option" where
  "resolve_partition i caller_asserted = (case i of None \<Rightarrow> caller_asserted | Some t \<Rightarrow> id_tenant t)"

subsection \<open>Facts\<close>

lemma header_value_nonempty: "header_value headers name = Some v \<Longrightarrow> v \<noteq> [] \<and> \<not> ascii_ws (hd v)"
  by (auto simp: header_value_def Let_def hd_trim_not_ws split: option.splits if_splits)

lemma header_list_elements:
  "s \<in> set (header_list headers name) \<Longrightarrow> s \<noteq> [] \<and> CHR '','' \<notin> set s"
proof -
  assume "s \<in> set (header_list headers name)"
  then obtain raw w where w: "w \<in> set (split_on CHR '','' raw)" and s: "s = trim w" "s \<noteq> []"
    by (auto simp: header_list_def split: option.splits)
  have "set (trim w) \<subseteq> set w" by (auto simp: trim_def dest!: set_dropWhileD)
  then show ?thesis using split_on_no_delim [OF w] s by auto
qed

lemma authorize_loop_ok:
  "is_ok (authorize_loop m ks i) \<longleftrightarrow> (\<forall>k \<in> set ks. \<forall>r. m k = Some r \<longrightarrow> has_grant i r)"
  by (induction m ks i rule: authorize_loop.induct) (auto split: option.splits)

lemma authorize_loop_first:
  "authorize_loop m ks i = Inl d \<longleftrightarrow>
   (\<exists>pre post. ks = pre @ cd_capability d # post \<and> is_ok (authorize_loop m pre i) \<and>
      m (cd_capability d) = Some (cd_required d) \<and> \<not> has_grant i (cd_required d))"
proof (induction ks)
  case Nil
  then show ?case by simp
next
  case (Cons k ks)
  show ?case (is "_ \<longleftrightarrow> (\<exists>pre post. ?P pre post)")
  proof (cases "\<exists>r. m k = Some r \<and> \<not> has_grant i r")
    case True
    then obtain r where r: "m k = Some r" "\<not> has_grant i r" by blast
    then have l: "authorize_loop m (k # ks) i = Inl \<lparr>cd_capability = k, cd_required = r\<rparr>" by simp
    show ?thesis
    proof
      assume "authorize_loop m (k # ks) i = Inl d"
      then have "?P [] ks" using l r by auto
      then show "\<exists>pre post. ?P pre post" by blast
    next
      assume "\<exists>pre post. ?P pre post"
      then obtain pre post where p: "?P pre post" by blast
      then have "pre = []" using r by (cases pre) (auto split: option.splits)
      then show "authorize_loop m (k # ks) i = Inl d" using p l r by (cases d) auto
    qed
  next
    case False
    then have l: "authorize_loop m (k # ks) i = authorize_loop m ks i" by (auto split: option.splits)
    have "(\<exists>pre post. ?P pre post) \<longleftrightarrow>
        (\<exists>pre post. ks = pre @ cd_capability d # post \<and> is_ok (authorize_loop m pre i) \<and>
          m (cd_capability d) = Some (cd_required d) \<and> \<not> has_grant i (cd_required d))"
      (is "?L \<longleftrightarrow> (\<exists>pre post. ?Q pre post)")
    proof
      assume ?L
      then obtain pre post where p: "?P pre post" by blast
      then obtain pre' where "pre = k # pre'" using False by (cases pre) auto
      then have "?Q pre' post" using p False by (auto simp: authorize_loop_ok simp del: authorize_loop.simps)
      then show "\<exists>pre post. ?Q pre post" by blast
    next
      assume "\<exists>pre post. ?Q pre post"
      then obtain pre post where "?Q pre post" by blast
      then have "?P (k # pre) post" using False by (auto simp: authorize_loop_ok simp del: authorize_loop.simps)
      then show ?L by blast
    qed
    then show ?thesis using l Cons.IH by simp
  qed
qed

lemma ct_eq_iff: "ct_eq a b \<longleftrightarrow> a = b"
  by (auto simp: ct_eq_def)

subsection \<open>Properties\<close>

text \<open>The member gate is exact. It permits a request iff the caller holds, as a role or an entitlement, what the
  table requires of every gated capability the request names; a refusal names the first one that fails and
  its missing entitlement. Capabilities the table does not name are never refused.\<close>

lemma authorize_capabilities_exact:
  "(is_ok (authorize_capabilities m requested i) \<longleftrightarrow>
      (\<forall>k \<in> set requested. \<forall>r. map_of m k = Some r \<longrightarrow> r \<in> set (id_roles i) \<union> set (id_entitlements i))) \<and>
   (authorize_capabilities m requested i = Inl d \<longrightarrow>
      (\<exists>pre post. requested = pre @ cd_capability d # post \<and>
         is_ok (authorize_capabilities m pre i) \<and> map_of m (cd_capability d) = Some (cd_required d) \<and>
         cd_required d \<notin> set (id_roles i) \<union> set (id_entitlements i)))"
  using authorize_loop_ok [of "map_of m" requested i] authorize_loop_first [of "map_of m" requested i d]
  by (auto simp: authorize_capabilities_def has_grant_def)

text \<open>Only the configured headers matter. Two requests that agree on the (case-folded) configured identity
  header names have the same trusted identity, and no header sets the contract-only fields; after a verified
  contract, the tenant, user, roles, entitlements, plan and principal are those of the claims whatever the
  headers say.\<close>

lemma identity_from_configured_headers:
  assumes "\<forall>n \<in> {th_tenant names, th_user names, th_roles names, th_entitlements names, th_suspended names,
      th_anonymous names, th_plan names, th_scope names, th_mode names, th_capture names, th_log_level names}.
      header_get h n = header_get h' n"
  shows "from_headers h names = from_headers h' names \<and>
    id_principal_kind (from_headers h names) = None \<and> id_on_behalf_of (from_headers h names) = None \<and>
    apply_contract (from_headers h names) c =
      apply_contract (from_headers h'' names) c
        \<lparr>id_scope := header_value h (th_scope names), id_mode := header_mode h (th_mode names),
         id_capture := header_flag h (th_capture names),
         id_log_level := id_log_level (from_headers h names)\<rparr>"
  using assms
  by (simp add: from_headers_def header_value_def header_list_def header_flag_def header_mode_def
      apply_contract_def)

text \<open>The bearer gate accepts exactly the requests whose \<open>Authorization\<close> header is the scheme \<open>Bearer\<close> or
  \<open>bearer\<close>, one space, and the configured token up to surrounding white space.\<close>

lemma request_authorized_exact:
  "request_authorized headers expected \<longleftrightarrow>
   (\<exists>tok scheme. scheme \<in> {''Bearer '', ''bearer ''} \<and>
      headers ''authorization'' = Some (scheme @ tok) \<and> trim tok = expected)"
proof -
  have l: "to_ascii_lowercase ''authorization'' = ''authorization''"
    by (simp add: to_ascii_lowercase_def to_ascii_lower_def)
  have ne: "strip_prefix ''Bearer '' (''bearer '' @ t) = None" for t by simp
  show ?thesis
    using strip_prefix_Some [of "''Bearer ''"] strip_prefix_Some [of "''bearer ''"] ne
    by (fastforce simp: request_authorized_def header_get_def l ct_eq_iff split: option.splits)
qed

end
