(* ===== verification/Contract.thy ===== *)
theory Contract
  imports Identity
begin

text \<open>
  Verification of the signed identity contract: \<^verbatim>\<open>runlet/src/contract.rs\<close>.

  Signature checking (\<^verbatim>\<open>jsonwebtoken\<close>) is outside the repository: \<open>jwt_ops\<close> holds what the program calls of it, the
  header reader and the validating decoder (\<^verbatim>\<open>alg\<close>, signature, \<^verbatim>\<open>iss\<close>, \<^verbatim>\<open>aud\<close>, \<^verbatim>\<open>exp\<close>). The answer of the key
  endpoint is an argument of each refresh: \<open>None\<close> when the request or its parsing failed, else the key id and
  the usable key of every entry. Instants are naturals; a refresh has the instant at which its age is
  checked and the one at which its answer is stored.
\<close>

datatype contract_error = ContractMalformed | UnknownKey | KeysUnavailable | ContractInvalid | UnsupportedVersion

fun contract_error_code :: "contract_error \<Rightarrow> string" where
  "contract_error_code ContractMalformed = ''CONTRACT_MALFORMED''"
| "contract_error_code UnknownKey = ''CONTRACT_UNKNOWN_KEY''"
| "contract_error_code KeysUnavailable = ''CONTRACT_KEYS_UNAVAILABLE''"
| "contract_error_code ContractInvalid = ''CONTRACT_INVALID''"
| "contract_error_code UnsupportedVersion = ''CONTRACT_VERSION_UNSUPPORTED''"

fun contract_error_message :: "contract_error \<Rightarrow> string" where
  "contract_error_message ContractMalformed = ''identity contract is malformed''"
| "contract_error_message UnknownKey = ''identity contract signed by an unknown key''"
| "contract_error_message KeysUnavailable = ''identity verification keys are unavailable''"
| "contract_error_message ContractInvalid = ''identity contract failed verification''"
| "contract_error_message UnsupportedVersion = ''identity contract version is not supported''"

record claims =
  cl_sub :: "string option"
  cl_workspace_id :: "string option"
  cl_principal_kind :: "string option"
  cl_on_behalf_of :: "string option"
  cl_roles :: "string list"
  cl_entitlements :: "string list option"
  cl_suspended :: "bool option"
  cl_plan :: "string option"
  cl_ctr :: string

definition into_verified :: "claims \<Rightarrow> verified_claims" where
  "into_verified c =
     \<lparr>vc_tenant = cl_workspace_id c, vc_user = cl_sub c, vc_principal_kind = cl_principal_kind c,
      vc_on_behalf_of = cl_on_behalf_of c, vc_roles = cl_roles c,
      vc_entitlements = (case cl_entitlements c of None \<Rightarrow> [] | Some es \<Rightarrow> es),
      vc_suspended = cl_suspended c, vc_plan = cl_plan c\<rparr>"

record 'k jwt_ops =
  jwt_header :: "string \<Rightarrow> string option option"
  jwt_decode :: "string \<Rightarrow> 'k \<Rightarrow> claims option"

record 'k key_cache =
  kc_keys :: "(string \<times> 'k) list"
  kc_last_refresh :: "nat option"

definition key_cache_default :: "'k key_cache" where
  "key_cache_default = \<lparr>kc_keys = [], kc_last_refresh = None\<rparr>"

record verifier_config =
  vf_supported_ctr :: "string list"
  vf_min_refresh :: nat

type_synonym 'k jwks_answer = "(string option \<times> 'k option) list option"

fun collect_keys :: "(string option \<times> 'k option) list \<Rightarrow> (string \<times> 'k) list \<Rightarrow> (string \<times> 'k) list" where
  "collect_keys [] acc = acc"
| "collect_keys ((Some kid, Some key) # rest) acc = collect_keys rest ((kid, key) # acc)"
| "collect_keys (_ # rest) acc = collect_keys rest acc"

definition fetch_keys :: "'k jwks_answer \<Rightarrow> (string \<times> 'k) list option" where
  "fetch_keys answer = map_option (\<lambda>entries. collect_keys entries []) answer"

definition refresh_due :: "nat \<Rightarrow> nat \<Rightarrow> 'k key_cache \<Rightarrow> bool" where
  "refresh_due min_refresh now cache =
     (case kc_last_refresh cache of Some prev \<Rightarrow> \<not> now - prev < min_refresh | None \<Rightarrow> True)"

definition refresh_commit :: "nat \<Rightarrow> 'k jwks_answer \<Rightarrow> 'k key_cache \<Rightarrow> 'k key_cache" where
  "refresh_commit now answer cache =
     (let cache1 = cache\<lparr>kc_last_refresh := Some now\<rparr>
      in case fetch_keys answer of Some keys \<Rightarrow> cache1\<lparr>kc_keys := keys\<rparr> | None \<Rightarrow> cache1)"

text \<open>What one refresh meets: the two instants and the answer it would get.\<close>

record 'k refresh_env =
  re_checked_at :: nat
  re_stored_at :: nat
  re_answer :: "'k jwks_answer"

definition refresh_keys :: "nat \<Rightarrow> 'k refresh_env \<Rightarrow> 'k key_cache \<Rightarrow> 'k key_cache" where
  "refresh_keys min_refresh env cache =
     (if refresh_due min_refresh (re_checked_at env) cache
      then refresh_commit (re_stored_at env) (re_answer env) cache else cache)"

definition cached_key :: "'k key_cache \<Rightarrow> string \<Rightarrow> 'k option" where
  "cached_key cache kid = map_of (kc_keys cache) kid"

definition key_for_kid ::
  "nat \<Rightarrow> 'k refresh_env \<Rightarrow> 'k key_cache \<Rightarrow> string \<Rightarrow> (contract_error, 'k) result \<times> 'k key_cache" where
  "key_for_kid min_refresh env cache kid =
     (case cached_key cache kid of
        Some key \<Rightarrow> (Inr key, cache)
      | None \<Rightarrow>
          (let cache' = refresh_keys min_refresh env cache
           in case cached_key cache' kid of
                Some key \<Rightarrow> (Inr key, cache')
              | None \<Rightarrow> (Inl (if kc_keys cache' = [] then KeysUnavailable else UnknownKey), cache')))"

definition verify ::
  "'k jwt_ops \<Rightarrow> verifier_config \<Rightarrow> 'k refresh_env \<Rightarrow> 'k key_cache \<Rightarrow> string \<Rightarrow>
   (contract_error, verified_claims) result \<times> 'k key_cache" where
  "verify jwt cfg env cache token =
     (case jwt_header jwt token of
        None \<Rightarrow> (Inl ContractMalformed, cache)
      | Some None \<Rightarrow> (Inl ContractMalformed, cache)
      | Some (Some kid) \<Rightarrow>
          (case key_for_kid (vf_min_refresh cfg) env cache kid of
             (Inl e, cache') \<Rightarrow> (Inl e, cache')
           | (Inr key, cache') \<Rightarrow>
               (case jwt_decode jwt token key of
                  None \<Rightarrow> (Inl ContractInvalid, cache')
                | Some c \<Rightarrow>
                    if cl_ctr c \<notin> set (vf_supported_ctr cfg) then (Inl UnsupportedVersion, cache')
                    else (Inr (into_verified c), cache'))))"

subsection \<open>Facts\<close>

lemma collect_keys_range:
  "(kid, key) \<in> set (collect_keys entries acc) \<longleftrightarrow> (Some kid, Some key) \<in> set entries \<or> (kid, key) \<in> set acc"
  by (induction entries acc rule: collect_keys.induct) auto

lemma refresh_keys_cases:
  "refresh_keys m env cache = cache \<or>
   (re_answer env = None \<and> kc_keys (refresh_keys m env cache) = kc_keys cache) \<or>
   (\<exists>entries. re_answer env = Some entries \<and> kc_keys (refresh_keys m env cache) = collect_keys entries [])"
  by (cases "re_answer env") (auto simp: refresh_keys_def refresh_commit_def fetch_keys_def Let_def)

text \<open>
  What a key lookup may answer, without the cache operations: the age check of a refresh, and the key an answer
  of the endpoint holds for an id, the last usable entry winning.
\<close>

definition refresh_allowed :: "nat \<Rightarrow> 'k refresh_env \<Rightarrow> 'k key_cache \<Rightarrow> bool" where
  "refresh_allowed min_refresh env cache \<longleftrightarrow>
     (\<forall>prev. kc_last_refresh cache = Some prev \<longrightarrow> min_refresh \<le> re_checked_at env - prev)"

definition served_key :: "(string option \<times> 'k option) list \<Rightarrow> string \<Rightarrow> 'k \<Rightarrow> bool" where
  "served_key entries kid key \<longleftrightarrow>
     (\<exists>xs ys. entries = xs @ (Some kid, Some key) # ys \<and> (\<forall>k. (Some kid, Some k) \<notin> set ys))"

definition usable_key :: "nat \<Rightarrow> 'k refresh_env \<Rightarrow> 'k key_cache \<Rightarrow> string \<Rightarrow> 'k \<Rightarrow> bool" where
  "usable_key min_refresh env cache kid key \<longleftrightarrow>
     (case map_of (kc_keys cache) kid of
        Some cached \<Rightarrow> key = cached
      | None \<Rightarrow> refresh_allowed min_refresh env cache \<and>
                (\<exists>entries. re_answer env = Some entries \<and> served_key entries kid key))"

lemma served_key_Cons:
  "served_key (e # es) kid key \<longleftrightarrow>
   served_key es kid key \<or> (e = (Some kid, Some key) \<and> (\<forall>k. (Some kid, Some k) \<notin> set es))"
  unfolding served_key_def by (rule iffI; (elim exE conjE disjE)?) (force simp: Cons_eq_append_conv, (metis append_Cons append_Nil)+)

lemma served_key_exists: "(\<exists>k. served_key es kid k) \<longleftrightarrow> (\<exists>k. (Some kid, Some k) \<in> set es)"
  by (induction es) (auto simp: served_key_Cons served_key_def [of "[]"])

lemma collect_keys_served:
  "map_of (collect_keys es acc) kid = Some key \<longleftrightarrow>
   served_key es kid key \<or> ((\<forall>k. (Some kid, Some k) \<notin> set es) \<and> map_of acc kid = Some key)"
proof (induction es acc rule: collect_keys.induct)
  case (1 acc)
  show ?case by (simp add: served_key_def)
next
  case (2 kid' key' rest acc)
  then show ?case using served_key_exists [of rest kid] by (auto simp: served_key_Cons)
qed (auto simp: served_key_Cons)

lemma refresh_due_allowed: "refresh_due m (re_checked_at env) cache \<longleftrightarrow> refresh_allowed m env cache"
  by (auto simp: refresh_due_def refresh_allowed_def split: option.split)

lemma cached_key_None: "cached_key cache kid = None \<longleftrightarrow> kid \<notin> fst ` set (kc_keys cache)"
  by (simp add: cached_key_def map_of_eq_None_iff)

lemma key_for_kid_cache:
  "snd (key_for_kid m env cache kid) =
     (if kid \<notin> fst ` set (kc_keys cache) \<and> refresh_allowed m env cache
      then \<lparr>kc_keys = (case re_answer env of None \<Rightarrow> kc_keys cache | Some entries \<Rightarrow> collect_keys entries []),
            kc_last_refresh = Some (re_stored_at env)\<rparr>
      else cache)"
  by (cases "cached_key cache kid")
    (auto simp: key_for_kid_def Let_def refresh_keys_def refresh_due_allowed refresh_commit_def fetch_keys_def
      simp flip: cached_key_None split: option.splits)

lemma key_for_kid_usable:
  "fst (key_for_kid m env cache kid) = Inr key \<longleftrightarrow> usable_key m env cache kid key"
proof (cases "cached_key cache kid")
  case None
  let ?c = "refresh_keys m env cache"
  have "fst (key_for_kid m env cache kid) = Inr key \<longleftrightarrow> cached_key ?c kid = Some key"
    using None by (simp add: key_for_kid_def Let_def split: option.split)
  also have "\<dots> \<longleftrightarrow> usable_key m env cache kid key"
    using None by (cases "re_answer env")
      (auto simp: refresh_keys_def refresh_due_allowed refresh_commit_def fetch_keys_def cached_key_def
        usable_key_def collect_keys_served)
  finally show ?thesis .
qed (auto simp: key_for_kid_def usable_key_def cached_key_def)

lemma key_for_kid_hit: "cached_key cache kid = Some key \<Longrightarrow> key_for_kid m env cache kid = (Inr key, cache)"
  by (simp add: key_for_kid_def)

lemma verify_cache: "snd (verify jwt cfg env cache token) \<in> {cache, refresh_keys (vf_min_refresh cfg) env cache}"
  by (auto simp: verify_def key_for_kid_def Let_def split: option.splits prod.splits sum.splits)

subsection \<open>A sequence of refreshes\<close>

text \<open>The instants at which a sequence of refresh requests really asks the endpoint.\<close>

fun fetch_instants :: "nat \<Rightarrow> 'k key_cache \<Rightarrow> 'k refresh_env list \<Rightarrow> (nat \<times> nat) list" where
  "fetch_instants m cache [] = []"
| "fetch_instants m cache (env # rest) =
     (if refresh_due m (re_checked_at env) cache then [(re_checked_at env, re_stored_at env)] else [])
     @ fetch_instants m (refresh_keys m env cache) rest"

lemma fetch_instants_after:
  assumes "kc_last_refresh cache = Some prev" and "(c, s) \<in> set (fetch_instants m cache envs)"
    and "sorted (concat (map (\<lambda>e. [re_checked_at e, re_stored_at e]) envs))"
    and "\<forall>e \<in> set envs. prev \<le> re_checked_at e"
  shows "prev + m \<le> c"
  using assms
proof (induction envs arbitrary: cache prev)
  case Nil
  then show ?case by simp
next
  case (Cons e envs)
  show ?case
  proof (cases "refresh_due m (re_checked_at e) cache")
    case False
    then show ?thesis using Cons by (auto simp: refresh_keys_def)
  next
    case True
    then have le: "prev + m \<le> re_checked_at e"
      using Cons.prems by (auto simp: refresh_due_def)
    have last': "kc_last_refresh (refresh_keys m e cache) = Some (re_stored_at e)"
      using True by (simp add: refresh_keys_def refresh_commit_def Let_def split: option.splits)
    from Cons.prems(2) True consider "c = re_checked_at e"
      | "(c, s) \<in> set (fetch_instants m (refresh_keys m e cache) envs)" by auto
    then show ?thesis
    proof cases
      case 1
      then show ?thesis using le by simp
    next
      case 2
      have "re_stored_at e + m \<le> c"
        using Cons.IH [OF last' 2] Cons.prems(3) by auto
      moreover have "re_checked_at e \<le> re_stored_at e" using Cons.prems(3) by simp
      ultimately show ?thesis using le by linarith
    qed
  qed
qed

lemma fetch_instants_spaced:
  assumes "sorted (concat (map (\<lambda>e. [re_checked_at e, re_stored_at e]) envs))"
  shows "sorted_wrt (\<lambda>a b. snd a + m \<le> fst b) (fetch_instants m cache envs)"
  using assms
proof (induction envs arbitrary: cache)
  case Nil
  then show ?case by simp
next
  case (Cons e envs)
  then have IH: "sorted_wrt (\<lambda>a b. snd a + m \<le> fst b) (fetch_instants m (refresh_keys m e cache) envs)"
    by simp
  show ?case
  proof (cases "refresh_due m (re_checked_at e) cache")
    case False
    then show ?thesis using IH by simp
  next
    case True
    then have "kc_last_refresh (refresh_keys m e cache) = Some (re_stored_at e)"
      by (simp add: refresh_keys_def refresh_commit_def Let_def split: option.splits)
    then have "re_stored_at e + m \<le> c" if "(c, s) \<in> set (fetch_instants m (refresh_keys m e cache) envs)" for c s
      using fetch_instants_after [OF _ that] Cons.prems by auto
    then show ?thesis using IH True by auto
  qed
qed

subsection \<open>Concurrent refreshes\<close>

text \<open>
  The age is checked under the read lock, the answer stored under the write lock, and the request to the
  endpoint lies between them without any lock. The system counts the requests in flight.
\<close>

inductive refresh_step ::
  "nat \<Rightarrow> nat \<times> 'k key_cache \<times> nat \<Rightarrow> nat \<times> 'k key_cache \<times> nat \<Rightarrow> bool" for m where
  r_begin: "refresh_due m now cache \<Longrightarrow> refresh_step m (now, cache, n) (now, cache, Suc n)"
| r_commit: "refresh_step m (now, cache, Suc n) (now, refresh_commit now answer cache, n)"
| r_tick: "refresh_step m (now, cache, n) (Suc now, cache, n)"

lemma refresh_step_pileup:
  "refresh_due m now cache \<Longrightarrow> (refresh_step m)\<^sup>*\<^sup>* (now, cache, k) (now, cache, k + n)"
proof (induction n)
  case 0
  then show ?case by simp
next
  case (Suc n)
  then show ?case using r_begin [of m now cache "k + n"] by (simp add: rtranclp.rtrancl_into_rtrancl)
qed

subsection \<open>Properties\<close>

text \<open>C35: verification is sound and complete for what it is configured to accept. A token verifies exactly when its
  header names a key id, there is a usable key under that id, the token decodes under that very key and its
  contract version is supported; the identity is then that of its claims. The usable key is the cached one or,
  when none is cached and the last refresh is at least \<open>min_refresh\<close> old, the last usable entry of that id in the
  key endpoint's answer. The endpoint is asked in that case only, the cache is then stamped, and its keys are
  replaced exactly when the endpoint answered.\<close>

theorem verify_exact:
  "(fst (verify jwt cfg env cache token) = Inr vc \<longleftrightarrow>
     (\<exists>kid key c. jwt_header jwt token = Some (Some kid) \<and>
        usable_key (vf_min_refresh cfg) env cache kid key \<and>
        jwt_decode jwt token key = Some c \<and> cl_ctr c \<in> set (vf_supported_ctr cfg) \<and> vc = into_verified c)) \<and>
   snd (verify jwt cfg env cache token) =
     (if \<exists>kid. jwt_header jwt token = Some (Some kid) \<and> kid \<notin> fst ` set (kc_keys cache) \<and>
           refresh_allowed (vf_min_refresh cfg) env cache
      then \<lparr>kc_keys = (case re_answer env of None \<Rightarrow> kc_keys cache | Some entries \<Rightarrow> collect_keys entries []),
            kc_last_refresh = Some (re_stored_at env)\<rparr>
      else cache)"
proof -
  note key = key_for_kid_usable [of "vf_min_refresh cfg" env cache]
    and left = key_for_kid_cache [of "vf_min_refresh cfg" env cache]
  consider (bad) "\<forall>kid. jwt_header jwt token \<noteq> Some (Some kid)"
    | (kid) kid where "jwt_header jwt token = Some (Some kid)" by blast
  then show ?thesis
  proof cases
    case bad
    then show ?thesis by (auto simp: verify_def split: option.splits)
  next
    case kid
    obtain r cache' where k: "key_for_kid (vf_min_refresh cfg) env cache kid = (r, cache')" by fastforce
    have "snd (verify jwt cfg env cache token) = cache'"
      using kid k by (auto simp: verify_def split: sum.splits option.splits)
    moreover have "fst (verify jwt cfg env cache token) = Inr vc \<longleftrightarrow>
        (\<exists>key c. r = Inr key \<and> jwt_decode jwt token key = Some c \<and> cl_ctr c \<in> set (vf_supported_ctr cfg) \<and>
           vc = into_verified c)"
      using kid k by (auto simp: verify_def split: sum.splits option.splits)
    ultimately show ?thesis using kid key [of kid] left [of kid] k by simp
  qed
qed

text \<open>A key outage degrades nothing that worked. A token whose key is cached is verified without a refresh,
  whatever the endpoint does; a failed refresh keeps every key; and no verification ever puts a key in the
  cache that the endpoint did not serve.\<close>

lemma verify_keeps_good_keys:
  "(jwt_header jwt token = Some (Some kid) \<and> cached_key cache kid \<noteq> None \<longrightarrow>
      verify jwt cfg env cache token = verify jwt cfg env' cache token \<and>
      snd (verify jwt cfg env cache token) = cache) \<and>
   (re_answer env = None \<longrightarrow> kc_keys (snd (verify jwt cfg env cache token)) = kc_keys cache) \<and>
   ((k, key) \<in> set (kc_keys (snd (verify jwt cfg env cache token))) \<longrightarrow>
      (k, key) \<in> set (kc_keys cache) \<or>
      (\<exists>entries. re_answer env = Some entries \<and> (Some k, Some key) \<in> set entries))"
proof -
  let ?v = "snd (verify jwt cfg env cache token)"
  have "verify jwt cfg env cache token = verify jwt cfg env' cache token \<and> ?v = cache"
    if hd: "jwt_header jwt token = Some (Some kid)" and hit: "cached_key cache kid \<noteq> None"
  proof -
    obtain key' where "cached_key cache kid = Some key'" using hit by blast
    then have "key_for_kid (vf_min_refresh cfg) e cache kid = (Inr key', cache)" for e
      by (rule key_for_kid_hit)
    then show ?thesis using hd by (auto simp: verify_def split: option.splits)
  qed
  moreover have "kc_keys ?v = kc_keys cache" if "re_answer env = None"
    using that verify_cache [of jwt cfg env cache token]
      refresh_keys_cases [of "vf_min_refresh cfg" env cache]
    by auto
  moreover have "(k, key) \<in> set (kc_keys cache) \<or>
      (\<exists>entries. re_answer env = Some entries \<and> (Some k, Some key) \<in> set entries)"
    if "(k, key) \<in> set (kc_keys ?v)"
    using that verify_cache [of jwt cfg env cache token]
      refresh_keys_cases [of "vf_min_refresh cfg" env cache] collect_keys_range [of k key _ "[]"]
    by auto
  ultimately show ?thesis by blast
qed

text \<open>One at a time, refreshes are rate-limited. When verifications do not overlap, two requests to the key
  endpoint are at least \<open>min_refresh\<close> apart, counted from the end of the first to the start of the second,
  however many unverifiable tokens arrive between.\<close>

lemma sequential_refreshes_spaced:
  assumes "sorted (concat (map (\<lambda>e. [re_checked_at e, re_stored_at e]) envs))"
  shows "sorted_wrt (\<lambda>a b. snd a + m \<le> fst b) (fetch_instants m cache envs)"
  by (rule fetch_instants_spaced) (rule assms)

text \<open>Overlapping refreshes are not rate-limited. Nothing stops any number of concurrent verifications from each
  finding the cache due and asking the endpoint at the same instant: from a cold cache every number of
  requests in flight is reachable, so a concurrent burst is not bounded by \<open>min_refresh\<close>.\<close>

lemma concurrent_refreshes_unbounded:
  "(refresh_step m)\<^sup>*\<^sup>* (now, key_cache_default, 0) (now, key_cache_default, n)"
  using refresh_step_pileup [of m now key_cache_default 0 n]
  by (simp add: refresh_due_def key_cache_default_def)

end
