(* ===== verification/Http_Egress.thy ===== *)
theory Http_Egress
  imports Ssrf Error_Taxonomy
begin

text \<open>
  The controlled \<^verbatim>\<open>http\<close> client of the sandbox: \<^verbatim>\<open>runlet-core/src/http.rs\<close> with the op-limited metric collector
  of \<^verbatim>\<open>runlet-wire/src/metrics.rs\<close>.

  URL parsing (\<^verbatim>\<open>reqwest::Url\<close>) is outside the repository: the argument \<open>parse\<close> gives the scheme, the host text and
  the effective port of a URL, or \<open>None\<close>. So are the transport (the argument \<open>send\<close>, which gives the status, the
  announced length and the body, or a classified fault; \<open>he_redirects\<close>, where the answers along its way point to)
  and JSON (\<open>json_headers\<close>). Host names and allowlist
  entries are ASCII, where \<^verbatim>\<open>to_lowercase\<close> is the ASCII one.
\<close>

record parsed_url =
  pu_scheme :: string
  pu_host :: "string option"
  pu_port :: "u16 option"

datatype http_error =
    InvalidUrl string
  | SchemeNotAllowed string
  | NoHost string
  | HostNotAllowed string
  | SsrfBlocked ssrf_error

definition ALLOWED_SCHEMES :: "string list" where
  "ALLOWED_SCHEMES = [''http'', ''https'']"

definition is_scheme_allowed :: "string \<Rightarrow> bool" where
  "is_scheme_allowed scheme \<longleftrightarrow> scheme \<in> set ALLOWED_SCHEMES"

definition host_port_text :: "string \<Rightarrow> u16 \<Rightarrow> string" where
  "host_port_text host port = to_ascii_lowercase host @ '':'' @ show_nat (unat port)"

definition is_host_allowed :: "string \<Rightarrow> u16 \<Rightarrow> string list \<Rightarrow> bool \<Rightarrow> bool" where
  "is_host_allowed host port allowed wildcard_allowed =
     (if wildcard_allowed \<and> ''*'' \<in> set allowed then True
      else list_ex (\<lambda>ah. to_ascii_lowercase ah = to_ascii_lowercase host \<or>
                        to_ascii_lowercase ah = host_port_text host port) allowed)"

definition is_local_bypass :: "string \<Rightarrow> u16 \<Rightarrow> string list \<Rightarrow> bool" where
  "is_local_bypass host port allowed =
     list_ex (\<lambda>ah. to_ascii_lowercase ah = host_port_text host port) allowed"

definition rsplit_once :: "char \<Rightarrow> string \<Rightarrow> (string \<times> string) option" where
  "rsplit_once c s =
     (let r = rev s; tail = dropWhile (\<lambda>x. x \<noteq> c) r
      in if tail = [] then None else Some (rev (tl tail), rev (takeWhile (\<lambda>x. x \<noteq> c) r)))"

definition is_u16 :: "string \<Rightarrow> bool" where
  "is_u16 s = (case parse_usize s of Some n \<Rightarrow> n < 2 ^ 16 | None \<Rightarrow> False)"

definition bypass_host_set :: "string list \<Rightarrow> string set" where
  "bypass_host_set allowed =
     set (List.map_filter
       (\<lambda>entry. case rsplit_once CHR '':'' entry of
          None \<Rightarrow> None
        | Some (host, port) \<Rightarrow>
            if is_u16 port \<and> host \<noteq> [] then Some (to_ascii_lowercase host) else None) allowed)"

definition default_port :: "u16 option \<Rightarrow> u16" where
  "default_port p = (case p of Some n \<Rightarrow> n | None \<Rightarrow> 80)"

definition validate_url ::
  "(string \<Rightarrow> parsed_url option) \<Rightarrow> (string \<Rightarrow> u16 \<Rightarrow> dns_answer) \<Rightarrow> string \<Rightarrow> string list \<Rightarrow> bool \<Rightarrow> bool \<Rightarrow>
   (http_error, string) result" where
  "validate_url parse dns url allowed allow_private wildcard_allowed =
     (case parse url of
        None \<Rightarrow> Inl (InvalidUrl url)
      | Some parsed \<Rightarrow>
          if \<not> is_scheme_allowed (pu_scheme parsed) then Inl (SchemeNotAllowed (pu_scheme parsed))
          else (case pu_host parsed of
                  None \<Rightarrow> Inl (NoHost url)
                | Some host \<Rightarrow>
                    (let port = default_port (pu_port parsed)
                     in if \<not> is_host_allowed host port allowed wildcard_allowed
                        then Inl (HostNotAllowed host)
                        else if \<not> is_local_bypass host port allowed
                        then (case block_private_ip (dns host port) host allow_private of
                                Inl e \<Rightarrow> Inl (SsrfBlocked e)
                              | Inr u \<Rightarrow> Inr host)
                        else Inr host)))"

definition MAX_REDIRECTS :: nat where
  "MAX_REDIRECTS = 5"

text \<open>\<open>True\<close> is \<^verbatim>\<open>follow\<close>, \<open>False\<close> is \<^verbatim>\<open>stop\<close>; \<open>previous\<close> is the number of URLs visited so far.\<close>

definition validate_redirect ::
  "(string \<Rightarrow> u16 \<Rightarrow> dns_answer) \<Rightarrow> string list \<Rightarrow> nat \<Rightarrow> parsed_url \<Rightarrow> bool \<Rightarrow> bool \<Rightarrow> bool" where
  "validate_redirect dns hosts previous url allow_private wildcard_allowed =
     (if MAX_REDIRECTS \<le> previous then False
      else if \<not> is_scheme_allowed (pu_scheme url) then False
      else (let host = (case pu_host url of Some h \<Rightarrow> h | None \<Rightarrow> []);
                port = default_port (pu_port url)
            in if \<not> is_host_allowed host port hosts wildcard_allowed then False
               else if \<not> is_local_bypass host port hosts \<and>
                       \<not> is_ok (block_private_ip (dns host port) host allow_private)
               then False else True))"

text \<open>
  The client's redirect loop: it asks the policy about each further target, and stops at the first one
  refused. The result is the list of URLs really requested after the first.
\<close>

fun follow_redirects ::
  "(string \<Rightarrow> u16 \<Rightarrow> dns_answer) \<Rightarrow> string list \<Rightarrow> bool \<Rightarrow> bool \<Rightarrow> nat \<Rightarrow> parsed_url list \<Rightarrow> parsed_url list" where
  "follow_redirects dns hosts ap wc previous [] = []"
| "follow_redirects dns hosts ap wc previous (u # us) =
     (if validate_redirect dns hosts previous u ap wc
      then u # follow_redirects dns hosts ap wc (Suc previous) us else [])"

definition check_local_egress_url ::
  "(string \<Rightarrow> parsed_url option) \<Rightarrow> (string \<Rightarrow> u16 \<Rightarrow> dns_answer) \<Rightarrow> string \<Rightarrow> (http_error, unit) result" where
  "check_local_egress_url parse dns url =
     (case parse url of
        None \<Rightarrow> Inl (InvalidUrl url)
      | Some parsed \<Rightarrow>
          if \<not> is_scheme_allowed (pu_scheme parsed) then Inl (SchemeNotAllowed (pu_scheme parsed))
          else (case pu_host parsed of
                  None \<Rightarrow> Inl (NoHost url)
                | Some host \<Rightarrow>
                    (case require_private_target (dns host (default_port (pu_port parsed))) host of
                       Inl e \<Rightarrow> Inl (SsrfBlocked e)
                     | Inr u \<Rightarrow> Inr ())))"

definition PROTECTED_HEADERS :: "string list" where
  "PROTECTED_HEADERS = [''content-type'', ''content-length'', ''host'', ''transfer-encoding'']"

definition parse_headers ::
  "(string \<Rightarrow> (string \<times> string) list option) \<Rightarrow> string \<Rightarrow> (string \<times> string) list" where
  "parse_headers json_headers headers_json =
     (if headers_json = [] then []
      else filter (\<lambda>(key, _). to_ascii_lowercase key \<notin> set PROTECTED_HEADERS)
             (case json_headers headers_json of Some hs \<Rightarrow> hs | None \<Rightarrow> []))"

subsection \<open>One call\<close>

definition MAX_RESPONSE_BYTES :: nat where
  "MAX_RESPONSE_BYTES = 10 * 1024 * 1024"

definition HTTP_FALLBACK :: fault where
  "HTTP_FALLBACK = fault_new ''HTTP_ERROR'' True Operator"

definition HTTP_OP_LIMIT :: fault where
  "HTTP_OP_LIMIT = fault_new ''HTTP_OP_LIMIT'' False Developer"

definition HTTP_SSRF_BLOCKED :: fault where
  "HTTP_SSRF_BLOCKED = fault_new ''HTTP_SSRF_BLOCKED'' False Developer"

definition HTTP_BODY_TOO_LARGE :: fault where
  "HTTP_BODY_TOO_LARGE = fault_new ''HTTP_BODY_TOO_LARGE'' False Developer"

definition classify_transport :: "bool \<Rightarrow> bool \<Rightarrow> fault" where
  "classify_transport is_timeout is_connect =
     (if is_timeout then fault_new ''HTTP_TIMEOUT'' True Operator
      else if is_connect then fault_new ''HTTP_CONNECT'' True Operator
      else HTTP_FALLBACK)"

record http_request =
  hr_method :: string
  hr_url :: string
  hr_body :: string
  hr_headers :: "(string \<times> string) list"

record http_response =
  ho_status :: u16
  ho_content_length :: "nat option"
  ho_text :: "string option"

datatype transport_failure = BadMethod | Failed bool bool

text \<open>\<^verbatim>\<open>execute_http\<close>: the fault of a failure, or the status and the body.\<close>

definition execute_http ::
  "(http_request \<Rightarrow> (transport_failure, http_response) result) \<Rightarrow> http_request \<Rightarrow>
   (fault, u16 \<times> nat \<times> string) result" where
  "execute_http send req =
     (let req' = (if hr_body req = [] then req
                  else req\<lparr>hr_headers := hr_headers req @ [(''Content-Type'', ''application/json'')]\<rparr>)
      in case send req' of
           Inl BadMethod \<Rightarrow> Inl HTTP_FALLBACK
         | Inl (Failed t c) \<Rightarrow> Inl (classify_transport t c)
         | Inr resp \<Rightarrow>
             if (case ho_content_length resp of Some len \<Rightarrow> MAX_RESPONSE_BYTES < len | None \<Rightarrow> False)
             then Inl HTTP_BODY_TOO_LARGE
             else (case ho_text resp of
                     None \<Rightarrow> Inl HTTP_FALLBACK
                   | Some body \<Rightarrow>
                       if MAX_RESPONSE_BYTES < length body then Inl HTTP_BODY_TOO_LARGE
                       else Inr (ho_status resp, length body, body)))"

record http_metric =
  hm_method :: string
  hm_host :: string
  hm_status :: u16
  hm_request_bytes :: nat
  hm_response_bytes :: nat

text \<open>\<^verbatim>\<open>check_op_limit\<close>: the budget is the number of metrics already recorded.\<close>

definition check_op_limit :: "'m list \<Rightarrow> nat \<Rightarrow> bool" where
  "check_op_limit collector max_ops \<longleftrightarrow> length collector < max_ops"

datatype http_reply = Reply u16 string | InBand fault

definition extract_host :: "(string \<Rightarrow> parsed_url option) \<Rightarrow> string \<Rightarrow> string" where
  "extract_host parse url =
     (case Option.bind (parse url) pu_host of Some h \<Rightarrow> h | None \<Rightarrow> ''unknown'')"

record http_env =
  he_parse :: "string \<Rightarrow> parsed_url option"
  he_dns :: "string \<Rightarrow> u16 \<Rightarrow> dns_answer"
  he_json_headers :: "string \<Rightarrow> (string \<times> string) list option"
  he_send :: "http_request \<Rightarrow> (transport_failure, http_response) result"
  he_redirects :: "http_request \<Rightarrow> parsed_url list"

text \<open>
  The closure behind \<open>__http\<close>: its reply, the grown collector and what it sent, if anything: the request, and the
  redirects its client followed under the policy it was built with.
\<close>

definition http_call ::
  "http_env \<Rightarrow> string list \<Rightarrow> nat \<Rightarrow> bool \<Rightarrow> bool \<Rightarrow> http_metric list \<Rightarrow> string \<Rightarrow> string \<Rightarrow> string \<Rightarrow> string \<Rightarrow>
   http_reply \<times> http_metric list \<times> (http_request \<times> parsed_url list) option" where
  "http_call env hosts max_ops allow_private wildcard collector method url body headers_json =
     (if \<not> check_op_limit collector max_ops then (InBand HTTP_OP_LIMIT, collector, None)
      else (case validate_url (he_parse env) (he_dns env) url hosts allow_private wildcard of
              Inl e \<Rightarrow>
                (InBand HTTP_SSRF_BLOCKED,
                 collector @ [\<lparr>hm_method = method, hm_host = extract_host (he_parse env) url,
                               hm_status = 0, hm_request_bytes = length body, hm_response_bytes = 0\<rparr>], None)
            | Inr host \<Rightarrow>
                (let req = \<lparr>hr_method = method, hr_url = url, hr_body = body,
                            hr_headers = parse_headers (he_json_headers env) headers_json\<rparr>;
                     sent = Some (req, follow_redirects (he_dns env) hosts allow_private wildcard 1 (he_redirects env req));
                     metric = (\<lambda>st n. \<lparr>hm_method = method, hm_host = host, hm_status = st,
                                 hm_request_bytes = length body, hm_response_bytes = n\<rparr>)
                 in case execute_http (he_send env) req of
                      Inr (st, n, text) \<Rightarrow> (Reply st text, collector @ [metric st n], sent)
                    | Inl f \<Rightarrow> (InBand f, collector @ [metric 0 0], sent))))"

subsection \<open>Facts\<close>

lemma read_v4_octet_bracket: "read_v4_octet (CHR ''['' # s) = None"
  by (simp add: read_v4_octet_def digit_val_def)

lemma read_v6_group_bracket: "read_v6_group (CHR ''['' # s) = None"
  by (simp add: read_v6_group_def hex_val_def)

lemma read_groups_bracket: "read_groups (Suc n) 0 (CHR ''['' # s) = ([], False, CHR ''['' # s)"
  by (simp add: separator_def read_ipv4_def read_v4_octet_bracket read_v6_group_bracket)

lemma parse_ip_bracket: "parse_ip (CHR ''['' # s) = None"
proof -
  have "read_groups 8 0 (CHR ''['' # s) = ([], False, CHR ''['' # s)"
    using read_groups_bracket [of 7 s] by (simp add: numeral_eq_Suc)
  then show ?thesis
    by (simp add: parse_ip_def read_ipv4_def read_v4_octet_bracket read_ipv6_def)
qed

lemma validate_url_Inr:
  assumes "validate_url parse dns url allowed ap wc = Inr host"
  shows "\<exists>p port. parse url = Some p \<and> pu_host p = Some host \<and> port = default_port (pu_port p) \<and>
     pu_scheme p \<in> {''http'', ''https''} \<and> is_host_allowed host port allowed wc \<and>
     (is_local_bypass host port allowed \<or> is_ok (block_private_ip (dns host port) host ap))"
  using assms
  by (auto simp: validate_url_def Let_def is_scheme_allowed_def ALLOWED_SCHEMES_def
      split: option.splits if_splits sum.splits)

lemma follow_redirects_bound:
  "length (follow_redirects dns hosts ap wc n us) \<le> MAX_REDIRECTS - n"
proof (induction us arbitrary: n)
  case Nil
  then show ?case by simp
next
  case (Cons u us)
  show ?case
  proof (cases "validate_redirect dns hosts n u ap wc")
    case True
    then have "n < MAX_REDIRECTS" by (auto simp: validate_redirect_def split: if_splits)
    then show ?thesis using Cons.IH [of "Suc n"] True by simp
  next
    case False
    then show ?thesis by simp
  qed
qed

lemma follow_redirects_valid:
  "u \<in> set (follow_redirects dns hosts ap wc n us) \<Longrightarrow> \<exists>m. validate_redirect dns hosts m u ap wc"
  by (induction us arbitrary: n) (auto split: if_splits)

lemma parse_headers_unprotected:
  "(k, v) \<in> set (parse_headers jh s) \<Longrightarrow> to_ascii_lowercase k \<notin> set PROTECTED_HEADERS"
  by (auto simp: parse_headers_def split: if_splits)

subsection \<open>Properties\<close>

definition hop_allowed :: "(string \<Rightarrow> u16 \<Rightarrow> dns_answer) \<Rightarrow> string list \<Rightarrow> bool \<Rightarrow> bool \<Rightarrow> parsed_url \<Rightarrow> bool" where
  "hop_allowed dns hosts ap wc u \<longleftrightarrow>
     pu_scheme u \<in> {''http'', ''https''} \<and>
     (let host = (case pu_host u of Some h \<Rightarrow> h | None \<Rightarrow> []); port = default_port (pu_port u)
      in is_host_allowed host port hosts wc \<and>
         (is_local_bypass host port hosts \<or> is_ok (block_private_ip (dns host port) host ap)))"

text \<open>A redirect chain ends and stays inside the policy. Counting the first URL as visited, at most four
  redirects are followed, and each followed target uses an allowed scheme and an allowed host and passed the
  private-address check or is allowlisted with its port.\<close>

lemma redirects_bounded_and_checked:
  "length (follow_redirects dns hosts ap wc 1 us) \<le> 4 \<and>
   list_all (hop_allowed dns hosts ap wc) (follow_redirects dns hosts ap wc 1 us)"
proof -
  have "length (follow_redirects dns hosts ap wc 1 us) \<le> 4"
    using follow_redirects_bound [of dns hosts ap wc 1 us] by (simp add: MAX_REDIRECTS_def)
  moreover have "hop_allowed dns hosts ap wc u" if "validate_redirect dns hosts m u ap wc" for m u
    using that
    by (auto simp: hop_allowed_def validate_redirect_def is_scheme_allowed_def ALLOWED_SCHEMES_def Let_def split: if_splits)
  ultimately show ?thesis
    using follow_redirects_valid [of _ dns hosts ap wc 1 us] unfolding list_all_iff by blast
qed

text \<open>No request leaves the sandbox unguarded. A call sends a request only within the operation budget, to an
  \<open>http\<close>/\<open>https\<close> URL whose host the allowlist names (or matches by an enabled wildcard) and that passed the
  private-address check unless its exact host and port are allowlisted, and never with a protected header
  of the script's; the redirects it follows, at most four, pass the same checks. Every call within the budget is metered exactly once, so the collector never exceeds the
  budget.\<close>

lemma http_call_guarded:
  assumes "http_call env hosts max_ops ap wc col method url body hj = (reply, col', sent)"
  shows "(sent = Some (req, hops) \<longrightarrow>
            length col < max_ops \<and> hr_url req = url \<and>
            (\<exists>p host. he_parse env url = Some p \<and> pu_host p = Some host \<and>
               pu_scheme p \<in> {''http'', ''https''} \<and>
               is_host_allowed host (default_port (pu_port p)) hosts wc \<and>
               (is_local_bypass host (default_port (pu_port p)) hosts \<or>
                is_ok (block_private_ip (he_dns env host (default_port (pu_port p))) host ap))) \<and>
            (\<forall>(k, v) \<in> set (hr_headers req). to_ascii_lowercase k \<notin> set PROTECTED_HEADERS) \<and>
            length hops \<le> 4 \<and> list_all (hop_allowed (he_dns env) hosts ap wc) hops) \<and>
         length col' = length col + (if length col < max_ops then 1 else 0) \<and>
         (length col \<le> max_ops \<longrightarrow> length col' \<le> max_ops)"
proof -
  have len: "length col' = length col + (if length col < max_ops then 1 else 0)"
    using assms
    by (auto simp: http_call_def check_op_limit_def Let_def split: sum.splits prod.splits if_splits)
  have "length col < max_ops \<and> hr_url req = url \<and>
      (\<exists>host. validate_url (he_parse env) (he_dns env) url hosts ap wc = Inr host) \<and>
      hr_headers req = parse_headers (he_json_headers env) hj \<and>
      hops = follow_redirects (he_dns env) hosts ap wc 1 (he_redirects env req)" if "sent = Some (req, hops)"
    using assms that
    by (auto simp: http_call_def check_op_limit_def Let_def split: sum.splits prod.splits if_splits)
  then show ?thesis
    using len validate_url_Inr [of "he_parse env" "he_dns env" url hosts ap wc]
      parse_headers_unprotected [of _ _ "he_json_headers env" hj]
      redirects_bounded_and_checked [of "he_dns env" hosts ap wc "he_redirects env req"]
    by fastforce
qed

text \<open>The private-address check does not see bracketed IPv6 literals. A URL host of the form \<open>[...]\<close>, the text
  the URL parser gives for an IPv6 host, is never read as an address; when the name lookup of that text
  fails, the unrelaxed check accepts it whatever address the brackets hold, loopback included.\<close>

lemma bracketed_host_unchecked:
  assumes "parse url = Some p" and "pu_host p = Some (CHR ''['' # rest)" and "pu_scheme p = ''http''"
    and "is_host_allowed (CHR ''['' # rest) (default_port (pu_port p)) allowed wc"
    and "dns (CHR ''['' # rest) (default_port (pu_port p)) = None"
  shows "validate_url parse dns url allowed False wc = Inr (CHR ''['' # rest)"
  using assms
  by (simp add: validate_url_def is_scheme_allowed_def ALLOWED_SCHEMES_def Let_def block_private_ip_def
      parse_ip_bracket)

end
