(* ===== verification/Boot_Config.thy ===== *)
theory Boot_Config
  imports Http_Egress Identity Quota
begin

text \<open>
  Configuration and the fail-closed start: engine limits (\<^verbatim>\<open>runlet-core/src/config.rs\<close>), byte sizes
  (\<^verbatim>\<open>runlet-core/src/bytesize.rs\<close>), the server configuration (\<^verbatim>\<open>runlet/src/config/mod.rs\<close>) and its boot guards
  (\<^verbatim>\<open>runlet/src/config/guards.rs\<close>).

  Reading the file and JSON is serde's; the model starts from the deserialised configuration, with the fields
  the modelled code reads. Sizes given as text
  are ASCII. A \<^verbatim>\<open>HashMap\<close> that is enumerated is the list of its entries in the order of the enumeration.
  \<^verbatim>\<open>usize\<close> is 64 bits wide.
\<close>

subsection \<open>Byte sizes\<close>

datatype size_error = SizeDecimal string | SizeNumber string | SizeUnit string string | SizeOverflow string | SizeNegative int | SizeType

definition ascii_alpha :: "char \<Rightarrow> bool" where
  "ascii_alpha c = (let n = of_char c :: nat in 65 \<le> n \<and> n \<le> 90 \<or> 97 \<le> n \<and> n \<le> 122)"

definition size_multiplier :: "string \<Rightarrow> nat option" where
  "size_multiplier unit =
     (if unit \<in> {[], ''b''} then Some 1
      else if unit \<in> {''kb'', ''k''} then Some 1024
      else if unit \<in> {''mb'', ''m''} then Some (1024 * 1024)
      else if unit \<in> {''gb'', ''g''} then Some (1024 * 1024 * 1024)
      else None)"

definition parse_byte_size :: "string \<Rightarrow> (size_error, nat) result" where
  "parse_byte_size input =
     (let lower = to_ascii_lowercase (trim input);
          num_str = takeWhile (\<lambda>c. \<not> ascii_alpha c) lower;
          unit_str = dropWhile (\<lambda>c. \<not> ascii_alpha c) lower
      in case parse_usize (trim num_str) of
           None \<Rightarrow> Inl (if CHR ''.'' \<in> set num_str then SizeDecimal input else SizeNumber input)
         | Some number \<Rightarrow>
             (case size_multiplier (trim unit_str) of
                None \<Rightarrow> Inl (SizeUnit (trim unit_str) input)
              | Some multiplier \<Rightarrow>
                  (case checked_mul number multiplier of
                     None \<Rightarrow> Inl (SizeOverflow input)
                   | Some n \<Rightarrow> Inr n)))"

text \<open>The visitor: the value as serde presents it, an unsigned or a signed number, a text or something else.\<close>

datatype size_value = SizeU64 u64 | SizeI64 int | SizeStr string | SizeOther

fun deserialize_byte_size :: "size_value \<Rightarrow> (size_error, nat) result" where
  "deserialize_byte_size (SizeU64 v) = Inr (unat v)"
| "deserialize_byte_size (SizeI64 v) = (if 0 \<le> v then Inr (nat v) else Inl (SizeNegative v))"
| "deserialize_byte_size (SizeStr s) = parse_byte_size s"
| "deserialize_byte_size SizeOther = Inl SizeType"

subsection \<open>Engine limits\<close>

record engine_config =
  ec_memory_limit :: nat
  ec_max_stack_size :: nat
  ec_timeout_ms :: u64
  ec_pool_size :: nat
  ec_max_script_size :: nat
  ec_max_context_size :: nat
  ec_max_ops :: nat
  ec_max_emit_kind_len :: nat
  ec_log_level :: log_level
  ec_max_log_entries :: nat
  ec_max_log_entry_bytes :: nat
  ec_max_log_total_bytes :: nat
  ec_max_output_size :: nat
  ec_max_concurrent_executions :: nat
  ec_max_concurrent_per_partition :: nat
  ec_partition_buckets :: nat
  ec_allow_wildcard_hosts :: bool

definition PARSE_HEAP_FACTOR :: nat where "PARSE_HEAP_FACTOR = 4"
definition CONTEXT_LIMIT_DIVISOR :: nat where "CONTEXT_LIMIT_DIVISOR = 8"
definition AUTO_CONCURRENCY_FACTOR :: nat where "AUTO_CONCURRENCY_FACTOR = 16"
definition DEFAULT_PARTITION_BUCKETS :: nat where "DEFAULT_PARTITION_BUCKETS = 256"

definition engine_config_default :: engine_config where
  "engine_config_default =
     \<lparr>ec_memory_limit = 32 * 1024 * 1024, ec_max_stack_size = 512 * 1024, ec_timeout_ms = 4000,
      ec_pool_size = 0, ec_max_script_size = 1024 * 1024, ec_max_context_size = 0, ec_max_ops = 1500,
      ec_max_emit_kind_len = 64, ec_log_level = LInfo, ec_max_log_entries = 256,
      ec_max_log_entry_bytes = 256 * 1024, ec_max_log_total_bytes = 1024 * 1024,
      ec_max_output_size = 0, ec_max_concurrent_executions = 0, ec_max_concurrent_per_partition = 0,
      ec_partition_buckets = 0, ec_allow_wildcard_hosts = False\<rparr>"

definition resolved_max_concurrent :: "engine_config \<Rightarrow> nat \<Rightarrow> nat" where
  "resolved_max_concurrent cfg pool_size =
     (if 0 < ec_max_concurrent_executions cfg then ec_max_concurrent_executions cfg
      else (let auto = usat_mul pool_size AUTO_CONCURRENCY_FACTOR in if 0 < auto then auto else 1))"

definition resolved_partition_buckets :: "engine_config \<Rightarrow> nat" where
  "resolved_partition_buckets cfg =
     (if 0 < ec_partition_buckets cfg then ec_partition_buckets cfg else DEFAULT_PARTITION_BUCKETS)"

definition max_body_size :: "engine_config \<Rightarrow> nat" where
  "max_body_size cfg =
     usat_add (usat_add (ec_max_script_size cfg) (ec_max_context_size cfg)) (64 * 1024)"

text \<open>\<open>Inl\<close> carries the rejected size and the ceiling.\<close>

definition resolve_limits :: "engine_config \<Rightarrow> (nat \<times> nat, engine_config) result" where
  "resolve_limits cfg =
     (let cfg1 = (if ec_max_context_size cfg = 0
                  then cfg\<lparr>ec_max_context_size := ec_memory_limit cfg div CONTEXT_LIMIT_DIVISOR\<rparr> else cfg);
          parse_ceiling = ec_memory_limit cfg1 div PARSE_HEAP_FACTOR
      in if parse_ceiling < ec_max_context_size cfg1
         then Inl (ec_max_context_size cfg1, parse_ceiling) else Inr cfg1)"

subsection \<open>Server configuration\<close>

record contract_config =
  cc_enabled :: bool
  cc_jwks_url :: string
  cc_issuer :: string
  cc_audience :: string
  cc_supported_ctr :: "string list"
  cc_leeway_secs :: u64
  cc_min_refresh_secs :: u64

definition contract_config_default :: contract_config where
  "contract_config_default =
     \<lparr>cc_enabled = False, cc_jwks_url = [], cc_issuer = [], cc_audience = [],
      cc_supported_ctr = [''v1''], cc_leeway_secs = 60, cc_min_refresh_secs = 30\<rparr>"

record trusted_config =
  tc_enabled :: bool
  tc_assert_network_isolation :: bool
  tc_headers :: trusted_headers
  tc_capability_entitlements :: "(string \<times> string) list"
  tc_allowed_principal_kinds :: "string list"
  tc_quota_enabled :: bool
  tc_quota_plans :: plan_limits
  tc_contract :: contract_config

definition trusted_config_default :: trusted_config where
  "trusted_config_default =
     \<lparr>tc_enabled = False, tc_assert_network_isolation = False, tc_headers = trusted_headers_default,
      tc_capability_entitlements = [], tc_allowed_principal_kinds = [], tc_quota_enabled = False,
      tc_quota_plans = [], tc_contract = contract_config_default\<rparr>"

record batch_config =
  bt_max_items :: nat
  bt_max_input_bytes :: nat
  bt_max_response_bytes :: nat
  bt_max_shared_bytes :: nat

definition batch_config_default :: batch_config where
  "batch_config_default =
     \<lparr>bt_max_items = 25, bt_max_input_bytes = 4 * 1024 * 1024, bt_max_response_bytes = 8 * 1024 * 1024,
      bt_max_shared_bytes = 4 * 1024 * 1024\<rparr>"

record broker_quic =
  bq_replicas :: "string list"
  bq_server_name :: string
  bq_server_cert_pin :: string
  bq_auth_token :: "string option"
  bq_auth_token_file :: "string option"

record events_config =
  evc_enabled :: bool
  evc_buffer :: nat
  evc_block_timeout_ms :: u64
  evc_log_buffer :: nat

definition events_config_default :: events_config where
  "events_config_default =
     \<lparr>evc_enabled = False, evc_buffer = 4096, evc_block_timeout_ms = 5, evc_log_buffer = 8192\<rparr>"

record config =
  cf_debug :: bool
  cf_error_debug :: bool
  cf_host :: ip_addr
  cf_port :: u16
  cf_engine :: engine_config
  cf_scripts_dir :: "string option"
  cf_modules_dir :: "string option"
  cf_access_token :: "string option"
  cf_allow_unauthenticated :: bool
  cf_broker_socket :: "string option"
  cf_broker_quic :: "broker_quic option"
  cf_local_resources :: "(string \<times> string) list"
  cf_trusted :: trusted_config
  cf_events :: events_config
  cf_batch :: batch_config
  cf_timeout_retryable :: bool
  cf_retry_after_seconds :: u32
  cf_default_currency :: "string option"

definition config_default :: config where
  "config_default =
     \<lparr>cf_debug = False, cf_error_debug = False, cf_host = V4 (Ipv4 127 0 0 1), cf_port = 3000,
      cf_engine = engine_config_default, cf_scripts_dir = None, cf_modules_dir = None, cf_access_token = None,
      cf_allow_unauthenticated = False, cf_broker_socket = None, cf_broker_quic = None,
      cf_local_resources = [], cf_trusted = trusted_config_default, cf_events = events_config_default, cf_batch = batch_config_default,
      cf_timeout_retryable = True, cf_retry_after_seconds = 1, cf_default_currency = None\<rparr>"

definition is_truthy :: "string \<Rightarrow> bool" where
  "is_truthy raw \<longleftrightarrow> to_ascii_lowercase (trim raw) \<in> {''1'', ''true'', ''yes'', ''on''}"

definition apply_auth_overrides :: "config \<Rightarrow> string option \<Rightarrow> string option \<Rightarrow> config" where
  "apply_auth_overrides cfg access_token allow_unauthenticated =
     (let cfg1 = (case access_token of
                    Some token \<Rightarrow> if token \<noteq> [] then cfg\<lparr>cf_access_token := Some token\<rparr> else cfg
                  | None \<Rightarrow> cfg)
      in if (case allow_unauthenticated of Some raw \<Rightarrow> is_truthy raw | None \<Rightarrow> False)
         then cfg1\<lparr>cf_allow_unauthenticated := True\<rparr> else cfg1)"

text \<open>\<^verbatim>\<open>Config::load\<close> after the file is read: the environment overrides, then the limits.\<close>

definition load_config ::
  "config option \<Rightarrow> string option \<Rightarrow> string option \<Rightarrow> (nat \<times> nat, config) result" where
  "load_config file token allow =
     (let cfg = apply_auth_overrides (case file of Some c \<Rightarrow> c | None \<Rightarrow> config_default) token allow
      in case resolve_limits (cf_engine cfg) of
           Inl e \<Rightarrow> Inl e
         | Inr engine \<Rightarrow> Inr (cfg\<lparr>cf_engine := engine\<rparr>))"

subsection \<open>Boot guards\<close>

datatype boot_error =
    ExposedWithoutToken
  | TrustedNotIsolated
  | SsrfRelaxed bool
  | LocalResourceInvalid string string http_error
  | ContractFieldMissing string
  | KindsWithoutContract
  | UnknownPrincipalKind string

definition VALID_PRINCIPAL_KINDS :: "string list" where
  "VALID_PRINCIPAL_KINDS = [''user'', ''apikey'', ''service'']"

fun is_loopback :: "ip_addr \<Rightarrow> bool" where
  "is_loopback (V4 ip) = v4_is_loopback ip"
| "is_loopback (V6 ip) \<longleftrightarrow> ip = Ipv6 0 0 0 0 0 0 0 1"

definition check_trusted_isolation :: "config \<Rightarrow> bool \<Rightarrow> (boot_error, unit) result" where
  "check_trusted_isolation cfg exposed =
     (if tc_enabled (cf_trusted cfg) \<and> exposed \<and> \<not> tc_assert_network_isolation (cf_trusted cfg)
      then Inl TrustedNotIsolated else Inr ())"

definition check_ssrf_relaxation :: "config \<Rightarrow> bool \<Rightarrow> (boot_error, unit) result" where
  "check_ssrf_relaxation cfg exposed =
     (let relaxed = cf_debug cfg \<or> ec_allow_wildcard_hosts (cf_engine cfg)
      in if relaxed \<and> exposed \<and> \<not> tc_assert_network_isolation (cf_trusted cfg)
         then Inl (SsrfRelaxed (cf_debug cfg)) else Inr ())"

fun check_local_resources ::
  "(string \<Rightarrow> parsed_url option) \<Rightarrow> (string \<Rightarrow> u16 \<Rightarrow> dns_answer) \<Rightarrow> (string \<times> string) list \<Rightarrow>
   (boot_error, unit) result" where
  "check_local_resources parse dns [] = Inr ()"
| "check_local_resources parse dns ((name, url) # rest) =
     (case check_local_egress_url parse dns url of
        Inl e \<Rightarrow> Inl (LocalResourceInvalid name url e)
      | Inr u \<Rightarrow> check_local_resources parse dns rest)"

definition check_contract_config :: "config \<Rightarrow> (boot_error, unit) result" where
  "check_contract_config cfg =
     (let contract = tc_contract (cf_trusted cfg)
      in if \<not> cc_enabled contract then Inr ()
         else if trim (cc_jwks_url contract) = [] then Inl (ContractFieldMissing ''jwks_url'')
         else if trim (cc_issuer contract) = [] then Inl (ContractFieldMissing ''issuer'')
         else if trim (cc_audience contract) = [] then Inl (ContractFieldMissing ''audience'')
         else Inr ())"

definition check_principal_kind_admission :: "config \<Rightarrow> (boot_error, unit) result" where
  "check_principal_kind_admission cfg =
     (let allowed = tc_allowed_principal_kinds (cf_trusted cfg)
      in if allowed = [] then Inr ()
         else if \<not> cc_enabled (tc_contract (cf_trusted cfg)) then Inl KindsWithoutContract
         else (case List.find (\<lambda>kind. kind \<notin> set VALID_PRINCIPAL_KINDS) allowed of
                 Some bad \<Rightarrow> Inl (UnknownPrincipalKind bad)
               | None \<Rightarrow> Inr ()))"

definition check_exposure ::
  "(string \<Rightarrow> parsed_url option) \<Rightarrow> (string \<Rightarrow> u16 \<Rightarrow> dns_answer) \<Rightarrow> config \<Rightarrow> (boot_error, unit) result" where
  "check_exposure parse dns cfg =
     (let exposed = \<not> is_loopback (cf_host cfg)
      in if exposed \<and> cf_access_token cfg = None \<and> \<not> cf_allow_unauthenticated cfg
         then Inl ExposedWithoutToken
         else then_check (check_trusted_isolation cfg exposed)
                (then_check (check_ssrf_relaxation cfg exposed)
                  (then_check (check_local_resources parse dns (cf_local_resources cfg))
                    (then_check (check_contract_config cfg)
                      (then_check (check_principal_kind_admission cfg) (Inr ()))))))"

subsection \<open>Facts\<close>

lemma check_local_resources_ok:
  "is_ok (check_local_resources parse dns rs) \<longleftrightarrow> (\<forall>(name, url) \<in> set rs. is_ok (check_local_egress_url parse dns url))"
  by (induction parse dns rs rule: check_local_resources.induct) (auto split: sum.splits)

lemma find_Some_in: "List.find P xs = Some x \<Longrightarrow> x \<in> set xs \<and> P x"
  by (induction xs) (auto split: if_splits)

lemma is_ok_then_check: "is_ok (then_check r k) \<longleftrightarrow> is_ok r \<and> is_ok k"
  by (cases r) auto

lemma guard_ok:
  "is_ok (check_trusted_isolation cfg ex) \<longleftrightarrow>
     (tc_enabled (cf_trusted cfg) \<and> ex \<longrightarrow> tc_assert_network_isolation (cf_trusted cfg))"
  "is_ok (check_ssrf_relaxation cfg ex) \<longleftrightarrow>
     ((cf_debug cfg \<or> ec_allow_wildcard_hosts (cf_engine cfg)) \<and> ex \<longrightarrow>
        tc_assert_network_isolation (cf_trusted cfg))"
  "is_ok (check_contract_config cfg) \<longleftrightarrow>
     (cc_enabled (tc_contract (cf_trusted cfg)) \<longrightarrow>
        trim (cc_jwks_url (tc_contract (cf_trusted cfg))) \<noteq> [] \<and>
        trim (cc_issuer (tc_contract (cf_trusted cfg))) \<noteq> [] \<and>
        trim (cc_audience (tc_contract (cf_trusted cfg))) \<noteq> [])"
  "is_ok (check_principal_kind_admission cfg) \<longleftrightarrow>
     (tc_allowed_principal_kinds (cf_trusted cfg) \<noteq> [] \<longrightarrow>
        cc_enabled (tc_contract (cf_trusted cfg)) \<and>
        set (tc_allowed_principal_kinds (cf_trusted cfg)) \<subseteq> {''user'', ''apikey'', ''service''})"
proof -
  show "is_ok (check_trusted_isolation cfg ex) \<longleftrightarrow>
     (tc_enabled (cf_trusted cfg) \<and> ex \<longrightarrow> tc_assert_network_isolation (cf_trusted cfg))"
    by (simp add: check_trusted_isolation_def)
  show "is_ok (check_ssrf_relaxation cfg ex) \<longleftrightarrow>
     ((cf_debug cfg \<or> ec_allow_wildcard_hosts (cf_engine cfg)) \<and> ex \<longrightarrow>
        tc_assert_network_isolation (cf_trusted cfg))"
    by (auto simp: check_ssrf_relaxation_def Let_def)
  show "is_ok (check_contract_config cfg) \<longleftrightarrow>
     (cc_enabled (tc_contract (cf_trusted cfg)) \<longrightarrow>
        trim (cc_jwks_url (tc_contract (cf_trusted cfg))) \<noteq> [] \<and>
        trim (cc_issuer (tc_contract (cf_trusted cfg))) \<noteq> [] \<and>
        trim (cc_audience (tc_contract (cf_trusted cfg))) \<noteq> [])"
    by (simp add: check_contract_config_def Let_def)
  show "is_ok (check_principal_kind_admission cfg) \<longleftrightarrow>
     (tc_allowed_principal_kinds (cf_trusted cfg) \<noteq> [] \<longrightarrow>
        cc_enabled (tc_contract (cf_trusted cfg)) \<and>
        set (tc_allowed_principal_kinds (cf_trusted cfg)) \<subseteq> {''user'', ''apikey'', ''service''})"
    by (auto simp: check_principal_kind_admission_def VALID_PRINCIPAL_KINDS_def Let_def find_None_iff
        dest!: find_Some_in split: option.splits)
qed

lemma digit_not_alpha: "digit_val c \<noteq> None \<Longrightarrow> \<not> ascii_alpha c \<and> to_ascii_lower c = c \<and> \<not> ascii_ws c"
  by (auto simp: digit_val_def ascii_alpha_def to_ascii_lower_def ascii_ws_def Let_def split: if_splits)

lemma trim_id:
  assumes "s \<noteq> []" and "\<not> ascii_ws (hd s)" and "\<not> ascii_ws (last s)"
  shows "trim s = s"
proof -
  have d: "dropWhile ascii_ws t = t" if "t \<noteq> []" "\<not> ascii_ws (hd t)" for t
    using that by (cases t) simp_all
  have "dropWhile ascii_ws s = s" using assms by (intro d)
  moreover have "dropWhile ascii_ws (rev s) = rev s" using assms by (intro d) (simp_all add: hd_rev)
  ultimately show ?thesis by (simp add: trim_def)
qed

lemma show_nat_facts:
  "list_all (\<lambda>c. \<not> ascii_alpha c) (show_nat n)" "map to_ascii_lower (show_nat n) = show_nat n"
  "\<not> ascii_ws (hd (show_nat n))" "\<not> ascii_ws (last (show_nat n))" "trim (show_nat n) = show_nat n"
proof -
  have d: "\<not> ascii_alpha c \<and> to_ascii_lower c = c \<and> \<not> ascii_ws c" if "c \<in> set (show_nat n)" for c
    using digit_not_alpha [OF show_nat_digits [OF that]] .
  show "list_all (\<lambda>c. \<not> ascii_alpha c) (show_nat n)" using d by (auto simp: list_all_iff)
  show "map to_ascii_lower (show_nat n) = show_nat n" using d by (intro map_idI) blast
  show h: "\<not> ascii_ws (hd (show_nat n))" and l: "\<not> ascii_ws (last (show_nat n))"
    using d show_nat_nonempty [of n] by (auto simp: hd_in_set last_in_set)
  show "trim (show_nat n) = show_nat n" by (rule trim_id [OF show_nat_nonempty h l])
qed

definition size_units :: "string list" where
  "size_units = [[], ''b'', ''kb'', ''k'', ''mb'', ''m'', ''gb'', ''g'']"

lemma size_unit_facts:
  assumes "u \<in> set size_units"
  shows "map to_ascii_lower u = u" "list_all ascii_alpha u" "trim u = u" "u \<noteq> [] \<Longrightarrow> \<not> ascii_ws (last u)"
  using assms
  by (auto simp: size_units_def to_ascii_lower_def ascii_alpha_def trim_def ascii_ws_def Let_def)

lemma split_number_unit:
  assumes "list_all (\<lambda>c. \<not> ascii_alpha c) a" and "list_all ascii_alpha u"
  shows "takeWhile (\<lambda>c. \<not> ascii_alpha c) (a @ u) = a" "dropWhile (\<lambda>c. \<not> ascii_alpha c) (a @ u) = u"
proof -
  have "takeWhile (\<lambda>c. \<not> ascii_alpha c) u = []" "dropWhile (\<lambda>c. \<not> ascii_alpha c) u = u"
    using assms(2) by (cases u; simp)+
  then show "takeWhile (\<lambda>c. \<not> ascii_alpha c) (a @ u) = a" "dropWhile (\<lambda>c. \<not> ascii_alpha c) (a @ u) = u"
    using assms(1) by (simp_all add: list_all_iff takeWhile_append dropWhile_append)
qed

subsection \<open>Properties\<close>

text \<open>The box starts only in a safe posture. The start gate passes exactly when all of these hold: an exposed bind
  has a token or the explicit opt-out; an exposed bind with trusted headers, with the private-address
  relaxation or with wildcard hosts asserts network isolation; every box-direct binding points at a
  co-located target; an enabled contract mode names its key source, issuer and audience; and a principal-kind
  allowlist needs the contract mode and names only known kinds.\<close>

lemma check_exposure_ok:
  "is_ok (check_exposure parse dns cfg) \<longleftrightarrow>
   (\<not> is_loopback (cf_host cfg) \<longrightarrow>
      (cf_access_token cfg \<noteq> None \<or> cf_allow_unauthenticated cfg) \<and>
      (tc_enabled (cf_trusted cfg) \<or> cf_debug cfg \<or> ec_allow_wildcard_hosts (cf_engine cfg) \<longrightarrow>
         tc_assert_network_isolation (cf_trusted cfg))) \<and>
   (\<forall>(name, url) \<in> set (cf_local_resources cfg). is_ok (check_local_egress_url parse dns url)) \<and>
   (cc_enabled (tc_contract (cf_trusted cfg)) \<longrightarrow>
      trim (cc_jwks_url (tc_contract (cf_trusted cfg))) \<noteq> [] \<and>
      trim (cc_issuer (tc_contract (cf_trusted cfg))) \<noteq> [] \<and>
      trim (cc_audience (tc_contract (cf_trusted cfg))) \<noteq> []) \<and>
   (tc_allowed_principal_kinds (cf_trusted cfg) \<noteq> [] \<longrightarrow>
      cc_enabled (tc_contract (cf_trusted cfg)) \<and>
      set (tc_allowed_principal_kinds (cf_trusted cfg)) \<subseteq> {''user'', ''apikey'', ''service''})"
proof (cases "\<not> is_loopback (cf_host cfg) \<and> cf_access_token cfg = None \<and> \<not> cf_allow_unauthenticated cfg")
  case True
  then show ?thesis by (simp add: check_exposure_def)
next
  case False
  then have "is_ok (check_exposure parse dns cfg) \<longleftrightarrow>
      is_ok (check_trusted_isolation cfg (\<not> is_loopback (cf_host cfg))) \<and>
      is_ok (check_ssrf_relaxation cfg (\<not> is_loopback (cf_host cfg))) \<and>
      is_ok (check_local_resources parse dns (cf_local_resources cfg)) \<and>
      is_ok (check_contract_config cfg) \<and> is_ok (check_principal_kind_admission cfg)"
    unfolding check_exposure_def Let_def if_not_P [OF False] is_ok_then_check by simp
  then show ?thesis using False unfolding guard_ok check_local_resources_ok by argo
qed

text \<open>A loaded configuration is always runnable. When the limits resolve, any context within the byte limit costs
  at most the memory limit to parse (four times its size), a limit left at zero is an eighth of the memory
  limit, only that field changes, and loading fails exactly when an explicit limit exceeds a quarter of the
  memory limit; the bulkhead and the bucket count it resolves are never zero.\<close>

lemma resolve_limits_sound:
  "(resolve_limits cfg = Inr cfg' \<longrightarrow>
      ec_max_context_size cfg' * PARSE_HEAP_FACTOR \<le> ec_memory_limit cfg' \<and>
      cfg' = cfg\<lparr>ec_max_context_size :=
        (if ec_max_context_size cfg = 0 then ec_memory_limit cfg div 8 else ec_max_context_size cfg)\<rparr>) \<and>
   (is_ok (resolve_limits cfg) \<longleftrightarrow> ec_max_context_size cfg \<le> ec_memory_limit cfg div 4) \<and>
   0 < resolved_max_concurrent cfg pool \<and> 0 < resolved_partition_buckets cfg"
proof -
  have "ec_memory_limit cfg div 8 \<le> ec_memory_limit cfg div 4" by (rule div_le_mono2) simp_all
  moreover have "x \<le> m div 4 \<Longrightarrow> x * 4 \<le> m" for x m :: nat by (simp add: less_eq_div_iff_mult_less_eq)
  ultimately have "(resolve_limits cfg = Inr cfg' \<longrightarrow>
      ec_max_context_size cfg' * PARSE_HEAP_FACTOR \<le> ec_memory_limit cfg' \<and>
      cfg' = cfg\<lparr>ec_max_context_size :=
        (if ec_max_context_size cfg = 0 then ec_memory_limit cfg div 8 else ec_max_context_size cfg)\<rparr>) \<and>
    (is_ok (resolve_limits cfg) \<longleftrightarrow> ec_max_context_size cfg \<le> ec_memory_limit cfg div 4)"
    by (auto simp: resolve_limits_def Let_def PARSE_HEAP_FACTOR_def CONTEXT_LIMIT_DIVISOR_def not_less)
  moreover have "0 < resolved_max_concurrent cfg pool" "0 < resolved_partition_buckets cfg"
    by (simp_all add: resolved_max_concurrent_def resolved_partition_buckets_def Let_def
        DEFAULT_PARTITION_BUCKETS_def)
  ultimately show ?thesis by blast
qed

text \<open>Whatever way a size is written, an accepted one fits the machine word.\<close>

lemma byte_size_fits:
  assumes "deserialize_byte_size v = Inr n" and "\<forall>i. v = SizeI64 i \<longrightarrow> i < 2 ^ 63"
  shows "n \<le> usize_max"
proof (cases v)
  case (SizeU64 u)
  have "unat u < 2 ^ 64" using unsigned_less [of u] by simp
  then show ?thesis using assms SizeU64 by (simp add: usize_max_def)
qed (use assms in \<open>auto simp: parse_byte_size_def checked_mul_def usize_max_def Let_def split: option.splits if_splits\<close>)

text \<open>Byte sizes mean what they say. Writing a number and one of the accepted units reads back as the number
  times the unit when that fits the machine word and as the overflow error when it does not; it never wraps.\<close>

lemma parse_byte_size_roundtrip:
  assumes "n \<le> usize_max" and "u \<in> set size_units"
  shows "\<exists>m. size_multiplier u = Some m \<and>
    parse_byte_size (show_nat n @ u) =
      (if n * m \<le> usize_max then Inr (n * m) else Inl (SizeOverflow (show_nat n @ u)))"
proof -
  note u = size_unit_facts [OF assms(2)] and s = show_nat_facts [of n]
  obtain m where m: "size_multiplier u = Some m"
    using assms(2) by (auto simp: size_units_def size_multiplier_def)
  have "trim (show_nat n @ u) = show_nat n @ u"
    using show_nat_nonempty [of n] s(3,4) u(4) by (intro trim_id) (cases "u = []"; simp)+
  moreover have "to_ascii_lowercase (show_nat n @ u) = show_nat n @ u"
    using s(2) u(1) by (simp add: to_ascii_lowercase_def)
  ultimately show ?thesis
    using m split_number_unit [OF s(1) u(2)] s(5) u(3) parse_usize_show_nat [OF assms(1)]
    by (simp add: parse_byte_size_def Let_def checked_mul_def)
qed

end
