(* ===== verification/Observability.thy ===== *)
theory Observability
  imports Identity
begin

text \<open>
  Counters and events: \<^verbatim>\<open>runlet-core/src/metrics.rs\<close> and the event envelope of \<^verbatim>\<open>runlet/src/events.rs\<close>.

  Atomic counters are \<open>u64\<close> words whose \<^verbatim>\<open>fetch_add\<close> wraps. The id, version and timestamp an event is minted with
  come from the UUID generator and the clock and are left out.
\<close>

subsection \<open>Latency histograms\<close>

definition LATENCY_BUCKETS_US :: "u64 list" where
  "LATENCY_BUCKETS_US =
     [1000, 5000, 10000, 25000, 50000, 100000, 250000, 500000, 1000000, 2500000, 5000000, 10000000]"

record latency_histogram =
  lh_buckets :: "u64 list"
  lh_sum_us :: u64
  lh_count :: u64

definition latency_histogram_default :: latency_histogram where
  "latency_histogram_default = \<lparr>lh_buckets = replicate 12 0, lh_sum_us = 0, lh_count = 0\<rparr>"

text \<open>The loop over the bounds zipped with the counters: the first bucket the value falls within is bumped.\<close>

fun bump_bucket :: "u64 \<Rightarrow> u64 list \<Rightarrow> u64 list \<Rightarrow> u64 list" where
  "bump_bucket micros (b # bs) (c # cs) =
     (if micros \<le> b then (c + 1) # cs else c # bump_bucket micros bs cs)"
| "bump_bucket micros _ cs = cs"

definition observe :: "latency_histogram \<Rightarrow> u64 \<Rightarrow> latency_histogram" where
  "observe h micros =
     h\<lparr>lh_buckets := bump_bucket micros LATENCY_BUCKETS_US (lh_buckets h),
       lh_count := lh_count h + 1, lh_sum_us := lh_sum_us h + micros\<rparr>"

text \<open>The cumulative counts \<^verbatim>\<open>render_series\<close> prints, in bucket order.\<close>

fun cumulate :: "u64 \<Rightarrow> u64 list \<Rightarrow> u64 list" where
  "cumulate acc [] = []"
| "cumulate acc (c # cs) = (let acc' = saturating_add acc c in acc' # cumulate acc' cs)"

definition render_buckets :: "latency_histogram \<Rightarrow> u64 list" where
  "render_buckets h = cumulate 0 (lh_buckets h) @ [lh_count h]"

text \<open>A \<^verbatim>\<open>u128\<close> of microseconds is clamped to \<^verbatim>\<open>u64::MAX\<close>.\<close>

definition clamp_u64 :: "nat \<Rightarrow> u64" where
  "clamp_u64 n = (if n < 2 ^ 64 then of_nat n else - 1)"

subsection \<open>Counters\<close>

datatype capability = CapDb | CapMongo | CapHttp | CapMail | CapS3 | CapRedis | CapAmq | CapAuth

record metrics =
  mx_success :: u64
  mx_script_error :: u64
  mx_capability_error :: u64
  mx_timeout :: u64
  mx_memory_limit :: u64
  mx_malformed_response :: u64
  mx_internal_error :: u64
  mx_rejections :: u64
  mx_overload_global :: u64
  mx_overload_partition :: u64
  mx_exec_latency :: latency_histogram
  mx_cap_latency :: "capability \<Rightarrow> latency_histogram"

definition metrics_default :: metrics where
  "metrics_default =
     \<lparr>mx_success = 0, mx_script_error = 0, mx_capability_error = 0, mx_timeout = 0, mx_memory_limit = 0,
      mx_malformed_response = 0, mx_internal_error = 0, mx_rejections = 0, mx_overload_global = 0,
      mx_overload_partition = 0, mx_exec_latency = latency_histogram_default,
      mx_cap_latency = (\<lambda>_. latency_histogram_default)\<rparr>"

definition record_success :: "metrics \<Rightarrow> metrics" where
  "record_success m = m\<lparr>mx_success := mx_success m + 1\<rparr>"

fun record_engine_error :: "metrics \<Rightarrow> engine_error \<Rightarrow> metrics" where
  "record_engine_error m (Syntax s) = m\<lparr>mx_script_error := mx_script_error m + 1\<rparr>"
| "record_engine_error m (ScriptNotFound s) = m\<lparr>mx_script_error := mx_script_error m + 1\<rparr>"
| "record_engine_error m (ModuleNotFound s) = m\<lparr>mx_script_error := mx_script_error m + 1\<rparr>"
| "record_engine_error m HandlerNotDefined = m\<lparr>mx_script_error := mx_script_error m + 1\<rparr>"
| "record_engine_error m (ScriptErr s st) = m\<lparr>mx_script_error := mx_script_error m + 1\<rparr>"
| "record_engine_error m (CapabilityError c) = m\<lparr>mx_capability_error := mx_capability_error m + 1\<rparr>"
| "record_engine_error m (Timeout l) = m\<lparr>mx_timeout := mx_timeout m + 1\<rparr>"
| "record_engine_error m MemoryLimit = m\<lparr>mx_memory_limit := mx_memory_limit m + 1\<rparr>"
| "record_engine_error m (Malformed s) = m\<lparr>mx_malformed_response := mx_malformed_response m + 1\<rparr>"
| "record_engine_error m (OutputTooLarge a b) = m\<lparr>mx_malformed_response := mx_malformed_response m + 1\<rparr>"
| "record_engine_error m (Internal s) = m\<lparr>mx_internal_error := mx_internal_error m + 1\<rparr>"
| "record_engine_error m ShuttingDown = m\<lparr>mx_internal_error := mx_internal_error m + 1\<rparr>"

definition record_rejection :: "metrics \<Rightarrow> metrics" where
  "record_rejection m = m\<lparr>mx_rejections := mx_rejections m + 1\<rparr>"

definition record_overload_global :: "metrics \<Rightarrow> metrics" where
  "record_overload_global m = m\<lparr>mx_overload_global := mx_overload_global m + 1\<rparr>"

definition record_overload_partition :: "metrics \<Rightarrow> metrics" where
  "record_overload_partition m = m\<lparr>mx_overload_partition := mx_overload_partition m + 1\<rparr>"

definition observe_execution :: "metrics \<Rightarrow> nat \<Rightarrow> metrics" where
  "observe_execution m micros = m\<lparr>mx_exec_latency := observe (mx_exec_latency m) (clamp_u64 micros)\<rparr>"

definition observe_op :: "metrics \<Rightarrow> capability \<Rightarrow> nat \<Rightarrow> metrics" where
  "observe_op m cap micros =
     m\<lparr>mx_cap_latency := (mx_cap_latency m)(cap := observe (mx_cap_latency m cap) (clamp_u64 micros))\<rparr>"

text \<open>The value of the series an engine error is counted in, by the outcome label of its span.\<close>

definition outcome_counter :: "metrics \<Rightarrow> string \<Rightarrow> u64" where
  "outcome_counter m outcome =
     (if outcome = ''success'' then mx_success m
      else if outcome = ''script_error'' then mx_script_error m
      else if outcome = ''capability_error'' then mx_capability_error m
      else if outcome = ''timeout'' then mx_timeout m
      else if outcome = ''memory_limit'' then mx_memory_limit m
      else if outcome = ''malformed_response'' then mx_malformed_response m
      else mx_internal_error m)"

definition outcomes :: "string list" where
  "outcomes = [''success'', ''script_error'', ''capability_error'', ''timeout'', ''memory_limit'',
     ''malformed_response'', ''internal_error'']"

subsection \<open>Events\<close>

record capability_ops =
  co_db :: nat
  co_mongo :: nat
  co_http :: nat
  co_mail :: nat
  co_s3 :: nat
  co_redis :: nat
  co_amq :: nat
  co_auth :: nat

record usage_body =
  ub_outcome :: string
  ub_exec_time_us :: nat
  ub_input_bytes :: nat
  ub_ops :: capability_ops

record audit_body =
  ab_decision :: string
  ab_reason :: "string option"
  ab_detail :: "json option"

record log_body =
  lb_level :: string
  lb_template :: string
  lb_properties :: json
  lb_message :: string
  lb_seq :: u64
  lb_offset_us :: "nat option"

datatype event_body = Usage usage_body | Audit audit_body | Log log_body

record event =
  ev_tenant :: "string option"
  ev_user :: "string option"
  ev_plan :: "string option"
  ev_trace_id :: string
  ev_body :: event_body

definition event_new ::
  "string option \<Rightarrow> string option \<Rightarrow> string option \<Rightarrow> string \<Rightarrow> event_body \<Rightarrow> event" where
  "event_new tenant user plan trace_id body =
     \<lparr>ev_tenant = tenant, ev_user = user, ev_plan = plan, ev_trace_id = trace_id, ev_body = body\<rparr>"

definition identity_fields ::
  "trusted_identity option \<Rightarrow> string option \<times> string option \<times> string option" where
  "identity_fields i =
     (case i of None \<Rightarrow> (None, None, None) | Some t \<Rightarrow> (id_tenant t, id_user t, id_plan t))"

text \<open>
  The lossy sink: two bounded channels with a drop counter each. Whether a channel takes an event is the
  channel's answer, \<open>accepted\<close>: for the precious one, that a slot freed within the blocking window; for the log
  channel, that a slot was free.
\<close>

record log_sink =
  sk_tx :: "event list"
  sk_dropped :: u64
  sk_log_tx :: "event list"
  sk_log_dropped :: u64

definition sink_record :: "bool \<Rightarrow> log_sink \<Rightarrow> event \<Rightarrow> log_sink" where
  "sink_record accepted sink ev =
     (if accepted then sink\<lparr>sk_tx := sk_tx sink @ [ev]\<rparr> else sink\<lparr>sk_dropped := sk_dropped sink + 1\<rparr>)"

definition sink_record_log :: "bool \<Rightarrow> log_sink \<Rightarrow> event \<Rightarrow> log_sink" where
  "sink_record_log accepted sink ev =
     (if accepted then sink\<lparr>sk_log_tx := sk_log_tx sink @ [ev]\<rparr>
      else sink\<lparr>sk_log_dropped := sk_log_dropped sink + 1\<rparr>)"

subsection \<open>Histogram facts\<close>

text \<open>The number of observations up to a bound, and those in the bucket below it.\<close>

definition at_most :: "u64 list \<Rightarrow> u64 \<Rightarrow> nat" where
  "at_most xs b = length (filter (\<lambda>x. x \<le> b) xs)"

fun bucket_counts :: "u64 list \<Rightarrow> u64 list \<Rightarrow> nat list" where
  "bucket_counts xs [] = []"
| "bucket_counts xs (b # bs) = at_most xs b # bucket_counts (filter (\<lambda>x. \<not> x \<le> b) xs) bs"

lemma length_bucket_counts [simp]: "length (bucket_counts xs bs) = length bs"
  by (induction xs bs rule: bucket_counts.induct) simp_all

lemma bump_bucket_counts:
  "cs = map of_nat (bucket_counts xs bs) \<Longrightarrow>
   bump_bucket x bs cs = map of_nat (bucket_counts (xs @ [x]) bs)"
proof (induction xs bs arbitrary: cs rule: bucket_counts.induct)
  case (1 xs)
  then show ?case by simp
next
  case (2 xs b bs)
  then show ?case by (auto simp: at_most_def)
qed

lemma observe_all_buckets:
  "lh_buckets (foldl observe latency_histogram_default xs) = map of_nat (bucket_counts xs LATENCY_BUCKETS_US)"
proof (induction xs rule: rev_induct)
  case Nil
  show ?case by (simp add: latency_histogram_default_def LATENCY_BUCKETS_US_def at_most_def numeral_eq_Suc)
next
  case (snoc x xs)
  then show ?case using bump_bucket_counts [OF snoc.IH] by (simp add: observe_def)
qed

lemma observe_all_count: "lh_count (foldl observe latency_histogram_default xs) = of_nat (length xs)"
  by (induction xs rule: rev_induct) (simp_all add: latency_histogram_default_def observe_def)

lemma at_most_split:
  "a \<le> b \<Longrightarrow> at_most xs a + at_most (filter (\<lambda>x. \<not> x \<le> a) xs) b = at_most xs b"
  by (induction xs) (auto simp: at_most_def)

lemma cumulate_counts:
  assumes "sorted (a # bs)" and "length xs < 2 ^ 64" and "acc = of_nat (at_most xs a)"
  shows "cumulate acc (map of_nat (bucket_counts (filter (\<lambda>x. \<not> x \<le> a) xs) bs)) = map (\<lambda>b. of_nat (at_most xs b)) bs"
  using assms
proof (induction bs arbitrary: a acc)
  case Nil
  then show ?case by simp
next
  case (Cons b bs)
  let ?ys = "filter (\<lambda>x. \<not> x \<le> a) xs"
  have ab: "a \<le> b" using Cons.prems(1) by simp
  have le: "at_most xs b \<le> length xs" by (simp add: at_most_def)
  have s: "at_most xs a + at_most ?ys b = at_most xs b" by (rule at_most_split [OF ab])
  have u: "unat (of_nat (at_most xs a) :: u64) = at_most xs a" "unat (of_nat (at_most ?ys b) :: u64) = at_most ?ys b"
    using s le Cons.prems(2) by (intro unat_of_nat_u64; linarith)+
  have acc': "saturating_add acc (of_nat (at_most ?ys b)) = of_nat (at_most xs b)"
  proof -
    have "unat acc + unat (of_nat (at_most ?ys b) :: u64) < 2 ^ 64"
      using u s le Cons.prems(2,3) by simp
    then show ?thesis using s Cons.prems(3) by (simp add: saturating_add_def flip: of_nat_add)
  qed
  have f: "filter (\<lambda>x. \<not> x \<le> b) ?ys = filter (\<lambda>x. \<not> x \<le> b) xs"
    using ab by (auto simp: filter_filter intro!: filter_cong)
  show ?case using Cons.IH [of b "of_nat (at_most xs b)"] Cons.prems(1,2) acc' f by simp
qed

lemma sorted_latency_bounds: "sorted LATENCY_BUCKETS_US"
  by (simp add: LATENCY_BUCKETS_US_def)

subsection \<open>Properties\<close>

text \<open>The latency histogram is a Prometheus histogram. After any sequence of fewer than \<open>2 ^ 64\<close> observations,
  the cumulative count rendered for each bound is the number of observations up to that bound and the last
  one the number of all observations, outliers included.\<close>

lemma histogram_counts:
  assumes "length xs < 2 ^ 64"
  shows "map unat (render_buckets (foldl observe latency_histogram_default xs)) =
    map (\<lambda>b. length (filter (\<lambda>x. x \<le> b) xs)) LATENCY_BUCKETS_US @ [length xs]"
proof -
  obtain b bs where L: "LATENCY_BUCKETS_US = b # bs" by (simp add: LATENCY_BUCKETS_US_def)
  have le: "at_most xs c \<le> length xs" for c by (simp add: at_most_def)
  have u: "unat (of_nat (at_most xs c) :: u64) = at_most xs c" for c
    using le [of c] assms by (intro unat_of_nat_u64) linarith
  have "saturating_add 0 (of_nat (at_most xs b)) = (of_nat (at_most xs b) :: u64)"
    using u [of b] le [of b] assms by (simp add: saturating_add_def)
  then have "cumulate 0 (map of_nat (bucket_counts xs LATENCY_BUCKETS_US)) =
      map (\<lambda>b. of_nat (at_most xs b)) LATENCY_BUCKETS_US"
    using cumulate_counts [OF _ assms refl, of b bs] sorted_latency_bounds by (simp add: L)
  then show ?thesis
    using u unat_of_nat_u64 [OF assms]
    by (simp add: render_buckets_def observe_all_buckets observe_all_count at_most_def [symmetric])
qed

text \<open>Spans, metrics and usage events agree. Recording an engine error bumps exactly the counter of its outcome
  label and no other outcome's, and the label is never that of a success.\<close>

lemma engine_error_counted_once:
  "(o' \<in> set outcomes \<longrightarrow>
      outcome_counter (record_engine_error m e) o' =
      outcome_counter m o' + (if o' = engine_error_outcome e then 1 else 0)) \<and>
   engine_error_outcome e \<in> set outcomes - {''success''} \<and>
   mx_rejections (record_engine_error m e) = mx_rejections m"
  by (cases e) (auto simp: outcomes_def outcome_counter_def)

end
