(* ===== verification/Response.thy ===== *)
theory Response
  imports Observability
begin

text \<open>
  Response assembly: \<^verbatim>\<open>runlet/src/handler/response.rs\<close> and the response-shaping policy of
  \<^verbatim>\<open>runlet/src/handler/types.rs\<close>.

  A response is its status, its body fields and its \<^verbatim>\<open>Retry-After\<close> header. Raw JSON is its text. Reading the
  handler's \<^verbatim>\<open>{data, error}\<close> envelope is serde's: the argument \<open>read_envelope\<close> gives the two texts or the parse
  error.
\<close>

record op_metric =
  om_duration_us :: nat
  om_json :: json

record meta =
  mt_trace_id :: string
  mt_key :: "string option"
  mt_partition :: "string option"
  mt_script_bytes :: nat
  mt_context_bytes :: nat
  mt_total_input_bytes :: nat
  mt_exec_time_us :: nat
  mt_io :: "string \<rightharpoonup> json"

definition meta_new :: "string \<Rightarrow> nat \<Rightarrow> nat \<Rightarrow> nat \<Rightarrow> meta" where
  "meta_new trace_id script_bytes context_bytes exec_time_us =
     \<lparr>mt_trace_id = trace_id, mt_key = None, mt_partition = None, mt_script_bytes = script_bytes,
      mt_context_bytes = context_bytes, mt_total_input_bytes = usat_add script_bytes context_bytes,
      mt_exec_time_us = exec_time_us, mt_io = Map.empty\<rparr>"

definition with_key :: "meta \<Rightarrow> string option \<Rightarrow> meta" where
  "with_key m key = m\<lparr>mt_key := key\<rparr>"

definition with_partition :: "meta \<Rightarrow> string option \<Rightarrow> meta" where
  "with_partition m pkey = m\<lparr>mt_partition := pkey\<rparr>"

definition base_error_meta :: "string \<Rightarrow> nat \<Rightarrow> nat \<Rightarrow> string option \<Rightarrow> string option \<Rightarrow> meta" where
  "base_error_meta trace_id script_bytes context_bytes key pkey =
     with_partition (with_key (meta_new trace_id script_bytes context_bytes 0) key) pkey"

definition insert_io :: "(string \<rightharpoonup> json) \<Rightarrow> string \<Rightarrow> op_metric list \<Rightarrow> (string \<rightharpoonup> json)" where
  "insert_io io name ms = (if ms = [] then io else io(name \<mapsto> JArr (map om_json ms)))"

definition io_count :: "(string \<rightharpoonup> json) \<Rightarrow> string \<Rightarrow> nat" where
  "io_count io name = (case io name of Some (JArr xs) \<Rightarrow> length xs | _ \<Rightarrow> 0)"

record exec_metrics =
  xm_http :: "op_metric list"
  xm_s3 :: "op_metric list"

record backend_metrics =
  bm_db :: "op_metric list"
  bm_mongo :: "op_metric list"
  bm_mail :: "op_metric list"
  bm_redis :: "op_metric list"
  bm_amq :: "op_metric list"
  bm_auth :: "op_metric list"

record egress_metrics =
  em_backend :: backend_metrics
  em_local :: "(string \<times> op_metric list) list"

definition backend_metrics_default :: backend_metrics where
  "backend_metrics_default =
     \<lparr>bm_db = [], bm_mongo = [], bm_mail = [], bm_redis = [], bm_amq = [], bm_auth = []\<rparr>"

definition egress_metrics_default :: egress_metrics where
  "egress_metrics_default = \<lparr>em_backend = backend_metrics_default, em_local = []\<rparr>"

definition with_metrics :: "meta \<Rightarrow> exec_metrics \<Rightarrow> egress_metrics \<Rightarrow> meta" where
  "with_metrics m x e =
     (let backend = em_backend e;
          io1 = insert_io (insert_io (mt_io m) ''http'' (xm_http x)) ''s3'' (xm_s3 x);
          io2 = insert_io (insert_io (insert_io io1 ''db'' (bm_db backend)) ''mongo'' (bm_mongo backend))
                  ''mail'' (bm_mail backend);
          io3 = insert_io (insert_io (insert_io io2 ''redis'' (bm_redis backend)) ''amq'' (bm_amq backend))
                  ''auth'' (bm_auth backend)
      in m\<lparr>mt_io := foldl (\<lambda>io (name, ops). insert_io io name ops) io3 (em_local e)\<rparr>)"

subsection \<open>Responses\<close>

record effect =
  ef_kind :: string
  ef_value :: string

record log_entry =
  le_level :: log_level
  le_template :: string
  le_properties :: string
  le_message :: string
  le_seq :: u64
  le_offset_us :: "nat option"

datatype response_error = HandlerError string | SystemError error_envelope

record response =
  rp_status :: u16
  rp_data :: "string option"
  rp_error :: response_error
  rp_meta :: meta
  rp_effects :: "effect list"
  rp_logs :: "log_entry list option"
  rp_retry_after :: "u32 option"

record resp_cfg =
  rc_error_debug :: bool
  rc_timeout_retryable :: bool
  rc_retry_after_seconds :: u32

definition status_code :: "u16 \<Rightarrow> u16 \<Rightarrow> u16" where
  "status_code status fallback = (if 100 \<le> status \<and> status < 1000 then status else fallback)"

definition system_error_response_with_effects ::
  "error_envelope \<Rightarrow> u16 \<Rightarrow> meta \<Rightarrow> effect list \<Rightarrow> log_entry list option \<Rightarrow> response" where
  "system_error_response_with_effects error status m effects logs =
     \<lparr>rp_status = status_code status 500, rp_data = None, rp_error = SystemError error, rp_meta = m,
      rp_effects = effects, rp_logs = logs, rp_retry_after = None\<rparr>"

definition system_error_response :: "error_envelope \<Rightarrow> u16 \<Rightarrow> meta \<Rightarrow> response" where
  "system_error_response error status m = system_error_response_with_effects error status m [] None"

definition add_retry_after :: "response \<Rightarrow> u32 \<Rightarrow> response" where
  "add_retry_after r seconds = r\<lparr>rp_retry_after := Some seconds\<rparr>"

definition projected_error_response_with_effects ::
  "error_envelope \<Rightarrow> meta \<Rightarrow> effect list \<Rightarrow> log_entry list option \<Rightarrow> resp_cfg \<Rightarrow> response" where
  "projected_error_response_with_effects error m effects logs cfg =
     (let projected = project_envelope error;
          r = system_error_response_with_effects error (pr_status projected) m effects logs
      in if pr_retry_after projected then add_retry_after r (rc_retry_after_seconds cfg) else r)"

definition projected_error_response :: "error_envelope \<Rightarrow> meta \<Rightarrow> resp_cfg \<Rightarrow> response" where
  "projected_error_response error m cfg = projected_error_response_with_effects error m [] None cfg"

definition engine_error_response ::
  "engine_error \<Rightarrow> meta \<Rightarrow> effect list \<Rightarrow> log_entry list option \<Rightarrow> resp_cfg \<Rightarrow> response" where
  "engine_error_response err m effects logs cfg =
     projected_error_response_with_effects
       (into_envelope err (rc_error_debug cfg) (rc_timeout_retryable cfg)) m effects logs cfg"

definition handler_envelope_response ::
  "(string \<Rightarrow> bool option option) \<Rightarrow> string \<times> string \<Rightarrow> meta \<Rightarrow> effect list \<Rightarrow> log_entry list option \<Rightarrow>
   resp_cfg \<Rightarrow> response" where
  "handler_envelope_response read_retryable env m effects logs cfg =
     (let projected = handler_status read_retryable (snd env);
          r = \<lparr>rp_status = status_code (pr_status projected) 200, rp_data = Some (fst env),
               rp_error = HandlerError (snd env), rp_meta = m, rp_effects = effects, rp_logs = logs,
               rp_retry_after = None\<rparr>
      in if pr_retry_after projected then add_retry_after r (rc_retry_after_seconds cfg) else r)"

record json_readers =
  jr_retryable :: "string \<Rightarrow> bool option option"
  jr_envelope :: "string \<Rightarrow> (string, string \<times> string) result"
  jr_properties :: "string \<Rightarrow> json option"

definition success_response ::
  "json_readers \<Rightarrow> string \<Rightarrow> meta \<Rightarrow> effect list \<Rightarrow> log_entry list option \<Rightarrow> resp_cfg \<Rightarrow> response" where
  "success_response readers js_json m effects logs cfg =
     (case jr_envelope readers js_json of
        Inr env \<Rightarrow> handler_envelope_response (jr_retryable readers) env m effects logs cfg
      | Inl parse_err \<Rightarrow>
          engine_error_response (Malformed (''malformed handler response: '' @ parse_err)) m effects logs cfg)"

subsection \<open>Broker session errors\<close>

datatype session_error = Resolve string string | Unavailable string | Protocol string

fun session_error_envelope :: "session_error \<Rightarrow> error_envelope" where
  "session_error_envelope (Resolve code message) = request_error code message"
| "session_error_envelope (Unavailable message) =
     with_message (envelope_new CatRuntime SrcEngine ''EGRESS_UNAVAILABLE'' True Operator) message"
| "session_error_envelope (Protocol raw) =
     with_message (envelope_new CatRuntime SrcEngine ''EGRESS_PROTOCOL'' False Operator)
       ''egress protocol error''"

definition session_error_response :: "session_error \<Rightarrow> meta \<Rightarrow> resp_cfg \<Rightarrow> response" where
  "session_error_response err m cfg = projected_error_response (session_error_envelope err) m cfg"

subsection \<open>Facts\<close>

text \<open>
  The contract every response keeps: the status is one of the projected ones and the header is present exactly
  on the retryable \<open>5xx\<close> class.
\<close>

definition response_ok :: "resp_cfg \<Rightarrow> response \<Rightarrow> bool" where
  "response_ok cfg r \<longleftrightarrow>
     rp_status r \<in> {200, 400, 401, 403, 404, 409, 413, 422, 500, 503} \<and>
     rp_retry_after r = (if rp_status r \<in> {500, 503} then Some (rc_retry_after_seconds cfg) else None)"

lemma system_error_response_ok:
  "status \<in> {400, 401, 403} \<Longrightarrow> response_ok cfg (system_error_response e status m)"
  by (auto simp: response_ok_def system_error_response_def system_error_response_with_effects_def status_code_def)

lemma projected_error_response_we_ok:
  "response_ok cfg (projected_error_response_with_effects e m ef lg cfg)"
proof -
  let ?p = "project_envelope e"
  have r: "pr_retry_after ?p = ee_retryable e"
    by (simp add: project_envelope_def project_retry_after)
  have s: "pr_status ?p \<in> (if ee_retryable e then {500, 503} else {400, 404, 409, 413, 422})"
    unfolding project_envelope_def by (rule project_status_cases)
  then have c: "status_code (pr_status ?p) 500 = pr_status ?p"
    by (auto simp: status_code_def split: if_splits)
  show ?thesis
    using s by (auto simp: response_ok_def projected_error_response_with_effects_def
        system_error_response_with_effects_def add_retry_after_def Let_def r c split: if_splits)
qed

lemma projected_error_response_ok: "response_ok cfg (projected_error_response e m cfg)"
  by (simp add: projected_error_response_def projected_error_response_we_ok)

lemma engine_error_response_ok: "response_ok cfg (engine_error_response err m ef lg cfg)"
  by (simp add: engine_error_response_def projected_error_response_we_ok)

lemma handler_envelope_response_ok: "response_ok cfg (handler_envelope_response rd env m ef lg cfg)"
  by (auto simp: response_ok_def handler_envelope_response_def handler_status_def status_code_def
      add_retry_after_def Let_def)

lemma success_response_ok: "response_ok cfg (success_response readers js m ef lg cfg)"
  by (simp add: success_response_def handler_envelope_response_ok engine_error_response_ok split: sum.splits)

lemma session_error_response_ok: "response_ok cfg (session_error_response err m cfg)"
  by (simp add: session_error_response_def projected_error_response_ok)

lemmas response_oks = system_error_response_ok projected_error_response_ok engine_error_response_ok
  handler_envelope_response_ok success_response_ok session_error_response_ok

end
