(* ===== verification/Handler.thy ===== *)
theory Handler
  imports Response Contract Boot_Config Admission
begin

text \<open>
  The \<^verbatim>\<open>/execute\<close> request pipeline: \<^verbatim>\<open>runlet/src/handler/{mod,gates,telemetry,types}.rs\<close> and
  \<^verbatim>\<open>runlet-core/src/sandbox.rs\<close>.

  \<open>app_config\<close> is the immutable part of \<^verbatim>\<open>AppState\<close>; \<open>world\<close> is what its shared cells hold (the semaphores, the quota
  table, the key cache, the counters) and the list of events handed to the sink. What lies outside the
  repository is in \<open>env\<close>: the semaphore and hash operations, the JWT decoder and the answer of the key
  endpoint, the minted ids, the broker connection (\<^verbatim>\<open>connect_session\<close>) and serde's readers; the engine run is the
  value \<open>engine_result\<close> the second half of the pipeline receives.

  The pipeline is cut where the request awaits its execution: \<open>run_execute_begin\<close> ends in a response or in an
  \<open>inflight\<close> execution holding its permits, \<open>run_execute_finish\<close> takes its result to the response. Between the two
  any number of other requests may begin or finish.
\<close>

subsection \<open>Requests\<close>

record request_config =
  rq_allowed_hosts :: "string list"
  rq_s3 :: "json option"
  rq_sys :: "json option"
  rq_io :: "string list"
  rq_currency :: "string option"

record exec_request =
  xr_script :: "string option"
  xr_key :: "string option"
  xr_partition :: "string option"
  xr_context :: string
  xr_config :: request_config

datatype script_source = Inline string | Registered string

fun script_text :: "script_source \<Rightarrow> string" where
  "script_text (Inline s) = s"
| "script_text (Registered s) = s"

definition broker_names :: "string list \<Rightarrow> (string \<rightharpoonup> string) \<Rightarrow> string list" where
  "broker_names io local_resources = filter (\<lambda>name. local_resources name = None) io"

record wire_init =
  wi_resources :: "string list"
  wi_timeout_ms :: u64
  wi_tenant :: "string option"
  wi_actor :: "string option"
  wi_principal_kind :: "string option"
  wi_on_behalf_of :: "string option"
  wi_token :: "string option"

definition make_wire_init ::
  "string list \<Rightarrow> u64 \<Rightarrow> string option \<Rightarrow> string option \<Rightarrow> string option \<Rightarrow> string option \<Rightarrow> wire_init" where
  "make_wire_init resources timeout tenant actor principal_kind on_behalf_of =
     \<lparr>wi_resources = resources, wi_timeout_ms = timeout, wi_tenant = tenant, wi_actor = actor,
      wi_principal_kind = principal_kind, wi_on_behalf_of = on_behalf_of, wi_token = None\<rparr>"

definition requested_capabilities :: "request_config \<Rightarrow> string list" where
  "requested_capabilities config =
     rq_io config @ (if rq_allowed_hosts config \<noteq> [] then [''http''] else [])
       @ (if rq_s3 config \<noteq> None then [''s3''] else [])"

subsection \<open>Shared state\<close>

record trusted_runtime =
  tr_headers :: trusted_headers
  tr_capability_entitlements :: "(string \<times> string) list"
  tr_allowed_principal_kinds :: "string list"
  tr_contract :: "verifier_config option"

record app_config =
  ac_registry :: "string \<rightharpoonup> string"
  ac_engine :: engine_config
  ac_error_debug :: bool
  ac_local_resources :: "string \<rightharpoonup> string"
  ac_bulkhead_capacity :: nat
  ac_access_token :: "string option"
  ac_trusted :: "trusted_runtime option"
  ac_events :: bool
  ac_batch :: batch_config
  ac_timeout_retryable :: bool
  ac_retry_after_seconds :: u32
  ac_default_currency :: "string option"

definition resp_cfg_of :: "app_config \<Rightarrow> resp_cfg" where
  "resp_cfg_of cfg =
     \<lparr>rc_error_debug = ac_error_debug cfg, rc_timeout_retryable = ac_timeout_retryable cfg,
      rc_retry_after_seconds = ac_retry_after_seconds cfg\<rparr>"

record ('k, 's) world =
  wd_gates :: "'s gate_state"
  wd_quota :: "tenant_quota option"
  wd_keys :: "'k key_cache"
  wd_metrics :: metrics
  wd_events :: "event list"

record ('k, 's, 'c) env =
  en_ops :: "'s semaphore_ops"
  en_hash :: "string \<Rightarrow> u64"
  en_jwt :: "'k jwt_ops"
  en_refresh :: "'k refresh_env"
  en_trace_id :: string
  en_fresh_id :: string
  en_connect :: "wire_init \<Rightarrow> (session_error, 'c) result"
  en_readers :: json_readers

definition on_metrics :: "(metrics \<Rightarrow> metrics) \<Rightarrow> ('k, 's) world \<Rightarrow> ('k, 's) world" where
  "on_metrics f w = w\<lparr>wd_metrics := f (wd_metrics w)\<rparr>"

definition sink :: "app_config \<Rightarrow> event list \<Rightarrow> ('k, 's) world \<Rightarrow> ('k, 's) world" where
  "sink cfg es w = (if ac_events cfg then w\<lparr>wd_events := wd_events w @ es\<rparr> else w)"

definition denied_event :: "trusted_identity option \<Rightarrow> string \<Rightarrow> string \<Rightarrow> json option \<Rightarrow> event" where
  "denied_event i trace_id reason detail =
     (case identity_fields i of (tenant, user, plan) \<Rightarrow>
        event_new tenant user plan trace_id
          (Audit \<lparr>ab_decision = ''denied'', ab_reason = Some reason, ab_detail = detail\<rparr>))"

definition emit_denied ::
  "app_config \<Rightarrow> trusted_identity option \<Rightarrow> string \<Rightarrow> string \<Rightarrow> json option \<Rightarrow> ('k, 's) world \<Rightarrow> ('k, 's) world" where
  "emit_denied cfg i trace_id reason detail w = sink cfg [denied_event i trace_id reason detail] w"

subsection \<open>Authentication and identity\<close>

definition unauthorized_response :: "string \<Rightarrow> response" where
  "unauthorized_response fresh_id =
     system_error_response (request_error ''UNAUTHORIZED'' ''missing or invalid bearer token'') 401
       (meta_new fresh_id 0 0 0)"

definition enforce_auth ::
  "app_config \<Rightarrow> string \<Rightarrow> header_map \<Rightarrow> ('k, 's) world \<Rightarrow> response option \<times> ('k, 's) world" where
  "enforce_auth cfg fresh_id headers w =
     (case ac_access_token cfg of
        None \<Rightarrow> (None, w)
      | Some expected \<Rightarrow>
          if request_authorized headers expected then (None, w)
          else (Some (unauthorized_response fresh_id), on_metrics record_rejection w))"

definition identity_rejected :: "string \<Rightarrow> string \<Rightarrow> string \<Rightarrow> response" where
  "identity_rejected trace_id code message =
     system_error_response (request_error code message) 403 (meta_new trace_id 0 0 0)"

definition deny_identity ::
  "app_config \<Rightarrow> trusted_identity option \<Rightarrow> string \<Rightarrow> string \<Rightarrow> string \<Rightarrow> ('k, 's) world \<Rightarrow>
   (response, 'a) result \<times> ('k, 's) world" where
  "deny_identity cfg i trace_id code message w =
     (Inl (identity_rejected trace_id code message), emit_denied cfg i trace_id code None w)"

definition enforce_principal_kind_admission ::
  "app_config \<Rightarrow> trusted_identity \<Rightarrow> trusted_runtime \<Rightarrow> string \<Rightarrow> ('k, 's) world \<Rightarrow>
   (response, trusted_identity option) result \<times> ('k, 's) world" where
  "enforce_principal_kind_admission cfg i trusted trace_id w =
     (if principal_kind_admitted (tr_allowed_principal_kinds trusted) (id_principal_kind i) then (Inr (Some i), w)
      else deny_identity cfg (Some i) trace_id ''PRINCIPAL_KIND_FORBIDDEN''
             ''this box does not admit the caller's principal kind'' w)"

definition resolve_identity_contract ::
  "app_config \<Rightarrow> ('k, 's, 'c) env \<Rightarrow> header_map \<Rightarrow> trusted_runtime \<Rightarrow> verifier_config \<Rightarrow> ('k, 's) world \<Rightarrow>
   (response, trusted_identity) result \<times> ('k, 's) world" where
  "resolve_identity_contract cfg env headers trusted verifier w =
     (let trace_id = en_trace_id env in
      case header_value headers (th_contract (tr_headers trusted)) of
        None \<Rightarrow>
          deny_identity cfg None trace_id ''CONTRACT_MISSING'' ''a verifiable identity contract is required'' w
      | Some token \<Rightarrow>
          (case verify (en_jwt env) verifier (en_refresh env) (wd_keys w) token of
             (Inl err, keys) \<Rightarrow>
               deny_identity cfg None trace_id (contract_error_code err) (contract_error_message err)
                 (w\<lparr>wd_keys := keys\<rparr>)
           | (Inr claims, keys) \<Rightarrow>
               (let w1 = w\<lparr>wd_keys := keys\<rparr>;
                    i = apply_contract (from_headers headers (tr_headers trusted)) claims
                in case vc_suspended claims of
                     Some True \<Rightarrow>
                       deny_identity cfg (Some i) trace_id ''SUSPENDED_FORBIDDEN''
                         ''a suspended principal may not execute code'' w1
                   | None \<Rightarrow>
                       deny_identity cfg (Some i) trace_id ''SUSPENDED_UNKNOWN''
                         ''suspension state is unknown; refusing fail-closed'' w1
                   | Some False \<Rightarrow>
                       if id_tenant i = None
                       then deny_identity cfg (Some i) trace_id ''TENANT_REQUIRED''
                              ''the identity contract carries no acting workspace'' w1
                       else (Inr i, w1))))"

definition resolve_identity ::
  "app_config \<Rightarrow> ('k, 's, 'c) env \<Rightarrow> header_map \<Rightarrow> ('k, 's) world \<Rightarrow>
   (response, trusted_identity option) result \<times> ('k, 's) world" where
  "resolve_identity cfg env headers w =
     (let trace_id = en_trace_id env in
      case ac_trusted cfg of
        None \<Rightarrow> (Inr None, w)
      | Some trusted \<Rightarrow>
          (case tr_contract trusted of
             Some verifier \<Rightarrow>
               (case resolve_identity_contract cfg env headers trusted verifier w of
                  (Inl rejection, w1) \<Rightarrow> (Inl rejection, w1)
                | (Inr i, w1) \<Rightarrow> enforce_principal_kind_admission cfg i trusted trace_id w1)
           | None \<Rightarrow>
               (let i = from_headers headers (tr_headers trusted) in
                if id_anonymous i
                then deny_identity cfg (Some i) trace_id ''ANONYMOUS_FORBIDDEN''
                       ''anonymous callers may not execute code'' w
                else if id_suspended i
                then deny_identity cfg (Some i) trace_id ''SUSPENDED_FORBIDDEN''
                       ''a suspended principal may not execute code'' w
                else if id_tenant i = None
                then deny_identity cfg (Some i) trace_id ''TENANT_REQUIRED''
                       ''trusted-header mode requires a tenant identity'' w
                else if id_scope i \<noteq> Some ''acting''
                then deny_identity cfg (Some i) trace_id ''ACTING_SCOPE_REQUIRED''
                       ''trusted-header mode requires the edge to assert acting-org scope'' w
                else enforce_principal_kind_admission cfg i trusted trace_id w)))"

subsection \<open>Request gates\<close>

definition malformed_request_response :: "app_config \<Rightarrow> string \<Rightarrow> string \<Rightarrow> response" where
  "malformed_request_response cfg fresh_id body_text =
     (let base = request_error ''MALFORMED_REQUEST'' ''request body is not valid for /execute'';
          envelope = (if ac_error_debug cfg
                      then with_debug base \<lparr>db_stack = None, db_raw = Some body_text\<rparr> else base)
      in system_error_response envelope 400 (meta_new fresh_id 0 0 0))"

definition enforce_member_authz ::
  "app_config \<Rightarrow> trusted_identity option \<Rightarrow> request_config \<Rightarrow> string \<Rightarrow> ('k, 's) world \<Rightarrow>
   response option \<times> ('k, 's) world" where
  "enforce_member_authz cfg identity config trace_id w =
     (case (ac_trusted cfg, identity) of
        (Some trusted, Some i) \<Rightarrow>
          (case authorize_capabilities (tr_capability_entitlements trusted) (requested_capabilities config) i of
             Inr u \<Rightarrow> (None, w)
           | Inl denied \<Rightarrow>
               (Some (system_error_response
                  (request_error ''ENTITLEMENT_REQUIRED''
                     (''capability `'' @ cd_capability denied @ ''` requires entitlement `''
                      @ cd_required denied @ ''`''))
                  403 (meta_new trace_id 0 0 0)),
                emit_denied cfg identity trace_id ''ENTITLEMENT_REQUIRED''
                  (Some (JObj [(''capability'', JStr (cd_capability denied)),
                               (''required'', JStr (cd_required denied))])) w))
      | _ \<Rightarrow> (None, w))"

definition resolve_script ::
  "string option \<Rightarrow> string option \<Rightarrow> (string \<rightharpoonup> string) \<Rightarrow> (u16 \<times> error_envelope, script_source) result" where
  "resolve_script script key registry =
     (case (script, key) of
        (Some source, None) \<Rightarrow> Inr (Inline source)
      | (None, Some requested) \<Rightarrow>
          (case registry requested of
             Some text \<Rightarrow> Inr (Registered text)
           | None \<Rightarrow>
               Inl (404, request_error ''SCRIPT_NOT_FOUND''
                      (''no registered script for key `'' @ requested @ ''`'')))
      | _ \<Rightarrow>
          Inl (400, request_error ''SCRIPT_XOR_KEY''
                 ''request must include exactly one of `script` or `key`''))"

definition validate_input_sizes :: "nat \<Rightarrow> nat \<Rightarrow> nat \<Rightarrow> nat \<Rightarrow> (string \<times> string, unit) result" where
  "validate_input_sizes script_bytes context_bytes max_script max_context =
     (if max_script < script_bytes
      then Inl (''SCRIPT_TOO_LARGE'',
             ''script too large: '' @ show_nat script_bytes @ '' bytes (max '' @ show_nat max_script @ '')'')
      else if max_context < context_bytes
      then Inl (''CONTEXT_TOO_LARGE'',
             ''context too large: '' @ show_nat context_bytes @ '' bytes (max '' @ show_nat max_context @ '')'')
      else Inr ())"

definition quota_exceeded_envelope :: "quota_exceeded \<Rightarrow> error_envelope" where
  "quota_exceeded_envelope exceeded =
     with_message (envelope_new CatRuntime SrcEngine ''QUOTA_EXCEEDED'' True Caller)
       (''tenant quota exceeded for plan `'' @ qe_plan exceeded @ ''`: '' @ show_nat (unat (qe_usage exceeded))
        @ '' in-flight at limit '' @ show_nat (unat (qe_limit exceeded)))"

definition quota_exceeded_response :: "quota_exceeded \<Rightarrow> meta \<Rightarrow> resp_cfg \<Rightarrow> response" where
  "quota_exceeded_response exceeded m cfg = projected_error_response (quota_exceeded_envelope exceeded) m cfg"

text \<open>\<open>Inr (Some t)\<close> is the guard of tenant \<open>t\<close>.\<close>

definition enforce_quota ::
  "app_config \<Rightarrow> trusted_identity option \<Rightarrow> string \<Rightarrow> meta \<Rightarrow> ('k, 's) world \<Rightarrow>
   (response, string option) result \<times> ('k, 's) world" where
  "enforce_quota cfg identity trace_id m w =
     (case (ac_trusted cfg, identity) of
        (Some trusted, Some i) \<Rightarrow>
          (case (wd_quota w, id_tenant i) of
             (Some quota, Some tenant) \<Rightarrow>
               (case quota_admit quota tenant (id_plan i) of
                  Inr quota' \<Rightarrow> (Inr (Some tenant), w\<lparr>wd_quota := Some quota'\<rparr>)
                | Inl exceeded \<Rightarrow>
                    (Inl (quota_exceeded_response exceeded m (resp_cfg_of cfg)),
                     emit_denied cfg identity trace_id ''QUOTA_EXCEEDED''
                       (Some (JObj [(''plan'', JStr (qe_plan exceeded)),
                                    (''limit'', JNum (show_nat (unat (qe_limit exceeded)))),
                                    (''usage'', JNum (show_nat (unat (qe_usage exceeded))))])) w))
           | _ \<Rightarrow> (Inr None, w))
      | _ \<Rightarrow> (Inr None, w))"

text \<open>The drop of the quota guard.\<close>

definition drop_guard :: "string option \<Rightarrow> ('k, 's) world \<Rightarrow> ('k, 's) world" where
  "drop_guard guard w =
     (case guard of
        None \<Rightarrow> w
      | Some tenant \<Rightarrow> w\<lparr>wd_quota := map_option (\<lambda>q. guard_drop q tenant) (wd_quota w)\<rparr>)"

definition overloaded_response :: "meta \<Rightarrow> resp_cfg \<Rightarrow> response" where
  "overloaded_response m cfg =
     projected_error_response
       (with_message (envelope_new CatRuntime SrcEngine ''OVERLOADED'' True Operator)
          ''server at capacity, retry shortly'') m cfg"

definition partition_overloaded_response :: "meta \<Rightarrow> resp_cfg \<Rightarrow> response" where
  "partition_overloaded_response m cfg =
     projected_error_response
       (with_message (envelope_new CatRuntime SrcEngine ''PARTITION_OVERLOADED'' True Caller)
          ''partition concurrency limit reached, retry shortly'') m cfg"

definition admit ::
  "app_config \<Rightarrow> ('k, 's, 'c) env \<Rightarrow> string option \<Rightarrow> meta \<Rightarrow> ('k, 's) world \<Rightarrow>
   (response, nat option) result \<times> ('k, 's) world" where
  "admit cfg env pkey busy_meta w =
     (case acquire_permits (en_ops env) (en_hash env) (wd_gates w) pkey of
        (Granted permit, gt) \<Rightarrow> (Inr permit, w\<lparr>wd_gates := gt\<rparr>)
      | (PartitionBusy, gt) \<Rightarrow>
          (Inl (partition_overloaded_response busy_meta (resp_cfg_of cfg)),
           on_metrics record_overload_partition (w\<lparr>wd_gates := gt\<rparr>))
      | (GlobalBusy, gt) \<Rightarrow>
          (Inl (overloaded_response busy_meta (resp_cfg_of cfg)),
           on_metrics record_overload_global (w\<lparr>wd_gates := gt\<rparr>)))"

subsection \<open>Execution\<close>

record 'c execute_job =
  xj_timeout_ms :: u64
  xj_session :: "'c option"
  xj_source :: script_source
  xj_context_json :: string
  xj_config :: request_config
  xj_cache_ns :: "string option"
  xj_log_floor :: "log_level option"
  xj_tenant :: "string option"
  xj_actor :: "string option"
  xj_principal_kind :: "string option"
  xj_on_behalf_of :: "string option"

text \<open>What \<^verbatim>\<open>host.run\<close> is called with: the invocation and its egress port.\<close>

record 'c box_egress =
  be_session :: "'c option"
  be_tenant :: "string option"
  be_actor :: "string option"
  be_principal_kind :: "string option"
  be_on_behalf_of :: "string option"

record 'c invocation =
  iv_source :: string
  iv_context_json :: string
  iv_allowed_hosts :: "string list"
  iv_s3 :: "json option"
  iv_sys :: "json option"
  iv_io :: "string list"
  iv_default_currency :: "string option"
  iv_egress :: "'c box_egress option"
  iv_cache_namespace :: "string option"
  iv_log_level :: "log_level option"

record exec_outcome =
  oc_result :: "(engine_error, string) result"
  oc_effects :: "effect list"
  oc_logs :: "log_entry list"
  oc_metrics :: exec_metrics

definition make_invocation :: "app_config \<Rightarrow> 'c execute_job \<Rightarrow> 'c invocation" where
  "make_invocation cfg job =
     (let config = xj_config job in
      \<lparr>iv_source = script_text (xj_source job), iv_context_json = xj_context_json job,
       iv_allowed_hosts = rq_allowed_hosts config, iv_s3 = rq_s3 config, iv_sys = rq_sys config,
       iv_io = rq_io config,
       iv_default_currency = (case rq_currency config of Some c \<Rightarrow> Some c | None \<Rightarrow> ac_default_currency cfg),
       iv_egress = (if rq_io config \<noteq> []
                    then Some \<lparr>be_session = xj_session job, be_tenant = xj_tenant job, be_actor = xj_actor job,
                               be_principal_kind = xj_principal_kind job,
                               be_on_behalf_of = xj_on_behalf_of job\<rparr>
                    else None),
       iv_cache_namespace = xj_cache_ns job, iv_log_level = xj_log_floor job\<rparr>)"

text \<open>
  The outer \<open>Inl\<close> is a panicked task. The host runs the invocation and, when there is an egress port, its
  metrics are drained.
\<close>

type_synonym engine_result = "(string, (engine_error, exec_outcome) result \<times> egress_metrics) result"

definition execute_blocking ::
  "('c invocation \<Rightarrow> (string, (engine_error, exec_outcome) result \<times> egress_metrics) result) \<Rightarrow>
   app_config \<Rightarrow> 'c execute_job \<Rightarrow> engine_result" where
  "execute_blocking host cfg job =
     (case host (make_invocation cfg job) of
        Inl panic \<Rightarrow> Inl panic
      | Inr (outcome, drained) \<Rightarrow>
          Inr (outcome, if rq_io (xj_config job) \<noteq> [] then drained else egress_metrics_default))"

record 'c inflight =
  fl_identity :: "trusted_identity option"
  fl_guard :: "string option"
  fl_permit :: "nat option"
  fl_job :: "'c execute_job"
  fl_meta :: meta

datatype 'c begun = Done response | Running "'c inflight"

definition tenant_of :: "trusted_identity option \<Rightarrow> string option" where
  "tenant_of identity = Option.bind identity id_tenant"

text \<open>From the quota gate to the admitted execution.\<close>

definition open_session ::
  "app_config \<Rightarrow> ('k, 's, 'c) env \<Rightarrow> trusted_identity option \<Rightarrow> request_config \<Rightarrow> (session_error, 'c option) result" where
  "open_session cfg env identity config =
     (let names = broker_names (rq_io config) (ac_local_resources cfg)
      in if names = [] then Inr None
         else (case en_connect env
                 (make_wire_init names (ec_timeout_ms (ac_engine cfg)) (tenant_of identity)
                    (Option.bind identity id_user) (Option.bind identity id_principal_kind)
                    (Option.bind identity id_on_behalf_of)) of
                 Inr conn \<Rightarrow> Inr (Some conn)
               | Inl err \<Rightarrow> Inl err))"

definition make_job ::
  "app_config \<Rightarrow> trusted_identity option \<Rightarrow> string option \<Rightarrow> script_source \<Rightarrow> string \<Rightarrow> request_config \<Rightarrow>
   'c option \<Rightarrow> 'c execute_job" where
  "make_job cfg identity pkey source context_json config session =
     \<lparr>xj_timeout_ms = ec_timeout_ms (ac_engine cfg), xj_session = session, xj_source = source,
      xj_context_json = context_json, xj_config = config, xj_cache_ns = pkey,
      xj_log_floor = Option.bind identity id_log_level, xj_tenant = tenant_of identity,
      xj_actor = Option.bind identity id_user, xj_principal_kind = Option.bind identity id_principal_kind,
      xj_on_behalf_of = Option.bind identity id_on_behalf_of\<rparr>"

definition execute_sized ::
  "app_config \<Rightarrow> ('k, 's, 'c) env \<Rightarrow> trusted_identity option \<Rightarrow> string option \<Rightarrow> exec_request \<Rightarrow> script_source \<Rightarrow>
   ('k, 's) world \<Rightarrow> 'c begun \<times> ('k, 's) world" where
  "execute_sized cfg env identity pkey req source w =
     (let trace_id = en_trace_id env;
          m = base_error_meta trace_id (length (script_text source)) (length (xr_context req))
                (xr_key req) pkey
      in case enforce_quota cfg identity trace_id m w of
           (Inl rejected, w1) \<Rightarrow> (Done rejected, on_metrics record_rejection w1)
         | (Inr guard, w1) \<Rightarrow>
             (case open_session cfg env identity (xr_config req) of
                Inl err \<Rightarrow>
                  (Done (session_error_response err m (resp_cfg_of cfg)),
                   drop_guard guard
                     (emit_denied cfg identity trace_id ''EGRESS_UNAVAILABLE'' None
                       (on_metrics record_rejection w1)))
              | Inr session \<Rightarrow>
                  (case admit cfg env pkey m w1 of
                     (Inl shed, w2) \<Rightarrow>
                       (Done shed, drop_guard guard (emit_denied cfg identity trace_id ''OVERLOADED'' None w2))
                   | (Inr permit, w2) \<Rightarrow>
                       (Running \<lparr>fl_identity = identity, fl_guard = guard, fl_permit = permit,
                          fl_job = make_job cfg identity pkey source (xr_context req) (xr_config req) session,
                          fl_meta = m\<rparr>, w2))))"

text \<open>From the parsed body to the size check.\<close>

definition execute_request ::
  "app_config \<Rightarrow> ('k, 's, 'c) env \<Rightarrow> header_map \<Rightarrow> trusted_identity option \<Rightarrow> exec_request \<Rightarrow> ('k, 's) world \<Rightarrow>
   'c begun \<times> ('k, 's) world" where
  "execute_request cfg env headers identity req w =
     (let trace_id = en_trace_id env;
          caller_asserted = (case header_partition headers of Some p \<Rightarrow> Some p | None \<Rightarrow> xr_partition req);
          pkey = resolve_partition identity caller_asserted;
          context_bytes = length (xr_context req)
      in case enforce_member_authz cfg identity (xr_config req) trace_id w of
           (Some rejected, w1) \<Rightarrow> (Done rejected, on_metrics record_rejection w1)
         | (None, w1) \<Rightarrow>
             (case resolve_script (xr_script req) (xr_key req) (ac_registry cfg) of
                Inl (status, envelope) \<Rightarrow>
                  (Done (projected_error_response envelope
                     (with_partition (with_key (meta_new trace_id 0 context_bytes 0) (xr_key req)) pkey)
                     (resp_cfg_of cfg)),
                   emit_denied cfg identity trace_id ''SCRIPT_NOT_FOUND'' None (on_metrics record_rejection w1))
              | Inr source \<Rightarrow>
                  (case validate_input_sizes (length (script_text source)) context_bytes
                          (ec_max_script_size (ac_engine cfg)) (ec_max_context_size (ac_engine cfg)) of
                     Inl (code, message) \<Rightarrow>
                       (Done (projected_error_response (request_error code message)
                          (base_error_meta trace_id (length (script_text source)) context_bytes (xr_key req) pkey)
                          (resp_cfg_of cfg)),
                        emit_denied cfg identity trace_id ''INPUT_TOO_LARGE'' None (on_metrics record_rejection w1))
                   | Inr u \<Rightarrow> execute_sized cfg env identity pkey req source w1)))"

text \<open>A body that does not deserialise is \<open>Inl\<close> with the rejection's text.\<close>

definition run_execute_begin ::
  "app_config \<Rightarrow> ('k, 's, 'c) env \<Rightarrow> header_map \<Rightarrow> (string, exec_request) result \<Rightarrow> ('k, 's) world \<Rightarrow>
   'c begun \<times> ('k, 's) world" where
  "run_execute_begin cfg env headers payload w =
     (case enforce_auth cfg (en_fresh_id env) headers w of
        (Some rejected, w1) \<Rightarrow> (Done rejected, w1)
      | (None, w1) \<Rightarrow>
          (case resolve_identity cfg env headers w1 of
             (Inl rejected, w2) \<Rightarrow> (Done rejected, on_metrics record_rejection w2)
           | (Inr identity, w2) \<Rightarrow>
               (case payload of
                  Inl body_text \<Rightarrow>
                    (Done (malformed_request_response cfg (en_fresh_id env) body_text),
                     emit_denied cfg identity (en_trace_id env) ''MALFORMED_REQUEST'' None
                       (on_metrics record_rejection w2))
                | Inr req \<Rightarrow> execute_request cfg env headers identity req w2)))"

subsection \<open>The response of an execution\<close>

record log_policy =
  lp_capture :: bool
  lp_mode :: run_mode

definition log_policy_resolve :: "trusted_identity option \<Rightarrow> log_policy" where
  "log_policy_resolve identity =
     (case identity of
        None \<Rightarrow> \<lparr>lp_capture = False, lp_mode = Live\<rparr>
      | Some i \<Rightarrow> \<lparr>lp_capture = id_capture i, lp_mode = id_mode i\<rparr>)"

definition executed_events :: "trusted_identity option \<Rightarrow> meta \<Rightarrow> string \<Rightarrow> event list" where
  "executed_events identity m outcome =
     (case identity_fields identity of (tenant, user, plan) \<Rightarrow>
        (let ops = \<lparr>co_db = io_count (mt_io m) ''db'', co_mongo = io_count (mt_io m) ''mongo'',
                    co_http = io_count (mt_io m) ''http'', co_mail = io_count (mt_io m) ''mail'',
                    co_s3 = io_count (mt_io m) ''s3'', co_redis = io_count (mt_io m) ''redis'',
                    co_amq = io_count (mt_io m) ''amq'', co_auth = io_count (mt_io m) ''auth''\<rparr>
         in [event_new tenant user plan (mt_trace_id m)
               (Usage \<lparr>ub_outcome = outcome, ub_exec_time_us = mt_exec_time_us m,
                       ub_input_bytes = mt_total_input_bytes m, ub_ops = ops\<rparr>),
             event_new tenant user plan (mt_trace_id m)
               (Audit \<lparr>ab_decision = ''allowed'', ab_reason = None, ab_detail = None\<rparr>)]))"

definition emit_executed ::
  "app_config \<Rightarrow> trusted_identity option \<Rightarrow> meta \<Rightarrow> string \<Rightarrow> ('k, 's) world \<Rightarrow> ('k, 's) world" where
  "emit_executed cfg identity m outcome w = sink cfg (executed_events identity m outcome) w"

definition log_events ::
  "json_readers \<Rightarrow> trusted_identity option \<Rightarrow> meta \<Rightarrow> log_entry list \<Rightarrow> event list" where
  "log_events readers identity m logs =
     (case identity_fields identity of (tenant, user, plan) \<Rightarrow>
        map (\<lambda>entry. event_new tenant user plan (mt_trace_id m)
               (Log \<lparr>lb_level = log_level_as_str (le_level entry), lb_template = le_template entry,
                     lb_properties = (case jr_properties readers (le_properties entry) of
                                        Some v \<Rightarrow> v | None \<Rightarrow> JNull),
                     lb_message = le_message entry, lb_seq = le_seq entry,
                     lb_offset_us = le_offset_us entry\<rparr>)) logs)"

definition stream_logs ::
  "app_config \<Rightarrow> json_readers \<Rightarrow> trusted_identity option \<Rightarrow> meta \<Rightarrow> log_entry list \<Rightarrow> run_mode \<Rightarrow>
   ('k, 's) world \<Rightarrow> ('k, 's) world" where
  "stream_logs cfg readers identity m logs mode w =
     (if mode = Test \<or> logs = [] then w else sink cfg (log_events readers identity m logs) w)"

definition record_capability_latencies :: "exec_metrics \<Rightarrow> backend_metrics \<Rightarrow> metrics \<Rightarrow> metrics" where
  "record_capability_latencies x backend m =
     foldl (\<lambda>m (cap, op). observe_op m cap (om_duration_us op)) m
       (map (Pair CapDb) (bm_db backend) @ map (Pair CapMongo) (bm_mongo backend) @
        map (Pair CapHttp) (xm_http x) @ map (Pair CapMail) (bm_mail backend) @
        map (Pair CapS3) (xm_s3 x) @ map (Pair CapRedis) (bm_redis backend) @
        map (Pair CapAmq) (bm_amq backend) @ map (Pair CapAuth) (bm_auth backend))"

text \<open>The two exits for a failed run without an outcome share their steps.\<close>

definition failed_run ::
  "app_config \<Rightarrow> trusted_identity option \<Rightarrow> meta \<Rightarrow> engine_error \<Rightarrow> ('k, 's) world \<Rightarrow>
   response \<times> ('k, 's) world" where
  "failed_run cfg identity m err w =
     (let policy = log_policy_resolve identity;
          mirror = (if lp_capture policy then Some [] else None)
      in (engine_error_response err m [] mirror (resp_cfg_of cfg),
          on_metrics (\<lambda>mx. record_engine_error mx err)
            (emit_executed cfg identity m (engine_error_outcome err) w)))"

definition build_response ::
  "app_config \<Rightarrow> json_readers \<Rightarrow> trusted_identity option \<Rightarrow> meta \<Rightarrow> engine_result \<Rightarrow> ('k, 's) world \<Rightarrow>
   response \<times> ('k, 's) world" where
  "build_response cfg readers identity base_meta result w =
     (let policy = log_policy_resolve identity;
          w1 = on_metrics (\<lambda>mx. observe_execution mx (mt_exec_time_us base_meta)) w
      in case result of
           Inr (Inr exec, egress) \<Rightarrow>
             (let w2 = on_metrics (record_capability_latencies (oc_metrics exec) (em_backend egress)) w1;
                  m = with_metrics base_meta (oc_metrics exec) egress;
                  w3 = stream_logs cfg readers identity m (oc_logs exec) (lp_mode policy) w2;
                  mirror = (if lp_capture policy then Some (oc_logs exec) else None)
              in case oc_result exec of
                   Inr js_json \<Rightarrow>
                     (success_response readers js_json m (oc_effects exec) mirror (resp_cfg_of cfg),
                      on_metrics record_success (emit_executed cfg identity m ''success'' w3))
                 | Inl engine_err \<Rightarrow>
                     (engine_error_response engine_err m (oc_effects exec) mirror (resp_cfg_of cfg),
                      on_metrics (\<lambda>mx. record_engine_error mx engine_err)
                        (emit_executed cfg identity m (engine_error_outcome engine_err) w3)))
         | Inr (Inl engine_err, backend) \<Rightarrow> failed_run cfg identity base_meta engine_err w1
         | Inl join_err \<Rightarrow> failed_run cfg identity base_meta (Internal (''task panicked: '' @ join_err)) w1)"

text \<open>The permits go first, the quota guard when the handler returns.\<close>

definition run_execute_finish ::
  "app_config \<Rightarrow> ('k, 's, 'c) env \<Rightarrow> 'c inflight \<Rightarrow> engine_result \<Rightarrow> nat \<Rightarrow> ('k, 's) world \<Rightarrow>
   response \<times> ('k, 's) world" where
  "run_execute_finish cfg env fl result exec_time_us w =
     (let w1 = w\<lparr>wd_gates := release_permits (en_ops env) (wd_gates w) (fl_permit fl)\<rparr>
      in case build_response cfg (en_readers env) (fl_identity fl)
                ((fl_meta fl)\<lparr>mt_exec_time_us := exec_time_us\<rparr>) result w1 of
           (r, w2) \<Rightarrow> (r, drop_guard (fl_guard fl) w2))"

definition run_execute ::
  "('c invocation \<Rightarrow> engine_result) \<Rightarrow> app_config \<Rightarrow> ('k, 's, 'c) env \<Rightarrow> header_map \<Rightarrow>
   (string, exec_request) result \<Rightarrow> nat \<Rightarrow> ('k, 's) world \<Rightarrow> response \<times> ('k, 's) world" where
  "run_execute host cfg env headers payload exec_time_us w =
     (case run_execute_begin cfg env headers payload w of
        (Done r, w1) \<Rightarrow> (r, w1)
      | (Running fl, w1) \<Rightarrow>
          run_execute_finish cfg env fl (execute_blocking host cfg (fl_job fl)) exec_time_us w1)"

end
