(* ===== verification/Handler_Props.thy ===== *)
theory Handler_Props
  imports Handler "HOL-Library.Multiset"
begin

text \<open>
  What the \<^verbatim>\<open>/execute\<close> pipeline guarantees: the response contract, the accounting of every request in counters and
  events, the gates an execution has passed, and the conservation of permits and quota over all interleavings
  of requests (\<open>server_reachable\<close>).
\<close>

subsection \<open>What each step touches\<close>

lemma world_effects [runlet_defs]:
  "wd_gates (on_metrics f w) = wd_gates w" "wd_quota (on_metrics f w) = wd_quota w"
  "wd_keys (on_metrics f w) = wd_keys w" "wd_events (on_metrics f w) = wd_events w"
  "wd_metrics (on_metrics f w) = f (wd_metrics w)"
  "wd_gates (sink cfg es w) = wd_gates w" "wd_quota (sink cfg es w) = wd_quota w"
  "wd_keys (sink cfg es w) = wd_keys w" "wd_metrics (sink cfg es w) = wd_metrics w"
  "wd_events (sink cfg es w) = wd_events w @ (if ac_events cfg then es else [])"
  "wd_gates (drop_guard g w) = wd_gates w" "wd_keys (drop_guard g w) = wd_keys w"
  "wd_metrics (drop_guard g w) = wd_metrics w" "wd_events (drop_guard g w) = wd_events w"
  "wd_quota (drop_guard g w) =
     (case g of None \<Rightarrow> wd_quota w | Some t \<Rightarrow> map_option (\<lambda>q. guard_drop q t) (wd_quota w))"
  by (simp_all add: on_metrics_def sink_def drop_guard_def split: option.splits)

lemma emit_denied_effects [runlet_defs]:
  "wd_gates (emit_denied cfg i t r d w) = wd_gates w" "wd_quota (emit_denied cfg i t r d w) = wd_quota w"
  "wd_keys (emit_denied cfg i t r d w) = wd_keys w" "wd_metrics (emit_denied cfg i t r d w) = wd_metrics w"
  "wd_events (emit_denied cfg i t r d w) =
     wd_events w @ (if ac_events cfg then [denied_event i t r d] else [])"
  by (simp_all add: emit_denied_def runlet_defs)

definition is_denied :: "event \<Rightarrow> bool" where
  "is_denied ev \<longleftrightarrow> (\<exists>reason detail. ev_body ev =
     Audit \<lparr>ab_decision = ''denied'', ab_reason = Some reason, ab_detail = detail\<rparr>)"

lemma is_denied_event [simp]: "is_denied (denied_event i t r d)"
  by (simp add: is_denied_def denied_event_def event_new_def split: prod.splits)

definition denial_counters :: "(metrics \<Rightarrow> metrics) set" where
  "denial_counters = {record_rejection, record_overload_global, record_overload_partition}"

text \<open>The record a refused request leaves, apart from the semaphores.\<close>

definition refused :: "app_config \<Rightarrow> ('k, 's) world \<Rightarrow> ('k, 's) world \<Rightarrow> bool" where
  "refused cfg w w' \<longleftrightarrow>
     (\<exists>f \<in> denial_counters. wd_metrics w' = f (wd_metrics w)) \<and>
     (\<exists>ev. is_denied ev \<and> wd_events w' = wd_events w @ (if ac_events cfg then [ev] else []))"

lemma refusedI:
  "wd_metrics w' = f (wd_metrics w) \<Longrightarrow> f \<in> denial_counters \<Longrightarrow>
   wd_events w' = wd_events w @ (if ac_events cfg then [denied_event i t r d] else []) \<Longrightarrow> refused cfg w w'"
  by (auto simp: refused_def intro!: exI [of _ "denied_event i t r d"])

subsection \<open>Identity\<close>

lemma deny_identity_effects:
  assumes "deny_identity cfg i t code msg w = (Inl r, w')"
  shows "response_ok rc r" "rp_status r = 403" "wd_metrics w' = wd_metrics w" "wd_gates w' = wd_gates w"
    "wd_quota w' = wd_quota w" "wd_events w' = wd_events w @ (if ac_events cfg then [denied_event i t code None] else [])"
proof -
  have r: "r = identity_rejected t code msg" and w': "w' = emit_denied cfg i t code None w"
    using assms by (simp_all add: deny_identity_def)
  show "response_ok rc r" by (simp add: r identity_rejected_def system_error_response_ok)
  show "rp_status r = 403"
    by (simp add: r identity_rejected_def system_error_response_def system_error_response_with_effects_def
        status_code_def)
  show "wd_metrics w' = wd_metrics w" "wd_gates w' = wd_gates w" "wd_quota w' = wd_quota w"
    "wd_events w' = wd_events w @ (if ac_events cfg then [denied_event i t code None] else [])"
    by (simp_all add: w' runlet_defs)
qed

text \<open>Every exit of the identity resolution: the acceptance conditions, or a denial.\<close>

definition accepted_identity :: "app_config \<Rightarrow> trusted_identity option \<Rightarrow> bool" where
  "accepted_identity cfg identity \<longleftrightarrow>
     (case ac_trusted cfg of
        None \<Rightarrow> identity = None
      | Some tr \<Rightarrow>
          (\<exists>i. identity = Some i \<and> id_tenant i \<noteq> None \<and> \<not> id_suspended i \<and> \<not> id_anonymous i \<and>
             principal_kind_admitted (tr_allowed_principal_kinds tr) (id_principal_kind i) \<and>
             (tr_contract tr = None \<longrightarrow> id_scope i = Some ''acting'')))"

text \<open>
  Where the identity comes from. With a contract verifier it is read off the claims of a token that verified
  against the key cache and that says in so many words that the principal is not suspended; without one it is
  what the edge put in the headers.
\<close>

definition vouched_identity ::
  "app_config \<Rightarrow> ('k, 's, 'c) env \<Rightarrow> header_map \<Rightarrow> 'k key_cache \<Rightarrow> trusted_identity option \<Rightarrow> bool" where
  "vouched_identity cfg env headers keys identity \<longleftrightarrow>
     (case ac_trusted cfg of
        None \<Rightarrow> identity = None
      | Some tr \<Rightarrow>
          (case tr_contract tr of
             None \<Rightarrow> identity = Some (from_headers headers (tr_headers tr))
           | Some v \<Rightarrow>
               (\<exists>token claims. header_value headers (th_contract (tr_headers tr)) = Some token \<and>
                  fst (verify (en_jwt env) v (en_refresh env) keys token) = Inr claims \<and>
                  vc_suspended claims = Some False \<and>
                  identity = Some (apply_contract (from_headers headers (tr_headers tr)) claims))))"

definition identity_denied ::
  "app_config \<Rightarrow> response \<Rightarrow> ('k, 's) world \<Rightarrow> ('k, 's) world \<Rightarrow> bool" where
  "identity_denied cfg r w w' \<longleftrightarrow>
     (\<forall>rc. response_ok rc r) \<and> rp_status r = 403 \<and> wd_metrics w' = wd_metrics w \<and> wd_gates w' = wd_gates w \<and>
     wd_quota w' = wd_quota w \<and>
     (\<exists>i t code. wd_events w' = wd_events w @ (if ac_events cfg then [denied_event i t code None] else []))"

lemma deny_identity_denied:
  "deny_identity cfg i t code msg w = (Inl r, w') \<Longrightarrow> identity_denied cfg r w w'"
  unfolding identity_denied_def using deny_identity_effects [of cfg i t code msg w r w'] by blast

lemma deny_identity_not_Inr [simp]: "deny_identity cfg i t code msg w \<noteq> (Inr x, w')"
  by (simp add: deny_identity_def)

lemma identity_denied_keys:
  "identity_denied cfg r (w\<lparr>wd_keys := k\<rparr>) w' = identity_denied cfg r w w'"
  by (simp add: identity_denied_def)

lemma principal_kind_denied:
  "enforce_principal_kind_admission cfg i tr t w = (Inl r, w') \<Longrightarrow> identity_denied cfg r w w'"
  by (auto simp: enforce_principal_kind_admission_def split: if_splits dest: deny_identity_denied)

lemma principal_kind_ok:
  "enforce_principal_kind_admission cfg i tr t w = (Inr x, w') \<Longrightarrow>
   x = Some i \<and> w' = w \<and> principal_kind_admitted (tr_allowed_principal_kinds tr) (id_principal_kind i)"
  by (auto simp: enforce_principal_kind_admission_def split: if_splits)

lemma contract_denied:
  assumes "resolve_identity_contract cfg env headers tr v w = (Inl r, w')"
  shows "identity_denied cfg r w w'"
  using assms
  by (auto simp: resolve_identity_contract_def Let_def identity_denied_keys
      split: option.splits prod.splits sum.splits bool.splits if_splits
      dest!: deny_identity_denied)

lemma contract_ok:
  assumes "resolve_identity_contract cfg env headers tr v w = (Inr i, w')"
  shows "id_tenant i \<noteq> None \<and> \<not> id_suspended i \<and> \<not> id_anonymous i \<and> (\<exists>keys. w' = w\<lparr>wd_keys := keys\<rparr>) \<and>
    (\<exists>token claims. header_value headers (th_contract (tr_headers tr)) = Some token \<and>
       fst (verify (en_jwt env) v (en_refresh env) (wd_keys w) token) = Inr claims \<and>
       vc_suspended claims = Some False \<and>
       i = apply_contract (from_headers headers (tr_headers tr)) claims)"
  using assms
  by (auto simp: resolve_identity_contract_def Let_def apply_contract_def
      split: option.splits prod.splits sum.splits bool.splits if_splits)

lemma resolve_identity_denied:
  assumes "resolve_identity cfg env headers w = (Inl r, w')"
  shows "identity_denied cfg r w w'"
proof (cases "ac_trusted cfg")
  case None
  then show ?thesis using assms by (simp add: resolve_identity_def)
next
  case (Some tr)
  show ?thesis
  proof (cases "tr_contract tr")
    case None
    then show ?thesis
      using assms Some
      by (auto simp: resolve_identity_def Let_def split: if_splits
          dest: deny_identity_denied principal_kind_denied)
  next
    case v: (Some v)
    obtain x w1 where c: "resolve_identity_contract cfg env headers tr v w = (x, w1)" by fastforce
    show ?thesis
    proof (cases x)
      case (Inl r')
      then show ?thesis using assms Some v c contract_denied [of cfg env headers tr v w] 
        by (auto simp: resolve_identity_def Let_def)
    next
      case (Inr i)
      then have "\<exists>keys. w1 = w\<lparr>wd_keys := keys\<rparr>" using contract_ok c by blast
      then show ?thesis
        using assms Some v c Inr
        by (auto simp: resolve_identity_def Let_def identity_denied_keys dest!: principal_kind_denied)
    qed
  qed
qed

lemma resolve_identity_ok:
  assumes "resolve_identity cfg env headers w = (Inr identity, w')"
  shows "accepted_identity cfg identity \<and> vouched_identity cfg env headers (wd_keys w) identity \<and> (\<exists>keys. w' = w\<lparr>wd_keys := keys\<rparr>)"
proof (cases "ac_trusted cfg")
  case None
  then show ?thesis
    using assms by (auto simp: resolve_identity_def accepted_identity_def vouched_identity_def intro!: exI [of _ "wd_keys w"])
next
  case (Some tr)
  show ?thesis
  proof (cases "tr_contract tr")
    case None
    then show ?thesis
      using assms Some
      by (auto simp: resolve_identity_def Let_def accepted_identity_def vouched_identity_def split: if_splits
          dest!: principal_kind_ok intro!: exI [of _ "wd_keys w"])
  next
    case v: (Some v)
    obtain x w1 where c: "resolve_identity_contract cfg env headers tr v w = (x, w1)" by fastforce
    then obtain i where i: "x = Inr i" using assms Some v
      by (cases x) (auto simp: resolve_identity_def Let_def)
    note ok = contract_ok [OF c [unfolded i]]
    have "enforce_principal_kind_admission cfg i tr (en_trace_id env) w1 = (Inr identity, w')"
      using assms Some v c i by (simp add: resolve_identity_def Let_def)
    from principal_kind_ok [OF this] ok show ?thesis
      using Some v by (simp add: accepted_identity_def vouched_identity_def)
  qed
qed

subsection \<open>Quota, admission, session\<close>

text \<open>
  The shared state after a request that did not start: nothing was taken, or the bulkhead shed it, and a quota
  unit it may have taken was given back.
\<close>

definition settled :: "('k, 's, 'c) env \<Rightarrow> ('k, 's) world \<Rightarrow> ('k, 's) world \<Rightarrow> bool" where
  "settled env w w' \<longleftrightarrow>
     (wd_gates w' = wd_gates w \<or>
      (\<exists>pkey a. acquire_permits (en_ops env) (en_hash env) (wd_gates w) pkey = (a, wd_gates w') \<and>
         (\<forall>permit. a \<noteq> Granted permit))) \<and>
     (wd_quota w' = wd_quota w \<or>
      (\<exists>q q' t p. wd_quota w = Some q \<and> quota_admit q t p = Inr q' \<and> wd_quota w' = Some (guard_drop q' t)))"

text \<open>The shared state after a request that started: its permit and its quota unit were taken.\<close>

definition started :: "('k, 's, 'c) env \<Rightarrow> 'c inflight \<Rightarrow> ('k, 's) world \<Rightarrow> ('k, 's) world \<Rightarrow> bool" where
  "started env fl w w' \<longleftrightarrow>
     (\<exists>pkey. acquire_permits (en_ops env) (en_hash env) (wd_gates w) pkey = (Granted (fl_permit fl), wd_gates w')) \<and>
     ((fl_guard fl = None \<and> wd_quota w' = wd_quota w) \<or>
      (\<exists>q q' t p. wd_quota w = Some q \<and> quota_admit q t p = Inr q' \<and> wd_quota w' = Some q' \<and>
         fl_guard fl = Some t))"

lemma enforce_quota_Inl:
  assumes "enforce_quota cfg i t m w = (Inl r, w')"
  shows "response_ok (resp_cfg_of cfg) r \<and> rp_status r \<noteq> 401 \<and> wd_metrics w' = wd_metrics w \<and>
    wd_gates w' = wd_gates w \<and> wd_quota w' = wd_quota w \<and>
    (\<exists>reason d. wd_events w' = wd_events w @ (if ac_events cfg then [denied_event i t reason d] else []))"
proof -
  obtain e where r: "r = quota_exceeded_response e m (resp_cfg_of cfg)"
      and w': "\<exists>reason d. w' = emit_denied cfg i t reason d w"
    using assms by (auto simp: enforce_quota_def split: option.splits sum.splits)
  have "rp_status r = 503"
    by (simp add: r quota_exceeded_response_def quota_exceeded_envelope_def projected_error_response_def
        projected_error_response_with_effects_def system_error_response_with_effects_def add_retry_after_def
        project_envelope_def project_def projected_retry_def envelope_builders status_code_def Let_def)
  moreover obtain reason d where w': "w' = emit_denied cfg i t reason d w" using w' by blast
  moreover have "response_ok (resp_cfg_of cfg) r" by (simp add: r quota_exceeded_response_def response_oks)
  moreover have "wd_events w' = wd_events w @ (if ac_events cfg then [denied_event i t reason d] else [])"
    by (simp add: w' runlet_defs)
  ultimately show ?thesis unfolding w' emit_denied_effects(1,2,4) by auto
qed

lemma enforce_quota_Inr:
  assumes "enforce_quota cfg i t m w = (Inr g, w')"
  shows "wd_metrics w' = wd_metrics w \<and> wd_gates w' = wd_gates w \<and> wd_events w' = wd_events w \<and>
    (g = None \<and> w' = w \<or>
     (\<exists>q q' tn p. wd_quota w = Some q \<and> quota_admit q tn p = Inr q' \<and> wd_quota w' = Some q' \<and> g = Some tn))"
proof (cases "\<exists>tr i' q tn. ac_trusted cfg = Some tr \<and> i = Some i' \<and> wd_quota w = Some q \<and> id_tenant i' = Some tn")
  case True
  then obtain tr i' q tn where c: "ac_trusted cfg = Some tr" "i = Some i'" "wd_quota w = Some q" "id_tenant i' = Some tn"
    by blast
  then obtain q' where q': "quota_admit q tn (id_plan i') = Inr q'"
    using assms by (cases "quota_admit q tn (id_plan i')") (simp_all add: enforce_quota_def)
  then have "g = Some tn" "w' = w\<lparr>wd_quota := Some q'\<rparr>" using assms c by (simp_all add: enforce_quota_def)
  then show ?thesis using c(3) q' by auto
next
  case False
  then have "enforce_quota cfg i t m w = (Inr None, w)"
    by (auto simp: enforce_quota_def split: option.splits)
  then show ?thesis using assms by simp
qed

lemma admit_Inl:
  assumes "admit cfg env pkey m w = (Inl r, w')"
  shows "response_ok (resp_cfg_of cfg) r \<and> rp_status r \<noteq> 401 \<and> (\<exists>f \<in> denial_counters. wd_metrics w' = f (wd_metrics w)) \<and>
    wd_quota w' = wd_quota w \<and> wd_events w' = wd_events w \<and>
    (\<exists>a. acquire_permits (en_ops env) (en_hash env) (wd_gates w) pkey = (a, wd_gates w') \<and>
       (\<forall>permit. a \<noteq> Granted permit))"
proof -
  obtain a gt where ap: "acquire_permits (en_ops env) (en_hash env) (wd_gates w) pkey = (a, gt)" by fastforce
  have e: "rp_status (projected_error_response (with_message (envelope_new c s cd True ow) ms) m rc) \<noteq> 401"
    for c s cd ow ms rc
    by (simp add: projected_error_response_def projected_error_response_with_effects_def
        system_error_response_with_effects_def add_retry_after_def project_envelope_def project_def
        projected_retry_def envelope_builders status_code_def Let_def)
  show ?thesis
    using assms ap
    by (cases a) (auto simp: admit_def runlet_defs denial_counters_def overloaded_response_def
        partition_overloaded_response_def response_oks e)
qed

lemma admit_Inr:
  assumes "admit cfg env pkey m w = (Inr permit, w')"
  shows "wd_metrics w' = wd_metrics w \<and> wd_quota w' = wd_quota w \<and> wd_events w' = wd_events w \<and>
    acquire_permits (en_ops env) (en_hash env) (wd_gates w) pkey = (Granted permit, wd_gates w')"
  using assms by (auto simp: admit_def split: prod.splits admission.splits)

lemma projected_not_401: "rp_status (projected_error_response e m rc) \<noteq> 401"
proof -
  have "pr_status (project_envelope e) \<noteq> 401"
    using project_status_cases [of "ee_retryable e" "ee_owner e" "ee_code e"]
    by (auto simp: project_envelope_def split: if_splits)
  then show ?thesis
    by (simp add: projected_error_response_def projected_error_response_with_effects_def
        system_error_response_with_effects_def add_retry_after_def status_code_def Let_def)
qed

text \<open>A request refused after authentication.\<close>

definition turned_away ::
  "app_config \<Rightarrow> ('k, 's, 'c) env \<Rightarrow> response \<Rightarrow> ('k, 's) world \<Rightarrow> ('k, 's) world \<Rightarrow> bool" where
  "turned_away cfg env r w w' \<longleftrightarrow>
     response_ok (resp_cfg_of cfg) r \<and> rp_status r \<noteq> 401 \<and> refused cfg w w' \<and> settled env w w'"

lemma execute_sized_Done:
  assumes "execute_sized cfg env i pkey req src w = (Done r, w')"
  shows "turned_away cfg env r w w'"
proof -
  let ?m = "base_error_meta (en_trace_id env) (length (script_text src)) (length (xr_context req)) (xr_key req) pkey"
  obtain x w1 where q: "enforce_quota cfg i (en_trace_id env) ?m w = (x, w1)" by fastforce
  show ?thesis
  proof (cases x)
    case (Inl rej)
    then have r: "r = rej" "w' = on_metrics record_rejection w1"
      using assms q by (simp_all add: execute_sized_def Let_def)
    have ef: "response_ok (resp_cfg_of cfg) r \<and> rp_status r \<noteq> 401 \<and> wd_metrics w1 = wd_metrics w \<and>
        wd_gates w1 = wd_gates w \<and> wd_quota w1 = wd_quota w \<and>
        (\<exists>reason d. wd_events w1 = wd_events w @ (if ac_events cfg then [denied_event i (en_trace_id env) reason d] else []))"
      using enforce_quota_Inl q Inl r by metis
    then have "refused cfg w w'"
      by (auto simp: r runlet_defs denial_counters_def intro!: refusedI [where f = record_rejection])
    then show ?thesis using ef by (simp add: turned_away_def settled_def r runlet_defs)
  next
    case (Inr g)
    have ef: "wd_metrics w1 = wd_metrics w" "wd_gates w1 = wd_gates w" "wd_events w1 = wd_events w"
        "g = None \<and> w1 = w \<or>
         (\<exists>q q' tn p. wd_quota w = Some q \<and> quota_admit q tn p = Inr q' \<and> wd_quota w1 = Some q' \<and> g = Some tn)"
      using enforce_quota_Inr [of cfg i "en_trace_id env" ?m w g w1] q Inr by auto
    have quota: "wd_quota (drop_guard g v) = wd_quota w \<or>
        (\<exists>q q' t p. wd_quota w = Some q \<and> quota_admit q t p = Inr q' \<and> wd_quota (drop_guard g v) = Some (guard_drop q' t))"
      if "wd_quota v = wd_quota w1" for v
    proof (cases "g = None")
      case True
      then show ?thesis using ef(4) that by (auto simp: runlet_defs)
    next
      case False
      then obtain q q' tn p where "wd_quota w = Some q" "quota_admit q tn p = Inr q'" "wd_quota w1 = Some q'" "g = Some tn"
        using ef(4) by blast
      then show ?thesis using that by (simp add: runlet_defs) blast
    qed
    show ?thesis
    proof (cases "open_session cfg env i (xr_config req)")
      case (Inl err)
      then have r: "r = session_error_response err ?m (resp_cfg_of cfg)"
          "w' = drop_guard g (emit_denied cfg i (en_trace_id env) ''EGRESS_UNAVAILABLE'' None (on_metrics record_rejection w1))"
        using assms q Inr by (simp_all add: execute_sized_def Let_def)
      have "refused cfg w w'"
        by (rule refusedI [where f = record_rejection]) (simp_all add: r runlet_defs ef denial_counters_def)
      moreover have "settled env w w'"
        unfolding settled_def r(2) using ef(2) by (intro conjI quota) (simp_all add: runlet_defs)
      ultimately show ?thesis
        by (simp add: turned_away_def r(1) response_oks session_error_response_def projected_not_401)
    next
      case ses: (Inr ses)
      obtain y w2 where a: "admit cfg env pkey ?m w1 = (y, w2)" by fastforce
      have "\<exists>shed. y = Inl shed" using assms q Inr ses a
        by (cases y) (simp_all add: execute_sized_def Let_def)
      then obtain shed where y: "y = Inl shed" by blast
      then have r: "r = shed" "w' = drop_guard g (emit_denied cfg i (en_trace_id env) ''OVERLOADED'' None w2)"
        using assms q Inr ses a by (simp_all add: execute_sized_def Let_def)
      have ad: "response_ok (resp_cfg_of cfg) shed" "rp_status shed \<noteq> 401"
          "\<exists>f \<in> denial_counters. wd_metrics w2 = f (wd_metrics w1)" "wd_quota w2 = wd_quota w1"
          "wd_events w2 = wd_events w1"
          "\<exists>a. acquire_permits (en_ops env) (en_hash env) (wd_gates w1) pkey = (a, wd_gates w2) \<and> (\<forall>permit. a \<noteq> Granted permit)"
        using admit_Inl [of cfg env pkey ?m w1 shed w2] a y by auto
      obtain f where f: "f \<in> denial_counters" "wd_metrics w2 = f (wd_metrics w1)" using ad(3) by blast
      have "refused cfg w w'"
        by (rule refusedI [OF _ f(1)]) (simp_all add: r runlet_defs ef ad(5) f(2))
      moreover have "settled env w w'"
        unfolding settled_def r(2) using ad(4,6) ef(2) by (intro conjI quota) (auto simp: runlet_defs)
      ultimately show ?thesis using ad by (simp add: turned_away_def r(1))
    qed
  qed
qed

lemma execute_sized_Running:
  assumes "execute_sized cfg env i pkey req src w = (Running fl, w')"
  shows "started env fl w w' \<and> wd_metrics w' = wd_metrics w \<and> wd_events w' = wd_events w \<and>
    fl_identity fl = i \<and>
    acquire_permits (en_ops env) (en_hash env) (wd_gates w) pkey = (Granted (fl_permit fl), wd_gates w') \<and>
    fl_meta fl = base_error_meta (en_trace_id env) (length (script_text src)) (length (xr_context req)) (xr_key req) pkey \<and>
    (\<exists>session. open_session cfg env i (xr_config req) = Inr session \<and>
       fl_job fl = make_job cfg i pkey src (xr_context req) (xr_config req) session) \<and>
    (\<exists>w1. enforce_quota cfg i (en_trace_id env) (fl_meta fl) w = (Inr (fl_guard fl), w1))"
proof -
  let ?m = "base_error_meta (en_trace_id env) (length (script_text src)) (length (xr_context req)) (xr_key req) pkey"
  obtain x w1 where q: "enforce_quota cfg i (en_trace_id env) ?m w = (x, w1)" by fastforce
  obtain g where x: "x = Inr g" using assms q by (cases x) (simp_all add: execute_sized_def Let_def)
  obtain session where s: "open_session cfg env i (xr_config req) = Inr session"
    using assms q x by (cases "open_session cfg env i (xr_config req)") (simp_all add: execute_sized_def Let_def)
  obtain y w2 where a: "admit cfg env pkey ?m w1 = (y, w2)" by fastforce
  obtain permit where y: "y = Inr permit"
    using assms q x s a by (cases y) (simp_all add: execute_sized_def Let_def)
  have fl: "fl = \<lparr>fl_identity = i, fl_guard = g, fl_permit = permit,
      fl_job = make_job cfg i pkey src (xr_context req) (xr_config req) session, fl_meta = ?m\<rparr>" "w' = w2"
    using assms q x s a y by (simp_all add: execute_sized_def Let_def)
  have ef: "wd_metrics w1 = wd_metrics w" "wd_gates w1 = wd_gates w" "wd_events w1 = wd_events w"
      "g = None \<and> w1 = w \<or>
       (\<exists>q q' tn p. wd_quota w = Some q \<and> quota_admit q tn p = Inr q' \<and> wd_quota w1 = Some q' \<and> g = Some tn)"
    using enforce_quota_Inr [of cfg i "en_trace_id env" ?m w g w1] q x by auto
  have ad: "wd_metrics w2 = wd_metrics w1" "wd_quota w2 = wd_quota w1" "wd_events w2 = wd_events w1"
      "acquire_permits (en_ops env) (en_hash env) (wd_gates w1) pkey = (Granted permit, wd_gates w2)"
    using admit_Inr [of cfg env pkey ?m w1 permit w2] a y by auto
  have "started env fl w w'"
    using ef ad unfolding started_def fl(2) by (auto simp: fl(1))
  then show ?thesis using ef ad s q x by (simp add: fl)
qed

subsection \<open>From the body to the start\<close>

lemma authz_denied:
  assumes "enforce_member_authz cfg i config t w = (Some r, w')"
  shows "response_ok rc r \<and> rp_status r = 403 \<and> wd_metrics w' = wd_metrics w \<and> wd_gates w' = wd_gates w \<and>
    wd_quota w' = wd_quota w \<and>
    (\<exists>reason d. wd_events w' = wd_events w @ (if ac_events cfg then [denied_event i t reason d] else []))"
proof -
  obtain e d where r: "r = system_error_response e 403 (meta_new t 0 0 0)"
      and w': "w' = emit_denied cfg i t ''ENTITLEMENT_REQUIRED'' d w"
    using assms by (auto simp: enforce_member_authz_def split: option.splits sum.splits)
  have "response_ok rc r" by (simp add: r system_error_response_ok)
  moreover have "rp_status r = 403"
    by (simp add: r system_error_response_def system_error_response_with_effects_def status_code_def)
  ultimately show ?thesis unfolding w' emit_denied_effects by blast
qed

lemma authz_ok:
  assumes "enforce_member_authz cfg i config t w = (None, w')"
  shows "w' = w \<and>
    (\<forall>tr j. ac_trusted cfg = Some tr \<and> i = Some j \<longrightarrow>
       is_ok (authorize_capabilities (tr_capability_entitlements tr) (requested_capabilities config) j))"
  using assms by (auto simp: enforce_member_authz_def split: option.splits sum.splits)

lemma settled_refl: "wd_gates w' = wd_gates w \<Longrightarrow> wd_quota w' = wd_quota w \<Longrightarrow> settled env w w'"
  by (simp add: settled_def)

lemma execute_request_Done:
  assumes "execute_request cfg env headers i req w = (Done r, w')"
  shows "turned_away cfg env r w w'"
proof -
  obtain x w1 where z: "enforce_member_authz cfg i (xr_config req) (en_trace_id env) w = (x, w1)" by fastforce
  show ?thesis
  proof (cases x)
    case (Some rej)
    then have r: "r = rej" "w' = on_metrics record_rejection w1"
      using assms z by (simp_all add: execute_request_def Let_def)
    obtain reason d where ef: "response_ok (resp_cfg_of cfg) r" "rp_status r = 403" "wd_metrics w1 = wd_metrics w"
        "wd_gates w1 = wd_gates w" "wd_quota w1 = wd_quota w"
        "wd_events w1 = wd_events w @ (if ac_events cfg then [denied_event i (en_trace_id env) reason d] else [])"
      using authz_denied [of cfg i "xr_config req" "en_trace_id env" w r w1 "resp_cfg_of cfg"] z Some r by blast
    have "refused cfg w w'"
      by (rule refusedI [where f = record_rejection]) (simp_all add: r runlet_defs ef denial_counters_def)
    then show ?thesis using ef by (simp add: turned_away_def settled_refl r runlet_defs)
  next
    case None
    then have w1: "w1 = w" using authz_ok z by blast
    let ?w = "\<lambda>reason. emit_denied cfg i (en_trace_id env) reason None (on_metrics record_rejection w)"
    have away: "turned_away cfg env (projected_error_response e m (resp_cfg_of cfg)) w (?w reason)" for e m reason
    proof -
      have "refused cfg w (?w reason)"
        by (rule refusedI [where f = record_rejection]) (simp_all add: runlet_defs denial_counters_def)
      then show ?thesis
        by (simp add: turned_away_def response_oks projected_not_401 settled_refl runlet_defs)
    qed
    show ?thesis
      using assms z None w1
      by (auto simp: execute_request_def Let_def away split: sum.splits prod.splits
          dest: execute_sized_Done)
  qed
qed

lemma execute_request_Running:
  assumes "execute_request cfg env headers i req w = (Running fl, w')"
  shows "\<exists>src. resolve_script (xr_script req) (xr_key req) (ac_registry cfg) = Inr src \<and>
    length (script_text src) \<le> ec_max_script_size (ac_engine cfg) \<and>
    length (xr_context req) \<le> ec_max_context_size (ac_engine cfg) \<and>
    (\<forall>tr j. ac_trusted cfg = Some tr \<and> i = Some j \<longrightarrow>
       is_ok (authorize_capabilities (tr_capability_entitlements tr) (requested_capabilities (xr_config req)) j)) \<and>
    execute_sized cfg env i
      (resolve_partition i (case header_partition headers of Some p \<Rightarrow> Some p | None \<Rightarrow> xr_partition req))
      req src w = (Running fl, w')"
proof -
  obtain x w1 where z: "enforce_member_authz cfg i (xr_config req) (en_trace_id env) w = (x, w1)" by fastforce
  have x: "x = None" using assms z by (cases x) (simp_all add: execute_request_def Let_def)
  note ok = authz_ok [OF z [unfolded x]]
  obtain src where s: "resolve_script (xr_script req) (xr_key req) (ac_registry cfg) = Inr src"
    using assms z x by (cases "resolve_script (xr_script req) (xr_key req) (ac_registry cfg)")
      (auto simp: execute_request_def Let_def)
  have v: "validate_input_sizes (length (script_text src)) (length (xr_context req))
      (ec_max_script_size (ac_engine cfg)) (ec_max_context_size (ac_engine cfg)) = Inr ()"
    using assms z x s
    by (cases "validate_input_sizes (length (script_text src)) (length (xr_context req))
      (ec_max_script_size (ac_engine cfg)) (ec_max_context_size (ac_engine cfg))")
      (auto simp: execute_request_def Let_def)
  then have "length (script_text src) \<le> ec_max_script_size (ac_engine cfg)"
      "length (xr_context req) \<le> ec_max_context_size (ac_engine cfg)"
    by (auto simp: validate_input_sizes_def split: if_splits)
  then show ?thesis using assms z x s v ok by (auto simp: execute_request_def Let_def)
qed

subsection \<open>The first half of the pipeline\<close>

lemma enforce_auth_cases:
  "enforce_auth cfg fresh headers w =
     (if (\<exists>tok. ac_access_token cfg = Some tok \<and> \<not> request_authorized headers tok)
      then (Some (unauthorized_response fresh), on_metrics record_rejection w) else (None, w))"
  by (auto simp: enforce_auth_def split: option.splits)

lemma unauthorized_status: "rp_status (unauthorized_response fresh) = 401"
  by (simp add: unauthorized_response_def system_error_response_def system_error_response_with_effects_def
      status_code_def)

lemma refused_keys: "refused cfg (w\<lparr>wd_keys := k\<rparr>) w' = refused cfg w w'"
  by (simp add: refused_def)

lemma settled_keys: "settled env (w\<lparr>wd_keys := k\<rparr>) w' = settled env w w'"
  by (simp add: settled_def)

lemma turned_away_keys: "turned_away cfg env r (w\<lparr>wd_keys := k\<rparr>) w' = turned_away cfg env r w w'"
  by (simp add: turned_away_def refused_keys settled_keys)

lemma started_keys: "started env fl (w\<lparr>wd_keys := k\<rparr>) w' = started env fl w w'"
  by (simp add: started_def)

lemma malformed_status:
  "response_ok rc (malformed_request_response cfg fresh t) \<and> rp_status (malformed_request_response cfg fresh t) \<noteq> 401"
  by (simp add: malformed_request_response_def Let_def system_error_response_ok)
     (simp add: system_error_response_def system_error_response_with_effects_def status_code_def)

lemma identity_turned_away:
  assumes "identity_denied cfg r w w'"
  shows "turned_away cfg env r w (on_metrics record_rejection w')"
proof -
  obtain i t code where d: "response_ok (resp_cfg_of cfg) r" "rp_status r = 403" "wd_metrics w' = wd_metrics w"
      "wd_gates w' = wd_gates w" "wd_quota w' = wd_quota w"
      "wd_events w' = wd_events w @ (if ac_events cfg then [denied_event i t code None] else [])"
    using assms unfolding identity_denied_def by blast
  have "refused cfg w (on_metrics record_rejection w')"
    by (rule refusedI [where f = record_rejection]) (simp_all add: d runlet_defs denial_counters_def)
  then show ?thesis using d by (simp add: turned_away_def settled_refl runlet_defs)
qed

lemma begin_Done:
  assumes "run_execute_begin cfg env headers payload w = (Done r, w')"
  shows "(r = unauthorized_response (en_fresh_id env) \<and> w' = on_metrics record_rejection w \<and>
      (\<exists>tok. ac_access_token cfg = Some tok \<and> \<not> request_authorized headers tok)) \<or>
    turned_away cfg env r w w'"
proof (cases "\<exists>tok. ac_access_token cfg = Some tok \<and> \<not> request_authorized headers tok")
  case True
  then show ?thesis using assms by (simp add: run_execute_begin_def enforce_auth_cases)
next
  case False
  obtain x w2 where i: "resolve_identity cfg env headers w = (x, w2)" by fastforce
  show ?thesis
  proof (cases x)
    case (Inl rej)
    then have "r = rej" "w' = on_metrics record_rejection w2"
      using assms False i by (simp_all add: run_execute_begin_def enforce_auth_cases)
    then show ?thesis
      using identity_turned_away [OF resolve_identity_denied [OF i [unfolded Inl]], of env] by simp
  next
    case (Inr ident)
    obtain k where w2: "w2 = w\<lparr>wd_keys := k\<rparr>" using resolve_identity_ok [OF i [unfolded Inr]] by blast
    show ?thesis
    proof (cases payload)
      case (Inl bt)
      then have r: "r = malformed_request_response cfg (en_fresh_id env) bt"
          "w' = emit_denied cfg ident (en_trace_id env) ''MALFORMED_REQUEST'' None (on_metrics record_rejection w2)"
        using assms False i Inr by (simp_all add: run_execute_begin_def enforce_auth_cases)
      have "refused cfg w w'"
        by (rule refusedI [where f = record_rejection]) (simp_all add: r w2 runlet_defs denial_counters_def)
      then show ?thesis
        by (simp add: turned_away_def r(1) malformed_status settled_refl) (simp add: r(2) w2 runlet_defs settled_refl)
    next
      case req: (Inr req)
      then have "execute_request cfg env headers ident req w2 = (Done r, w')"
        using assms False i Inr by (simp add: run_execute_begin_def enforce_auth_cases)
      from execute_request_Done [OF this] show ?thesis by (simp add: w2 turned_away_keys)
    qed
  qed
qed

lemma begin_Running:
  assumes "run_execute_begin cfg env headers payload w = (Running fl, w')"
  shows "(\<forall>tok. ac_access_token cfg = Some tok \<longrightarrow> request_authorized headers tok) \<and>
    (\<exists>req k. payload = Inr req \<and> accepted_identity cfg (fl_identity fl) \<and>
      vouched_identity cfg env headers (wd_keys w) (fl_identity fl) \<and>
      resolve_identity cfg env headers w = (Inr (fl_identity fl), w\<lparr>wd_keys := k\<rparr>) \<and>
      execute_request cfg env headers (fl_identity fl) req (w\<lparr>wd_keys := k\<rparr>) = (Running fl, w'))"
proof -
  have na: "\<not> (\<exists>tok. ac_access_token cfg = Some tok \<and> \<not> request_authorized headers tok)"
    using assms by (auto simp: run_execute_begin_def enforce_auth_cases split: if_splits)
  obtain x w2 where i: "resolve_identity cfg env headers w = (x, w2)" by fastforce
  obtain ident where x: "x = Inr ident"
    using assms na i by (cases x) (simp_all add: run_execute_begin_def enforce_auth_cases)
  obtain req where p: "payload = Inr req"
    using assms na i x by (cases payload) (simp_all add: run_execute_begin_def enforce_auth_cases)
  have ex: "execute_request cfg env headers ident req w2 = (Running fl, w')"
    using assms na i x p by (simp add: run_execute_begin_def enforce_auth_cases)
  obtain src where "execute_sized cfg env ident
      (resolve_partition ident (case header_partition headers of Some p \<Rightarrow> Some p | None \<Rightarrow> xr_partition req))
      req src w2 = (Running fl, w')"
    using execute_request_Running [OF ex] by blast
  then have "fl_identity fl = ident" using execute_sized_Running by blast
  moreover obtain k where "w2 = w\<lparr>wd_keys := k\<rparr>" "accepted_identity cfg ident"
      "vouched_identity cfg env headers (wd_keys w) ident"
    using resolve_identity_ok [OF i [unfolded x]] by blast
  ultimately show ?thesis using na p i x ex by auto
qed

lemma begin_started:
  assumes "run_execute_begin cfg env headers payload w = (Running fl, w')"
  shows "started env fl w w' \<and> wd_metrics w' = wd_metrics w \<and> wd_events w' = wd_events w"
proof -
  obtain req k where "execute_request cfg env headers (fl_identity fl) req (w\<lparr>wd_keys := k\<rparr>) = (Running fl, w')"
    using begin_Running [OF assms] by blast
  then obtain pkey src where "execute_sized cfg env (fl_identity fl) pkey req src (w\<lparr>wd_keys := k\<rparr>) = (Running fl, w')"
    using execute_request_Running by blast
  from execute_sized_Running [OF this] show ?thesis by (simp add: started_keys)
qed

subsection \<open>The second half\<close>

text \<open>The record of a finished execution with a given outcome label.\<close>

definition executed ::
  "app_config \<Rightarrow> trusted_identity option \<Rightarrow> string \<Rightarrow> event list \<Rightarrow> meta \<Rightarrow> ('k, 's) world \<Rightarrow> ('k, 's) world \<Rightarrow> bool" where
  "executed cfg i outcome logs m w w' \<longleftrightarrow>
     wd_gates w' = wd_gates w \<and> wd_quota w' = wd_quota w \<and> wd_keys w' = wd_keys w \<and>
     (\<forall>o' \<in> set outcomes. outcome_counter (wd_metrics w') o' =
        outcome_counter (wd_metrics w) o' + (if o' = outcome then 1 else 0)) \<and>
     mx_rejections (wd_metrics w') = mx_rejections (wd_metrics w) \<and>
     mx_overload_global (wd_metrics w') = mx_overload_global (wd_metrics w) \<and>
     mx_overload_partition (wd_metrics w') = mx_overload_partition (wd_metrics w) \<and>
     lh_count (mx_exec_latency (wd_metrics w')) = lh_count (mx_exec_latency (wd_metrics w)) + 1 \<and>
     wd_events w' = wd_events w @ (if ac_events cfg then logs @ executed_events i m outcome else [])"

definition same_outcomes :: "metrics \<Rightarrow> metrics \<Rightarrow> bool" where
  "same_outcomes a b \<longleftrightarrow>
     (\<forall>o'. outcome_counter a o' = outcome_counter b o') \<and> mx_rejections a = mx_rejections b \<and>
     mx_overload_global a = mx_overload_global b \<and> mx_overload_partition a = mx_overload_partition b \<and>
     mx_exec_latency a = mx_exec_latency b"

lemma observe_op_same: "same_outcomes (observe_op m cap n) m"
  by (simp add: same_outcomes_def observe_op_def outcome_counter_def)

lemma same_outcomes_trans: "same_outcomes a b \<Longrightarrow> same_outcomes b c \<Longrightarrow> same_outcomes a c"
  by (simp add: same_outcomes_def)

lemma record_capability_latencies_same: "same_outcomes (record_capability_latencies x b m) m"
proof -
  have "same_outcomes (foldl (\<lambda>m (cap, op). observe_op m cap (om_duration_us op)) m ops) m" for ops
  proof (induction ops rule: rev_induct)
    case Nil
    then show ?case by (simp add: same_outcomes_def)
  next
    case (snoc co ops)
    then show ?case using observe_op_same by (cases co) (auto intro: same_outcomes_trans)
  qed
  then show ?thesis unfolding record_capability_latencies_def .
qed

lemma observe_execution_effect:
  "outcome_counter (observe_execution m n) o' = outcome_counter m o'"
  "mx_rejections (observe_execution m n) = mx_rejections m"
  "mx_overload_global (observe_execution m n) = mx_overload_global m"
  "mx_overload_partition (observe_execution m n) = mx_overload_partition m"
  "lh_count (mx_exec_latency (observe_execution m n)) = lh_count (mx_exec_latency m) + 1"
  by (simp_all add: observe_execution_def observe_def outcome_counter_def)

lemma record_engine_error_frame:
  "mx_rejections (record_engine_error m e) = mx_rejections m"
  "mx_overload_global (record_engine_error m e) = mx_overload_global m"
  "mx_overload_partition (record_engine_error m e) = mx_overload_partition m"
  "mx_exec_latency (record_engine_error m e) = mx_exec_latency m"
  by (cases e; simp)+

lemma record_engine_error_outcome:
  "o' \<in> set outcomes \<Longrightarrow> outcome_counter (record_engine_error m e) o' =
     outcome_counter m o' + (if o' = engine_error_outcome e then 1 else 0)"
  by (cases e) (auto simp: outcomes_def outcome_counter_def)

lemma record_success_effect:
  "o' \<in> set outcomes \<Longrightarrow> outcome_counter (record_success m) o' = outcome_counter m o' + (if o' = ''success'' then 1 else 0)"
  "mx_rejections (record_success m) = mx_rejections m"
  "mx_overload_global (record_success m) = mx_overload_global m"
  "mx_overload_partition (record_success m) = mx_overload_partition m"
  "mx_exec_latency (record_success m) = mx_exec_latency m"
  by (auto simp: record_success_def outcomes_def outcome_counter_def)

lemma failed_run_executed:
  assumes "failed_run cfg i m err (on_metrics (\<lambda>mx. observe_execution mx n) w) = (r, w')"
  shows "response_ok (resp_cfg_of cfg) r \<and> executed cfg i (engine_error_outcome err) [] m w w'"
  using assms
  by (auto simp: failed_run_def Let_def response_oks executed_def emit_executed_def runlet_defs
      record_engine_error_frame record_engine_error_outcome observe_execution_effect)

lemma engine_error_outcome_in: "engine_error_outcome e \<in> set outcomes"
  by (cases e) (simp_all add: outcomes_def)

text \<open>
  What an engine result stands for: the outcome label of its run, the log entries it wrote, and the meta its
  records are made of. A panicked task and a run that never produced an outcome have no entries and no
  operations.
\<close>

fun run_outcome :: "engine_result \<Rightarrow> string" where
  "run_outcome (Inl panic) = ''internal_error''"
| "run_outcome (Inr (Inl err, _)) = engine_error_outcome err"
| "run_outcome (Inr (Inr exec, _)) =
     (case oc_result exec of Inr _ \<Rightarrow> ''success'' | Inl err \<Rightarrow> engine_error_outcome err)"

fun run_entries :: "engine_result \<Rightarrow> log_entry list" where
  "run_entries (Inr (Inr exec, _)) = oc_logs exec"
| "run_entries _ = []"

fun run_meta :: "meta \<Rightarrow> engine_result \<Rightarrow> meta" where
  "run_meta m (Inr (Inr exec, egress)) = with_metrics m (oc_metrics exec) egress"
| "run_meta m _ = m"

lemma run_meta_frame:
  "mt_trace_id (run_meta m result) = mt_trace_id m" "mt_exec_time_us (run_meta m result) = mt_exec_time_us m"
  "mt_total_input_bytes (run_meta m result) = mt_total_input_bytes m"
  by (cases "(m, result)" rule: run_meta.cases; simp add: with_metrics_def Let_def)+

lemma run_outcome_in: "run_outcome result \<in> set outcomes"
  by (cases result rule: run_outcome.cases)
     (auto simp: engine_error_outcome_in split: sum.split, simp_all add: outcomes_def)

text \<open>The records of a run, field by field: one per log entry, the usage record, the allowing audit record.\<close>

definition record_of :: "trusted_identity option \<Rightarrow> string \<Rightarrow> event_body \<Rightarrow> event" where
  "record_of i trace body =
     \<lparr>ev_tenant = Option.bind i id_tenant, ev_user = Option.bind i id_user, ev_plan = Option.bind i id_plan,
      ev_trace_id = trace, ev_body = body\<rparr>"

definition log_record :: "json_readers \<Rightarrow> log_entry \<Rightarrow> log_body" where
  "log_record readers entry =
     \<lparr>lb_level = log_level_as_str (le_level entry), lb_template = le_template entry,
      lb_properties = (case jr_properties readers (le_properties entry) of Some v \<Rightarrow> v | None \<Rightarrow> JNull),
      lb_message = le_message entry, lb_seq = le_seq entry, lb_offset_us = le_offset_us entry\<rparr>"

definition usage_record :: "meta \<Rightarrow> string \<Rightarrow> usage_body" where
  "usage_record m outcome =
     \<lparr>ub_outcome = outcome, ub_exec_time_us = mt_exec_time_us m, ub_input_bytes = mt_total_input_bytes m,
      ub_ops = \<lparr>co_db = io_count (mt_io m) ''db'', co_mongo = io_count (mt_io m) ''mongo'',
                co_http = io_count (mt_io m) ''http'', co_mail = io_count (mt_io m) ''mail'',
                co_s3 = io_count (mt_io m) ''s3'', co_redis = io_count (mt_io m) ''redis'',
                co_amq = io_count (mt_io m) ''amq'', co_auth = io_count (mt_io m) ''auth''\<rparr>\<rparr>"

definition run_records ::
  "json_readers \<Rightarrow> trusted_identity option \<Rightarrow> meta \<Rightarrow> engine_result \<Rightarrow> event list" where
  "run_records readers i m result =
     (let rec = record_of i (mt_trace_id m)
      in (if lp_mode (log_policy_resolve i) = Test then []
          else map (\<lambda>entry. rec (Log (log_record readers entry))) (run_entries result)) @
         [rec (Usage (usage_record (run_meta m result) (run_outcome result))),
          rec (Audit \<lparr>ab_decision = ''allowed'', ab_reason = None, ab_detail = None\<rparr>)])"

lemma identity_fields_bind:
  "identity_fields i = (Option.bind i id_tenant, Option.bind i id_user, Option.bind i id_plan)"
  by (simp add: identity_fields_def split: option.split)

lemma executed_events_records:
  "executed_events i m outcome =
     [record_of i (mt_trace_id m) (Usage (usage_record m outcome)),
      record_of i (mt_trace_id m) (Audit \<lparr>ab_decision = ''allowed'', ab_reason = None, ab_detail = None\<rparr>)]"
  by (simp add: executed_events_def identity_fields_bind record_of_def event_new_def usage_record_def Let_def)

lemma log_events_records:
  "log_events readers i m logs = map (\<lambda>entry. record_of i (mt_trace_id m) (Log (log_record readers entry))) logs"
  by (simp add: log_events_def identity_fields_bind record_of_def event_new_def log_record_def)

lemma stream_logs_effect:
  "wd_gates (stream_logs cfg rd i m logs md w) = wd_gates w" "wd_quota (stream_logs cfg rd i m logs md w) = wd_quota w"
  "wd_keys (stream_logs cfg rd i m logs md w) = wd_keys w"
  "wd_metrics (stream_logs cfg rd i m logs md w) = wd_metrics w"
  "wd_events (stream_logs cfg rd i m logs md w) =
     wd_events w @ (if ac_events cfg \<and> md \<noteq> Test then log_events rd i m logs else [])"
  by (auto simp: stream_logs_def runlet_defs log_events_records)

lemma build_response_executed:
  assumes "build_response cfg readers i bm result w = (r, w')"
  shows "response_ok (resp_cfg_of cfg) r \<and>
    executed cfg i (run_outcome result)
      (if lp_mode (log_policy_resolve i) = Test then [] else log_events readers i bm (run_entries result))
      (run_meta bm result) w w'"
proof -
  let ?w1 = "on_metrics (\<lambda>mx. observe_execution mx (mt_exec_time_us bm)) w"
  show ?thesis
  proof (cases result rule: run_outcome.cases)
    case (1 panic)
    then have "failed_run cfg i bm (Internal (''task panicked: '' @ panic)) ?w1 = (r, w')"
      using assms by (simp add: build_response_def Let_def)
    from failed_run_executed [OF this] show ?thesis by (simp add: 1 log_events_records)
  next
    case (2 err egress)
    then have "failed_run cfg i bm err ?w1 = (r, w')" using assms by (simp add: build_response_def Let_def)
    from failed_run_executed [OF this] show ?thesis by (simp add: 2 log_events_records)
  next
    case (3 exec egress)
    define m where "m = with_metrics bm (oc_metrics exec) egress"
    have mt: "mt_trace_id m = mt_trace_id bm" by (simp add: m_def with_metrics_def Let_def)
    note lat = record_capability_latencies_same [of "oc_metrics exec" "em_backend egress",
        unfolded same_outcomes_def]
    note defs = build_response_def Let_def m_def [symmetric] response_oks executed_def emit_executed_def
      runlet_defs stream_logs_effect observe_execution_effect log_events_records mt
    show ?thesis
    proof (cases "oc_result exec")
      case (Inl err)
      then show ?thesis
        using assms 3 lat by (auto simp: defs record_engine_error_frame record_engine_error_outcome)
    next
      case (Inr js)
      then show ?thesis using assms 3 lat by (auto simp: defs record_success_effect)
    qed
  qed
qed

lemma finish_effects:
  assumes "run_execute_finish cfg env fl result t w = (r, w')"
  shows "response_ok (resp_cfg_of cfg) r \<and>
    wd_gates w' = release_permits (en_ops env) (wd_gates w) (fl_permit fl) \<and>
    wd_quota w' = (case fl_guard fl of None \<Rightarrow> wd_quota w | Some tn \<Rightarrow> map_option (\<lambda>q. guard_drop q tn) (wd_quota w)) \<and>
    wd_keys w' = wd_keys w \<and>
    (\<forall>o' \<in> set outcomes. outcome_counter (wd_metrics w') o' =
       outcome_counter (wd_metrics w) o' + (if o' = run_outcome result then 1 else 0)) \<and>
    mx_rejections (wd_metrics w') = mx_rejections (wd_metrics w) \<and>
    mx_overload_global (wd_metrics w') = mx_overload_global (wd_metrics w) \<and>
    mx_overload_partition (wd_metrics w') = mx_overload_partition (wd_metrics w) \<and>
    lh_count (mx_exec_latency (wd_metrics w')) = lh_count (mx_exec_latency (wd_metrics w)) + 1 \<and>
    wd_events w' = wd_events w @
      (if ac_events cfg
       then run_records (en_readers env) (fl_identity fl) ((fl_meta fl)\<lparr>mt_exec_time_us := t\<rparr>) result else [])"
proof -
  let ?w1 = "w\<lparr>wd_gates := release_permits (en_ops env) (wd_gates w) (fl_permit fl)\<rparr>"
  obtain r' w2 where b: "build_response cfg (en_readers env) (fl_identity fl)
      ((fl_meta fl)\<lparr>mt_exec_time_us := t\<rparr>) result ?w1 = (r', w2)" by fastforce
  have r: "r = r'" "w' = drop_guard (fl_guard fl) w2"
    using assms b by (simp_all add: run_execute_finish_def Let_def)
  note e = build_response_executed [OF b, unfolded executed_def]
  have q: "wd_quota w2 = wd_quota w" "wd_gates w2 = wd_gates ?w1" using e by simp_all
  show ?thesis
    using e by (simp add: r runlet_defs q run_records_def Let_def executed_events_records log_events_records
        run_meta_frame split: option.splits)
qed

subsection \<open>A sample deployment\<close>

text \<open>
  Trusted mode with a bearer token, a one-permit bulkhead over four buckets and one plan; a request for a
  registered script whose header and body both assert a foreign partition.
\<close>

definition sample_app :: app_config where
  "sample_app =
     \<lparr>ac_registry = [''hello'' \<mapsto> ''({result: 1})''], ac_engine = engine_config_default\<lparr>ec_max_context_size := 1024\<rparr>, ac_error_debug = False,
      ac_local_resources = Map.empty, ac_bulkhead_capacity = 1, ac_access_token = Some ''t0ken'',
      ac_trusted = Some \<lparr>tr_headers = trusted_headers_default,
        tr_capability_entitlements = [(''http'', ''cap:http'')], tr_allowed_principal_kinds = [],
        tr_contract = None\<rparr>,
      ac_events = True, ac_batch = batch_config_default, ac_timeout_retryable = True,
      ac_retry_after_seconds = 1, ac_default_currency = None\<rparr>"

definition sample_env :: "(unit, nat, unit) env" where
  "sample_env =
     \<lparr>en_ops = counting, en_hash = (\<lambda>k. of_nat (length k)),
      en_jwt = \<lparr>jwt_header = (\<lambda>_. None), jwt_decode = (\<lambda>_ _. None)\<rparr>,
      en_refresh = \<lparr>re_checked_at = 0, re_stored_at = 0, re_answer = None\<rparr>,
      en_trace_id = ''trace-1'', en_fresh_id = ''fresh-1'', en_connect = (\<lambda>_. Inr ()),
      en_readers = \<lparr>jr_retryable = (\<lambda>_. None), jr_envelope = (\<lambda>_. Inl ''''), jr_properties = (\<lambda>_. None)\<rparr>\<rparr>"

definition sample_world :: "(unit, nat) world" where
  "sample_world =
     \<lparr>wd_gates = gate_new counting 1 4 1,
      wd_quota = Some (tenant_quota_new [(''pro'', \<lparr>pl_max_concurrent = 2\<rparr>)]),
      wd_keys = key_cache_default, wd_metrics = metrics_default, wd_events = []\<rparr>"

definition sample_headers :: header_map where
  "sample_headers = map_of
     [(''authorization'', ''Bearer t0ken''), (''x-workspace-id'', ''acme''), (''x-workspace-plan'', ''pro''),
      (''x-tenant-scope'', ''acting''), (''x-partition-key'', ''globex'')]"

definition sample_request :: exec_request where
  "sample_request =
     \<lparr>xr_script = None, xr_key = Some ''hello'', xr_partition = Some ''initech'', xr_context = ''{}'',
      xr_config = \<lparr>rq_allowed_hosts = [], rq_s3 = None, rq_sys = None, rq_io = [], rq_currency = None\<rparr>\<rparr>"

definition sample_result :: engine_result where
  "sample_result =
     Inr (Inr \<lparr>oc_result = Inr ''{}'', oc_effects = [],
       oc_logs = [\<lparr>le_level = LInfo, le_template = ''hi'', le_properties = [], le_message = ''hi'', le_seq = 0,
                   le_offset_us = None\<rparr>],
       oc_metrics = \<lparr>xm_http = [], xm_s3 = []\<rparr>\<rparr>, egress_metrics_default)"

lemma sample_authorized: "request_authorized sample_headers ''t0ken''"
  by code_simp

lemma sample_identity: "from_headers sample_headers trusted_headers_default =
  \<lparr>id_tenant = Some ''acme'', id_user = None, id_roles = [], id_entitlements = [], id_suspended = False,
   id_anonymous = False, id_plan = Some ''pro'', id_principal_kind = None, id_on_behalf_of = None,
   id_scope = Some ''acting'', id_mode = Live, id_capture = False, id_log_level = None\<rparr>"
  by code_simp

lemma sample_quota: "is_ok (quota_admit (tenant_quota_new [(''pro'', \<lparr>pl_max_concurrent = 2\<rparr>)]) ''acme'' (Some ''pro''))"
    by (simp add: quota_admit_def tenant_quota_new_def check_def limit_for_def saturating_add_def)

lemma sample_permit: "fst (acquire_permits counting (\<lambda>k. of_nat (length k)) (gate_new counting 1 4 1) (Some ''acme'')) = Granted (Some 0)"
    by (simp add: acquire_permits_def take_partition_def partition_try_acquire_def bucket_for_def
        gate_new_def partition_limiter_new_def counting_def upt_rec unat_of_nat)

lemma sample_gates:
  "enforce_auth sample_app (en_fresh_id sample_env) sample_headers sample_world = (None, sample_world)"
  "resolve_identity sample_app sample_env sample_headers sample_world =
     (Inr (Some (from_headers sample_headers trusted_headers_default)), sample_world)"
  using sample_authorized
  by (simp_all add: enforce_auth_def resolve_identity_def sample_app_def Let_def sample_identity
      enforce_principal_kind_admission_def principal_kind_admitted_def)

lemma sample_request_runs:
  assumes "id_tenant i = Some ''acme''" "id_plan i = Some ''pro''"
    and "ac_trusted cfg = Some tr" "ac_registry cfg = ac_registry sample_app" "ac_engine cfg = ac_engine sample_app"
    and "en_ops env = counting" "en_hash env = (\<lambda>k. of_nat (length k))"
    and "wd_quota w = wd_quota sample_world" "wd_gates w = wd_gates sample_world"
  shows "\<exists>fl w'. execute_request cfg env headers (Some i) sample_request w = (Running fl, w')"
proof -
  obtain q where q: "quota_admit (tenant_quota_new [(''pro'', \<lparr>pl_max_concurrent = 2\<rparr>)]) ''acme'' (Some ''pro'') = Inr q"
    using sample_quota by (cases "quota_admit (tenant_quota_new [(''pro'', \<lparr>pl_max_concurrent = 2\<rparr>)]) ''acme'' (Some ''pro'')")
      (simp_all)
  obtain st where st: "acquire_permits counting (\<lambda>k. of_nat (length k)) (gate_new counting 1 4 1) (Some ''acme'') =
      (Granted (Some 0), st)"
    using sample_permit by (cases "acquire_permits counting (\<lambda>k. of_nat (length k)) (gate_new counting 1 4 1) (Some ''acme'')") simp
  have w: "wd_quota w = Some (tenant_quota_new [(''pro'', \<lparr>pl_max_concurrent = 2\<rparr>)])" "wd_gates w = gate_new counting 1 4 1"
    using assms(8,9) by (simp_all add: sample_world_def)
  have authz: "authorize_capabilities table [] i = Inr ()" for table by (simp add: authorize_capabilities_def)
  show ?thesis
    by (simp add: execute_request_def sample_request_def assms(1-7) w
        enforce_member_authz_def authz requested_capabilities_def sample_app_def
        resolve_script_def validate_input_sizes_def engine_config_default_def execute_sized_def
        enforce_quota_def q [simplified] open_session_def broker_names_def admit_def
        resolve_partition_def st [simplified] Let_def)
qed

lemma sample_runs: "\<exists>fl w'. run_execute_begin sample_app sample_env sample_headers (Inr sample_request) sample_world =
    (Running fl, w')"
proof -
  have "\<exists>fl w'. execute_request sample_app sample_env sample_headers
      (Some (from_headers sample_headers trusted_headers_default)) sample_request sample_world = (Running fl, w')"
    by (rule sample_request_runs) (simp_all add: sample_identity sample_app_def sample_env_def)
  then show ?thesis by (simp add: run_execute_begin_def sample_gates)
qed

text \<open>
  The same deployment with a contract verifier: the identity headers name a foreign tenant, the signed token the
  acting one, and its key is not cached yet, so that the verification refreshes the cache.
\<close>

definition contract_claims :: claims where
  "contract_claims =
     \<lparr>cl_sub = Some ''ada'', cl_workspace_id = Some ''acme'', cl_principal_kind = Some ''user'',
      cl_on_behalf_of = None, cl_roles = [], cl_entitlements = None, cl_suspended = Some False,
      cl_plan = Some ''pro'', cl_ctr = ''1''\<rparr>"

definition contract_app :: app_config where
  "contract_app = sample_app\<lparr>ac_trusted := Some \<lparr>tr_headers = trusted_headers_default,
     tr_capability_entitlements = [(''http'', ''cap:http'')], tr_allowed_principal_kinds = [],
     tr_contract = Some \<lparr>vf_supported_ctr = [''1''], vf_min_refresh = 60\<rparr>\<rparr>\<rparr>"

definition contract_env :: "(unit, nat, unit) env" where
  "contract_env = sample_env
     \<lparr>en_jwt := \<lparr>jwt_header = (\<lambda>t. if t = ''signed'' then Some (Some ''k1'') else None),
                jwt_decode = (\<lambda>_ _. Some contract_claims)\<rparr>,
      en_refresh := \<lparr>re_checked_at = 100, re_stored_at = 101, re_answer = Some [(Some ''k1'', Some ())]\<rparr>\<rparr>"

definition contract_world :: "(unit, nat) world" where
  "contract_world = sample_world\<lparr>wd_keys := \<lparr>kc_keys = [(''k0'', ())], kc_last_refresh = Some 40\<rparr>\<rparr>"

definition contract_headers :: header_map where
  "contract_headers = map_of
     [(''authorization'', ''Bearer t0ken''), (''x-identity-contract'', ''signed''), (''x-workspace-id'', ''globex'')]"

lemma contract_header: "header_value contract_headers ''x-identity-contract'' = Some ''signed''"
  by code_simp

lemma contract_authorized: "request_authorized contract_headers ''t0ken''"
  by code_simp

lemma contract_verifies:
  "verify (en_jwt contract_env) \<lparr>vf_supported_ctr = [''1''], vf_min_refresh = 60\<rparr> (en_refresh contract_env)
     (wd_keys contract_world) ''signed'' =
   (Inr (into_verified contract_claims), \<lparr>kc_keys = [(''k1'', ())], kc_last_refresh = Some 101\<rparr>)"
  by (simp add: verify_def contract_env_def contract_world_def key_for_kid_def cached_key_def refresh_keys_def
      refresh_due_def refresh_commit_def fetch_keys_def contract_claims_def Let_def)

lemma contract_gates:
  "enforce_auth contract_app (en_fresh_id contract_env) contract_headers contract_world = (None, contract_world)"
  "resolve_identity contract_app contract_env contract_headers contract_world =
     (Inr (Some (apply_contract (from_headers contract_headers trusted_headers_default) (into_verified contract_claims))),
      contract_world\<lparr>wd_keys := \<lparr>kc_keys = [(''k1'', ())], kc_last_refresh = Some 101\<rparr>\<rparr>)"
  using contract_authorized contract_header
  by (simp_all add: enforce_auth_def resolve_identity_def resolve_identity_contract_def contract_app_def sample_app_def
      Let_def contract_verifies trusted_headers_default_def enforce_principal_kind_admission_def
      principal_kind_admitted_def into_verified_def contract_claims_def apply_contract_def)

lemma contract_runs:
  "\<exists>fl w'. run_execute_begin contract_app contract_env contract_headers (Inr sample_request) contract_world = (Running fl, w')"
proof -
  have "\<exists>fl w'. execute_request contract_app contract_env contract_headers
      (Some (apply_contract (from_headers contract_headers trusted_headers_default) (into_verified contract_claims)))
      sample_request (contract_world\<lparr>wd_keys := k\<rparr>) = (Running fl, w')" for k
    by (rule sample_request_runs)
      (simp_all add: apply_contract_def into_verified_def contract_claims_def contract_app_def contract_env_def
        contract_world_def sample_app_def sample_env_def sample_world_def)
  then show ?thesis by (simp add: run_execute_begin_def contract_gates)
qed

subsection \<open>Properties of one request\<close>

text \<open>C8: every response keeps the wire contract. Whatever the request, the engine and the broker do, the status of
  \<open>/execute\<close> is one of \<open>200\<close>, \<open>400\<close>, \<open>401\<close>, \<open>403\<close>, \<open>404\<close>, \<open>409\<close>, \<open>413\<close>, \<open>422\<close>, \<open>500\<close>, \<open>503\<close>, and the configured \<open>Retry-After\<close>
  is present exactly on \<open>500\<close> and \<open>503\<close>.\<close>

theorem execute_response_contract:
  "response_ok (resp_cfg_of cfg) (fst (run_execute host cfg env headers payload t w))"
proof -
  obtain b w1 where b: "run_execute_begin cfg env headers payload w = (b, w1)" by fastforce
  show ?thesis
  proof (cases b)
    case (Done r)
    have "response_ok (resp_cfg_of cfg) (unauthorized_response (en_fresh_id env))"
      by (simp add: unauthorized_response_def system_error_response_ok)
    then have "response_ok (resp_cfg_of cfg) r"
      using begin_Done [OF b [unfolded Done]] by (auto simp: turned_away_def)
    then show ?thesis by (simp add: run_execute_def b Done)
  next
    case (Running fl)
    obtain r w2 where f: "run_execute_finish cfg env fl (execute_blocking host cfg (fl_job fl)) t w1 = (r, w2)"
      by fastforce
    then show ?thesis using finish_effects [OF f] by (simp add: run_execute_def b Running)
  qed
qed

text \<open>C3: a refused request is accounted once and leaves nothing behind. It bumps exactly one refusal counter; with
  events on it leaves exactly one audit record, a denial with a reason (none at all for a missing bearer
  token); and it holds no permit and no quota unit: a unit it took before a later gate refused it was given
  back.\<close>

theorem refused_request_accounting:
  assumes "run_execute_begin cfg env headers payload w = (Done r, w')"
  shows "(\<exists>f \<in> {record_rejection, record_overload_global, record_overload_partition}.
            wd_metrics w' = f (wd_metrics w)) \<and>
         (if rp_status r = 401 then wd_events w' = wd_events w
          else \<exists>ev. is_denied ev \<and> wd_events w' = wd_events w @ (if ac_events cfg then [ev] else [])) \<and>
         (rp_status r = 401 \<longleftrightarrow> (\<exists>tok. ac_access_token cfg = Some tok \<and> \<not> request_authorized headers tok)) \<and>
         settled env w w'"
proof (cases "\<exists>tok. ac_access_token cfg = Some tok \<and> \<not> request_authorized headers tok")
  case True
  then have r: "r = unauthorized_response (en_fresh_id env)" "w' = on_metrics record_rejection w"
    using assms by (simp_all add: run_execute_begin_def enforce_auth_cases)
  show ?thesis using True by (simp add: r unauthorized_status runlet_defs settled_refl)
next
  case False
  then have t: "turned_away cfg env r w w'" using begin_Done [OF assms] by blast
  then show ?thesis using False by (auto simp: turned_away_def refused_def denial_counters_def)
qed

theorem refused_request_accounting_witness:
  "\<exists>r w'. run_execute_begin sample_app sample_env sample_headers (Inl ''eof'') sample_world = (Done r, w') \<and>
     rp_status r \<noteq> 401 \<and> (\<exists>ev. is_denied ev \<and> wd_events w' = [ev])"
proof -
  obtain r w' where b: "run_execute_begin sample_app sample_env sample_headers (Inl ''eof'') sample_world = (Done r, w')"
    by (simp add: run_execute_begin_def sample_gates)
  have "ac_events sample_app" "ac_access_token sample_app = Some ''t0ken''" "wd_events sample_world = []"
    by (simp_all add: sample_app_def sample_world_def)
  then show ?thesis
    using refused_request_accounting [OF b] sample_authorized b by auto
qed

text \<open>C4: an executed request is accounted once. Finishing an execution bumps the counter of the outcome the engine
  result stands for and no other outcome's, no refusal counter, and the latency count. With events on it appends
  exactly these records, all under the request's identity and trace id: one per log entry of the run in order
  (none in test mode, none for a run without an outcome), one usage record with that same outcome, the
  execution time, the input size and the operation counts, and one allowing audit record. It releases
  exactly its own permit and quota unit.\<close>

theorem executed_request_accounting:
  assumes "run_execute_finish cfg env fl result t w = (r, w')"
  shows "wd_gates w' = release_permits (en_ops env) (wd_gates w) (fl_permit fl) \<and>
    wd_quota w' = (case fl_guard fl of None \<Rightarrow> wd_quota w | Some tn \<Rightarrow> map_option (\<lambda>q. guard_drop q tn) (wd_quota w)) \<and>
    run_outcome result \<in> set outcomes \<and>
    (\<forall>o' \<in> set outcomes. outcome_counter (wd_metrics w') o' =
       outcome_counter (wd_metrics w) o' + (if o' = run_outcome result then 1 else 0)) \<and>
    mx_rejections (wd_metrics w') = mx_rejections (wd_metrics w) \<and>
    mx_overload_global (wd_metrics w') = mx_overload_global (wd_metrics w) \<and>
    mx_overload_partition (wd_metrics w') = mx_overload_partition (wd_metrics w) \<and>
    lh_count (mx_exec_latency (wd_metrics w')) = lh_count (mx_exec_latency (wd_metrics w)) + 1 \<and>
    wd_events w' = wd_events w @
      (if ac_events cfg
       then run_records (en_readers env) (fl_identity fl) ((fl_meta fl)\<lparr>mt_exec_time_us := t\<rparr>) result else [])"
  using finish_effects [OF assms] run_outcome_in by simp

theorem executed_request_accounting_witness:
  "\<exists>fl w1 r w2. run_execute_begin sample_app sample_env sample_headers (Inr sample_request) sample_world = (Running fl, w1) \<and>
     run_execute_finish sample_app sample_env fl sample_result 5 w1 = (r, w2) \<and>
     mx_success (wd_metrics w2) = mx_success (wd_metrics w1) + 1 \<and>
     mx_script_error (wd_metrics w2) = mx_script_error (wd_metrics w1) \<and>
     (\<exists>usage. ub_outcome usage = ''success'' \<and> ub_exec_time_us usage = 5 \<and>
        map ev_body (wd_events w2) = map ev_body (wd_events w1) @
          [Log \<lparr>lb_level = ''info'', lb_template = ''hi'', lb_properties = JNull, lb_message = ''hi'', lb_seq = 0,
                lb_offset_us = None\<rparr>,
           Usage usage, Audit \<lparr>ab_decision = ''allowed'', ab_reason = None, ab_detail = None\<rparr>])"
proof -
  obtain fl w1 where b: "run_execute_begin sample_app sample_env sample_headers (Inr sample_request) sample_world = (Running fl, w1)"
    using sample_runs by blast
  have i: "fl_identity fl = Some (from_headers sample_headers trusted_headers_default)"
    using begin_Running [OF b] by (simp add: sample_gates)
  obtain r w2 where f: "run_execute_finish sample_app sample_env fl sample_result 5 w1 = (r, w2)" by fastforce
  have o: "run_outcome sample_result = ''success''" "ac_events sample_app"
    by (simp_all add: sample_result_def sample_app_def)
  note acc = executed_request_accounting [OF f]
  have c: "\<forall>o' \<in> set outcomes. outcome_counter (wd_metrics w2) o' =
      outcome_counter (wd_metrics w1) o' + (if o' = ''success'' then 1 else 0)"
    using acc by (simp add: o)
  have "mx_success (wd_metrics w2) = mx_success (wd_metrics w1) + 1"
       "mx_script_error (wd_metrics w2) = mx_script_error (wd_metrics w1)"
    using bspec [OF c, of "''success''"] bspec [OF c, of "''script_error''"]
    by (simp_all add: outcomes_def outcome_counter_def)
  moreover have "wd_events w2 = wd_events w1 @ run_records (en_readers sample_env) (fl_identity fl)
      ((fl_meta fl)\<lparr>mt_exec_time_us := 5\<rparr>) sample_result"
    using acc by (simp add: o)
  ultimately show ?thesis
    using b f
    by (auto simp: run_records_def Let_def record_of_def log_record_def usage_record_def i sample_identity
        log_policy_resolve_def sample_result_def run_meta_frame sample_env_def with_metrics_def
        intro!: exI [of _ fl] exI [of _ w1] exI [of _ w2])
qed

text \<open>C2: nothing runs that a gate should have stopped. When a request starts executing: it presented the bearer token
  if one is configured; in trusted mode it has an accepted identity (a tenant, not suspended, not anonymous, an
  admitted principal kind and, without a contract, the acting scope) holding the entitlement of every gated
  capability it names; with a contract verifier that identity is the one of a token the request carried, which
  verified against the key cache and states that its principal is not suspended, and without one it is that of
  the edge's headers; exactly one of script and key named its source; script and context are within their
  limits; its tenant was below its plan's limit; and the bulkhead and its partition had a permit for it.\<close>

theorem execution_passed_gates:
  assumes "run_execute_begin cfg env headers payload w = (Running fl, w')"
  shows "(\<forall>tok. ac_access_token cfg = Some tok \<longrightarrow> request_authorized headers tok) \<and>
    accepted_identity cfg (fl_identity fl) \<and> vouched_identity cfg env headers (wd_keys w) (fl_identity fl) \<and>
    (\<exists>req src. payload = Inr req \<and>
       (\<forall>tr i. ac_trusted cfg = Some tr \<and> fl_identity fl = Some i \<longrightarrow>
          is_ok (authorize_capabilities (tr_capability_entitlements tr) (requested_capabilities (xr_config req)) i)) \<and>
       resolve_script (xr_script req) (xr_key req) (ac_registry cfg) = Inr src \<and>
       xj_source (fl_job fl) = src \<and>
       length (script_text src) \<le> ec_max_script_size (ac_engine cfg) \<and>
       length (xr_context req) \<le> ec_max_context_size (ac_engine cfg)) \<and>
    (\<forall>q i tn. wd_quota w = Some q \<and> ac_trusted cfg \<noteq> None \<and> fl_identity fl = Some i \<and> id_tenant i = Some tn \<longrightarrow>
       fl_guard fl = Some tn \<and> is_ok (quota_admit q tn (id_plan i))) \<and>
    (\<exists>pkey. fst (acquire_permits (en_ops env) (en_hash env) (wd_gates w) pkey) = Granted (fl_permit fl) \<and>
       xj_cache_ns (fl_job fl) = pkey)"
proof -
  obtain req k where b: "\<forall>tok. ac_access_token cfg = Some tok \<longrightarrow> request_authorized headers tok"
      "payload = Inr req" "accepted_identity cfg (fl_identity fl)"
      "execute_request cfg env headers (fl_identity fl) req (w\<lparr>wd_keys := k\<rparr>) = (Running fl, w')"
      "vouched_identity cfg env headers (wd_keys w) (fl_identity fl)"
    using begin_Running [OF assms] by blast
  let ?w = "w\<lparr>wd_keys := k\<rparr>"
  obtain src pkey where q:
      "resolve_script (xr_script req) (xr_key req) (ac_registry cfg) = Inr src"
      "length (script_text src) \<le> ec_max_script_size (ac_engine cfg)"
      "length (xr_context req) \<le> ec_max_context_size (ac_engine cfg)"
      "\<forall>tr j. ac_trusted cfg = Some tr \<and> fl_identity fl = Some j \<longrightarrow>
         is_ok (authorize_capabilities (tr_capability_entitlements tr) (requested_capabilities (xr_config req)) j)"
      "execute_sized cfg env (fl_identity fl) pkey req src ?w = (Running fl, w')"
    using execute_request_Running [OF b(4)] by blast
  obtain session w1 where s:
      "acquire_permits (en_ops env) (en_hash env) (wd_gates w) pkey = (Granted (fl_permit fl), wd_gates w')"
      "fl_job fl = make_job cfg (fl_identity fl) pkey src (xr_context req) (xr_config req) session"
      "enforce_quota cfg (fl_identity fl) (en_trace_id env) (fl_meta fl) ?w = (Inr (fl_guard fl), w1)"
    using execute_sized_Running [OF q(5)] by auto
  have "fl_guard fl = Some tn \<and> is_ok (quota_admit q tn (id_plan i))"
    if "wd_quota w = Some q" "ac_trusted cfg \<noteq> None" "fl_identity fl = Some i" "id_tenant i = Some tn" for q i tn
    using s(3) that by (auto simp: enforce_quota_def split: sum.splits)
  moreover have "fst (acquire_permits (en_ops env) (en_hash env) (wd_gates w) pkey) = Granted (fl_permit fl) \<and>
      xj_cache_ns (fl_job fl) = pkey" and "xj_source (fl_job fl) = src"
    using s by (simp_all add: make_job_def)
  ultimately show ?thesis using b(1-3,5) q(1-4) by blast
qed

theorem execution_passed_gates_witness:
  "\<exists>fl w'. run_execute_begin contract_app contract_env contract_headers (Inr sample_request) contract_world = (Running fl, w') \<and>
     request_authorized contract_headers ''t0ken'' \<and> accepted_identity contract_app (fl_identity fl) \<and>
     fl_identity fl = Some (apply_contract (from_headers contract_headers trusted_headers_default)
       (into_verified contract_claims)) \<and>
     vc_suspended (into_verified contract_claims) = Some False"
proof -
  obtain fl w' where b: "run_execute_begin contract_app contract_env contract_headers (Inr sample_request) contract_world =
      (Running fl, w')"
    using contract_runs by blast
  have "ac_access_token contract_app = Some ''t0ken''" by (simp add: contract_app_def sample_app_def)
  moreover have "vouched_identity contract_app contract_env contract_headers (wd_keys contract_world) (fl_identity fl)"
    using execution_passed_gates [OF b] by blast
  ultimately show ?thesis
    using execution_passed_gates [OF b] b
    by (auto simp: vouched_identity_def contract_app_def sample_app_def contract_header contract_verifies
        trusted_headers_default_def)
qed

text \<open>C9: in trusted mode a caller cannot choose its partition. Two requests that agree on the authorization header and
  the configured identity headers get the same response and leave the same state, whatever their
  \<open>X-Partition-Key\<close> headers and body partitions say: the same permits, quota and cache namespace, those of
  the identity's tenant.\<close>

theorem caller_partition_ignored:
  assumes "ac_trusted cfg = Some tr"
    and "\<forall>n \<in> {''authorization'', th_contract (tr_headers tr), th_tenant (tr_headers tr), th_user (tr_headers tr),
      th_roles (tr_headers tr), th_entitlements (tr_headers tr), th_suspended (tr_headers tr),
      th_anonymous (tr_headers tr), th_plan (tr_headers tr), th_scope (tr_headers tr), th_mode (tr_headers tr),
      th_capture (tr_headers tr), th_log_level (tr_headers tr)}. header_get h n = header_get h' n"
  shows "run_execute host cfg env h (Inr req) t w =
         run_execute host cfg env h' (Inr (req\<lparr>xr_partition := p\<rparr>)) t w"
proof -
  have f: "from_headers h (tr_headers tr) = from_headers h' (tr_headers tr)"
    and c: "header_value h (th_contract (tr_headers tr)) = header_value h' (th_contract (tr_headers tr))"
    and a: "\<forall>e. request_authorized h e = request_authorized h' e"
    using assms(2)
    by (simp_all add: from_headers_def header_value_def header_list_def header_flag_def header_mode_def
        request_authorized_def)
  have auth: "enforce_auth cfg fresh h v = enforce_auth cfg fresh h' v" for fresh v
    by (simp add: enforce_auth_def a split: option.split)
  have ident: "resolve_identity cfg env h v = resolve_identity cfg env h' v" for v
  proof -
    have k: "resolve_identity_contract cfg env h tr vf v = resolve_identity_contract cfg env h' tr vf v" for vf
      unfolding resolve_identity_contract_def f c ..
    show ?thesis by (cases "tr_contract tr") (simp_all add: resolve_identity_def assms(1) f k Let_def)
  qed
  have req: "execute_request cfg env h (Some i) req v =
      execute_request cfg env h' (Some i) (req\<lparr>xr_partition := p\<rparr>) v" for i v
  proof -
    have sel: "xr_script (req\<lparr>xr_partition := p\<rparr>) = xr_script req" "xr_key (req\<lparr>xr_partition := p\<rparr>) = xr_key req"
        "xr_context (req\<lparr>xr_partition := p\<rparr>) = xr_context req" "xr_config (req\<lparr>xr_partition := p\<rparr>) = xr_config req"
      by simp_all
    show ?thesis
      unfolding execute_request_def execute_sized_def resolve_partition_def Let_def option.case sel ..
  qed
  obtain x w1 where x: "enforce_auth cfg (en_fresh_id env) h' w = (x, w1)" by fastforce
  obtain y w2 where y: "resolve_identity cfg env h' w1 = (y, w2)" by fastforce
  have "\<exists>i. z = Some i" if "y = Inr z" for z
    using resolve_identity_ok [of cfg env h' w1 z w2] y that assms(1) by (auto simp: accepted_identity_def)
  then have "run_execute_begin cfg env h (Inr req) w =
      run_execute_begin cfg env h' (Inr (req\<lparr>xr_partition := p\<rparr>)) w"
    by (cases x; cases y) (auto simp: run_execute_begin_def auth ident x y req)
  then show ?thesis by (simp add: run_execute_def)
qed

theorem caller_partition_ignored_witness:
  "run_execute (\<lambda>_. Inl ''boom'') sample_app sample_env sample_headers (Inr sample_request) 5 sample_world =
   run_execute (\<lambda>_. Inl ''boom'') sample_app sample_env (sample_headers(''x-partition-key'' \<mapsto> ''evil''))
     (Inr (sample_request\<lparr>xr_partition := Some ''evil''\<rparr>)) 5 sample_world"
  by (rule caller_partition_ignored [where tr = "the (ac_trusted sample_app)"])
     (simp_all add: sample_app_def trusted_headers_default_def header_get_def to_ascii_lowercase_def
        to_ascii_lower_def)

end
