(* ===== verification/Batch.thy ===== *)
theory Batch
  imports Handler
begin

text \<open>
  The \<^verbatim>\<open>/batch\<close> endpoint: \<^verbatim>\<open>runlet/src/handler/{batch,batch_items,lifecycle}.rs\<close>.

  A batch is a state machine: an optional \<^verbatim>\<open>before\<close> phase run alone, the concurrent fan-out of the items behind a
  gate local to the batch, an optional \<^verbatim>\<open>after\<close> phase run alone over the rendered results. Every invocation (item
  or phase) waits for a permit of the global bulkhead, so it is cut there and at its execution: a \<open>pending\<close>
  invocation has passed its gates and holds its quota unit. \<open>batch_step\<close> is the interleaving of one batch's
  tasks; \<open>Server\<close> interleaves batches with one another and with \<^verbatim>\<open>/execute\<close> requests.

  \<open>serde\<close> holds what the code uses of serde's JSON: the texts of envelopes and the reading and writing of
  objects whose values stay raw text.
\<close>

subsection \<open>Requests and responses\<close>

record batch_item =
  bi_script :: "string option"
  bi_key :: "string option"
  bi_context :: string
  bi_config :: request_config
  bi_id :: "string option"

record batch_request =
  bq_items :: "batch_item list"
  bq_before :: "batch_item option"
  bq_shared :: "string option"
  bq_after :: "batch_item option"

record batch_meta =
  bm_items :: nat
  bm_ok :: nat
  bm_failed :: nat
  bm_duration_ms :: nat
  bm_trace_id :: string

record batch_response =
  br_results :: "string list"
  br_summary :: "string option"
  br_summary_error :: "error_envelope option"
  br_meta :: batch_meta

record rendered_item =
  ri_body :: string
  ri_ok :: bool

record serde =
  sd_error_item :: "error_envelope \<Rightarrow> meta \<Rightarrow> string option \<Rightarrow> string option"
  sd_success_item :: "string \<Rightarrow> string \<Rightarrow> meta \<Rightarrow> string option \<Rightarrow> string option"
  sd_object :: "string \<Rightarrow> (string \<rightharpoonup> string) option"
  sd_object_text :: "(string \<rightharpoonup> string) \<Rightarrow> string option"
  sd_array_text :: "string list \<Rightarrow> string option"
  sd_raw :: "string \<Rightarrow> string option"

definition RAW_NULL :: string where
  "RAW_NULL = ''null''"

text \<open>The request-level context every phase keys off.\<close>

record batch_env =
  bx_identity :: "trusted_identity option"
  bx_partition :: "string option"
  bx_trace_id :: string

subsection \<open>Caps\<close>

definition batch_level_error :: "string \<Rightarrow> string \<Rightarrow> string \<Rightarrow> response" where
  "batch_level_error code message trace_id =
     system_error_response (request_error code message) 400 (meta_new trace_id 0 0 0)"

definition batch_item_input_bytes :: "batch_item \<Rightarrow> nat" where
  "batch_item_input_bytes item =
     (let script = (case bi_script item of None \<Rightarrow> 0 | Some s \<Rightarrow> length s)
      in usat_add script (length (bi_context item)))"

definition validate_batch ::
  "app_config \<Rightarrow> batch_item list \<Rightarrow> trusted_identity option \<Rightarrow> string \<Rightarrow> ('k, 's) world \<Rightarrow>
   (response, unit) result \<times> ('k, 's) world" where
  "validate_batch cfg items identity trace_id w =
     (let deny = (\<lambda>code message.
            (Inl (batch_level_error code message trace_id), emit_denied cfg identity trace_id code None w));
          combined = foldl usat_add 0 (map batch_item_input_bytes items)
      in if items = [] then deny ''EMPTY_BATCH'' ''batch must contain at least one item''
         else if bt_max_items (ac_batch cfg) < length items
         then deny ''BATCH_TOO_LARGE''
                (''batch has '' @ show_nat (length items) @ '' items, exceeding the limit of ''
                 @ show_nat (bt_max_items (ac_batch cfg)))
         else if bt_max_input_bytes (ac_batch cfg) < combined
         then deny ''BATCH_INPUT_TOO_LARGE''
                (''combined input '' @ show_nat combined @ '' bytes exceeds the limit of ''
                 @ show_nat (bt_max_input_bytes (ac_batch cfg)))
         else (Inr (), w))"

definition malformed_batch_response :: "app_config \<Rightarrow> string \<Rightarrow> string \<Rightarrow> response" where
  "malformed_batch_response cfg fresh_id body_text =
     (let base = request_error ''MALFORMED_REQUEST'' ''request body is not valid for /batch'';
          envelope = (if ac_error_debug cfg
                      then with_debug base \<lparr>db_stack = None, db_raw = Some body_text\<rparr> else base)
      in system_error_response envelope 400 (meta_new fresh_id 0 0 0))"

subsection \<open>Rendering\<close>

text \<open>Rust's \<^verbatim>\<open>{:?}\<close> of a string, on the printable ASCII trace ids and their two escaped characters.\<close>

definition debug_text :: "string \<Rightarrow> string" where
  "debug_text s = ''\"'' @ concat (map (\<lambda>c. if c = CHR 0x22 \<or> c = CHR 0x5C then [CHR 0x5C, c] else [c]) s) @ ''\"''"

definition fallback_item_body :: "string \<Rightarrow> string" where
  "fallback_item_body trace_id =
     ''{\"data\":null,\"error\":{\"code\":\"INTERNAL_ERROR\"},\"meta\":{\"trace_id\":'' @ debug_text trace_id @ ''}}''"

definition render_error_item :: "serde \<Rightarrow> error_envelope \<Rightarrow> meta \<Rightarrow> string option \<Rightarrow> rendered_item" where
  "render_error_item sd error m i =
     \<lparr>ri_body = (case sd_error_item sd error m i of
                   Some body \<Rightarrow> body | None \<Rightarrow> fallback_item_body (mt_trace_id m)),
      ri_ok = False\<rparr>"

definition render_engine_error_item ::
  "serde \<Rightarrow> engine_error \<Rightarrow> meta \<Rightarrow> string option \<Rightarrow> resp_cfg \<Rightarrow> rendered_item" where
  "render_engine_error_item sd err m i rc =
     render_error_item sd (into_envelope err (rc_error_debug rc) (rc_timeout_retryable rc)) m i"

definition render_success_item ::
  "serde \<Rightarrow> json_readers \<Rightarrow> string \<Rightarrow> meta \<Rightarrow> string option \<Rightarrow> resp_cfg \<Rightarrow> rendered_item" where
  "render_success_item sd readers js_json m i rc =
     (case jr_envelope readers js_json of
        Inr (data, error) \<Rightarrow>
          \<lparr>ri_body = (case sd_success_item sd data error m i of
                        Some body \<Rightarrow> body | None \<Rightarrow> fallback_item_body (mt_trace_id m)),
           ri_ok = True\<rparr>
      | Inl parse_err \<Rightarrow>
          render_error_item sd
            (into_envelope (Malformed (''malformed handler response: '' @ parse_err))
               (rc_error_debug rc) (rc_timeout_retryable rc)) m i)"

definition internal_error_item :: "serde \<Rightarrow> string \<Rightarrow> rendered_item" where
  "internal_error_item sd trace_id =
     render_error_item sd
       (with_message (envelope_new CatRuntime SrcEngine ''INTERNAL_ERROR'' True Operator)
          ''batch item did not complete'') (meta_new trace_id 0 0 0) None"

definition truncated_item :: "serde \<Rightarrow> string \<Rightarrow> rendered_item" where
  "truncated_item sd trace_id =
     render_error_item sd
       (with_message (envelope_new CatRuntime SrcEngine ''BATCH_RESPONSE_TRUNCATED'' False Operator)
          ''item output omitted: batch response size limit reached'') (meta_new trace_id 0 0 0) None"

definition raw_of :: "serde \<Rightarrow> rendered_item \<Rightarrow> string" where
  "raw_of sd item = (case sd_raw sd (ri_body item) of Some raw \<Rightarrow> raw | None \<Rightarrow> RAW_NULL)"

text \<open>The loop of \<^verbatim>\<open>render_slots\<close>; \<open>used\<close>, \<open>n\<close> and \<open>f\<close> are its running totals.\<close>

fun render_slots_from ::
  "serde \<Rightarrow> string \<Rightarrow> nat \<Rightarrow> nat \<Rightarrow> nat \<Rightarrow> nat \<Rightarrow> rendered_item option list \<Rightarrow> string list \<times> nat \<times> nat" where
  "render_slots_from sd trace_id cap used n f [] = ([], n, f)"
| "render_slots_from sd trace_id cap used n f (slot # slots) =
     (let rendered = (case slot of Some r \<Rightarrow> r | None \<Rightarrow> internal_error_item sd trace_id);
          projected = usat_add used (length (ri_body rendered))
      in if cap < projected
         then (let truncated = truncated_item sd trace_id;
                   rest = render_slots_from sd trace_id cap
                            (usat_add used (length (ri_body truncated))) n (usat_add f 1) slots
               in (raw_of sd truncated # fst rest, snd rest))
         else (let rest = render_slots_from sd trace_id cap projected
                            (if ri_ok rendered then usat_add n 1 else n)
                            (if ri_ok rendered then f else usat_add f 1) slots
               in (raw_of sd rendered # fst rest, snd rest)))"

definition render_slots :: "serde \<Rightarrow> rendered_item option list \<Rightarrow> string \<Rightarrow> nat \<Rightarrow> string list \<times> nat \<times> nat" where
  "render_slots sd slots trace_id max_response_bytes =
     render_slots_from sd trace_id max_response_bytes 0 0 0 slots"

subsection \<open>Shared context\<close>

fun insert_reserved :: "serde \<Rightarrow> (string \<rightharpoonup> string) \<Rightarrow> (string \<times> string) list \<Rightarrow> (string \<rightharpoonup> string) option" where
  "insert_reserved sd m [] = Some m"
| "insert_reserved sd m ((key, value) # reserved) =
     (case sd_raw sd value of
        None \<Rightarrow> None
      | Some raw \<Rightarrow> insert_reserved sd (m(key \<mapsto> raw)) reserved)"

definition context_with_reserved :: "serde \<Rightarrow> string \<Rightarrow> (string \<times> string) list \<Rightarrow> string option" where
  "context_with_reserved sd context_text reserved =
     (case sd_object sd context_text of
        None \<Rightarrow> None
      | Some m \<Rightarrow>
          (case insert_reserved sd m reserved of
             None \<Rightarrow> None
           | Some m' \<Rightarrow> sd_object_text sd m'))"

definition build_shared_context :: "serde \<Rightarrow> string option \<Rightarrow> string option \<Rightarrow> string option" where
  "build_shared_context sd seed before_data =
     (case (seed, before_data) of
        (None, None) \<Rightarrow> None
      | (Some seed_only, None) \<Rightarrow> Some seed_only
      | (None, Some data) \<Rightarrow> Some data
      | (Some seed_obj, Some data) \<Rightarrow>
          Some (case (sd_object sd seed_obj, sd_object sd data) of
                  (Some merged, Some over) \<Rightarrow>
                    (case sd_object_text sd (merged ++ over) of Some text \<Rightarrow> text | None \<Rightarrow> data)
                | _ \<Rightarrow> data))"

subsection \<open>Per-invocation gates\<close>

definition batch_item_authz ::
  "app_config \<Rightarrow> trusted_identity option \<Rightarrow> request_config \<Rightarrow> string \<Rightarrow> ('k, 's) world \<Rightarrow>
   error_envelope option \<times> ('k, 's) world" where
  "batch_item_authz cfg identity config trace_id w =
     (case (ac_trusted cfg, identity) of
        (Some trusted, Some i) \<Rightarrow>
          (case authorize_capabilities (tr_capability_entitlements trusted) (requested_capabilities config) i of
             Inr u \<Rightarrow> (None, w)
           | Inl denied \<Rightarrow>
               (Some (request_error ''ENTITLEMENT_REQUIRED''
                  (''capability `'' @ cd_capability denied @ ''` requires entitlement `''
                   @ cd_required denied @ ''`'')),
                emit_denied cfg identity trace_id ''ENTITLEMENT_REQUIRED''
                  (Some (JObj [(''capability'', JStr (cd_capability denied)),
                               (''required'', JStr (cd_required denied))])) w))
      | _ \<Rightarrow> (None, w))"

definition batch_item_quota ::
  "app_config \<Rightarrow> trusted_identity option \<Rightarrow> string \<Rightarrow> ('k, 's) world \<Rightarrow>
   (error_envelope, string option) result \<times> ('k, 's) world" where
  "batch_item_quota cfg identity trace_id w =
     (case (ac_trusted cfg, identity) of
        (Some trusted, Some i) \<Rightarrow>
          (case (wd_quota w, id_tenant i) of
             (Some quota, Some tenant) \<Rightarrow>
               (case quota_admit quota tenant (id_plan i) of
                  Inr quota' \<Rightarrow> (Inr (Some tenant), w\<lparr>wd_quota := Some quota'\<rparr>)
                | Inl exceeded \<Rightarrow>
                    (Inl (quota_exceeded_envelope exceeded),
                     emit_denied cfg identity trace_id ''QUOTA_EXCEEDED''
                       (Some (JObj [(''plan'', JStr (qe_plan exceeded)),
                                    (''limit'', JNum (show_nat (unat (qe_limit exceeded)))),
                                    (''usage'', JNum (show_nat (unat (qe_usage exceeded))))])) w))
           | _ \<Rightarrow> (Inr None, w))
      | _ \<Rightarrow> (Inr None, w))"

text \<open>What an invocation holds once its gates are passed.\<close>

record 'c pending =
  pd_guard :: "string option"
  pd_job :: "'c execute_job"
  pd_meta :: meta
  pd_id :: "string option"

text \<open>Authorisation, quota and session, in the order items and phases share.\<close>

definition open_invocation ::
  "app_config \<Rightarrow> ('k, 's, 'c) env \<Rightarrow> batch_env \<Rightarrow> request_config \<Rightarrow> ('k, 's) world \<Rightarrow>
   (error_envelope, string option \<times> 'c option) result \<times> ('k, 's) world" where
  "open_invocation cfg env bx config w =
     (case batch_item_authz cfg (bx_identity bx) config (bx_trace_id bx) w of
        (Some envelope, w1) \<Rightarrow> (Inl envelope, w1)
      | (None, w1) \<Rightarrow>
          (case batch_item_quota cfg (bx_identity bx) (bx_trace_id bx) w1 of
             (Inl envelope, w2) \<Rightarrow> (Inl envelope, w2)
           | (Inr guard, w2) \<Rightarrow>
               (case open_session cfg env (bx_identity bx) config of
                  Inl err \<Rightarrow>
                    (Inl (session_error_envelope err),
                     drop_guard guard
                       (emit_denied cfg (bx_identity bx) (bx_trace_id bx) ''EGRESS_UNAVAILABLE'' None w2))
                | Inr session \<Rightarrow> (Inr (guard, session), w2))))"

definition pending_of ::
  "app_config \<Rightarrow> batch_env \<Rightarrow> batch_item \<Rightarrow> script_source \<Rightarrow> string \<Rightarrow> meta \<Rightarrow> string option \<times> 'c option \<Rightarrow>
   'c pending" where
  "pending_of cfg bx item source context_json m held =
     \<lparr>pd_guard = fst held,
      pd_job = (make_job cfg (bx_identity bx) (bx_partition bx) source context_json (bi_config item) (snd held))
                 \<lparr>xj_log_floor := None\<rparr>,
      pd_meta = m, pd_id = bi_id item\<rparr>"

text \<open>\<^verbatim>\<open>run_batch_item\<close> up to its wait for a slot.\<close>

definition begin_item ::
  "app_config \<Rightarrow> ('k, 's, 'c) env \<Rightarrow> serde \<Rightarrow> batch_env \<Rightarrow> string option \<Rightarrow> batch_item \<Rightarrow> ('k, 's) world \<Rightarrow>
   (rendered_item, 'c pending) result \<times> ('k, 's) world" where
  "begin_item cfg env sd bx shared item w =
     (let context_bytes = length (bi_context item);
          deny = (\<lambda>reason. emit_denied cfg (bx_identity bx) (bx_trace_id bx) reason None w);
          meta_for = (\<lambda>script_bytes.
            base_error_meta (bx_trace_id bx) script_bytes context_bytes (bi_key item) (bx_partition bx))
      in case resolve_script (bi_script item) (bi_key item) (ac_registry cfg) of
           Inl (status, envelope) \<Rightarrow>
             (Inl (render_error_item sd envelope (meta_for 0) (bi_id item)), deny ''SCRIPT_NOT_FOUND'')
         | Inr source \<Rightarrow>
             (let m = meta_for (length (script_text source))
              in case validate_input_sizes (length (script_text source)) context_bytes
                        (ec_max_script_size (ac_engine cfg)) (ec_max_context_size (ac_engine cfg)) of
                   Inl (code, message) \<Rightarrow>
                     (Inl (render_error_item sd (request_error code message) m (bi_id item)),
                      deny ''INPUT_TOO_LARGE'')
                 | Inr u \<Rightarrow>
                     (case (case shared of
                              None \<Rightarrow> Some (bi_context item)
                            | Some shared_json \<Rightarrow>
                                context_with_reserved sd (bi_context item) [(''shared'', shared_json)]) of
                        None \<Rightarrow>
                          (Inl (render_error_item sd
                             (request_error ''INVALID_CONTEXT''
                                ''item context must be a JSON object when the batch supplies a shared context'')
                             m (bi_id item)), deny ''INVALID_CONTEXT'')
                      | Some context_json \<Rightarrow>
                          (case open_invocation cfg env bx (bi_config item) w of
                             (Inl envelope, w1) \<Rightarrow> (Inl (render_error_item sd envelope m (bi_id item)), w1)
                           | (Inr held, w1) \<Rightarrow>
                               (Inr (pending_of cfg bx item source context_json m held), w1)))))"

text \<open>\<^verbatim>\<open>run_lifecycle_phase\<close> up to its wait for a bulkhead permit.\<close>

definition begin_phase ::
  "app_config \<Rightarrow> ('k, 's, 'c) env \<Rightarrow> batch_env \<Rightarrow> batch_item \<Rightarrow> string \<Rightarrow> ('k, 's) world \<Rightarrow>
   (error_envelope, 'c pending) result \<times> ('k, 's) world" where
  "begin_phase cfg env bx item context_json w =
     (case resolve_script (bi_script item) (bi_key item) (ac_registry cfg) of
        Inl (status, envelope) \<Rightarrow>
          (Inl envelope, emit_denied cfg (bx_identity bx) (bx_trace_id bx) ''SCRIPT_NOT_FOUND'' None w)
      | Inr source \<Rightarrow>
          (case validate_input_sizes (length (script_text source)) (length context_json)
                  (ec_max_script_size (ac_engine cfg)) (ec_max_context_size (ac_engine cfg)) of
             Inl (code, message) \<Rightarrow>
               (Inl (request_error code message),
                emit_denied cfg (bx_identity bx) (bx_trace_id bx) ''INPUT_TOO_LARGE'' None w)
           | Inr u \<Rightarrow>
               (case open_invocation cfg env bx (bi_config item) w of
                  (Inl envelope, w1) \<Rightarrow> (Inl envelope, w1)
                | (Inr held, w1) \<Rightarrow>
                    (Inr (pending_of cfg bx item source context_json
                       (with_partition
                          (meta_new (bx_trace_id bx) (length (script_text source)) (length context_json) 0)
                          (bx_partition bx)) held), w1))))"

text \<open>A queued acquisition of the global bulkhead proceeds when a permit is free.\<close>

definition acquire_global :: "'s semaphore_ops \<Rightarrow> 's gate_state \<Rightarrow> 's gate_state option" where
  "acquire_global ops st = map_option (\<lambda>g. st\<lparr>gt_global := g\<rparr>) (sem_try_acquire ops (gt_global st))"

definition release_global :: "'s semaphore_ops \<Rightarrow> 's gate_state \<Rightarrow> 's gate_state" where
  "release_global ops st = st\<lparr>gt_global := sem_release ops (gt_global st)\<rparr>"

subsection \<open>Outcomes\<close>

text \<open>The accounting \<^verbatim>\<open>render_executed_item\<close> and \<^verbatim>\<open>lifecycle_outcome\<close> share, with the meta they go on with.\<close>

definition settle_run ::
  "app_config \<Rightarrow> trusted_identity option \<Rightarrow> engine_result \<Rightarrow> meta \<Rightarrow> ('k, 's) world \<Rightarrow>
   (engine_error, string) result \<times> meta \<times> ('k, 's) world" where
  "settle_run cfg identity result base_meta w =
     (let w1 = on_metrics (\<lambda>mx. observe_execution mx (mt_exec_time_us base_meta)) w;
          failed = (\<lambda>err m v. (Inl err, m,
            on_metrics (\<lambda>mx. record_engine_error mx err)
              (emit_executed cfg identity m (engine_error_outcome err) v)))
      in case result of
           Inr (Inr exec, egress) \<Rightarrow>
             (let w2 = on_metrics (record_capability_latencies (oc_metrics exec) (em_backend egress)) w1;
                  m = with_metrics base_meta (oc_metrics exec) egress
              in case oc_result exec of
                   Inr js_json \<Rightarrow>
                     (Inr js_json, m, on_metrics record_success (emit_executed cfg identity m ''success'' w2))
                 | Inl engine_err \<Rightarrow> failed engine_err m w2)
         | Inr (Inl engine_err, backend) \<Rightarrow> failed engine_err base_meta w1
         | Inl join_err \<Rightarrow> failed (Internal (''task panicked: '' @ join_err)) base_meta w1)"

definition render_executed_item ::
  "app_config \<Rightarrow> serde \<Rightarrow> json_readers \<Rightarrow> trusted_identity option \<Rightarrow> engine_result \<Rightarrow> meta \<Rightarrow> string option \<Rightarrow>
   ('k, 's) world \<Rightarrow> rendered_item \<times> ('k, 's) world" where
  "render_executed_item cfg sd readers identity result base_meta i w =
     (case settle_run cfg identity result base_meta w of
        (Inr js_json, m, w1) \<Rightarrow> (render_success_item sd readers js_json m i (resp_cfg_of cfg), w1)
      | (Inl err, m, w1) \<Rightarrow> (render_engine_error_item sd err m i (resp_cfg_of cfg), w1))"

definition lifecycle_outcome ::
  "app_config \<Rightarrow> serde \<Rightarrow> json_readers \<Rightarrow> trusted_identity option \<Rightarrow> engine_result \<Rightarrow> meta \<Rightarrow>
   ('k, 's) world \<Rightarrow> (error_envelope, string) result \<times> ('k, 's) world" where
  "lifecycle_outcome cfg sd readers identity result base_meta w =
     (let to_envelope = (\<lambda>err. into_envelope err (ac_error_debug cfg) (ac_timeout_retryable cfg))
      in case settle_run cfg identity result base_meta w of
           (Inr js_json, m, w1) \<Rightarrow>
             (case jr_envelope readers js_json of
                Inr (data, error) \<Rightarrow> Inr (case sd_raw sd data of Some raw \<Rightarrow> raw | None \<Rightarrow> RAW_NULL)
              | Inl parse_err \<Rightarrow> Inl (to_envelope (Malformed (''malformed handler response: '' @ parse_err))),
              w1)
         | (Inl err, m, w1) \<Rightarrow> (Inl (to_envelope err), w1))"

text \<open>The second half of an item and of a phase: the permit and the guard go when the function returns.\<close>

definition finish_item ::
  "app_config \<Rightarrow> ('k, 's, 'c) env \<Rightarrow> serde \<Rightarrow> batch_env \<Rightarrow> 'c pending \<Rightarrow> engine_result \<Rightarrow> nat \<Rightarrow> ('k, 's) world \<Rightarrow>
   rendered_item \<times> ('k, 's) world" where
  "finish_item cfg env sd bx p result exec_time_us w =
     (case render_executed_item cfg sd (en_readers env) (bx_identity bx) result
             ((pd_meta p)\<lparr>mt_exec_time_us := exec_time_us\<rparr>) (pd_id p) w of
        (r, w1) \<Rightarrow>
          (r, drop_guard (pd_guard p) (w1\<lparr>wd_gates := release_global (en_ops env) (wd_gates w1)\<rparr>)))"

definition finish_phase ::
  "app_config \<Rightarrow> ('k, 's, 'c) env \<Rightarrow> serde \<Rightarrow> batch_env \<Rightarrow> 'c pending \<Rightarrow> engine_result \<Rightarrow> nat \<Rightarrow> ('k, 's) world \<Rightarrow>
   (error_envelope, string) result \<times> ('k, 's) world" where
  "finish_phase cfg env sd bx p result exec_time_us w =
     (case lifecycle_outcome cfg sd (en_readers env) (bx_identity bx) result
             ((pd_meta p)\<lparr>mt_exec_time_us := exec_time_us\<rparr>) w of
        (r, w1) \<Rightarrow>
          (r, drop_guard (pd_guard p) (w1\<lparr>wd_gates := release_global (en_ops env) (wd_gates w1)\<rparr>)))"

subsection \<open>The batch\<close>

text \<open>A task of the fan-out. \<open>Lost\<close> is a task that panicked: its slot stays empty.\<close>

datatype 'c task =
    Waiting batch_item
  | Queued "'c pending"
  | Slotted "'c pending"
  | Executing "'c pending"
  | Rendered rendered_item
  | Lost

fun slot_of :: "'c task \<Rightarrow> rendered_item option" where
  "slot_of (Rendered r) = Some r"
| "slot_of t = None"

fun task_done :: "'c task \<Rightarrow> bool" where
  "task_done (Rendered r) = True"
| "task_done Lost = True"
| "task_done t = False"

record batch_job =
  bj_env :: batch_env
  bj_items :: "batch_item list"
  bj_seed :: "string option"
  bj_after :: "batch_item option"

datatype batch_answer = Refused response | Answer batch_response

datatype ('c, 's) batch_state =
    BeforeWaiting batch_job "'c pending"
  | BeforeRunning batch_job "'c pending"
  | FanOut batch_job "string option" 's "'c task list"
  | AfterWaiting batch_job "'c pending" "string list" nat nat
  | AfterRunning batch_job "'c pending" "string list" nat nat
  | Answered batch_job batch_answer

definition batch_answer_ok ::
  "batch_job \<Rightarrow> nat \<Rightarrow> string list \<Rightarrow> nat \<Rightarrow> nat \<Rightarrow> string option \<Rightarrow> error_envelope option \<Rightarrow> batch_answer" where
  "batch_answer_ok j duration_ms results n f summary summary_error =
     Answer \<lparr>br_results = results, br_summary = summary, br_summary_error = summary_error,
             br_meta = \<lparr>bm_items = length (bj_items j), bm_ok = n, bm_failed = f,
                        bm_duration_ms = duration_ms, bm_trace_id = bx_trace_id (bj_env j)\<rparr>\<rparr>"

text \<open>The barrier response of a failed \<^verbatim>\<open>before\<close> phase.\<close>

definition barrier :: "app_config \<Rightarrow> batch_env \<Rightarrow> error_envelope \<Rightarrow> response" where
  "barrier cfg bx envelope =
     projected_error_response envelope (base_error_meta (bx_trace_id bx) 0 0 None (bx_partition bx)) (resp_cfg_of cfg)"

text \<open>The end of \<^verbatim>\<open>run_before_phase\<close> and the spawn of the items.\<close>

definition enter_fan_out ::
  "app_config \<Rightarrow> 's semaphore_ops \<Rightarrow> serde \<Rightarrow> batch_job \<Rightarrow> string option \<Rightarrow> ('k, 's) world \<Rightarrow>
   ('c, 's) batch_state \<times> ('k, 's) world" where
  "enter_fan_out cfg ops sd j before_data w =
     (let bx = bj_env j;
          shared = build_shared_context sd (bj_seed j) before_data;
          fan = FanOut j shared
                  (sem_new ops (batch_ceiling (ec_max_concurrent_per_partition (ac_engine cfg))
                     (ac_bulkhead_capacity cfg)))
                  (map Waiting (bj_items j))
      in case shared of
           None \<Rightarrow> (fan, w)
         | Some json_text \<Rightarrow>
             if bt_max_shared_bytes (ac_batch cfg) < length json_text
             then (Answered j (Refused (barrier cfg bx
                     (request_error ''SHARED_CONTEXT_TOO_LARGE''
                        (''shared context '' @ show_nat (length json_text) @ '' bytes exceeds the limit of ''
                         @ show_nat (bt_max_shared_bytes (ac_batch cfg)))))),
                   on_metrics record_rejection
                     (emit_denied cfg (bx_identity bx) (bx_trace_id bx) ''SHARED_CONTEXT_TOO_LARGE'' None w))
             else (fan, w))"

definition start_batch ::
  "app_config \<Rightarrow> ('k, 's, 'c) env \<Rightarrow> serde \<Rightarrow> batch_job \<Rightarrow> batch_item option \<Rightarrow> ('k, 's) world \<Rightarrow>
   ('c, 's) batch_state \<times> ('k, 's) world" where
  "start_batch cfg env sd j before w =
     (case before of
        None \<Rightarrow> enter_fan_out cfg (en_ops env) sd j None w
      | Some item \<Rightarrow>
          (case begin_phase cfg env (bj_env j) item (bi_context item) w of
             (Inl envelope, w1) \<Rightarrow>
               (Answered j (Refused (barrier cfg (bj_env j) envelope)), on_metrics record_rejection w1)
           | (Inr p, w1) \<Rightarrow> (BeforeWaiting j p, w1)))"

text \<open>The result of the \<^verbatim>\<open>before\<close> phase: the barrier or the shared context.\<close>

definition after_before ::
  "app_config \<Rightarrow> 's semaphore_ops \<Rightarrow> serde \<Rightarrow> batch_job \<Rightarrow> (error_envelope, string) result \<Rightarrow> ('k, 's) world \<Rightarrow>
   ('c, 's) batch_state \<times> ('k, 's) world" where
  "after_before cfg ops sd j outcome w =
     (case outcome of
        Inl envelope \<Rightarrow>
          (Answered j (Refused (barrier cfg (bj_env j) envelope)), on_metrics record_rejection w)
      | Inr data \<Rightarrow> enter_fan_out cfg ops sd j (Some data) w)"

text \<open>The join of the fan-out: rendering, then the start of the \<^verbatim>\<open>after\<close> phase.\<close>

definition join_fan_out ::
  "app_config \<Rightarrow> ('k, 's, 'c) env \<Rightarrow> serde \<Rightarrow> batch_job \<Rightarrow> string option \<Rightarrow> 'c task list \<Rightarrow> nat \<Rightarrow> ('k, 's) world \<Rightarrow>
   ('c, 's) batch_state \<times> ('k, 's) world" where
  "join_fan_out cfg env sd j shared tasks duration_ms w =
     (case render_slots sd (map slot_of tasks) (bx_trace_id (bj_env j)) (bt_max_response_bytes (ac_batch cfg)) of
        (results, n, f) \<Rightarrow>
          (case bj_after j of
             None \<Rightarrow> (Answered j (batch_answer_ok j duration_ms results n f None None), w)
           | Some item \<Rightarrow>
               (let results_json = (case sd_array_text sd results of Some text \<Rightarrow> text | None \<Rightarrow> ''[]'');
                    reserved = (''results'', results_json)
                      # (case shared of None \<Rightarrow> [] | Some shared_json \<Rightarrow> [(''shared'', shared_json)])
                in case context_with_reserved sd (bi_context item) reserved of
                     None \<Rightarrow>
                       (Answered j (batch_answer_ok j duration_ms results n f None
                          (Some (request_error ''INVALID_CONTEXT'' ''after context must be a JSON object''))), w)
                   | Some context_json \<Rightarrow>
                       (case begin_phase cfg env (bj_env j) item context_json w of
                          (Inl envelope, w1) \<Rightarrow>
                            (Answered j (batch_answer_ok j duration_ms results n f None (Some envelope)), w1)
                        | (Inr p, w1) \<Rightarrow> (AfterWaiting j p results n f, w1)))))"

definition after_after :: "batch_job \<Rightarrow> nat \<Rightarrow> string list \<Rightarrow> nat \<Rightarrow> nat \<Rightarrow> (error_envelope, string) result \<Rightarrow> batch_answer" where
  "after_after j duration_ms results n f outcome =
     (case outcome of
        Inr data \<Rightarrow> batch_answer_ok j duration_ms results n f (Some data) None
      | Inl envelope \<Rightarrow> batch_answer_ok j duration_ms results n f None (Some envelope))"

text \<open>The batch-level gates.\<close>

definition run_batch_begin ::
  "app_config \<Rightarrow> ('k, 's, 'c) env \<Rightarrow> serde \<Rightarrow> header_map \<Rightarrow> (string, batch_request) result \<Rightarrow> ('k, 's) world \<Rightarrow>
   (response, ('c, 's) batch_state) result \<times> ('k, 's) world" where
  "run_batch_begin cfg env sd headers payload w =
     (let trace_id = en_trace_id env in
      case enforce_auth cfg (en_fresh_id env) headers w of
        (Some rejected, w1) \<Rightarrow> (Inl rejected, w1)
      | (None, w1) \<Rightarrow>
          (case resolve_identity cfg env headers w1 of
             (Inl rejected, w2) \<Rightarrow> (Inl rejected, on_metrics record_rejection w2)
           | (Inr identity, w2) \<Rightarrow>
               (case payload of
                  Inl body_text \<Rightarrow>
                    (Inl (malformed_batch_response cfg (en_fresh_id env) body_text),
                     emit_denied cfg identity trace_id ''MALFORMED_REQUEST'' None (on_metrics record_rejection w2))
                | Inr req \<Rightarrow>
                    (case validate_batch cfg (bq_items req) identity trace_id w2 of
                       (Inl rejected, w3) \<Rightarrow> (Inl rejected, on_metrics record_rejection w3)
                     | (Inr u, w3) \<Rightarrow>
                         (case start_batch cfg env sd
                                 \<lparr>bj_env = \<lparr>bx_identity = identity,
                                            bx_partition = resolve_partition identity (header_partition headers),
                                            bx_trace_id = trace_id\<rparr>,
                                  bj_items = bq_items req, bj_seed = bq_shared req, bj_after = bq_after req\<rparr>
                                 (bq_before req) w3 of
                            (b, w4) \<Rightarrow> (Inr b, w4))))))"

subsection \<open>The steps of an admitted batch\<close>

text \<open>What a task gives back when it unwinds: the gate slot, the bulkhead permit, the quota unit.\<close>

fun abandon :: "'s semaphore_ops \<Rightarrow> 'c task \<Rightarrow> 's \<Rightarrow> ('k, 's) world \<Rightarrow> 's \<times> ('k, 's) world" where
  "abandon ops (Queued p) gate w = (gate, drop_guard (pd_guard p) w)"
| "abandon ops (Slotted p) gate w = (sem_release ops gate, drop_guard (pd_guard p) w)"
| "abandon ops (Executing p) gate w =
     (sem_release ops gate, drop_guard (pd_guard p) (w\<lparr>wd_gates := release_global ops (wd_gates w)\<rparr>))"
| "abandon ops t gate w = (gate, w)"

inductive batch_step ::
  "app_config \<Rightarrow> 's semaphore_ops \<Rightarrow> (string \<Rightarrow> u64) \<Rightarrow> serde \<Rightarrow>
   ('k, 's) world \<Rightarrow> ('c, 's) batch_state \<Rightarrow> ('k, 's) world \<Rightarrow> ('c, 's) batch_state \<Rightarrow> bool"
  for cfg ops hash sd where
  before_start: "acquire_global ops (wd_gates w) = Some gt \<Longrightarrow>
    batch_step cfg ops hash sd w (BeforeWaiting j p) (w\<lparr>wd_gates := gt\<rparr>) (BeforeRunning j p)"
| before_finish: "en_ops (env :: ('k, 's, 'c) env) = ops \<Longrightarrow>
    finish_phase cfg env sd (bj_env j) p result t w = (outcome, w1) \<Longrightarrow>
    after_before cfg ops sd j outcome w1 = (b, w2) \<Longrightarrow>
    batch_step cfg ops hash sd w (BeforeRunning j p) w2 b"
| item_refused: "en_ops (env :: ('k, 's, 'c) env) = ops \<Longrightarrow> en_hash env = hash \<Longrightarrow>
    i < length tasks \<Longrightarrow> tasks ! i = Waiting item \<Longrightarrow>
    begin_item cfg env sd (bj_env j) shared item w = (Inl r, w') \<Longrightarrow>
    batch_step cfg ops hash sd w (FanOut j shared gate tasks) w' (FanOut j shared gate (tasks[i := Rendered r]))"
| item_queued: "en_ops (env :: ('k, 's, 'c) env) = ops \<Longrightarrow> en_hash env = hash \<Longrightarrow>
    i < length tasks \<Longrightarrow> tasks ! i = Waiting item \<Longrightarrow>
    begin_item cfg env sd (bj_env j) shared item w = (Inr p, w') \<Longrightarrow>
    batch_step cfg ops hash sd w (FanOut j shared gate tasks) w' (FanOut j shared gate (tasks[i := Queued p]))"
| item_slot: "i < length tasks \<Longrightarrow> tasks ! i = Queued p \<Longrightarrow> sem_try_acquire ops gate = Some gate' \<Longrightarrow>
    batch_step cfg ops hash sd w (FanOut j shared gate tasks) w (FanOut j shared gate' (tasks[i := Slotted p]))"
| item_start: "i < length tasks \<Longrightarrow> tasks ! i = Slotted p \<Longrightarrow> acquire_global ops (wd_gates w) = Some gt \<Longrightarrow>
    batch_step cfg ops hash sd w (FanOut j shared gate tasks) (w\<lparr>wd_gates := gt\<rparr>)
      (FanOut j shared gate (tasks[i := Executing p]))"
| item_finish: "en_ops (env :: ('k, 's, 'c) env) = ops \<Longrightarrow> i < length tasks \<Longrightarrow> tasks ! i = Executing p \<Longrightarrow>
    finish_item cfg env sd (bj_env j) p result t w = (r, w') \<Longrightarrow>
    batch_step cfg ops hash sd w (FanOut j shared gate tasks) w'
      (FanOut j shared (sem_release ops gate) (tasks[i := Rendered r]))"
| item_lost: "i < length tasks \<Longrightarrow> \<not> task_done (tasks ! i) \<Longrightarrow>
    abandon ops (tasks ! i) gate w = (gate', w') \<Longrightarrow>
    batch_step cfg ops hash sd w (FanOut j shared gate tasks) w' (FanOut j shared gate' (tasks[i := Lost]))"
| join: "en_ops (env :: ('k, 's, 'c) env) = ops \<Longrightarrow> en_hash env = hash \<Longrightarrow> list_all task_done tasks \<Longrightarrow>
    join_fan_out cfg env sd j shared tasks t w = (b, w') \<Longrightarrow>
    batch_step cfg ops hash sd w (FanOut j shared gate tasks) w' b"
| after_start: "acquire_global ops (wd_gates w) = Some gt \<Longrightarrow>
    batch_step cfg ops hash sd w (AfterWaiting j p results n f) (w\<lparr>wd_gates := gt\<rparr>) (AfterRunning j p results n f)"
| after_finish: "en_ops (env :: ('k, 's, 'c) env) = ops \<Longrightarrow>
    finish_phase cfg env sd (bj_env j) p result t w = (outcome, w') \<Longrightarrow>
    batch_step cfg ops hash sd w (AfterRunning j p results n f) w' (Answered j (after_after j d results n f outcome))"

end
