(* ===== verification/Batch_Props.thy ===== *)
theory Batch_Props
  imports Batch Handler_Props
begin

text \<open>
  What a batch guarantees: its caps, the gates and the accounting of every invocation, the bound on its fan-out,
  and an answer with one result per item, in order, within the response cap.
\<close>

subsection \<open>Gates of one invocation\<close>

text \<open>The record of a refused invocation: one denial, no counter, nothing held.\<close>

definition denied_once :: "app_config \<Rightarrow> ('k, 's) world \<Rightarrow> ('k, 's) world \<Rightarrow> bool" where
  "denied_once cfg w w' \<longleftrightarrow>
     wd_metrics w' = wd_metrics w \<and> wd_gates w' = wd_gates w \<and>
     (\<exists>ev. is_denied ev \<and> wd_events w' = wd_events w @ (if ac_events cfg then [ev] else [])) \<and>
     (wd_quota w' = wd_quota w \<or>
      (\<exists>q q' t p. wd_quota w = Some q \<and> quota_admit q t p = Inr q' \<and> wd_quota w' = Some (guard_drop q' t)))"

text \<open>The record of an invocation that passed its gates: only its quota unit was taken.\<close>

definition took_guard :: "string option \<Rightarrow> ('k, 's) world \<Rightarrow> ('k, 's) world \<Rightarrow> bool" where
  "took_guard g w w' \<longleftrightarrow>
     wd_metrics w' = wd_metrics w \<and> wd_gates w' = wd_gates w \<and> wd_events w' = wd_events w \<and>
     (g = None \<and> wd_quota w' = wd_quota w \<or>
      (\<exists>q q' t p. wd_quota w = Some q \<and> quota_admit q t p = Inr q' \<and> wd_quota w' = Some q' \<and> g = Some t))"

lemma denied_once_emit [intro]: "denied_once cfg w (emit_denied cfg i t r d w)"
  by (auto simp: denied_once_def runlet_defs intro!: exI [of _ "denied_event i t r d"])

lemma took_guard_drop:
  "took_guard g w w1 \<Longrightarrow> denied_once cfg w (drop_guard g (emit_denied cfg i t r d w1))"
  unfolding took_guard_def denied_once_def
  by (intro conjI exI [of _ "denied_event i t r d"]) (auto simp: runlet_defs, blast)

lemma batch_item_authz_cases:
  assumes "batch_item_authz cfg i config t w = (x, w')"
  shows "(\<exists>e. x = Some e \<and> denied_once cfg w w') \<or>
    (x = None \<and> w' = w \<and>
     (\<forall>tr j. ac_trusted cfg = Some tr \<and> i = Some j \<longrightarrow>
        is_ok (authorize_capabilities (tr_capability_entitlements tr) (requested_capabilities config) j)))"
  using assms by (auto simp: batch_item_authz_def split: option.splits sum.splits)

lemma batch_item_quota_Inl:
  assumes "batch_item_quota cfg i t w = (Inl e, w')"
  shows "denied_once cfg w w'"
  using assms by (auto simp: batch_item_quota_def split: option.splits sum.splits)

lemma batch_item_quota_Inr:
  assumes "batch_item_quota cfg i t w = (Inr g, w')"
  shows "took_guard g w w' \<and>
    (\<forall>q j tn. wd_quota w = Some q \<and> ac_trusted cfg \<noteq> None \<and> i = Some j \<and> id_tenant j = Some tn \<longrightarrow>
       g = Some tn \<and> is_ok (quota_admit q tn (id_plan j)))"
proof (cases "\<exists>tr j q tn. ac_trusted cfg = Some tr \<and> i = Some j \<and> wd_quota w = Some q \<and> id_tenant j = Some tn")
  case True
  then obtain tr j q tn where c: "ac_trusted cfg = Some tr" "i = Some j" "wd_quota w = Some q" "id_tenant j = Some tn"
    by blast
  then obtain q' where q': "quota_admit q tn (id_plan j) = Inr q'"
    using assms by (cases "quota_admit q tn (id_plan j)") (simp_all add: batch_item_quota_def)
  then have "g = Some tn" "w' = w\<lparr>wd_quota := Some q'\<rparr>" using assms c by (simp_all add: batch_item_quota_def)
  then show ?thesis using c q' by (auto simp: took_guard_def)
next
  case False
  then have "batch_item_quota cfg i t w = (Inr None, w)"
    by (auto simp: batch_item_quota_def split: option.splits)
  then show ?thesis using assms False by (auto simp: took_guard_def)
qed

lemma open_invocation_Inl:
  assumes "open_invocation cfg env bx config w = (Inl e, w')"
  shows "denied_once cfg w w'"
proof -
  obtain x w1 where a: "batch_item_authz cfg (bx_identity bx) config (bx_trace_id bx) w = (x, w1)" by fastforce
  show ?thesis
  proof (cases x)
    case (Some e')
    then show ?thesis
      using assms a batch_item_authz_cases [OF a] by (auto simp: open_invocation_def)
  next
    case None
    then have w1: "w1 = w" using batch_item_authz_cases [OF a] by simp
    obtain y w2 where q: "batch_item_quota cfg (bx_identity bx) (bx_trace_id bx) w = (y, w2)" by fastforce
    show ?thesis
    proof (cases y)
      case (Inl e')
      then show ?thesis using assms a None w1 q batch_item_quota_Inl [of cfg "bx_identity bx"]
        by (auto simp: open_invocation_def)
    next
      case (Inr g)
      have "took_guard g w w2" using batch_item_quota_Inr q Inr by blast
      then show ?thesis
        using assms a None w1 q Inr took_guard_drop
        by (auto simp: open_invocation_def split: sum.splits)
    qed
  qed
qed

lemma open_invocation_Inr:
  assumes "open_invocation cfg env bx config w = (Inr held, w')"
  shows "took_guard (fst held) w w' \<and>
    (\<forall>tr j. ac_trusted cfg = Some tr \<and> bx_identity bx = Some j \<longrightarrow>
       is_ok (authorize_capabilities (tr_capability_entitlements tr) (requested_capabilities config) j)) \<and>
    (\<forall>q j tn. wd_quota w = Some q \<and> ac_trusted cfg \<noteq> None \<and> bx_identity bx = Some j \<and> id_tenant j = Some tn \<longrightarrow>
       fst held = Some tn \<and> is_ok (quota_admit q tn (id_plan j))) \<and>
    open_session cfg env (bx_identity bx) config = Inr (snd held)"
proof -
  obtain x w1 where a: "batch_item_authz cfg (bx_identity bx) config (bx_trace_id bx) w = (x, w1)" by fastforce
  have x: "x = None" using assms a by (cases x) (simp_all add: open_invocation_def)
  note az = batch_item_authz_cases [OF a, unfolded x]
  then have w1: "w1 = w" by simp
  obtain y w2 where q: "batch_item_quota cfg (bx_identity bx) (bx_trace_id bx) w = (y, w2)" by fastforce
  obtain g where y: "y = Inr g" using assms a x w1 q by (cases y) (simp_all add: open_invocation_def)
  have h: "w' = w2" "fst held = g" "open_session cfg env (bx_identity bx) config = Inr (snd held)"
    using assms a x w1 q y by (auto simp: open_invocation_def split: sum.splits)
  show ?thesis unfolding h(1,2) using batch_item_quota_Inr [OF q [unfolded y]] az h(3) by blast
qed

lemma begin_item_Inl:
  assumes "begin_item cfg env sd bx shared item w = (Inl r, w')"
  shows "denied_once cfg w w' \<and> \<not> ri_ok r"
proof -
  have e: "\<not> ri_ok (render_error_item sd en m i)" for en m i by (simp add: render_error_item_def)
  show ?thesis
    using assms open_invocation_Inl [of cfg env bx "bi_config item" w]
    by (auto simp: begin_item_def Let_def e split: sum.splits prod.splits option.splits)
qed

text \<open>The gates an item has passed when it queues for execution.\<close>

definition passed_item_gates ::
  "app_config \<Rightarrow> ('k, 's, 'c) env \<Rightarrow> serde \<Rightarrow> batch_env \<Rightarrow> string option \<Rightarrow> batch_item \<Rightarrow> ('k, 's) world \<Rightarrow> 'c pending \<Rightarrow> bool" where
  "passed_item_gates cfg env sd bx shared item w p \<longleftrightarrow>
     (\<exists>src. resolve_script (bi_script item) (bi_key item) (ac_registry cfg) = Inr src \<and>
        xj_source (pd_job p) = src \<and> length (script_text src) \<le> ec_max_script_size (ac_engine cfg)) \<and>
     length (bi_context item) \<le> ec_max_context_size (ac_engine cfg) \<and>
     (case shared of
        None \<Rightarrow> xj_context_json (pd_job p) = bi_context item
      | Some sh \<Rightarrow> context_with_reserved sd (bi_context item) [(''shared'', sh)] = Some (xj_context_json (pd_job p))) \<and>
     (\<forall>tr j. ac_trusted cfg = Some tr \<and> bx_identity bx = Some j \<longrightarrow>
        is_ok (authorize_capabilities (tr_capability_entitlements tr) (requested_capabilities (bi_config item)) j)) \<and>
     (\<forall>q j tn. wd_quota w = Some q \<and> ac_trusted cfg \<noteq> None \<and> bx_identity bx = Some j \<and> id_tenant j = Some tn \<longrightarrow>
        pd_guard p = Some tn \<and> is_ok (quota_admit q tn (id_plan j))) \<and>
     xj_cache_ns (pd_job p) = bx_partition bx \<and> xj_tenant (pd_job p) = tenant_of (bx_identity bx)"

lemma begin_item_Inr:
  assumes "begin_item cfg env sd bx shared item w = (Inr p, w')"
  shows "took_guard (pd_guard p) w w' \<and> passed_item_gates cfg env sd bx shared item w p \<and>
    mt_trace_id (pd_meta p) = bx_trace_id bx \<and> pd_id p = bi_id item"
proof -
  let ?sizes = "\<lambda>src. validate_input_sizes (length (script_text src)) (length (bi_context item))
      (ec_max_script_size (ac_engine cfg)) (ec_max_context_size (ac_engine cfg))"
  let ?ctx = "case shared of None \<Rightarrow> Some (bi_context item)
      | Some sh \<Rightarrow> context_with_reserved sd (bi_context item) [(''shared'', sh)]"
  obtain src where s: "resolve_script (bi_script item) (bi_key item) (ac_registry cfg) = Inr src"
    using assms by (cases "resolve_script (bi_script item) (bi_key item) (ac_registry cfg)")
      (auto simp: begin_item_def Let_def)
  obtain u where v: "?sizes src = Inr u"
    using assms s by (cases "?sizes src") (auto simp: begin_item_def Let_def)
  obtain cj where c: "?ctx = Some cj"
    using assms s v by (cases ?ctx) (auto simp: begin_item_def Let_def)
  obtain x w1 where o: "open_invocation cfg env bx (bi_config item) w = (x, w1)" by fastforce
  obtain held where x: "x = Inr held"
    using assms s v c o by (cases x) (auto simp: begin_item_def Let_def)
  have p: "p = pending_of cfg bx item src cj (base_error_meta (bx_trace_id bx) (length (script_text src))
      (length (bi_context item)) (bi_key item) (bx_partition bx)) held" "w' = w1"
    using assms s v c o x by (simp_all add: begin_item_def Let_def)
  have sz: "length (script_text src) \<le> ec_max_script_size (ac_engine cfg)"
      "length (bi_context item) \<le> ec_max_context_size (ac_engine cfg)"
    using v by (simp_all add: validate_input_sizes_def split: if_splits)
  note op = open_invocation_Inr [OF o [unfolded x]]
  show ?thesis
    using op sz s c unfolding passed_item_gates_def p
    by (auto simp: pending_of_def make_job_def base_error_meta_def with_key_def with_partition_def meta_new_def
        split: option.splits)
qed

lemma begin_phase_Inl:
  assumes "begin_phase cfg env bx item cj w = (Inl e, w')"
  shows "denied_once cfg w w'"
  using assms open_invocation_Inl [of cfg env bx "bi_config item" w]
  by (auto simp: begin_phase_def split: sum.splits prod.splits)

lemma begin_phase_Inr:
  assumes "begin_phase cfg env bx item cj w = (Inr p, w')"
  shows "took_guard (pd_guard p) w w' \<and> mt_trace_id (pd_meta p) = bx_trace_id bx \<and>
    length cj \<le> ec_max_context_size (ac_engine cfg) \<and> xj_context_json (pd_job p) = cj"
proof -
  let ?sizes = "\<lambda>src. validate_input_sizes (length (script_text src)) (length cj)
      (ec_max_script_size (ac_engine cfg)) (ec_max_context_size (ac_engine cfg))"
  obtain src where s: "resolve_script (bi_script item) (bi_key item) (ac_registry cfg) = Inr src"
    using assms by (cases "resolve_script (bi_script item) (bi_key item) (ac_registry cfg)")
      (auto simp: begin_phase_def)
  obtain u where v: "?sizes src = Inr u"
    using assms s by (cases "?sizes src") (auto simp: begin_phase_def)
  obtain x w1 where o: "open_invocation cfg env bx (bi_config item) w = (x, w1)" by fastforce
  obtain held where x: "x = Inr held"
    using assms s v o by (cases x) (auto simp: begin_phase_def)
  have p: "p = pending_of cfg bx item src cj (with_partition
      (meta_new (bx_trace_id bx) (length (script_text src)) (length cj) 0) (bx_partition bx)) held" "w' = w1"
    using assms s v o x by (simp_all add: begin_phase_def)
  have "length cj \<le> ec_max_context_size (ac_engine cfg)"
    using v by (simp add: validate_input_sizes_def split: if_splits)
  then show ?thesis
    using open_invocation_Inr [OF o [unfolded x]]
    by (simp add: p pending_of_def make_job_def with_partition_def meta_new_def)
qed

subsection \<open>Outcomes\<close>

lemma settle_run_executed:
  assumes "settle_run cfg i result bm w = (r, m, w')"
  shows "mt_trace_id m = mt_trace_id bm \<and> mt_exec_time_us m = mt_exec_time_us bm \<and>
    mt_total_input_bytes m = mt_total_input_bytes bm \<and>
    executed cfg i (case r of Inl e \<Rightarrow> engine_error_outcome e | Inr js \<Rightarrow> ''success'') [] m w w'"
proof -
  have wm: "mt_trace_id (with_metrics bm x y) = mt_trace_id bm"
      "mt_exec_time_us (with_metrics bm x y) = mt_exec_time_us bm"
      "mt_total_input_bytes (with_metrics bm x y) = mt_total_input_bytes bm" for x y
    by (simp_all add: with_metrics_def Let_def)
  note lat = record_capability_latencies_same [unfolded same_outcomes_def]
  note facts = settle_run_def Let_def executed_def emit_executed_def runlet_defs record_engine_error_frame
    record_engine_error_outcome observe_execution_effect record_success_effect
  have f: "executed cfg i (engine_error_outcome err) [] bm w (on_metrics (\<lambda>mx. record_engine_error mx err)
      (emit_executed cfg i bm (engine_error_outcome err)
        (on_metrics (\<lambda>mx. observe_execution mx (mt_exec_time_us bm)) w)))" for err
    using failed_run_executed [of cfg i bm err "mt_exec_time_us bm" w] by (simp add: failed_run_def Let_def)
  show ?thesis
  proof (cases result)
    case (Inl j)
    let ?e = "Internal (''task panicked: '' @ j)"
    have "r = Inl ?e" "m = bm" "w' = on_metrics (\<lambda>mx. record_engine_error mx ?e)
      (emit_executed cfg i bm (engine_error_outcome ?e)
        (on_metrics (\<lambda>mx. observe_execution mx (mt_exec_time_us bm)) w))"
      using assms Inl by (auto simp: settle_run_def Let_def)
    then show ?thesis using f [of ?e] by (simp only: sum.case)
  next
    case (Inr oe)
    obtain res egress where oe: "oe = (res, egress)" by (cases oe)
    show ?thesis
    proof (cases res)
      case (Inl e)
      then show ?thesis using assms Inr oe f [of e] by (auto simp: settle_run_def Let_def)
    next
      case ex: (Inr exec)
      note l = lat [of "oc_metrics exec" "em_backend egress"]
      have r: "r = oc_result exec" using assms Inr oe ex by (cases "oc_result exec") (auto simp: settle_run_def Let_def)
      show ?thesis
        using assms Inr oe ex l unfolding r by (cases "oc_result exec") (auto simp: facts wm)
    qed
  qed
qed

text \<open>The record of a finished invocation.\<close>

definition finished ::
  "app_config \<Rightarrow> 's semaphore_ops \<Rightarrow> batch_env \<Rightarrow> 'c pending \<Rightarrow> nat \<Rightarrow> ('k, 's) world \<Rightarrow> ('k, 's) world \<Rightarrow> bool" where
  "finished cfg ops bx p t w w' \<longleftrightarrow>
     wd_gates w' = release_global ops (wd_gates w) \<and>
     wd_quota w' = (case pd_guard p of None \<Rightarrow> wd_quota w | Some tn \<Rightarrow> map_option (\<lambda>q. guard_drop q tn) (wd_quota w)) \<and>
     (\<exists>outcome m. outcome \<in> set outcomes \<and> mt_trace_id m = mt_trace_id (pd_meta p) \<and> mt_exec_time_us m = t \<and>
        (\<forall>o' \<in> set outcomes. outcome_counter (wd_metrics w') o' =
           outcome_counter (wd_metrics w) o' + (if o' = outcome then 1 else 0)) \<and>
        mx_rejections (wd_metrics w') = mx_rejections (wd_metrics w) \<and>
        lh_count (mx_exec_latency (wd_metrics w')) = lh_count (mx_exec_latency (wd_metrics w)) + 1 \<and>
        wd_events w' = wd_events w @ (if ac_events cfg then executed_events (bx_identity bx) m outcome else []))"

lemma finished_settled:
  assumes "settle_run cfg (bx_identity bx) result ((pd_meta p)\<lparr>mt_exec_time_us := t\<rparr>) w = (r, m, w1)"
  shows "finished cfg ops bx p t w
    (drop_guard (pd_guard p) (w1\<lparr>wd_gates := release_global ops (wd_gates w1)\<rparr>))"
proof -
  let ?o = "case r of Inl e \<Rightarrow> engine_error_outcome e | Inr js \<Rightarrow> ''success''"
  have o: "?o \<in> set outcomes" by (auto simp: engine_error_outcome_in split: sum.splits) (simp add: outcomes_def)
  have s: "mt_trace_id m = mt_trace_id (pd_meta p)" "mt_exec_time_us m = t"
      "executed cfg (bx_identity bx) ?o [] m w w1"
    using settle_run_executed [OF assms] by simp_all
  note e = s(3) [unfolded executed_def]
  have q: "wd_quota w1 = wd_quota w" "wd_gates w1 = wd_gates w" using e by simp_all
  show ?thesis
    unfolding finished_def using e
    by (intro conjI exI [of _ ?o] exI [of _ m]) (simp_all add: runlet_defs q o s split: option.splits)
qed

lemma finish_item_finished:
  assumes "finish_item cfg env sd bx p result t w = (r, w')"
  shows "finished cfg (en_ops env) bx p t w w'"
proof -
  obtain x m w1 where s: "settle_run cfg (bx_identity bx) result ((pd_meta p)\<lparr>mt_exec_time_us := t\<rparr>) w = (x, m, w1)"
    by (cases "settle_run cfg (bx_identity bx) result ((pd_meta p)\<lparr>mt_exec_time_us := t\<rparr>) w") auto
  have "w' = drop_guard (pd_guard p) (w1\<lparr>wd_gates := release_global (en_ops env) (wd_gates w1)\<rparr>)"
    using assms s by (cases x) (simp_all add: finish_item_def render_executed_item_def)
  then show ?thesis using finished_settled [OF s] by simp
qed

lemma finish_phase_finished:
  assumes "finish_phase cfg env sd bx p result t w = (r, w')"
  shows "finished cfg (en_ops env) bx p t w w'"
proof -
  obtain x m w1 where s: "settle_run cfg (bx_identity bx) result ((pd_meta p)\<lparr>mt_exec_time_us := t\<rparr>) w = (x, m, w1)"
    by (cases "settle_run cfg (bx_identity bx) result ((pd_meta p)\<lparr>mt_exec_time_us := t\<rparr>) w") auto
  have "w' = drop_guard (pd_guard p) (w1\<lparr>wd_gates := release_global (en_ops env) (wd_gates w1)\<rparr>)"
    using assms s by (cases x) (simp_all add: finish_phase_def lifecycle_outcome_def Let_def)
  then show ?thesis using finished_settled [OF s] by simp
qed

subsection \<open>Rendering\<close>

definition rendered_of :: "serde \<Rightarrow> string \<Rightarrow> rendered_item option \<Rightarrow> rendered_item" where
  "rendered_of sd trace_id slot = (case slot of Some r \<Rightarrow> r | None \<Rightarrow> internal_error_item sd trace_id)"

lemma render_slots_from_Cons:
  "render_slots_from sd tr cap used n f (slot # slots) =
     (let r = rendered_of sd tr slot; projected = usat_add used (length (ri_body r)) in
      if cap < projected
      then (raw_of sd (truncated_item sd tr) #
              fst (render_slots_from sd tr cap (usat_add used (length (ri_body (truncated_item sd tr)))) n (usat_add f 1) slots),
            snd (render_slots_from sd tr cap (usat_add used (length (ri_body (truncated_item sd tr)))) n (usat_add f 1) slots))
      else (raw_of sd r #
              fst (render_slots_from sd tr cap projected (if ri_ok r then usat_add n 1 else n) (if ri_ok r then f else usat_add f 1) slots),
            snd (render_slots_from sd tr cap projected (if ri_ok r then usat_add n 1 else n) (if ri_ok r then f else usat_add f 1) slots)))"
  by (simp add: rendered_of_def Let_def)

declare render_slots_from.simps(2) [simp del]

lemma render_slots_from_length:
  "length (fst (render_slots_from sd tr cap used n f slots)) = length slots"
  by (induction slots arbitrary: used n f) (simp_all add: render_slots_from_Cons Let_def)

lemma render_slots_from_counts:
  assumes "n + f + length slots \<le> usize_max"
  shows "fst (snd (render_slots_from sd tr cap used n f slots)) + snd (snd (render_slots_from sd tr cap used n f slots)) =
    n + f + length slots"
  using assms
proof (induction slots arbitrary: used n f)
  case Nil
  then show ?case by simp
next
  case (Cons slot slots)
  have s: "usat_add n (Suc 0) = Suc n" "usat_add f (Suc 0) = Suc f" using Cons.prems by (simp_all add: usat_add_exact)
  show ?case
    using Cons.prems Cons.IH [of n "Suc f"] Cons.IH [of "Suc n" f]
    by (simp add: render_slots_from_Cons Let_def s)
qed

lemma render_slots_from_nth:
  "i < length slots \<Longrightarrow>
   fst (render_slots_from sd tr cap used n f slots) ! i \<in>
     {raw_of sd (rendered_of sd tr (slots ! i)), raw_of sd (truncated_item sd tr)}"
proof (induction slots arbitrary: used n f i)
  case (Cons slot slots)
  show ?case
  proof (cases i)
    case 0
    then show ?thesis by (simp add: render_slots_from_Cons Let_def)
  next
    case (Suc i')
    then have "i' < length slots" using Cons.prems by simp
    then show ?thesis using Cons.IH [of i'] Suc by (simp add: render_slots_from_Cons Let_def)
  qed
qed simp

text \<open>
  Bytes: a kept body fits under the cap. What is emitted for it is at most as long when it reads as JSON, and the four
  bytes of \<^verbatim>\<open>null\<close> when it does not; so what exceeds the cap is truncation notices and such nulls only.
\<close>

definition not_json :: "serde \<Rightarrow> string \<Rightarrow> rendered_item option \<Rightarrow> bool" where
  "not_json sd trace_id slot \<longleftrightarrow> sd_raw sd (ri_body (rendered_of sd trace_id slot)) = None"

lemma raw_of_length:
  assumes "\<forall>body raw. sd_raw sd body = Some raw \<longrightarrow> length raw \<le> length body"
  shows "length (raw_of sd r) \<le> (if sd_raw sd (ri_body r) = None then 4 else length (ri_body r))"
  using assms by (auto simp: raw_of_def RAW_NULL_def split: option.split)

lemma render_slots_from_bytes:
  assumes "cap < usize_max" and raw: "\<forall>body raw. sd_raw sd body = Some raw \<longrightarrow> length raw \<le> length body"
  shows "\<exists>t \<le> length slots. sum_list (map length (fst (render_slots_from sd tr cap used n f slots))) \<le>
    (cap - used) + t * length (raw_of sd (truncated_item sd tr)) + 4 * length (filter (not_json sd tr) slots)"
proof (induction slots arbitrary: used n f)
  case Nil
  then show ?case by simp
next
  case (Cons slot slots)
  let ?B = "length (ri_body (truncated_item sd tr))" and ?T = "length (raw_of sd (truncated_item sd tr))"
  let ?r = "rendered_of sd tr slot" and ?N = "4 * length (filter (not_json sd tr) slots)"
  show ?case
  proof (cases "cap < usat_add used (length (ri_body ?r))")
    case True
    obtain t where t: "t \<le> length slots" "sum_list (map length (fst (render_slots_from sd tr cap (usat_add used ?B) n
        (usat_add f 1) slots))) \<le> (cap - usat_add used ?B) + t * ?T + ?N"
      using Cons.IH by blast
    have "cap - usat_add used ?B \<le> cap - used" using assms(1) by (auto simp: usat_add_def)
    then have "sum_list (map length (fst (render_slots_from sd tr cap used n f (slot # slots)))) \<le>
        (cap - used) + Suc t * ?T + ?N"
      using t(2) True by (simp add: render_slots_from_Cons Let_def)
    then show ?thesis using t(1) by (intro exI [of _ "Suc t"]) auto
  next
    case False
    then have fits: "used + length (ri_body ?r) \<le> cap" using assms(1) by (auto simp: usat_add_def)
    then have e: "usat_add used (length (ri_body ?r)) = used + length (ri_body ?r)"
      using assms(1) by (simp add: usat_add_exact)
    obtain t where t: "t \<le> length slots" "sum_list (map length (fst (render_slots_from sd tr cap (used + length (ri_body ?r))
        (if ri_ok ?r then usat_add n 1 else n) (if ri_ok ?r then f else usat_add f 1) slots))) \<le>
        (cap - (used + length (ri_body ?r))) + t * ?T + ?N"
      using Cons.IH by blast
    have "sum_list (map length (fst (render_slots_from sd tr cap used n f (slot # slots)))) \<le>
        (cap - used) + t * ?T + 4 * length (filter (not_json sd tr) (slot # slots))"
    proof -
      have "length (raw_of sd ?r) \<le> length (ri_body ?r) + (if not_json sd tr slot then 4 else 0)"
        using raw_of_length [OF raw, of ?r] by (auto simp: not_json_def split: if_splits)
      moreover have "4 * length (filter (not_json sd tr) (slot # slots)) = (if not_json sd tr slot then 4 else 0) + ?N" by simp
      moreover have "sum_list (map length (fst (render_slots_from sd tr cap used n f (slot # slots)))) =
          length (raw_of sd ?r) + sum_list (map length (fst (render_slots_from sd tr cap (used + length (ri_body ?r))
            (if ri_ok ?r then usat_add n 1 else n) (if ri_ok ?r then f else usat_add f 1) slots)))"
        using False by (simp add: render_slots_from_Cons Let_def e)
      ultimately show ?thesis using t(2) fits by linarith
    qed
    then show ?thesis using t(1) by (intro exI [of _ t]) simp
  qed
qed

lemma render_slots_from_fits:
  assumes "used + sum_list (map (length \<circ> ri_body \<circ> rendered_of sd tr) slots) \<le> cap" and "cap \<le> usize_max"
  shows "fst (render_slots_from sd tr cap used n f slots) = map (raw_of sd \<circ> rendered_of sd tr) slots"
  using assms(1)
proof (induction slots arbitrary: used n f)
  case (Cons slot slots)
  let ?l = "length (ri_body (rendered_of sd tr slot))"
  have "used + ?l \<le> cap" using Cons.prems by simp
  then have e: "usat_add used ?l = used + ?l" using assms(2) by (simp add: usat_add_exact)
  show ?case
    using Cons.prems Cons.IH [of "used + ?l"] \<open>used + ?l \<le> cap\<close> by (simp add: render_slots_from_Cons Let_def e)
qed simp

subsection \<open>Caps\<close>

lemma foldl_usat_add: "foldl usat_add a xs = (if xs = [] then a else min (a + sum_list xs) usize_max)"
  using fold_usat_add [of xs a] by (simp add: foldl_conv_fold)

lemma item_bytes: "batch_item_input_bytes item =
    min ((case bi_script item of None \<Rightarrow> 0 | Some s \<Rightarrow> length s) + length (bi_context item)) usize_max"
  by (simp add: batch_item_input_bytes_def Let_def usat_add_def)

lemma min_sum_list_min:
  "min (sum_list (map (\<lambda>i. min (g i) m) xs)) m = min (sum_list (map g xs)) (m :: nat)"
proof (induction xs)
  case (Cons x xs)
  have "min (min a m + b) m = min (a + min b m) m" "min (a + min b m) m = min (a + b) m" for a b :: nat by linarith+
  with Cons show ?case by simp
qed simp

lemma combined_exact:
  assumes "cap < usize_max"
  shows "foldl usat_add 0 (map batch_item_input_bytes items) \<le> cap \<longleftrightarrow>
    (\<Sum>item \<leftarrow> items. (case bi_script item of None \<Rightarrow> 0 | Some s \<Rightarrow> length s) + length (bi_context item)) \<le> cap"
proof -
  let ?raw = "\<lambda>item. (case bi_script item of None \<Rightarrow> 0 | Some s \<Rightarrow> length s) + length (bi_context item)"
  have "foldl usat_add 0 (map batch_item_input_bytes items) =
      (if items = [] then 0 else min (sum_list (map ?raw items)) usize_max)"
    by (simp add: foldl_usat_add item_bytes [abs_def] min_sum_list_min)
  then show ?thesis using assms by auto
qed

subsection \<open>The fan-out\<close>

fun slot_weight :: "'c task \<Rightarrow> nat" where
  "slot_weight (Slotted p) = 1"
| "slot_weight (Executing p) = 1"
| "slot_weight t = 0"

definition slots_used :: "'c task list \<Rightarrow> nat" where
  "slots_used tasks = sum_list (map slot_weight tasks)"

lemma slots_used_update:
  "i < length tasks \<Longrightarrow> slots_used (tasks[i := t]) + slot_weight (tasks ! i) = slots_used tasks + slot_weight t"
  unfolding slots_used_def by (rule sum_list_map_update)

lemma slots_used_done: "list_all task_done tasks \<Longrightarrow> slots_used tasks = 0"
proof (induction tasks)
  case (Cons t tasks)
  then show ?case by (cases t) (simp_all add: slots_used_def)
qed (simp add: slots_used_def)

definition ceiling_of :: "app_config \<Rightarrow> nat" where
  "ceiling_of cfg = batch_ceiling (ec_max_concurrent_per_partition (ac_engine cfg)) (ac_bulkhead_capacity cfg)"

text \<open>The renderings an item may have: of a refusal, or of an execution it was admitted to.\<close>

definition queued_for ::
  "('k, 's, 'c) env set \<Rightarrow> app_config \<Rightarrow> serde \<Rightarrow> batch_env \<Rightarrow> string option \<Rightarrow> batch_item \<Rightarrow> 'c pending \<Rightarrow> bool" where
  "queued_for envs cfg sd bx shared item p \<longleftrightarrow>
     (\<exists>env \<in> envs. \<exists>w w'. begin_item cfg env sd bx shared item w = (Inr p, w'))"

definition rendering_for ::
  "('k, 's, 'c) env set \<Rightarrow> app_config \<Rightarrow> serde \<Rightarrow> batch_env \<Rightarrow> string option \<Rightarrow> batch_item \<Rightarrow> rendered_item \<Rightarrow> bool" where
  "rendering_for envs cfg sd bx shared item r \<longleftrightarrow>
     (\<exists>env \<in> envs. \<exists>w w'. begin_item cfg env sd bx shared item w = (Inl r, w')) \<or>
     (\<exists>p. queued_for envs cfg sd bx shared item p \<and>
        (\<exists>env \<in> envs. \<exists>result t w w'. finish_item cfg env sd bx p result t w = (r, w')))"

fun task_for ::
  "('k, 's, 'c) env set \<Rightarrow> app_config \<Rightarrow> serde \<Rightarrow> batch_env \<Rightarrow> string option \<Rightarrow> batch_item \<Rightarrow> 'c task \<Rightarrow> bool" where
  "task_for envs cfg sd bx shared item (Waiting x) = (x = item)"
| "task_for envs cfg sd bx shared item (Queued p) = queued_for envs cfg sd bx shared item p"
| "task_for envs cfg sd bx shared item (Slotted p) = queued_for envs cfg sd bx shared item p"
| "task_for envs cfg sd bx shared item (Executing p) = queued_for envs cfg sd bx shared item p"
| "task_for envs cfg sd bx shared item (Rendered r) = rendering_for envs cfg sd bx shared item r"
| "task_for envs cfg sd bx shared item Lost = True"

definition tasks_for ::
  "('k, 's, 'c) env set \<Rightarrow> app_config \<Rightarrow> serde \<Rightarrow> batch_job \<Rightarrow> string option \<Rightarrow> 'c task list \<Rightarrow> bool" where
  "tasks_for envs cfg sd j shared tasks \<longleftrightarrow>
     list_all2 (task_for envs cfg sd (bj_env j) shared) (bj_items j) tasks"

lemma tasks_for_update:
  assumes "tasks_for envs cfg sd j shared tasks" and "i < length tasks"
    and "task_for envs cfg sd (bj_env j) shared (bj_items j ! i) (tasks ! i) \<Longrightarrow>
      task_for envs cfg sd (bj_env j) shared (bj_items j ! i) t"
  shows "tasks_for envs cfg sd j shared (tasks[i := t])"
  using assms by (auto simp: tasks_for_def list_all2_conv_all_nth nth_list_update)

text \<open>The results of a joined fan-out.\<close>

definition results_for ::
  "('k, 's, 'c) env set \<Rightarrow> app_config \<Rightarrow> serde \<Rightarrow> batch_job \<Rightarrow> string list \<Rightarrow> nat \<Rightarrow> nat \<Rightarrow> bool" where
  "results_for envs cfg sd j results n f \<longleftrightarrow>
     (\<exists>shared tasks. tasks_for envs cfg sd j shared tasks \<and> list_all task_done tasks \<and>
        render_slots sd (map slot_of tasks) (bx_trace_id (bj_env j)) (bt_max_response_bytes (ac_batch cfg)) =
          (results, n, f))"

fun batch_inv ::
  "('k, 's, 'c) env set \<Rightarrow> app_config \<Rightarrow> 's semaphore_ops \<Rightarrow> serde \<Rightarrow> ('c, 's) batch_state \<Rightarrow> bool" where
  "batch_inv envs cfg ops sd (FanOut j shared gate tasks) \<longleftrightarrow>
     tasks_for envs cfg sd j shared tasks \<and> sem_available ops gate + slots_used tasks = ceiling_of cfg"
| "batch_inv envs cfg ops sd (AfterWaiting j p results n f) \<longleftrightarrow> results_for envs cfg sd j results n f"
| "batch_inv envs cfg ops sd (AfterRunning j p results n f) \<longleftrightarrow> results_for envs cfg sd j results n f"
| "batch_inv envs cfg ops sd (Answered j (Answer a)) \<longleftrightarrow>
     results_for envs cfg sd j (br_results a) (bm_ok (br_meta a)) (bm_failed (br_meta a)) \<and>
     bm_items (br_meta a) = length (bj_items j) \<and> bm_trace_id (br_meta a) = bx_trace_id (bj_env j)"
| "batch_inv envs cfg ops sd (Answered j (Refused r)) \<longleftrightarrow> response_ok (resp_cfg_of cfg) r \<and> rp_status r \<noteq> 200"
| "batch_inv envs cfg ops sd b \<longleftrightarrow> True"

lemma projected_not_200: "rp_status (projected_error_response e m rc) \<noteq> 200"
proof -
  have "pr_status (project_envelope e) \<in> {500, 503, 400, 404, 409, 413, 422}"
    using project_status_cases [of "ee_retryable e" "ee_owner e" "ee_code e"]
    by (auto simp: project_envelope_def split: if_splits)
  then show ?thesis
    by (auto simp: projected_error_response_def projected_error_response_with_effects_def
        system_error_response_with_effects_def add_retry_after_def status_code_def Let_def)
qed

lemma barrier_inv: "batch_inv envs cfg ops sd (Answered j (Refused (barrier cfg bx e)))"
  by (simp add: barrier_def response_oks projected_not_200)

lemma slots_used_waiting: "slots_used (map Waiting items) = 0"
  by (induction items) (simp_all add: slots_used_def)

lemma batch_ceiling_max: "capacity \<le> max_permits \<Longrightarrow> batch_ceiling per capacity \<le> max_permits"
  by (auto simp: batch_ceiling_def max_permits_def)

context semaphore
begin

lemma enter_fan_out_inv:
  assumes "enter_fan_out cfg ops sd j data w = (b, w')" and "ac_bulkhead_capacity cfg \<le> max_permits"
  shows "batch_inv envs cfg ops sd b"
proof -
  have "sem_available ops (sem_new ops (ceiling_of cfg)) = ceiling_of cfg"
    using assms(2) by (intro new_available) (simp add: ceiling_of_def batch_ceiling_max)
  then have fan: "batch_inv envs cfg ops sd (FanOut j sh (sem_new ops (ceiling_of cfg)) (map Waiting (bj_items j)))" for sh
    by (simp add: tasks_for_def list_all2_conv_all_nth slots_used_waiting)
  show ?thesis
    using assms(1) fan barrier_inv
    by (auto simp: enter_fan_out_def Let_def ceiling_of_def simp del: batch_inv.simps split: option.splits if_splits)
qed

lemma batch_answer_inv:
  "results_for envs cfg sd j results n f \<Longrightarrow> batch_inv envs cfg ops sd (Answered j (batch_answer_ok j d results n f s e))"
  by (simp add: batch_answer_ok_def)

lemma join_fan_out_inv:
  assumes "join_fan_out cfg env sd j shared tasks d w = (b, w')"
    and "tasks_for envs cfg sd j shared tasks" and "list_all task_done tasks"
  shows "batch_inv envs cfg ops sd b"
proof -
  obtain results n f where r: "render_slots sd (map slot_of tasks) (bx_trace_id (bj_env j))
      (bt_max_response_bytes (ac_batch cfg)) = (results, n, f)"
    by (cases "render_slots sd (map slot_of tasks) (bx_trace_id (bj_env j)) (bt_max_response_bytes (ac_batch cfg))")
  then have "results_for envs cfg sd j results n f" using assms(2,3) by (auto simp: results_for_def)
  then show ?thesis
    using assms(1) r batch_answer_inv
    by (auto simp: join_fan_out_def Let_def split: option.splits prod.splits sum.splits)
qed

lemma batch_step_inv:
  fixes envs :: "('k, 's, 'c) env set" and w :: "('k, 's) world"
  assumes "batch_step cfg ops hash sd w b w' b'" and "batch_inv envs cfg ops sd b"
    and envs: "\<And>env. en_ops env = ops \<Longrightarrow> env \<in> envs" and cap: "ac_bulkhead_capacity cfg \<le> max_permits"
  shows "batch_inv envs cfg ops sd b'"
  using assms(1,2)
proof (cases rule: batch_step.cases)
  case (before_finish env j p result t outcome w1)
  then show ?thesis
    using enter_fan_out_inv [OF _ cap] barrier_inv
    by (cases outcome) (auto simp: after_before_def)
next
  case (item_refused env i tasks item j shared r gate)
  have "rendering_for envs cfg sd (bj_env j) shared item r"
    using item_refused envs [of env] unfolding rendering_for_def by blast
  then show ?thesis
    using item_refused assms(2) slots_used_update [of i tasks "Rendered r"]
    by (auto intro: tasks_for_update)
next
  case (item_queued env i tasks item j shared p gate)
  have "queued_for envs cfg sd (bj_env j) shared item p"
    using item_queued envs [of env] unfolding queued_for_def by blast
  then show ?thesis
    using item_queued assms(2) slots_used_update [of i tasks "Queued p"]
    by (auto intro: tasks_for_update)
next
  case (item_slot i tasks p gate gate' j shared)
  then show ?thesis
    using assms(2) slots_used_update [of i tasks "Slotted p"] try_acquire_Some [of gate gate']
    by (auto intro: tasks_for_update)
next
  case (item_start i tasks p gt j shared gate)
  then show ?thesis
    using assms(2) slots_used_update [of i tasks "Executing p"] by (auto intro: tasks_for_update)
next
  case (item_finish env i tasks p j result t r shared gate)
  have a: "sem_available ops gate + slots_used tasks = ceiling_of cfg" "tasks_for envs cfg sd j shared tasks"
    using assms(2) item_finish by simp_all
  have u: "slots_used (tasks[i := Rendered r]) + 1 = slots_used tasks"
    using slots_used_update [of i tasks "Rendered r"] item_finish by simp
  have "ceiling_of cfg \<le> max_permits" using cap by (simp add: ceiling_of_def batch_ceiling_max)
  then have "sem_available ops (sem_release ops gate) = Suc (sem_available ops gate)"
    using a(1) u by (intro release_available) simp
  moreover have "tasks_for envs cfg sd j shared (tasks[i := Rendered r])"
    using a(2) item_finish envs [of env] by (intro tasks_for_update) (auto simp: rendering_for_def)
  ultimately show ?thesis using a(1) u item_finish by simp
next
  case (item_lost i tasks gate gate' j shared)
  have a: "sem_available ops gate + slots_used tasks = ceiling_of cfg" "tasks_for envs cfg sd j shared tasks"
    using assms(2) item_lost by simp_all
  have u: "slots_used (tasks[i := Lost]) + slot_weight (tasks ! i) = slots_used tasks"
    using slots_used_update [of i tasks Lost] item_lost by simp
  have "ceiling_of cfg \<le> max_permits" using cap by (simp add: ceiling_of_def batch_ceiling_max)
  then have "sem_available ops gate' = sem_available ops gate + slot_weight (tasks ! i)"
    using a(1) u item_lost release_available [of gate] by (cases "tasks ! i") auto
  then show ?thesis using a u item_lost by (auto intro: tasks_for_update)
next
  case (join env tasks j shared t gate)
  then show ?thesis using assms(2) join_fan_out_inv by auto
next
  case (after_finish env j p result t outcome d results n f)
  then show ?thesis using assms(2) batch_answer_inv by (cases outcome) (auto simp: after_after_def)
qed auto

end

subsection \<open>Runs of a batch\<close>

text \<open>The states of an admitted batch; between two of its steps the rest of the server may change the world at will.\<close>

inductive batch_reachable ::
  "app_config \<Rightarrow> 's semaphore_ops \<Rightarrow> (string \<Rightarrow> u64) \<Rightarrow> serde \<Rightarrow> ('k, 's) world \<Rightarrow> ('c, 's) batch_state \<Rightarrow> bool"
  for cfg ops hash sd where
  rb_start: "en_ops (env :: ('k, 's, 'c) env) = ops \<Longrightarrow> en_hash env = hash \<Longrightarrow>
    run_batch_begin cfg env sd headers payload w = (Inr b, w') \<Longrightarrow> batch_reachable cfg ops hash sd w' b"
| rb_step: "batch_reachable cfg ops hash sd w b \<Longrightarrow> batch_step cfg ops hash sd w b w' b' \<Longrightarrow>
    batch_reachable cfg ops hash sd w' b'"
| rb_world: "batch_reachable cfg ops hash sd w b \<Longrightarrow> batch_reachable cfg ops hash sd w' b"

definition server_envs :: "'s semaphore_ops \<Rightarrow> ('k, 's, 'c) env set" where
  "server_envs ops = {env. en_ops env = ops}"

lemma begin_batch_state:
  assumes "run_batch_begin cfg env sd headers payload w = (Inr b, w')"
  obtains req identity w3 where "payload = Inr req"
    and "start_batch cfg env sd
      \<lparr>bj_env = \<lparr>bx_identity = identity, bx_partition = resolve_partition identity (header_partition headers),
                 bx_trace_id = en_trace_id env\<rparr>,
       bj_items = bq_items req, bj_seed = bq_shared req, bj_after = bq_after req\<rparr> (bq_before req) w3 = (b, w')"
    and "validate_batch cfg (bq_items req) identity (en_trace_id env) w3 = (Inr (), w3)"
    and "accepted_identity cfg identity" and "\<exists>keys. w3 = w\<lparr>wd_keys := keys\<rparr>"
proof -
  obtain x w1 where a: "enforce_auth cfg (en_fresh_id env) headers w = (x, w1)" by fastforce
  have x: "x = None" using assms a by (cases x) (simp_all add: run_batch_begin_def)
  then have w1: "w1 = w" using a by (auto simp: enforce_auth_cases split: if_splits)
  obtain y w2 where i: "resolve_identity cfg env headers w = (y, w2)" by fastforce
  obtain identity where y: "y = Inr identity" using assms a x w1 i by (cases y) (simp_all add: run_batch_begin_def)
  note id = resolve_identity_ok [OF i [unfolded y]]
  obtain req where p: "payload = Inr req" using assms a x w1 i y by (cases payload) (simp_all add: run_batch_begin_def)
  obtain z w3 where v: "validate_batch cfg (bq_items req) identity (en_trace_id env) w2 = (z, w3)" by fastforce
  have z: "z = Inr ()" using assms a x w1 i y p v by (cases z) (simp_all add: run_batch_begin_def)
  have w3: "w3 = w2" using v z by (auto simp: validate_batch_def Let_def split: if_splits)
  show ?thesis
    using that [of req identity w2] assms a x w1 i y p v z w3 id
    by (simp add: run_batch_begin_def split: prod.splits)
qed

context semaphore
begin

lemma start_batch_inv:
  assumes "start_batch cfg env sd j before w = (b, w')" and "en_ops env = ops" and "ac_bulkhead_capacity cfg \<le> max_permits"
  shows "batch_inv envs cfg ops sd b"
  using assms enter_fan_out_inv [OF _ assms(3)] barrier_inv
  by (auto simp: start_batch_def split: option.splits prod.splits sum.splits)

lemma batch_reachable_inv:
  fixes w :: "('k, 's) world"
  assumes "batch_reachable cfg ops hash sd w b" and "ac_bulkhead_capacity cfg \<le> max_permits"
  shows "batch_inv (server_envs ops :: ('k, 's, 'c) env set) cfg ops sd b"
  using assms(1)
proof (induction rule: batch_reachable.induct)
  case (rb_start env headers payload w b w')
  then show ?case
    by (elim begin_batch_state) (rule start_batch_inv [OF _ _ assms(2)])
next
  case (rb_step w b w' b')
  then show ?case
    using batch_step_inv [of cfg hash sd w b w' b' "server_envs ops"] assms(2) by (simp add: server_envs_def)
next
  case (rb_world w b w')
  then show ?case by simp
qed

end

subsection \<open>Termination and progress\<close>

fun task_rank :: "'c task \<Rightarrow> nat" where
  "task_rank (Waiting item) = 4"
| "task_rank (Queued p) = 3"
| "task_rank (Slotted p) = 2"
| "task_rank (Executing p) = 1"
| "task_rank t = 0"

text \<open>The steps a batch has left, at most.\<close>

fun batch_rank :: "('c, 's) batch_state \<Rightarrow> nat" where
  "batch_rank (BeforeWaiting j p) = 4 * length (bj_items j) + 5"
| "batch_rank (BeforeRunning j p) = 4 * length (bj_items j) + 4"
| "batch_rank (FanOut j shared gate tasks) = sum_list (map task_rank tasks) + 3"
| "batch_rank (AfterWaiting j p results n f) = 2"
| "batch_rank (AfterRunning j p results n f) = 1"
| "batch_rank (Answered j a) = 0"

lemma waiting_rank: "sum_list (map (task_rank \<circ> Waiting) items) = 4 * length items"
  by (induction items) simp_all

lemma enter_fan_out_rank:
  "enter_fan_out cfg ops sd j data w = (b, w') \<Longrightarrow> batch_rank b \<le> 4 * length (bj_items j) + 3"
  by (auto simp: enter_fan_out_def Let_def waiting_rank split: option.splits if_splits)

lemma task_rank_update:
  assumes "i < length tasks" and "task_rank t < task_rank (tasks ! i)"
  shows "batch_rank (FanOut j shared gate' (tasks[i := t])) < batch_rank (FanOut j shared gate tasks)"
  using assms sum_list_map_update [of i tasks task_rank t] by simp

lemma rank_decreases:
  assumes "batch_step cfg ops hash sd w b w' b'"
  shows "batch_rank b' < batch_rank b"
  using assms
proof (cases rule: batch_step.cases)
  case (before_finish env j p result t outcome w1)
  then show ?thesis
    using enter_fan_out_rank [of cfg ops sd j _ w1 b' w']
    by (cases outcome) (fastforce simp: after_before_def)+
next
  case (item_lost i tasks gate gate' j shared)
  have "task_rank Lost < task_rank (tasks ! i)" using item_lost by (cases "tasks ! i") simp_all
  then show ?thesis using item_lost task_rank_update [of i tasks Lost] by simp
next
  case (join env tasks j shared t gate)
  then have "batch_rank b' \<le> 2"
    by (auto simp: join_fan_out_def Let_def batch_answer_ok_def split: option.splits prod.splits sum.splits)
  then show ?thesis using join by simp
next
  case (item_refused env i tasks item j shared r gate)
  then show ?thesis using task_rank_update [of i tasks "Rendered r"] by simp
next
  case (item_queued env i tasks item j shared p gate)
  then show ?thesis using task_rank_update [of i tasks "Queued p"] by simp
next
  case (item_slot i tasks p gate gate' j shared)
  then show ?thesis using task_rank_update [of i tasks "Slotted p"] by simp
next
  case (item_start i tasks p gt j shared gate)
  then show ?thesis using task_rank_update [of i tasks "Executing p"] by simp
next
  case (item_finish env i tasks p j result t r shared gate)
  then show ?thesis using task_rank_update [of i tasks "Rendered r"] by simp
qed simp_all

text \<open>A task that can move on its own: it may begin or finish, or what it queues for is free.\<close>

fun task_enabled :: "'s semaphore_ops \<Rightarrow> 's \<Rightarrow> 's gate_state \<Rightarrow> 'c task \<Rightarrow> bool" where
  "task_enabled ops gate st (Waiting item) = True"
| "task_enabled ops gate st (Queued p) = (sem_try_acquire ops gate \<noteq> None)"
| "task_enabled ops gate st (Slotted p) = (acquire_global ops st \<noteq> None)"
| "task_enabled ops gate st (Executing p) = True"
| "task_enabled ops gate st t = False"

context semaphore
begin

lemma fan_out_enabled:
  assumes "sem_available ops gate + slots_used tasks = ceiling_of cfg" and "\<not> list_all task_done tasks"
    and "0 < sem_available ops (gt_global st)"
  shows "\<exists>i < length tasks. task_enabled ops gate st (tasks ! i)"
proof (cases "\<exists>i < length tasks. slot_weight (tasks ! i) = 1")
  case True
  then obtain i where i: "i < length tasks" "slot_weight (tasks ! i) = 1" by blast
  have "acquire_global ops st \<noteq> None" using assms(3) try_acquire_None by (simp add: acquire_global_def)
  then have "task_enabled ops gate st (tasks ! i)" using i(2) by (cases "tasks ! i") simp_all
  then show ?thesis using i(1) by blast
next
  case False
  have "slot_weight (tasks ! i) = 0" if "i < length tasks" for i
    using False that by (cases "tasks ! i") fastforce+
  then have "slots_used tasks = 0"
    unfolding slots_used_def by (simp add: sum_list_sum_nth)
  then have g: "sem_try_acquire ops gate \<noteq> None"
    using assms(1) try_acquire_None [of gate]
      batch_ceiling_bounds [of "ec_max_concurrent_per_partition (ac_engine cfg)" "ac_bulkhead_capacity cfg"]
    by (simp add: ceiling_of_def)
  obtain i where i: "i < length tasks" "\<not> task_done (tasks ! i)"
    using assms(2) by (auto simp: list_all_length)
  have "task_enabled ops gate st (tasks ! i)"
    using i g False by (cases "tasks ! i") fastforce+
  then show ?thesis using i(1) by blast
qed

end

lemma batch_runs_bounded:
  assumes "\<forall>i < n. \<exists>w w'. batch_step cfg ops hash sd w (bs i) w' (bs (Suc i))"
  shows "n + batch_rank (bs n) \<le> batch_rank (bs 0)"
  using assms
proof (induction n)
  case (Suc n)
  then show ?case using rank_decreases [of cfg ops hash sd _ "bs n" _ "bs (Suc n)"] by fastforce
qed simp

lemma begin_batch_rank:
  assumes "run_batch_begin cfg env sd headers (Inr req) w = (Inr b, w')"
  shows "batch_rank b \<le> 4 * length (bq_items req) + 5"
  using assms
proof (rule begin_batch_state)
  fix req' :: batch_request and identity w3
  let ?j = "\<lparr>bj_env = \<lparr>bx_identity = identity, bx_partition = resolve_partition identity (header_partition headers),
                 bx_trace_id = en_trace_id env\<rparr>,
       bj_items = bq_items req', bj_seed = bq_shared req', bj_after = bq_after req'\<rparr>"
  assume r: "Inr req = Inr req'" and s: "start_batch cfg env sd ?j (bq_before req') w3 = (b, w')"
  show ?thesis
  proof (cases "bq_before req'")
    case None
    then have "enter_fan_out cfg (en_ops env) sd ?j None w3 = (b, w')" using s by (simp add: start_batch_def)
    from enter_fan_out_rank [OF this] show ?thesis using r by simp
  next
    case (Some item)
    then show ?thesis using s r by (auto simp: start_batch_def split: prod.splits sum.splits)
  qed
qed

subsection \<open>A sample batch\<close>

text \<open>One item that names neither a script nor a key, on the sample deployment; texts are what they stand for.\<close>

definition sample_serde :: serde where
  "sample_serde =
     \<lparr>sd_error_item = (\<lambda>e m i. Some (ee_code e)), sd_success_item = (\<lambda>d e m i. Some d),
      sd_object = (\<lambda>s. Some Map.empty), sd_object_text = (\<lambda>m. m ''shared''),
      sd_array_text = (\<lambda>xs. Some (concat xs)), sd_raw = Some\<rparr>"

definition sample_item :: batch_item where
  "sample_item = \<lparr>bi_script = None, bi_key = None, bi_context = ''{}'',
     bi_config = \<lparr>rq_allowed_hosts = [], rq_s3 = None, rq_sys = None, rq_io = [], rq_currency = None\<rparr>, bi_id = None\<rparr>"

definition sample_job :: batch_job where
  "sample_job = \<lparr>bj_env = \<lparr>bx_identity = Some (from_headers sample_headers trusted_headers_default),
       bx_partition = Some ''acme'', bx_trace_id = ''trace-1''\<rparr>,
     bj_items = [sample_item], bj_seed = None, bj_after = None\<rparr>"

lemma sample_capacity: "ac_bulkhead_capacity sample_app \<le> max_permits"
  by (simp add: sample_app_def max_permits_def)

lemma sample_batch_begins:
  "run_batch_begin sample_app sample_env sample_serde sample_headers
     (Inr \<lparr>bq_items = [sample_item], bq_before = None, bq_shared = None, bq_after = None\<rparr>) sample_world =
   (Inr (FanOut sample_job None (1 :: nat) [Waiting sample_item]), sample_world)"
proof -
  have c: "ec_max_concurrent_per_partition (ac_engine sample_app) = 0" "ac_bulkhead_capacity sample_app = 1"
      "bt_max_items (ac_batch sample_app) = 25" "bt_max_input_bytes (ac_batch sample_app) = 4194304"
    by (simp_all add: sample_app_def engine_config_default_def batch_config_default_def)
  have e: "en_ops sample_env = counting" "en_trace_id sample_env = ''trace-1''" by (simp_all add: sample_env_def)
  have v: "validate_batch sample_app [sample_item] i t w = (Inr (), w)" for i t w
    by (simp add: validate_batch_def Let_def c sample_item_def batch_item_input_bytes_def usat_add_def)
  show ?thesis
    by (simp add: run_batch_begin_def sample_gates v start_batch_def enter_fan_out_def build_shared_context_def
        e c batch_ceiling_def counting_def sample_job_def resolve_partition_def sample_identity)
qed

lemma sample_batch_reachable:
  "batch_reachable sample_app counting (\<lambda>k. of_nat (length k)) sample_serde sample_world
     (FanOut sample_job None (1 :: nat) [Waiting sample_item] :: (unit, nat) batch_state)"
  by (rule rb_start [OF _ _ sample_batch_begins]) (simp_all add: sample_env_def)

lemma sample_batch_answers:
  "\<exists>a w. batch_reachable sample_app counting (\<lambda>k. of_nat (length k)) sample_serde (w :: (unit, nat) world)
     (Answered sample_job (Answer a) :: (unit, nat) batch_state)"
proof -
  let ?R = "batch_reachable sample_app counting (\<lambda>k. of_nat (length k)) sample_serde"
  have e: "en_ops sample_env = counting" "en_hash sample_env = (\<lambda>k. of_nat (length k))" by (simp_all add: sample_env_def)
  obtain r w1 where b: "begin_item sample_app sample_env sample_serde (bj_env sample_job) None sample_item sample_world = (Inl r, w1)"
    by (simp add: begin_item_def sample_item_def resolve_script_def Let_def)
  have fan: "?R w1 (FanOut sample_job None (1 :: nat) [Rendered r] :: (unit, nat) batch_state)"
    using rb_step [OF sample_batch_reachable item_refused [OF e _ _ b, where i = 0 and tasks = "[Waiting sample_item]"]]
    by simp
  obtain res n f where "render_slots sample_serde [Some r] ''trace-1'' (bt_max_response_bytes (ac_batch sample_app)) = (res, n, f)"
    by (cases "render_slots sample_serde [Some r] ''trace-1'' (bt_max_response_bytes (ac_batch sample_app))")
  then have "join_fan_out sample_app sample_env sample_serde sample_job None [Rendered r] 0 w1 =
      (Answered sample_job (batch_answer_ok sample_job 0 res n f None None) :: (unit, nat) batch_state, w1)"
    by (simp add: join_fan_out_def sample_job_def)
  then have "batch_step sample_app counting (\<lambda>k. of_nat (length k)) sample_serde w1
      (FanOut sample_job None (1 :: nat) [Rendered r]) w1
      (Answered sample_job (batch_answer_ok sample_job 0 res n f None None) :: (unit, nat) batch_state)"
    by (rule Batch.join [OF e, rotated]) simp
  from rb_step [OF fan this] show ?thesis by (auto simp: batch_answer_ok_def)
qed

subsection \<open>Properties\<close>

lemma results_for_aligned:
  assumes "results_for envs cfg sd j results n f" and "length (bj_items j) \<le> usize_max"
  shows "length results = length (bj_items j) \<and> n + f = length (bj_items j) \<and>
    (\<exists>shared. \<forall>i < length (bj_items j).
       results ! i \<in> {raw_of sd (truncated_item sd (bx_trace_id (bj_env j))),
                      raw_of sd (internal_error_item sd (bx_trace_id (bj_env j)))} \<or>
       (\<exists>r. rendering_for envs cfg sd (bj_env j) shared (bj_items j ! i) r \<and> results ! i = raw_of sd r))"
proof -
  let ?tr = "bx_trace_id (bj_env j)" and ?cap = "bt_max_response_bytes (ac_batch cfg)"
  obtain shared tasks where t: "tasks_for envs cfg sd j shared tasks"
      and r: "render_slots_from sd ?tr ?cap 0 0 0 (map slot_of tasks) = (results, n, f)"
    using assms(1) by (auto simp: results_for_def render_slots_def)
  have len: "length tasks = length (bj_items j)" using t by (simp add: tasks_for_def list_all2_lengthD)
  have "results ! i \<in> {raw_of sd (truncated_item sd ?tr), raw_of sd (internal_error_item sd ?tr)} \<or>
      (\<exists>r. rendering_for envs cfg sd (bj_env j) shared (bj_items j ! i) r \<and> results ! i = raw_of sd r)"
    if i: "i < length (bj_items j)" for i
  proof -
    have tf: "task_for envs cfg sd (bj_env j) shared (bj_items j ! i) (tasks ! i)"
      using t i by (simp add: tasks_for_def list_all2_conv_all_nth)
    have "results ! i \<in> {raw_of sd (rendered_of sd ?tr (slot_of (tasks ! i))), raw_of sd (truncated_item sd ?tr)}"
      using render_slots_from_nth [of i "map slot_of tasks" sd ?tr ?cap 0 0 0] r i len by simp
    then show ?thesis using tf by (cases "tasks ! i") (auto simp: rendered_of_def)
  qed
  moreover have "length results = length (bj_items j)"
    using render_slots_from_length [of sd ?tr ?cap 0 0 0 "map slot_of tasks"] r len by simp
  moreover have "n + f = length (bj_items j)"
    using render_slots_from_counts [of 0 0 "map slot_of tasks" sd ?tr ?cap 0] r len assms(2) by simp
  ultimately show ?thesis by blast
qed

text \<open>C12: an answered batch has one result per item, in request order. Whatever the interleaving of its tasks and of the
  rest of the server, the answer counts every item once as ok or failed, and its \<open>i\<close>-th result is a rendering of
  the \<open>i\<close>-th item (of its refusal or of its execution), the truncation notice, or the internal-error notice of a
  task that panicked.\<close>

theorem batch_answer_aligned:
  fixes w :: "('k, 's) world" and a :: batch_response
  assumes "semaphore ops" and "ac_bulkhead_capacity cfg \<le> max_permits" and "length (bj_items j) \<le> usize_max"
    and "batch_reachable cfg ops hash sd w (Answered j (Answer a) :: ('c, 's) batch_state)"
  shows "length (br_results a) = length (bj_items j) \<and> bm_items (br_meta a) = length (bj_items j) \<and>
    bm_ok (br_meta a) + bm_failed (br_meta a) = bm_items (br_meta a) \<and>
    bm_trace_id (br_meta a) = bx_trace_id (bj_env j) \<and>
    (\<exists>shared. \<forall>i < length (bj_items j).
       br_results a ! i \<in> {raw_of sd (truncated_item sd (bx_trace_id (bj_env j))),
                           raw_of sd (internal_error_item sd (bx_trace_id (bj_env j)))} \<or>
       (\<exists>r. rendering_for (server_envs ops :: ('k, 's, 'c) env set) cfg sd (bj_env j) shared (bj_items j ! i) r \<and>
          br_results a ! i = raw_of sd r))"
proof -
  have "batch_inv (server_envs ops :: ('k, 's, 'c) env set) cfg ops sd (Answered j (Answer a))"
    by (rule semaphore.batch_reachable_inv [OF assms(1,4,2)])
  then have i: "results_for (server_envs ops :: ('k, 's, 'c) env set) cfg sd j (br_results a) (bm_ok (br_meta a)) (bm_failed (br_meta a))"
      "bm_items (br_meta a) = length (bj_items j)" "bm_trace_id (br_meta a) = bx_trace_id (bj_env j)"
    by simp_all
  show ?thesis using results_for_aligned [OF i(1) assms(3)] i(2,3) by simp
qed

theorem batch_answer_aligned_witness:
  "\<exists>a w. batch_reachable sample_app counting (\<lambda>k. of_nat (length k)) sample_serde (w :: (unit, nat) world)
     (Answered sample_job (Answer a) :: (unit, nat) batch_state) \<and> length (br_results a) = 1"
proof -
  obtain a w where r: "batch_reachable sample_app counting (\<lambda>k. of_nat (length k)) sample_serde (w :: (unit, nat) world)
      (Answered sample_job (Answer a) :: (unit, nat) batch_state)"
    using sample_batch_answers by blast
  have l: "length (bj_items sample_job) = 1" by (simp add: sample_job_def)
  have "length (bj_items sample_job) \<le> usize_max" by (simp add: l usize_max_def)
  from batch_answer_aligned [OF counting.semaphore_axioms sample_capacity this r] show ?thesis using r l by auto
qed

text \<open>C13: a batch cannot monopolise the server. In every reachable state of its fan-out the tasks holding a slot, and so
  the executions under way, are within the ceiling, which is within the bulkhead and, with fairness on, the
  partition share; and the free slots are exactly the rest.\<close>

theorem fan_out_bounded:
  fixes w :: "('k, 's) world"
  assumes "semaphore ops" and "ac_bulkhead_capacity cfg \<le> max_permits"
    and "batch_reachable cfg ops hash sd w (FanOut j shared gate tasks :: ('c, 's) batch_state)"
  shows "sem_available ops gate + slots_used tasks = ceiling_of cfg \<and>
    length (filter (\<lambda>t. \<exists>p. t = Executing p) tasks) \<le> ceiling_of cfg \<and>
    ceiling_of cfg \<le> max (ac_bulkhead_capacity cfg) 1 \<and>
    (0 < ec_max_concurrent_per_partition (ac_engine cfg) \<longrightarrow>
       ceiling_of cfg \<le> ec_max_concurrent_per_partition (ac_engine cfg))"
proof -
  have "batch_inv (server_envs ops :: ('k, 's, 'c) env set) cfg ops sd (FanOut j shared gate tasks)"
    by (rule semaphore.batch_reachable_inv [OF assms(1,3,2)])
  then have s: "sem_available ops gate + slots_used tasks = ceiling_of cfg" by simp
  have "length (filter (\<lambda>t. \<exists>p. t = Executing p) tasks) \<le> slots_used tasks"
  proof (induction tasks)
    case (Cons t tasks)
    then show ?case by (cases t) (simp_all add: slots_used_def)
  qed (simp add: slots_used_def)
  then show ?thesis
    using s batch_ceiling_bounds [of "ec_max_concurrent_per_partition (ac_engine cfg)" "ac_bulkhead_capacity cfg"]
    by (simp add: ceiling_of_def)
qed

theorem fan_out_bounded_witness:
  "sem_available counting 1 + slots_used [Waiting sample_item :: unit task] = ceiling_of sample_app"
  using fan_out_bounded [OF counting.semaphore_axioms sample_capacity sample_batch_reachable] by simp

text \<open>C14: a batch is never stuck. In every reachable state of the fan-out with tasks left, as soon as the bulkhead has a
  free permit some task can proceed by itself: one that has not begun or is executing, one queued for a slot with
  a slot free, or one holding a slot with a bulkhead permit free. The two gates are taken in one order, so they
  cannot deadlock.\<close>

theorem fan_out_never_stuck:
  fixes w :: "('k, 's) world"
  assumes "semaphore ops" and "ac_bulkhead_capacity cfg \<le> max_permits"
    and "batch_reachable cfg ops hash sd w (FanOut j shared gate tasks :: ('c, 's) batch_state)"
    and "\<not> list_all task_done tasks" and "0 < sem_available ops (gt_global (wd_gates w))"
  shows "\<exists>i < length tasks. task_enabled ops gate (wd_gates w) (tasks ! i)"
proof -
  have "batch_inv (server_envs ops :: ('k, 's, 'c) env set) cfg ops sd (FanOut j shared gate tasks)"
    by (rule semaphore.batch_reachable_inv [OF assms(1,3,2)])
  then show ?thesis using semaphore.fan_out_enabled [OF assms(1) _ assms(4,5)] by simp
qed

theorem fan_out_never_stuck_witness:
  "\<exists>i < 1. task_enabled counting 1 (wd_gates sample_world) ([Waiting sample_item :: unit task] ! i)"
proof -
  have "0 < sem_available counting (gt_global (wd_gates sample_world))"
    by (simp add: sample_world_def gate_new_def counting_def)
  then show ?thesis
    using fan_out_never_stuck [OF counting.semaphore_axioms sample_capacity sample_batch_reachable] by simp
qed

text \<open>Every batch ends. An admitted batch of \<open>n\<close> items takes at most \<open>4 n + 5\<close> steps, whatever its tasks and the rest of
  the server do.\<close>

lemma batch_terminates:
  fixes env :: "('k, 's, 'c) env"
  assumes "run_batch_begin cfg env sd headers (Inr req) w0 = (Inr (bs 0), w1)"
    and "\<forall>i < n. \<exists>(w :: ('k, 's) world) w'. batch_step cfg ops hash sd w (bs i) w' (bs (Suc i))"
  shows "n \<le> 4 * length (bq_items req) + 5"
  using batch_runs_bounded [OF assms(2)] begin_batch_rank [OF assms(1)] by simp

text \<open>C15: the response cap. Rendered results keep the number and order of the slots, each being the rendered item or a
  truncation notice, and every slot is counted once as a success or a failure; when all bodies fit the cap the results are
  exactly the rendered items; otherwise they exceed the cap by truncation notices only, at most one per item, and by
  the four bytes of \<^verbatim>\<open>null\<close> for each body that is not JSON. (Neither is charged against the cap before it is
  emitted.) Of serde it takes that a raw value is a part of the text it was read from.\<close>

theorem render_slots_capped:
  assumes "cap < usize_max" and "\<forall>body raw. sd_raw sd body = Some raw \<longrightarrow> length raw \<le> length body"
    and "length slots \<le> usize_max"
  shows "length (fst (render_slots sd slots tr cap)) = length slots \<and>
    (\<forall>i < length slots. fst (render_slots sd slots tr cap) ! i \<in>
       {raw_of sd (rendered_of sd tr (slots ! i)), raw_of sd (truncated_item sd tr)}) \<and>
    fst (snd (render_slots sd slots tr cap)) + snd (snd (render_slots sd slots tr cap)) = length slots \<and>
    (sum_list (map (length \<circ> ri_body \<circ> rendered_of sd tr) slots) \<le> cap \<longrightarrow>
       fst (render_slots sd slots tr cap) = map (raw_of sd \<circ> rendered_of sd tr) slots) \<and>
    (\<exists>t \<le> length slots. sum_list (map length (fst (render_slots sd slots tr cap))) \<le>
       cap + t * length (raw_of sd (truncated_item sd tr)) + 4 * length (filter (not_json sd tr) slots))"
proof -
  have "\<exists>t \<le> length slots. sum_list (map length (fst (render_slots_from sd tr cap 0 0 0 slots))) \<le>
      (cap - 0) + t * length (raw_of sd (truncated_item sd tr)) + 4 * length (filter (not_json sd tr) slots)"
    by (rule render_slots_from_bytes [OF assms(1,2)])
  then show ?thesis
    using render_slots_from_length [of sd tr cap 0 0 0 slots] render_slots_from_counts [of 0 0 slots sd tr cap 0]
      render_slots_from_fits [of 0 sd tr slots cap 0 0] render_slots_from_nth [of _ slots sd tr cap 0 0 0] assms(1,3)
    by (simp add: render_slots_def)
qed

text \<open>
  A reader of raw values that trims white space and takes an object's text, empty or not: the empty body of the first slot
  becomes \<^verbatim>\<open>null\<close>, the second is kept, the third is over the cap.
\<close>

definition object_serde :: serde where
  "object_serde = sample_serde
     \<lparr>sd_raw := (\<lambda>body. let s = trim body in if s \<noteq> [] \<and> hd s = CHR ''{'' \<and> last s = CHR ''}'' then Some s else None),
      sd_error_item := (\<lambda>e m i. Some ''{}'')\<rparr>"

lemma trim_shorter: "length (trim s) \<le> length s"
  unfolding trim_def length_rev
  by (rule order_trans [OF length_dropWhile_le]) (simp add: length_dropWhile_le)

theorem render_slots_capped_witness:
  "\<exists>t \<le> 3. sum_list (map length (fst (render_slots object_serde
     [Some \<lparr>ri_body = [], ri_ok = True\<rparr>, Some \<lparr>ri_body = ''{1}'', ri_ok = True\<rparr>,
      Some \<lparr>ri_body = ''{22222}'', ri_ok = True\<rparr>] ''t'' 5))) \<le> 5 + t * 2 + 4"
proof -
  have raw: "\<forall>body raw. sd_raw object_serde body = Some raw \<longrightarrow> length raw \<le> length body"
    using trim_shorter by (auto simp: object_serde_def Let_def split: if_splits)
  have "raw_of object_serde (truncated_item object_serde ''t'') = ''{}''"
    by (simp add: raw_of_def truncated_item_def render_error_item_def object_serde_def trim_def ascii_ws_def)
  moreover have "filter (not_json object_serde ''t'') [Some \<lparr>ri_body = [], ri_ok = True\<rparr>, Some \<lparr>ri_body = ''{1}'', ri_ok = True\<rparr>,
      Some \<lparr>ri_body = ''{22222}'', ri_ok = True\<rparr>] = [Some \<lparr>ri_body = [], ri_ok = True\<rparr>]"
    by (simp add: not_json_def rendered_of_def object_serde_def trim_def ascii_ws_def)
  ultimately show ?thesis
    using render_slots_capped [of 5 object_serde "[Some \<lparr>ri_body = [], ri_ok = True\<rparr>, Some \<lparr>ri_body = ''{1}'', ri_ok = True\<rparr>,
      Some \<lparr>ri_body = ''{22222}'', ri_ok = True\<rparr>]" "''t''", OF _ raw]
    by (simp add: usize_max_def numeral_3_eq_3 mult.commute)
qed


text \<open>C17: every invocation of a batch is accounted once. An item refused at any gate leaves one denial record, no counter
  and no quota unit; a phase likewise; an item or phase that executed bumps exactly one outcome counter and the
  latency count, emits one usage and one audit record under the batch's trace id, and gives back its bulkhead
  permit and its quota unit.\<close>

theorem batch_invocation_accounting:
  "(begin_item cfg env sd bx shared item w = (Inl r, w') \<longrightarrow> denied_once cfg w w' \<and> \<not> ri_ok r) \<and>
   (begin_phase cfg env bx item cj w = (Inl e, w') \<longrightarrow> denied_once cfg w w') \<and>
   (begin_item cfg env sd bx shared item w = (Inr p, w') \<longrightarrow>
      took_guard (pd_guard p) w w' \<and> mt_trace_id (pd_meta p) = bx_trace_id bx) \<and>
   (finish_item cfg env sd bx p result t w = (r, w') \<longrightarrow> finished cfg (en_ops env) bx p t w w') \<and>
   (finish_phase cfg env sd bx p result t w = (out, w') \<longrightarrow> finished cfg (en_ops env) bx p t w w')"
  by (auto dest: begin_item_Inl begin_phase_Inl begin_item_Inr finish_item_finished finish_phase_finished)

theorem batch_invocation_accounting_witness:
  "\<exists>r w'. begin_item sample_app sample_env sample_serde (bj_env sample_job) None sample_item sample_world = (Inl r, w') \<and>
     denied_once sample_app sample_world w'"
proof -
  obtain r w' where b: "begin_item sample_app sample_env sample_serde (bj_env sample_job) None sample_item sample_world = (Inl r, w')"
    by (simp add: begin_item_def sample_item_def resolve_script_def Let_def)
  then show ?thesis using batch_invocation_accounting by metis
qed

text \<open>C18: the batch caps are exact. A batch is admitted iff it has between one and \<open>max_items\<close> items and their inline
  scripts and contexts add up to at most \<open>max_input_bytes\<close>; the sum does not wrap. A refusal is a \<open>400\<close> with one
  denial record and runs nothing.\<close>

theorem validate_batch_exact:
  assumes "bt_max_input_bytes (ac_batch cfg) < usize_max"
  shows "(is_ok (fst (validate_batch cfg items i t w)) \<longleftrightarrow>
      items \<noteq> [] \<and> length items \<le> bt_max_items (ac_batch cfg) \<and>
      (\<Sum>item \<leftarrow> items. (case bi_script item of None \<Rightarrow> 0 | Some s \<Rightarrow> length s) + length (bi_context item))
        \<le> bt_max_input_bytes (ac_batch cfg)) \<and>
    (case validate_batch cfg items i t w of
       (Inr u, w') \<Rightarrow> w' = w
     | (Inl r, w') \<Rightarrow> rp_status r = 400 \<and> denied_once cfg w w')"
proof -
  have st: "rp_status (batch_level_error c m t) = 400" for c m
    by (simp add: batch_level_error_def system_error_response_def system_error_response_with_effects_def status_code_def)
  show ?thesis
    using combined_exact [OF assms, of items]
    by (auto simp: validate_batch_def Let_def st not_less [symmetric] split: if_splits)
qed

theorem validate_batch_exact_witness:
  "is_ok (fst (validate_batch sample_app [sample_item] None ''t'' sample_world))"
  using validate_batch_exact [of sample_app "[sample_item]" None "''t''" sample_world]
  by (simp add: sample_app_def batch_config_default_def usize_max_def sample_item_def)

text \<open>The \<open>before\<close> phase is a barrier and \<open>after\<close> is best effort. A failing \<open>before\<close> phase answers the batch at once with its
  projected error, which is never a \<open>200\<close>, and no step of a fan-out leads to such an answer; a failing \<open>after\<close>
  phase leaves the results as they are and reports its error in \<open>summary_error\<close>.\<close>

lemma before_is_a_barrier:
  "(after_before cfg ops sd j (Inl e) w = (Answered j (Refused (barrier cfg (bj_env j) e)), on_metrics record_rejection w)) \<and>
   rp_status (barrier cfg (bj_env j) e) \<noteq> 200 \<and> response_ok (resp_cfg_of cfg) (barrier cfg (bj_env j) e) \<and>
   \<not> batch_step cfg ops hash sd w (FanOut j shared gate tasks) w' (Answered j' (Refused r)) \<and>
   (\<exists>a. after_after j d results n f (Inl e) = Answer a \<and> br_results a = results \<and>
      br_summary a = None \<and> br_summary_error a = Some e)"
proof -
  have "\<not> batch_step cfg ops hash sd w (FanOut j shared gate tasks) w' (Answered j' (Refused r))"
  proof
    assume "batch_step cfg ops hash sd w (FanOut j shared gate tasks) w' (Answered j' (Refused r))"
    then show False
      by (cases rule: batch_step.cases)
         (auto simp: join_fan_out_def Let_def batch_answer_ok_def split: option.splits prod.splits sum.splits)
  qed
  then show ?thesis
    by (simp add: after_before_def barrier_def response_oks projected_not_200 after_after_def batch_answer_ok_def)
qed

end
