(* ===== verification/Server.thy ===== *)
theory Server
  imports Batch_Props
begin

text \<open>
  The server as a transition system: any number of \<^verbatim>\<open>/execute\<close> requests and batches over one shared state, in any
  interleaving of their steps. \<open>server_reachable\<close> relates the shared state to the executions and batches in
  flight. A request's first half is one step: its accesses to the semaphores and to the quota table are each a
  single operation on a cell no other part of that half reads, and the theories of those cells
  (\<open>gate_reachable\<close>, \<open>quota_reachable\<close>) interleave the single operations.
\<close>

inductive server_reachable ::
  "app_config \<Rightarrow> 's semaphore_ops \<Rightarrow> (string \<Rightarrow> u64) \<Rightarrow> serde \<Rightarrow> nat \<Rightarrow> nat \<Rightarrow> nat \<Rightarrow> plan_limits option \<Rightarrow>
   ('k, 's) world \<Rightarrow> 'c inflight list \<Rightarrow> ('c, 's) batch_state list \<Rightarrow> bool"
  for cfg ops hash sd capacity buckets per plans where
  sv_start: "wd_gates w = gate_new ops capacity buckets per \<Longrightarrow>
    wd_quota w = map_option tenant_quota_new plans \<Longrightarrow>
    server_reachable cfg ops hash sd capacity buckets per plans w [] []"
| sv_refused: "server_reachable cfg ops hash sd capacity buckets per plans w fls bs \<Longrightarrow>
    en_ops (env :: ('k, 's, 'c) env) = ops \<Longrightarrow> en_hash env = hash \<Longrightarrow>
    run_execute_begin cfg env headers payload w = (Done r, w') \<Longrightarrow>
    server_reachable cfg ops hash sd capacity buckets per plans w' fls bs"
| sv_started: "server_reachable cfg ops hash sd capacity buckets per plans w fls bs \<Longrightarrow>
    en_ops (env :: ('k, 's, 'c) env) = ops \<Longrightarrow> en_hash env = hash \<Longrightarrow>
    run_execute_begin cfg env headers payload w = (Running fl, w') \<Longrightarrow>
    server_reachable cfg ops hash sd capacity buckets per plans w' (fl # fls) bs"
| sv_finished: "server_reachable cfg ops hash sd capacity buckets per plans w fls bs \<Longrightarrow>
    en_ops (env :: ('k, 's, 'c) env) = ops \<Longrightarrow> en_hash env = hash \<Longrightarrow> fl \<in> set fls \<Longrightarrow>
    run_execute_finish cfg env fl result t w = (r, w') \<Longrightarrow>
    server_reachable cfg ops hash sd capacity buckets per plans w' (remove1 fl fls) bs"
| sv_batch_refused: "server_reachable cfg ops hash sd capacity buckets per plans w fls bs \<Longrightarrow>
    en_ops (env :: ('k, 's, 'c) env) = ops \<Longrightarrow> en_hash env = hash \<Longrightarrow>
    run_batch_begin cfg env sd headers payload w = (Inl r, w') \<Longrightarrow>
    server_reachable cfg ops hash sd capacity buckets per plans w' fls bs"
| sv_batch_started: "server_reachable cfg ops hash sd capacity buckets per plans w fls bs \<Longrightarrow>
    en_ops (env :: ('k, 's, 'c) env) = ops \<Longrightarrow> en_hash env = hash \<Longrightarrow>
    run_batch_begin cfg env sd headers payload w = (Inr b, w') \<Longrightarrow>
    server_reachable cfg ops hash sd capacity buckets per plans w' fls (b # bs)"
| sv_batch_step: "server_reachable cfg ops hash sd capacity buckets per plans w fls bs \<Longrightarrow>
    i < length bs \<Longrightarrow> batch_step cfg ops hash sd w (bs ! i) w' b \<Longrightarrow>
    server_reachable cfg ops hash sd capacity buckets per plans w' fls (bs[i := b])"

subsection \<open>What is held\<close>

definition held_unit :: "string option \<Rightarrow> string multiset" where
  "held_unit g = (case g of None \<Rightarrow> {#} | Some t \<Rightarrow> {#t#})"

lemma held_unit_simps [simp]: "held_unit None = {#}" "held_unit (Some t) = {#t#}"
  by (simp_all add: held_unit_def)

fun task_units :: "'c task \<Rightarrow> string multiset" where
  "task_units (Queued p) = held_unit (pd_guard p)"
| "task_units (Slotted p) = held_unit (pd_guard p)"
| "task_units (Executing p) = held_unit (pd_guard p)"
| "task_units t = {#}"

fun task_permits :: "'c task \<Rightarrow> nat option multiset" where
  "task_permits (Executing p) = {#None#}"
| "task_permits t = {#}"

fun batch_units :: "('c, 's) batch_state \<Rightarrow> string multiset" where
  "batch_units (BeforeWaiting j p) = held_unit (pd_guard p)"
| "batch_units (BeforeRunning j p) = held_unit (pd_guard p)"
| "batch_units (FanOut j shared gate tasks) = sum_list (map task_units tasks)"
| "batch_units (AfterWaiting j p results n f) = held_unit (pd_guard p)"
| "batch_units (AfterRunning j p results n f) = held_unit (pd_guard p)"
| "batch_units (Answered j a) = {#}"

text \<open>A batch holds bulkhead permits only, never one of a bucket.\<close>

fun batch_permits :: "('c, 's) batch_state \<Rightarrow> nat option multiset" where
  "batch_permits (BeforeRunning j p) = {#None#}"
| "batch_permits (AfterRunning j p results n f) = {#None#}"
| "batch_permits (FanOut j shared gate tasks) = sum_list (map task_permits tasks)"
| "batch_permits b = {#}"

text \<open>The quota units and the permits of everything in flight.\<close>

definition units_held :: "'c inflight list \<Rightarrow> ('c, 's) batch_state list \<Rightarrow> string multiset" where
  "units_held fls bs = sum_list (map (\<lambda>fl. held_unit (fl_guard fl)) fls) + sum_list (map batch_units bs)"

definition permits_held :: "'c inflight list \<Rightarrow> ('c, 's) batch_state list \<Rightarrow> nat option multiset" where
  "permits_held fls bs = mset (map fl_permit fls) + sum_list (map batch_permits bs)"

lemma remove1_units:
  "fl \<in> set fls \<Longrightarrow> sum_list (map f fls) = f fl + (sum_list (map f (remove1 fl fls)) :: 'b :: comm_monoid_add)"
  by (induction fls) (auto simp: ac_simps)

lemma remove1_permits:
  "fl \<in> set fls \<Longrightarrow> mset (map g fls) = add_mset (g fl) (mset (map g (remove1 fl fls)))"
  by (induction fls) auto

lemma done_holds_nothing:
  assumes "list_all task_done tasks"
  shows "sum_list (map task_units tasks) = {#}" "sum_list (map task_permits tasks) = {#}"
proof -
  have "task_units t = {#} \<and> task_permits t = {#}" if "task_done t" for t :: "'a task"
    using that by (cases t) simp_all
  then show "sum_list (map task_units tasks) = {#}" "sum_list (map task_permits tasks) = {#}"
    using assms by (induction tasks) simp_all
qed

subsection \<open>The shared cells track what is held\<close>

definition quota_tracks :: "plan_limits option \<Rightarrow> tenant_quota option \<Rightarrow> string multiset \<Rightarrow> bool" where
  "quota_tracks plans quota units \<longleftrightarrow>
     (case plans of
        None \<Rightarrow> quota = None \<and> units = {#}
      | Some pl \<Rightarrow> (\<exists>q. quota = Some q \<and> quota_reachable pl (q, units)))"

definition gates_track ::
  "'s semaphore_ops \<Rightarrow> (string \<Rightarrow> u64) \<Rightarrow> nat \<Rightarrow> nat \<Rightarrow> nat \<Rightarrow> 's gate_state \<Rightarrow> nat option multiset \<Rightarrow> bool" where
  "gates_track ops hash capacity buckets per st permits \<longleftrightarrow>
     (\<exists>G. mset G = permits \<and> gate_reachable ops hash capacity buckets per st G)"

lemma quota_tracks_took:
  assumes "quota_tracks plans (wd_quota w) M"
    and "g = None \<and> wd_quota w' = wd_quota w \<or>
      (\<exists>q q' t p. wd_quota w = Some q \<and> quota_admit q t p = Inr q' \<and> wd_quota w' = Some q' \<and> g = Some t)"
  shows "quota_tracks plans (wd_quota w') (M + held_unit g)"
proof (cases g)
  case None
  then show ?thesis using assms by auto
next
  case (Some t)
  then obtain q q' p where q: "wd_quota w = Some q" "quota_admit q t p = Inr q'" "wd_quota w' = Some q'"
    using assms(2) by auto
  then obtain pl where pl: "plans = Some pl" "quota_reachable pl (q, M)"
    using assms(1) by (auto simp: quota_tracks_def split: option.splits)
  show ?thesis using q_step [OF pl(2) q_admit [OF q(2)]] by (simp add: quota_tracks_def q pl(1) Some)
qed

lemma quota_tracks_drop:
  assumes "quota_tracks plans quota (M + held_unit g)"
  shows "quota_tracks plans (case g of None \<Rightarrow> quota | Some t \<Rightarrow> map_option (\<lambda>q. guard_drop q t) quota) M"
proof (cases g)
  case None
  then show ?thesis using assms by simp
next
  case (Some t)
  then obtain pl q where pl: "plans = Some pl" "quota = Some q" "quota_reachable pl (q, add_mset t M)"
    using assms by (auto simp: quota_tracks_def split: option.splits)
  from q_step [OF pl(3) q_drop [of t]] show ?thesis by (simp add: quota_tracks_def pl Some)
qed

lemma quota_tracks_kept:
  assumes "quota_tracks plans (wd_quota w) M"
    and "wd_quota w' = wd_quota w \<or>
      (\<exists>q q' t p. wd_quota w = Some q \<and> quota_admit q t p = Inr q' \<and> wd_quota w' = Some (guard_drop q' t))"
  shows "quota_tracks plans (wd_quota w') M"
proof (cases "wd_quota w' = wd_quota w")
  case True
  then show ?thesis using assms(1) by simp
next
  case False
  then obtain q q' t p where q: "wd_quota w = Some q" "quota_admit q t p = Inr q'" "wd_quota w' = Some (guard_drop q' t)"
    using assms(2) by auto
  have "quota_tracks plans (wd_quota (w\<lparr>wd_quota := Some q'\<rparr>)) (M + held_unit (Some t))"
    using q by (intro quota_tracks_took [OF assms(1)]) auto
  from quota_tracks_drop [OF this] show ?thesis using q(3) by simp
qed

lemma gates_trackI:
  "gate_reachable ops hash capacity buckets per st G \<Longrightarrow> mset G = N \<Longrightarrow> gates_track ops hash capacity buckets per st N"
  by (auto simp: gates_track_def)

lemma gates_track_acquire:
  assumes "gates_track ops hash capacity buckets per st N" and "acquire_permits ops hash st pkey = (a, st')"
  shows "gates_track ops hash capacity buckets per st' (case a of Granted permit \<Rightarrow> add_mset permit N | _ \<Rightarrow> N)"
proof -
  obtain G where G: "mset G = N" "gate_reachable ops hash capacity buckets per st G"
    using assms(1) by (auto simp: gates_track_def)
  show ?thesis by (rule gates_trackI [OF g_request [OF G(2) assms(2)]]) (simp add: G(1) split: admission.splits)
qed

lemma gates_track_release:
  assumes "gates_track ops hash capacity buckets per st (add_mset permit N)"
  shows "gates_track ops hash capacity buckets per (release_permits ops st permit) N"
proof -
  obtain G where G: "mset G = add_mset permit N" "gate_reachable ops hash capacity buckets per st G"
    using assms by (auto simp: gates_track_def)
  then have "permit \<in># mset G" by simp
  then have "gate_reachable ops hash capacity buckets per (release_permits ops st permit) (remove1 permit G)"
    by (intro g_finish [OF G(2)]) simp
  then show ?thesis by (rule gates_trackI) (simp add: G(1))
qed

text \<open>A queued acquisition of the bulkhead is an admission without a partition.\<close>

lemma acquire_global_permit:
  "acquire_global ops st = Some st' \<Longrightarrow> acquire_permits ops hash st None = (Granted None, st')"
  by (auto simp: acquire_global_def acquire_permits_def take_partition_def split: option.splits)

lemma release_global_permit: "release_global ops st = release_permits ops st None"
  by (simp add: release_global_def release_permits_def release_partition_def)

definition tracks ::
  "'s semaphore_ops \<Rightarrow> (string \<Rightarrow> u64) \<Rightarrow> nat \<Rightarrow> nat \<Rightarrow> nat \<Rightarrow> plan_limits option \<Rightarrow> ('k, 's) world \<Rightarrow>
   string multiset \<Rightarrow> nat option multiset \<Rightarrow> bool" where
  "tracks ops hash capacity buckets per plans w M N \<longleftrightarrow>
     gates_track ops hash capacity buckets per (wd_gates w) N \<and> quota_tracks plans (wd_quota w) M"

lemma tracks_took:
  "tracks ops hash capacity buckets per plans w M N \<Longrightarrow> took_guard g w w' \<Longrightarrow>
   tracks ops hash capacity buckets per plans w' (M + held_unit g) N"
  by (auto simp: tracks_def took_guard_def intro!: quota_tracks_took [of plans w M g w'])

lemma tracks_denied:
  "tracks ops hash capacity buckets per plans w M N \<Longrightarrow> denied_once cfg w w' \<Longrightarrow>
   tracks ops hash capacity buckets per plans w' M N"
  by (auto simp: tracks_def denied_once_def intro!: quota_tracks_kept [of plans w M w'])

lemma tracks_global:
  "tracks ops hash capacity buckets per plans w M N \<Longrightarrow> acquire_global ops (wd_gates w) = Some gt \<Longrightarrow>
   tracks ops hash capacity buckets per plans (w\<lparr>wd_gates := gt\<rparr>) M (N + {#None#})"
  using gates_track_acquire [OF _ acquire_global_permit, of ops hash capacity buckets per "wd_gates w" N gt]
  by (simp add: tracks_def)

lemma tracks_release:
  assumes "tracks ops hash capacity buckets per plans w (M + held_unit g) (add_mset permit N)"
    and "wd_gates w' = release_permits ops (wd_gates w) permit"
    and "wd_quota w' = (case g of None \<Rightarrow> wd_quota w | Some t \<Rightarrow> map_option (\<lambda>q. guard_drop q t) (wd_quota w))"
  shows "tracks ops hash capacity buckets per plans w' M N"
  using assms gates_track_release quota_tracks_drop by (auto simp: tracks_def)

lemma tracks_finished:
  "tracks ops hash capacity buckets per plans w (M + held_unit (pd_guard p)) (N + {#None#}) \<Longrightarrow>
   finished cfg ops bx p t w w' \<Longrightarrow> tracks ops hash capacity buckets per plans w' M N"
  by (rule tracks_release [where w = w and g = "pd_guard p" and permit = None])
     (simp_all add: finished_def release_global_permit)

lemma tracks_drop:
  "tracks ops hash capacity buckets per plans w (M + held_unit g) N \<Longrightarrow>
   tracks ops hash capacity buckets per plans (drop_guard g w) M N"
  using quota_tracks_drop [of plans "wd_quota w" M g] by (simp add: tracks_def runlet_defs)

lemma tracks_same:
  "wd_gates w' = wd_gates w \<Longrightarrow> wd_quota w' = wd_quota w \<Longrightarrow>
   tracks ops hash capacity buckets per plans w' M N = tracks ops hash capacity buckets per plans w M N"
  by (simp add: tracks_def)

lemma tracks_settled:
  assumes "settled env w w'" and "en_ops env = ops" and "en_hash env = hash"
    and "tracks ops hash capacity buckets per plans w M N"
  shows "tracks ops hash capacity buckets per plans w' M N"
proof -
  have "gates_track ops hash capacity buckets per (wd_gates w') N"
  proof (cases "wd_gates w' = wd_gates w")
    case False
    then obtain pkey a where a: "acquire_permits ops hash (wd_gates w) pkey = (a, wd_gates w')" "\<forall>permit. a \<noteq> Granted permit"
      using assms(1-3) by (auto simp: settled_def)
    have "gates_track ops hash capacity buckets per (wd_gates w) N" using assms(4) by (simp add: tracks_def)
    from gates_track_acquire [OF this a(1)] show ?thesis using a(2) by (cases a) simp_all
  qed (use assms(4) in \<open>simp add: tracks_def\<close>)
  moreover have "quota_tracks plans (wd_quota w') M"
    using assms(1,4) by (intro quota_tracks_kept [of plans w M w']) (auto simp: settled_def tracks_def)
  ultimately show ?thesis by (simp add: tracks_def)
qed

lemma tracks_started:
  assumes "started env fl w w'" and "en_ops env = ops" and "en_hash env = hash"
    and "tracks ops hash capacity buckets per plans w M N"
  shows "tracks ops hash capacity buckets per plans w' (M + held_unit (fl_guard fl)) (add_mset (fl_permit fl) N)"
proof -
  obtain pkey where "acquire_permits ops hash (wd_gates w) pkey = (Granted (fl_permit fl), wd_gates w')"
    using assms(1-3) by (auto simp: started_def)
  then have "gates_track ops hash capacity buckets per (wd_gates w') (add_mset (fl_permit fl) N)"
    using gates_track_acquire [of ops hash capacity buckets per "wd_gates w" N pkey] assms(4) by (fastforce simp: tracks_def)
  moreover have "quota_tracks plans (wd_quota w') (M + held_unit (fl_guard fl))"
    using assms(1,4) by (intro quota_tracks_took [of plans w]) (auto simp: started_def tracks_def)
  ultimately show ?thesis by (simp add: tracks_def)
qed

subsection \<open>Batches\<close>

lemma enter_fan_out_holds:
  assumes "enter_fan_out cfg ops sd j data w = (b, w')"
  shows "batch_units b = {#} \<and> batch_permits b = {#} \<and> wd_gates w' = wd_gates w \<and> wd_quota w' = wd_quota w"
proof -
  have "sum_list (map task_units (map Waiting items)) = {#}" "sum_list (map task_permits (map Waiting items)) = {#}" for items
    by (induction items) simp_all
  then show ?thesis
    using assms by (auto simp: enter_fan_out_def Let_def runlet_defs split: option.splits if_splits)
qed

lemma tracks_phase:
  assumes "begin_phase cfg env bx item cj w = (x, w1)" and "tracks ops hash capacity buckets per plans w M N"
  shows "tracks ops hash capacity buckets per plans w1 (M + (case x of Inl e \<Rightarrow> {#} | Inr p \<Rightarrow> held_unit (pd_guard p))) N"
proof (cases x)
  case (Inl e)
  then show ?thesis using assms begin_phase_Inl tracks_denied by fastforce
next
  case (Inr p)
  then show ?thesis using assms begin_phase_Inr tracks_took by fastforce
qed

lemma tracks_start_batch:
  assumes "start_batch cfg env sd j before w = (b, w')" and "tracks ops hash capacity buckets per plans w M N"
  shows "tracks ops hash capacity buckets per plans w' (M + batch_units b) (N + batch_permits b)"
proof (cases before)
  case None
  then have e: "enter_fan_out cfg (en_ops env) sd j None w = (b, w')" using assms(1) by (simp add: start_batch_def)
  then show ?thesis using enter_fan_out_holds [OF e] assms(2) tracks_same [of w' w] by simp
next
  case (Some item)
  obtain x w1 where x: "begin_phase cfg env (bj_env j) item (bi_context item) w = (x, w1)" by fastforce
  note t = tracks_phase [OF x assms(2)]
  show ?thesis
  proof (cases x)
    case (Inl e)
    then have "b = Answered j (Refused (barrier cfg (bj_env j) e))" "w' = on_metrics record_rejection w1"
      using assms(1) Some x by (simp_all add: start_batch_def)
    then show ?thesis using t Inl tracks_same [of w' w1] by (simp add: runlet_defs)
  next
    case (Inr p)
    then show ?thesis using assms(1) Some x t by (auto simp: start_batch_def)
  qed
qed

lemma tracks_join:
  assumes "join_fan_out cfg env sd j shared tasks d w = (b, w')" and "tracks ops hash capacity buckets per plans w M N"
  shows "tracks ops hash capacity buckets per plans w' (M + batch_units b) (N + batch_permits b)"
proof -
  obtain results n f where r: "render_slots sd (map slot_of tasks) (bx_trace_id (bj_env j))
      (bt_max_response_bytes (ac_batch cfg)) = (results, n, f)"
    by (cases "render_slots sd (map slot_of tasks) (bx_trace_id (bj_env j)) (bt_max_response_bytes (ac_batch cfg))")
  show ?thesis
    using assms r tracks_phase [OF _ assms(2)]
    by (auto simp: join_fan_out_def Let_def batch_answer_ok_def split: option.splits prod.splits sum.splits) fastforce+
qed

lemma tracks_after_before:
  assumes "after_before cfg ops sd j outcome w = (b, w')" and "tracks ops hash capacity buckets per plans w M N"
  shows "tracks ops hash capacity buckets per plans w' (M + batch_units b) (N + batch_permits b)"
proof (cases outcome)
  case (Inl e)
  then show ?thesis using assms tracks_same [of w' w] by (auto simp: after_before_def runlet_defs)
next
  case (Inr data)
  then have e: "enter_fan_out cfg ops sd j (Some data) w = (b, w')" using assms(1) by (simp add: after_before_def)
  then show ?thesis using enter_fan_out_holds [OF e] assms(2) tracks_same [of w' w] by simp
qed

text \<open>One task moves: what it held before and what it holds after.\<close>

lemma task_moves:
  assumes "i < length tasks"
  shows "batch_units (FanOut j shared gate' (tasks[i := t])) + task_units (tasks ! i) =
      batch_units (FanOut j shared gate tasks) + task_units t"
    and "batch_permits (FanOut j shared gate' (tasks[i := t])) + task_permits (tasks ! i) =
      batch_permits (FanOut j shared gate tasks) + task_permits t"
  using sum_list_map_update [OF assms, of task_units t] sum_list_map_update [OF assms, of task_permits t]
  by simp_all

lemma tracks_abandon:
  assumes "abandon ops t gate w = (gate', w')"
    and "tracks ops hash capacity buckets per plans w (M + task_units t) (N + task_permits t)"
  shows "tracks ops hash capacity buckets per plans w' M N"
proof (cases t)
  case (Executing p)
  let ?w = "w\<lparr>wd_gates := release_global ops (wd_gates w)\<rparr>"
  have "tracks ops hash capacity buckets per plans ?w (M + held_unit (pd_guard p)) N"
    using assms(2) Executing tracks_release [of ops hash capacity buckets per plans w "M + held_unit (pd_guard p)" None None N ?w]
    by (simp add: release_global_permit)
  then show ?thesis using assms(1) Executing tracks_drop by auto
qed (use assms tracks_drop in auto)

lemma tracks_batch_step:
  assumes "batch_step cfg ops hash sd w b w' b'"
    and t: "tracks ops hash capacity buckets per plans w (M + batch_units b) (N + batch_permits b)"
  shows "tracks ops hash capacity buckets per plans w' (M + batch_units b') (N + batch_permits b')"
  using assms(1)
proof (cases rule: batch_step.cases)
  case (before_start gt j p)
  then show ?thesis using t tracks_global [of ops hash capacity buckets per plans w _ N gt] by simp
next
  case (before_finish env j p result t outcome w1)
  have f: "finished cfg ops (bj_env j) p t w w1" using finish_phase_finished [OF before_finish(3)] before_finish(2) by simp
  have "tracks ops hash capacity buckets per plans w1 M N"
    by (rule tracks_finished [OF _ f]) (use assms(2) before_finish(1) in simp)
  from tracks_after_before [OF before_finish(4) this] show ?thesis .
next
  case (item_refused env i tasks item j shared r gate)
  have "denied_once cfg w w'" using begin_item_Inl item_refused by blast
  from tracks_denied [OF t this] show ?thesis
    using item_refused task_moves [of i tasks j shared gate "Rendered r" gate] by simp
next
  case (item_queued env i tasks item j shared p gate)
  have "took_guard (pd_guard p) w w'" using begin_item_Inr item_queued by blast
  from tracks_took [OF t this] show ?thesis
    using item_queued task_moves [of i tasks j shared gate "Queued p" gate] by (simp add: add.assoc)
next
  case (item_slot i tasks p gate gate' j shared)
  then show ?thesis using t task_moves [of i tasks j shared gate' "Slotted p" gate] by simp
next
  case (item_start i tasks p gt j shared gate)
  have "tracks ops hash capacity buckets per plans w' (M + batch_units b) (N + batch_permits b + {#None#})"
    using tracks_global [OF t] item_start by simp
  then show ?thesis
    using item_start task_moves [of i tasks j shared gate "Executing p" gate] by (simp add: add.assoc)
next
  case (item_finish env i tasks p j result t' r shared gate)
  have f: "finished cfg ops (bj_env j) p t' w w'" using finish_item_finished [OF item_finish(6)] item_finish(3) by simp
  have m: "batch_units b = batch_units b' + held_unit (pd_guard p)" "batch_permits b = batch_permits b' + {#None#}"
    using item_finish task_moves [of i tasks j shared "sem_release ops gate" "Rendered r" gate] by simp_all
  show ?thesis using t tracks_finished [OF _ f] by (simp add: m add.assoc [symmetric])
next
  case (item_lost i tasks gate gate' j shared)
  have m: "batch_units b = batch_units b' + task_units (tasks ! i)" "batch_permits b = batch_permits b' + task_permits (tasks ! i)"
    using item_lost task_moves [of i tasks j shared gate' Lost gate] by simp_all
  show ?thesis using t tracks_abandon [OF item_lost(5)] by (simp add: m add.assoc [symmetric])
next
  case (join env tasks j shared t' gate)
  have "tracks ops hash capacity buckets per plans w M N" using t join done_holds_nothing [of tasks] by simp
  from tracks_join [OF join(5) this] show ?thesis .
next
  case (after_start gt j p results n f)
  then show ?thesis using t tracks_global [of ops hash capacity buckets per plans w _ N gt] by simp
next
  case (after_finish env j p result t' outcome d results n f)
  have f: "finished cfg ops (bj_env j) p t' w w'" using finish_phase_finished [OF after_finish(4)] after_finish(3) by simp
  have "tracks ops hash capacity buckets per plans w' M N"
    by (rule tracks_finished [OF _ f]) (use t after_finish(1) in simp)
  then show ?thesis using after_finish by simp
qed

lemma batch_refused_tracks:
  assumes "run_batch_begin cfg env sd headers payload w = (Inl r, w')"
    and "tracks ops hash capacity buckets per plans w M N"
  shows "tracks ops hash capacity buckets per plans w' M N"
proof -
  have same: "wd_gates w' = wd_gates w \<and> wd_quota w' = wd_quota w"
  proof -
    obtain x w1 where a: "enforce_auth cfg (en_fresh_id env) headers w = (x, w1)" by fastforce
    show ?thesis
    proof (cases x)
      case (Some rej)
      then show ?thesis using assms(1) a by (auto simp: run_batch_begin_def enforce_auth_cases runlet_defs split: if_splits)
    next
      case None
      then have w1: "w1 = w" using a by (auto simp: enforce_auth_cases split: if_splits)
      obtain y w2 where i: "resolve_identity cfg env headers w = (y, w2)" by fastforce
      show ?thesis
      proof (cases y)
        case (Inl rej)
        then show ?thesis
          using assms(1) a None w1 i resolve_identity_denied [of cfg env headers w rej w2]
          by (auto simp: run_batch_begin_def identity_denied_def runlet_defs)
      next
        case (Inr identity)
        then have "\<exists>k. w2 = w\<lparr>wd_keys := k\<rparr>" using resolve_identity_ok i by blast
        then show ?thesis
          using assms(1) a None w1 i Inr
          by (cases payload)
             (auto simp: run_batch_begin_def validate_batch_def Let_def runlet_defs split: prod.splits sum.splits if_splits)
      qed
    qed
  qed
  then show ?thesis using assms(2) tracks_same by blast
qed

subsection \<open>Every reachable state\<close>

lemma begin_settled:
  "run_execute_begin cfg env headers payload w = (Done r, w') \<Longrightarrow> settled env w w'"
  using begin_Done [of cfg env headers payload w r w']
  by (auto simp: turned_away_def runlet_defs intro: settled_refl)

lemma batch_among:
  assumes "i < length bs"
  shows "units_held fls (bs[i := b]) + batch_units (bs ! i) = units_held fls bs + batch_units b"
    and "permits_held fls (bs[i := b]) + batch_permits (bs ! i) = permits_held fls bs + batch_permits b"
  using sum_list_map_update [OF assms, of batch_units b] sum_list_map_update [OF assms, of batch_permits b]
  by (simp_all add: units_held_def permits_held_def add.assoc)

lemma server_tracks:
  assumes "server_reachable cfg ops hash sd capacity buckets per plans w fls bs"
  shows "tracks ops hash capacity buckets per plans w (units_held fls bs) (permits_held fls bs)"
  using assms
proof (induction rule: server_reachable.induct)
  case (sv_start w)
  have "gates_track ops hash capacity buckets per (gate_new ops capacity buckets per) {#}"
    by (rule gates_trackI [OF g_start]) simp
  then show ?case
    using sv_start q_start
    by (auto simp: tracks_def quota_tracks_def units_held_def permits_held_def split: option.splits)
next
  case (sv_refused w fls bs env headers payload r w')
  then show ?case using tracks_settled [OF begin_settled] by blast
next
  case (sv_started w fls bs env headers payload fl w')
  have "started env fl w w'" using begin_started [OF sv_started.hyps(4)] by simp
  from tracks_started [OF this sv_started.hyps(2,3) sv_started.IH] show ?case
    by (simp add: units_held_def permits_held_def ac_simps)
next
  case (sv_finished w fls bs env fl result t r w')
  note e = finish_effects [OF sv_finished.hyps(5), unfolded sv_finished.hyps(2)]
  have "units_held fls bs = units_held (remove1 fl fls) bs + held_unit (fl_guard fl)"
    using sv_finished.hyps(4) by (simp add: units_held_def remove1_units ac_simps)
  moreover have "permits_held fls bs = add_mset (fl_permit fl) (permits_held (remove1 fl fls) bs)"
    unfolding permits_held_def remove1_permits [OF sv_finished.hyps(4)] by simp
  ultimately show ?case using sv_finished.IH e by (auto intro: tracks_release [where w = w and permit = "fl_permit fl"])
next
  case (sv_batch_refused w fls bs env headers payload r w')
  then show ?case using batch_refused_tracks by blast
next
  case (sv_batch_started w fls bs env headers payload b w')
  from sv_batch_started.hyps(4) obtain req identity w3 j where
      s: "start_batch cfg env sd j (bq_before (req :: batch_request)) w3 = (b, w')" and "\<exists>keys. w3 = w\<lparr>wd_keys := keys\<rparr>"
    by (rule begin_batch_state) blast
  then have "tracks ops hash capacity buckets per plans w3 (units_held fls bs) (permits_held fls bs)"
    using sv_batch_started.IH tracks_same [of w3 w] by auto
  from tracks_start_batch [OF s this] show ?case by (simp add: units_held_def permits_held_def ac_simps)
next
  case (sv_batch_step w fls bs i w' b)
  obtain M N where m: "units_held fls bs = M + batch_units (bs ! i)" "permits_held fls bs = N + batch_permits (bs ! i)"
    and m': "units_held fls (bs[i := b]) = M + batch_units b" "permits_held fls (bs[i := b]) = N + batch_permits b"
  proof -
    have "sum_list (map batch_units bs) = sum_list (map batch_units (bs[i := Answered undefined undefined])) + batch_units (bs ! i)"
        "sum_list (map batch_permits bs) = sum_list (map batch_permits (bs[i := Answered undefined undefined])) + batch_permits (bs ! i)"
      using sum_list_map_update [OF sv_batch_step.hyps(2), of batch_units "Answered undefined undefined"]
        sum_list_map_update [OF sv_batch_step.hyps(2), of batch_permits "Answered undefined undefined"] by simp_all
    then show ?thesis
      using that [of "units_held fls (bs[i := Answered undefined undefined])" "permits_held fls (bs[i := Answered undefined undefined])"]
        batch_among [OF sv_batch_step.hyps(2), of fls b]
      by (simp add: units_held_def permits_held_def add.assoc [symmetric])
  qed
  show ?case unfolding m' by (rule tracks_batch_step [OF sv_batch_step.hyps(3)]) (use sv_batch_step.IH in \<open>simp add: m\<close>)
qed

lemma in_bucket_count: "in_bucket G i = count (mset G) (Some i)"
  by (induction G) (simp_all add: in_bucket_def)

lemma batch_permits_bulkhead: "count (batch_permits b) (Some i) = 0"
proof (cases b)
  case (FanOut j shared gate tasks)
  have "count (sum_list (map task_permits tasks)) (Some i) = 0"
  proof (induction tasks)
    case (Cons t tasks)
    then show ?case by (cases t) simp_all
  qed simp
  then show ?thesis using FanOut by simp
qed simp_all

lemma bucket_permits: "count (permits_held fls bs) (Some i) = in_bucket (map fl_permit fls) i"
proof -
  have "count (sum_list (map batch_permits bs)) (Some i) = 0"
    by (induction bs) (simp_all add: batch_permits_bulkhead)
  then show ?thesis by (simp add: permits_held_def in_bucket_count)
qed

text \<open>The executions of batches under way.\<close>

definition batch_executions :: "('c, 's) batch_state list \<Rightarrow> nat" where
  "batch_executions bs = size (sum_list (map batch_permits bs))"

subsection \<open>Properties\<close>

lemma server_accounted:
  assumes "semaphore ops" and "per \<le> max_permits" and "capacity \<le> max_permits"
    and "server_reachable cfg ops hash sd capacity buckets per plans w fls bs"
  shows "sem_available ops (gt_global (wd_gates w)) + length fls + batch_executions bs = capacity \<and>
    (i < live_buckets buckets per \<longrightarrow>
       sem_available ops (buckets_of (wd_gates w) ! i) + in_bucket (map fl_permit fls) i = per) \<and>
    (wd_quota w = None \<longleftrightarrow> plans = None) \<and>
    (\<forall>q tn. wd_quota w = Some q \<longrightarrow> tq_inflight q tn = inflight_of (count (units_held fls bs) tn))"
proof -
  note t = server_tracks [OF assms(4), unfolded tracks_def]
  obtain G where G: "mset G = permits_held fls bs" "gate_reachable ops hash capacity buckets per (wd_gates w) G"
    using t by (auto simp: gates_track_def)
  note c = gates.reachable_conserved [OF gatesI [OF assms(1-3)] G(2) refl]
  have "length G = length fls + batch_executions bs"
    using arg_cong [OF G(1), of size] by (simp add: permits_held_def batch_executions_def)
  moreover have "in_bucket G i = in_bucket (map fl_permit fls) i"
    using bucket_permits [of fls bs i] by (simp add: in_bucket_count [of G] G(1))
  moreover have "tq_inflight q tn = inflight_of (count (units_held fls bs) tn)" if "wd_quota w = Some q" for q tn
    using t that quota_reachable_inv by (fastforce simp: quota_tracks_def quota_inv_def split: option.splits)
  moreover have "wd_quota w = None \<longleftrightarrow> plans = None" using t by (auto simp: quota_tracks_def split: option.splits)
  ultimately show ?thesis using c(1) c(3) [of i] by (simp add: add.assoc)
qed

text \<open>C1: the server never leaks or over-commits. In every state the server can reach, through any interleaving of
  single requests and batches, refusals at any gate, panics, timeouts and completions, the free permits of the
  bulkhead plus the executions in flight (of requests and of batches) are its capacity, the free permits of each
  bucket plus the requests holding it are the partition share, and a tenant's counter is exactly the number of
  its requests and batch invocations that hold a unit. When the last one finishes everything is back where it
  started.\<close>

theorem server_conserves:
  assumes "semaphore ops" and "per \<le> max_permits" and "capacity \<le> max_permits"
    and "server_reachable cfg ops hash sd capacity buckets per plans w fls bs"
  shows "sem_available ops (gt_global (wd_gates w)) + length fls + batch_executions bs = capacity \<and>
    (i < live_buckets buckets per \<longrightarrow>
       sem_available ops (buckets_of (wd_gates w) ! i) + in_bucket (map fl_permit fls) i = per) \<and>
    (wd_quota w = None \<longleftrightarrow> plans = None) \<and>
    (\<forall>q tn. wd_quota w = Some q \<longrightarrow> tq_inflight q tn = inflight_of (count (units_held fls bs) tn))"
  by (rule server_accounted [OF assms])

theorem server_conserves_witness:
  "\<exists>fl w. server_reachable sample_app counting (\<lambda>k. of_nat (length k)) sample_serde 1 4 1
       (Some [(''pro'', \<lparr>pl_max_concurrent = 2\<rparr>)]) (w :: (unit, nat) world) [fl :: unit inflight] [] \<and>
     sem_available counting (gt_global (wd_gates w)) = 0"
proof -
  let ?R = "server_reachable sample_app counting (\<lambda>k. of_nat (length k)) sample_serde 1 4 1 (Some [(''pro'', \<lparr>pl_max_concurrent = 2\<rparr>)])"
  obtain fl w where b: "run_execute_begin sample_app sample_env sample_headers (Inr sample_request) sample_world = (Running fl, w)"
    using sample_runs by blast
  have "?R sample_world [] []" by (rule sv_start) (simp_all add: sample_world_def)
  then have r: "?R w [fl] []" by (rule sv_started [OF _ _ _ b]) (simp_all add: sample_env_def)
  have "sem_available counting (gt_global (wd_gates w)) + length [fl] = 1"
    using server_conserves [OF counting.semaphore_axioms _ _ r] by (simp add: max_permits_def batch_executions_def)
  then show ?thesis using r by auto
qed

subsection \<open>Fairness and batches\<close>

text \<open>A deployment without trusted identities, a share of one per partition and two permits.\<close>

definition open_app :: app_config where
  "open_app = sample_app\<lparr>ac_trusted := None, ac_bulkhead_capacity := 2,
     ac_engine := (ac_engine sample_app)\<lparr>ec_max_concurrent_per_partition := 1\<rparr>\<rparr>"

definition open_item :: batch_item where
  "open_item = sample_item\<lparr>bi_key := Some ''hello''\<rparr>"

definition open_job :: batch_job where
  "open_job = \<lparr>bj_env = \<lparr>bx_identity = None, bx_partition = Some ''globex'', bx_trace_id = ''trace-1''\<rparr>,
     bj_items = [open_item], bj_seed = None, bj_after = None\<rparr>"

lemma open_batch_begins:
  "run_batch_begin open_app sample_env sample_serde sample_headers
     (Inr \<lparr>bq_items = [open_item], bq_before = None, bq_shared = None, bq_after = None\<rparr>) w =
   (Inr (FanOut open_job None (1 :: nat) [Waiting open_item]), w)"
proof -
  have c: "ec_max_concurrent_per_partition (ac_engine open_app) = 1" "ac_bulkhead_capacity open_app = 2"
      "bt_max_items (ac_batch open_app) = 25" "bt_max_input_bytes (ac_batch open_app) = 4194304"
      "ac_trusted open_app = None" "ac_access_token open_app = Some ''t0ken''"
    by (simp_all add: open_app_def sample_app_def batch_config_default_def)
  have e: "en_ops sample_env = counting" "en_trace_id sample_env = ''trace-1''" by (simp_all add: sample_env_def)
  have v: "validate_batch open_app [open_item] i t v = (Inr (), v)" for i t v
    by (simp add: validate_batch_def Let_def c open_item_def sample_item_def batch_item_input_bytes_def usat_add_def)
  have h: "header_partition sample_headers = Some ''globex''" by code_simp
  show ?thesis
    using sample_authorized
    by (simp add: run_batch_begin_def enforce_auth_def resolve_identity_def v start_batch_def enter_fan_out_def
        build_shared_context_def e c batch_ceiling_def counting_def open_job_def resolve_partition_def h)
qed

lemma open_item_queues:
  "\<exists>p. pd_guard p = None \<and> xj_cache_ns (pd_job p) = Some ''globex'' \<and>
     (\<forall>w. begin_item open_app sample_env sample_serde (bj_env open_job) None open_item w = (Inr p, w))"
proof -
  have q: "open_invocation open_app sample_env (bj_env open_job) (bi_config open_item) w = (Inr (None, None), w)" for w
    by (simp add: open_invocation_def batch_item_authz_def batch_item_quota_def open_app_def open_session_def
        broker_names_def open_item_def sample_item_def)
  have "begin_item open_app sample_env sample_serde (bj_env open_job) None open_item w =
      (Inr (pending_of open_app (bj_env open_job) open_item (Registered ''({result: 1})'') ''{}''
         (base_error_meta ''trace-1'' (length ''({result: 1})'') (length ''{}'') (Some ''hello'') (Some ''globex'')) (None, None)), w)" for w
    unfolding begin_item_def Let_def q
    by (simp add: open_item_def sample_item_def resolve_script_def open_app_def sample_app_def validate_input_sizes_def
        engine_config_default_def open_job_def)
  then show ?thesis
    by (intro exI [of _ "pending_of open_app (bj_env open_job) open_item (Registered ''({result: 1})'') ''{}''
         (base_error_meta ''trace-1'' (length ''({result: 1})'') (length ''{}'') (Some ''hello'') (Some ''globex'')) (None, None)"])
       (simp add: pending_of_def make_job_def open_job_def)
qed

text \<open>One more batch of this kind, taken to its execution.\<close>

lemma open_batch_executes:
  fixes w :: "(unit, nat) world"
  assumes "server_reachable open_app counting (\<lambda>k. of_nat (length k)) sample_serde 2 4 1 None w fls bs"
    and "gt_global (wd_gates w) = Suc n"
  shows "\<exists>p (w' :: (unit, nat) world). xj_cache_ns (pd_job p) = Some ''globex'' \<and> gt_global (wd_gates w') = n \<and>
    server_reachable open_app counting (\<lambda>k. of_nat (length k)) sample_serde 2 4 1 None w' fls
      (FanOut open_job None (0 :: nat) [Executing (p :: unit pending)] # bs)"
proof -
  let ?R = "server_reachable open_app counting (\<lambda>k. of_nat (length k)) sample_serde 2 4 1 None"
  let ?S = "batch_step open_app counting (\<lambda>k. of_nat (length k)) sample_serde"
  have e: "en_ops sample_env = counting" "en_hash sample_env = (\<lambda>k. of_nat (length k))" by (simp_all add: sample_env_def)
  obtain p where p: "xj_cache_ns (pd_job p) = Some ''globex''"
      "\<And>v :: (unit, nat) world. begin_item open_app sample_env sample_serde (bj_env open_job) None open_item v = (Inr p, v)"
    using open_item_queues by blast
  define gt where "gt = (wd_gates w)\<lparr>gt_global := n\<rparr>"
  have g: "acquire_global counting (wd_gates w) = Some gt"
    using assms(2) by (simp add: acquire_global_def counting_def gt_def)
  have "?R w fls (FanOut open_job None (1 :: nat) [Waiting open_item] # bs)"
    by (rule sv_batch_started [OF assms(1) e open_batch_begins])
  moreover have "?S w (FanOut open_job None 1 [Waiting open_item]) w (FanOut open_job None (1 :: nat) [Queued p])"
    using item_queued [OF e, of 0 "[Waiting open_item]" open_item open_app sample_serde open_job None w p w 1] p(2) by simp
  ultimately have "?R w fls (FanOut open_job None (1 :: nat) [Queued p] # bs)"
    using sv_batch_step [where i = 0] by fastforce
  moreover have "?S w (FanOut open_job None 1 [Queued p]) w (FanOut open_job None (0 :: nat) [Slotted p])"
    using item_slot [of 0 "[Queued p]" p counting 1 0 open_app "\<lambda>k. of_nat (length k)" sample_serde w open_job None]
    by (simp add: counting_def)
  ultimately have "?R w fls (FanOut open_job None (0 :: nat) [Slotted p] # bs)"
    using sv_batch_step [where i = 0] by fastforce
  moreover have "?S w (FanOut open_job None 0 [Slotted p]) (w\<lparr>wd_gates := gt\<rparr>) (FanOut open_job None (0 :: nat) [Executing p])"
    using item_start [of 0 "[Slotted p]" p counting w gt open_app "\<lambda>k. of_nat (length k)" sample_serde open_job None 0] g by simp
  ultimately have "?R (w\<lparr>wd_gates := gt\<rparr>) fls (FanOut open_job None (0 :: nat) [Executing p] # bs)"
    using sv_batch_step [where i = 0] by fastforce
  then show ?thesis using p(1) by (intro exI [of _ p] exI [of _ "w\<lparr>wd_gates := gt\<rparr>"]) (simp add: gt_def)
qed

text \<open>The partition share does not bound batches. With a share of one per partition key, two batches of the same
  partition are reachable with an execution each: two concurrent executions of one key.\<close>

lemma batches_exceed_partition_share:
  "\<exists>p p' w. server_reachable open_app counting (\<lambda>k. of_nat (length k)) sample_serde 2 4 1 None (w :: (unit, nat) world)
       ([] :: unit inflight list)
       [FanOut open_job None 0 [Executing p], FanOut open_job None 0 [Executing p']] \<and>
     ec_max_concurrent_per_partition (ac_engine open_app) = 1 \<and>
     xj_cache_ns (pd_job p) = Some ''globex'' \<and> xj_cache_ns (pd_job p') = Some ''globex''"
proof -
  let ?R = "server_reachable open_app counting (\<lambda>k. of_nat (length k)) sample_serde 2 4 1 None"
  let ?w = "sample_world\<lparr>wd_gates := gate_new counting 2 4 1, wd_quota := None\<rparr>"
  have "?R ?w [] ([] :: (unit, nat) batch_state list)" by (rule sv_start) simp_all
  from open_batch_executes [OF this, of 1] obtain p' and w1 :: "(unit, nat) world" where
    s1: "xj_cache_ns (pd_job p') = Some ''globex''" "gt_global (wd_gates w1) = Suc 0"
      "?R w1 [] [FanOut open_job None (0 :: nat) [Executing (p' :: unit pending)]]"
    by (auto simp: gate_new_def counting_def)
  from open_batch_executes [OF s1(3,2)] s1(1) show ?thesis
    by (auto simp: open_app_def)
qed

end
