(* ===== verification/Channels.thy ===== *)
theory Channels
  imports Response "HOL-Library.Sublist"
begin

text \<open>
  The per-invocation buffers a handler fills through host functions: \<^verbatim>\<open>emit\<close> (effects) and \<^verbatim>\<open>log.*\<close>
  (diagnostics), of \<^verbatim>\<open>runlet-core/src/engine/channels.rs\<close>, and their drains after the run.

  A buffer is a record with the poison flag of its mutex. Strings are UTF-8 bytes, so the character count
  and the character boundaries of \<^verbatim>\<open>str\<close> are written out on bytes. Whether a text is JSON
  (\<^verbatim>\<open>RawValue::from_string\<close>) is the argument \<open>raw_ok\<close>.
\<close>

subsection \<open>UTF-8 text\<close>

definition byte_of :: "char \<Rightarrow> nat" where
  "byte_of c = of_char c"

definition continuation :: "char \<Rightarrow> bool" where
  "continuation c \<longleftrightarrow> 128 \<le> byte_of c \<and> byte_of c < 192"

definition is_char_boundary :: "string \<Rightarrow> nat \<Rightarrow> bool" where
  "is_char_boundary s i \<longleftrightarrow> i = 0 \<or> i = length s \<or> (i < length s \<and> \<not> continuation (s ! i))"

definition chars_count :: "string \<Rightarrow> nat" where
  "chars_count s = length (filter (\<lambda>c. \<not> continuation c) s)"

text \<open>
  The well-formed byte sequences of one character (the invariant of \<^verbatim>\<open>str\<close>): its length, \<open>0\<close> when the text does not
  start with one.
\<close>

definition lead_width :: "nat \<Rightarrow> nat" where
  "lead_width b =
     (if b < 128 then 1 else if 194 \<le> b \<and> b \<le> 223 then 2 else if 224 \<le> b \<and> b \<le> 239 then 3
      else if 240 \<le> b \<and> b \<le> 244 then 4 else 0)"

definition second_byte_ok :: "nat \<Rightarrow> nat \<Rightarrow> bool" where
  "second_byte_ok lead b \<longleftrightarrow>
     (if lead = 224 then 160 else if lead = 240 then 144 else 128) \<le> b \<and>
     b \<le> (if lead = 237 then 159 else if lead = 244 then 143 else 191)"

definition char_ok :: "string \<Rightarrow> nat \<Rightarrow> bool" where
  "char_ok s n \<longleftrightarrow>
     n \<le> length s \<and> (1 < n \<longrightarrow> second_byte_ok (byte_of (s ! 0)) (byte_of (s ! 1))) \<and>
     (\<forall>i \<in> set [2..<n]. continuation (s ! i))"

definition char_len :: "string \<Rightarrow> nat" where
  "char_len s =
     (if s \<noteq> [] \<and> char_ok s (lead_width (byte_of (s ! 0))) then lead_width (byte_of (s ! 0)) else 0)"

lemma char_len_le: "char_len s \<le> length s"
  by (simp add: char_len_def char_ok_def)

function valid_utf8 :: "string \<Rightarrow> bool" where
  "valid_utf8 s = (if s = [] then True else if char_len s = 0 then False else valid_utf8 (drop (char_len s) s))"
  by pat_completeness auto
termination
  by (relation "measure length") simp_all

declare valid_utf8.simps [simp del]

lemma valid_utf8_Nil [simp]: "valid_utf8 []"
  by (subst valid_utf8.simps) simp

lemma valid_utf8_Cons: "valid_utf8 (c # cs) \<longleftrightarrow> 0 < char_len (c # cs) \<and> valid_utf8 (drop (char_len (c # cs)) (c # cs))"
  by (subst valid_utf8.simps) simp

lemma char_len_le_4: "char_len s \<le> 4"
  by (simp add: char_len_def lead_width_def)

lemma char_len_first: "0 < char_len s \<Longrightarrow> \<not> continuation (s ! 0)"
  by (auto simp: char_len_def lead_width_def continuation_def split: if_splits)

lemma second_byte_continues: "second_byte_ok b (byte_of c) \<Longrightarrow> continuation c"
  by (auto simp: second_byte_ok_def continuation_def split: if_splits)

lemma char_len_ok: "0 < char_len s \<Longrightarrow> char_ok s (char_len s)"
  by (auto simp: char_len_def)

lemma char_len_rest: "0 < i \<Longrightarrow> i < char_len s \<Longrightarrow> continuation (s ! i)"
proof (cases "i = 1")
  case True
  assume "0 < i" "i < char_len s"
  then have "second_byte_ok (byte_of (s ! 0)) (byte_of (s ! 1))"
    using True char_len_ok [of s] by (simp add: char_ok_def)
  then show ?thesis using True second_byte_continues by simp
next
  case False
  assume "0 < i" "i < char_len s"
  then show ?thesis using False char_len_ok [of s] by (simp add: char_ok_def)
qed

lemma char_len_take:
  assumes "0 < char_len s" and "char_len s \<le> i"
  shows "char_len (take i s) = char_len s"
proof -
  let ?n = "lead_width (byte_of (s ! 0))"
  have n: "s \<noteq> []" "char_ok s ?n" "char_len s = ?n"
    using assms(1) by (simp_all add: char_len_def split: if_splits)
  have "0 < i" using assms by simp
  then have "take i s \<noteq> []" and "take i s ! 0 = s ! 0" using n(1) by simp_all
  moreover have "char_ok (take i s) ?n"
    using n assms by (auto simp: char_ok_def)
  ultimately show ?thesis using n(3) by (simp add: char_len_def)
qed

lemma boundary_drop:
  "n \<le> i \<Longrightarrow> n \<le> length s \<Longrightarrow> is_char_boundary s i \<Longrightarrow> is_char_boundary (drop n s) (i - n)"
  by (auto simp: is_char_boundary_def)

lemma valid_utf8_take:
  "valid_utf8 s \<Longrightarrow> is_char_boundary s i \<Longrightarrow> i \<le> length s \<Longrightarrow> valid_utf8 (take i s)"
proof (induction s arbitrary: i rule: valid_utf8.induct)
  case (1 s)
  let ?n = "char_len s"
  show ?case
  proof (cases "s = [] \<or> i = 0")
    case True
    then show ?thesis by auto
  next
    case False
    with 1 have n: "0 < ?n" and v: "valid_utf8 (drop ?n s)" by (simp_all add: valid_utf8.simps [of s] split: if_splits)
    have "\<not> i < ?n"
      using 1 False char_len_rest [of i s] char_len_le [of s] by (auto simp: is_char_boundary_def)
    then have le: "?n \<le> i" by simp
    have "valid_utf8 (take (i - ?n) (drop ?n s))"
      using 1 False n v le char_len_le [of s] by (intro "1.IH") (auto intro: boundary_drop)
    then have "valid_utf8 (drop ?n (take i s))" by (simp add: drop_take)
    then show ?thesis using n le by (subst valid_utf8.simps) (simp add: char_len_take)
  qed
qed

text \<open>In well-formed text a character boundary lies within three bytes below every position.\<close>

lemma boundary_near:
  "valid_utf8 s \<Longrightarrow> m \<le> length s \<Longrightarrow> \<exists>i \<le> m. m < i + 4 \<and> is_char_boundary s i"
proof (induction s arbitrary: m rule: valid_utf8.induct)
  case (1 s)
  let ?n = "char_len s"
  show ?case
  proof (cases "s = [] \<or> m < ?n")
    case True
    then show ?thesis using 1 char_len_le_4 [of s] by (intro exI [of _ 0]) (auto simp: is_char_boundary_def)
  next
    case False
    with 1 have n: "0 < ?n" and v: "valid_utf8 (drop ?n s)" by (simp_all add: valid_utf8.simps [of s] split: if_splits)
    have "s \<noteq> []" using False by simp
    moreover have "m - ?n \<le> length (drop ?n s)" using 1 by simp
    ultimately obtain i where i: "i \<le> m - ?n" "m - ?n < i + 4" "is_char_boundary (drop ?n s) i"
      using "1.IH" n v by blast
    have "is_char_boundary s (i + ?n)"
    proof (cases i)
      case 0
      show ?thesis
      proof (cases "drop ?n s = []")
        case True
        then show ?thesis using 0 char_len_le [of s] by (simp add: is_char_boundary_def)
      next
        case ne: False
        then have "0 < char_len (drop ?n s)" using v by (simp add: valid_utf8.simps [of "drop ?n s"] split: if_splits)
        then have "\<not> continuation (s ! ?n)" using char_len_first [of "drop ?n s"] ne by (simp add: nth_drop)
        then show ?thesis using 0 ne by (simp add: is_char_boundary_def)
      qed
    next
      case (Suc k)
      then show ?thesis using i char_len_le [of s] by (auto simp: is_char_boundary_def add.commute)
    qed
    moreover have "i + ?n \<le> m" and "m < i + ?n + 4" using i False by linarith+
    ultimately show ?thesis by blast
  qed
qed

subsection \<open>Effects\<close>

record emit_buffer =
  eb_items :: "(string \<times> string) list"
  eb_poisoned :: bool

definition emit_buffer_new :: emit_buffer where
  "emit_buffer_new = \<lparr>eb_items = [], eb_poisoned = False\<rparr>"

text \<open>The closure behind \<open>__emit\<close>: its reply (empty on success) and the grown buffer.\<close>

definition emit_native :: "nat \<Rightarrow> nat \<Rightarrow> emit_buffer \<Rightarrow> string \<Rightarrow> string \<Rightarrow> string \<times> emit_buffer" where
  "emit_native max_ops max_emit_kind_len buf kind value =
     (if kind = [] then (''emit(kind, value): kind must be a non-empty string'', buf)
      else if max_emit_kind_len < chars_count kind
      then (''emit(kind, value): kind exceeds the '' @ show_nat max_emit_kind_len @ ''-character limit'', buf)
      else if eb_poisoned buf then (''emit buffer unavailable'', buf)
      else if max_ops \<le> length (eb_items buf)
      then (''too many emit() calls: limit is '' @ show_nat max_ops @ '' per execution'', buf)
      else ([], buf\<lparr>eb_items := eb_items buf @ [(kind, value)]\<rparr>))"

definition drain_effects :: "(string \<Rightarrow> bool) \<Rightarrow> emit_buffer \<Rightarrow> effect list" where
  "drain_effects raw_ok buf =
     (if eb_poisoned buf then []
      else map (\<lambda>(kind, value). \<lparr>ef_kind = kind, ef_value = value\<rparr>) (filter (\<lambda>p. raw_ok (snd p)) (eb_items buf)))"

subsection \<open>Diagnostics\<close>

record raw_log =
  rl_level :: log_level
  rl_template :: string
  rl_properties :: string
  rl_message :: string
  rl_seq :: u64
  rl_offset_us :: "nat option"

record log_accumulator =
  la_entries :: "raw_log list"
  la_total_bytes :: nat
  la_poisoned :: bool

definition log_accumulator_default :: log_accumulator where
  "log_accumulator_default = \<lparr>la_entries = [], la_total_bytes = 0, la_poisoned = False\<rparr>"

record pending_log =
  pl_level :: log_level
  pl_template :: string
  pl_properties :: string
  pl_message :: string
  pl_offset_us :: "nat option"

record log_limits =
  ll_floor :: log_level
  ll_max_entries :: nat
  ll_max_entry_bytes :: nat
  ll_max_total_bytes :: nat

definition LOG_TRUNCATED_MARKER :: string where
  "LOG_TRUNCATED_MARKER = ''{'' @ [CHR 0x22] @ ''truncated'' @ [CHR 0x22] @ '':true}''"

text \<open>The loop of \<^verbatim>\<open>truncate_on_char_boundary\<close>: the last boundary at or below \<open>end\<close>.\<close>

fun boundary_below :: "string \<Rightarrow> nat \<Rightarrow> nat" where
  "boundary_below s 0 = 0"
| "boundary_below s (Suc n) = (if is_char_boundary s (Suc n) then Suc n else boundary_below s n)"

definition truncate_on_char_boundary :: "string \<Rightarrow> nat \<Rightarrow> string" where
  "truncate_on_char_boundary text max_bytes =
     (if length text \<le> max_bytes then text else take (boundary_below text max_bytes) text)"

definition capture_log :: "log_accumulator \<Rightarrow> log_limits \<Rightarrow> pending_log \<Rightarrow> log_accumulator" where
  "capture_log acc limits pending =
     (if ll_max_entries limits \<le> length (la_entries acc) then acc
      else let template = pl_template pending;
               raw_size = usat_add (usat_add (length template) (length (pl_properties pending)))
                            (length (pl_message pending));
               (props, msg) =
                 (if ll_max_entry_bytes limits < raw_size
                  then (LOG_TRUNCATED_MARKER,
                        truncate_on_char_boundary (pl_message pending)
                          (ll_max_entry_bytes limits - length template - length LOG_TRUNCATED_MARKER))
                  else (pl_properties pending, pl_message pending));
               entry_size = usat_add (usat_add (length template) (length props)) (length msg)
           in if ll_max_total_bytes limits < usat_add (la_total_bytes acc) entry_size then acc
              else acc\<lparr>la_total_bytes := usat_add (la_total_bytes acc) entry_size,
                       la_entries := la_entries acc @
                         [\<lparr>rl_level = pl_level pending, rl_template = template, rl_properties = props,
                           rl_message = msg, rl_seq = of_nat (length (la_entries acc)),
                           rl_offset_us = pl_offset_us pending\<rparr>]\<rparr>)"

text \<open>The closure behind \<open>__log\<close>; \<open>elapsed_us\<close> is the clock, withheld under the deterministic profile.\<close>

definition log_native ::
  "log_limits \<Rightarrow> bool \<Rightarrow> nat \<Rightarrow> log_accumulator \<Rightarrow> string \<Rightarrow> string \<Rightarrow> string \<Rightarrow> string \<Rightarrow> string \<times> log_accumulator"
where
  "log_native limits record_timing elapsed_us acc level template properties_json message =
     (if la_poisoned acc then (''log buffer unavailable'', acc)
      else ([], capture_log acc limits
             \<lparr>pl_level = (case log_level_parse level of Some l \<Rightarrow> l | None \<Rightarrow> LInfo), pl_template = template,
              pl_properties = properties_json, pl_message = message,
              pl_offset_us = (if record_timing then Some elapsed_us else None)\<rparr>))"

definition drain_logs :: "(string \<Rightarrow> bool) \<Rightarrow> log_accumulator \<Rightarrow> log_entry list" where
  "drain_logs raw_ok acc =
     (if la_poisoned acc then []
      else map (\<lambda>raw. \<lparr>le_level = rl_level raw, le_template = rl_template raw, le_properties = rl_properties raw,
                        le_message = rl_message raw, le_seq = rl_seq raw, le_offset_us = rl_offset_us raw\<rparr>)
             (filter (\<lambda>raw. raw_ok (rl_properties raw)) (la_entries acc)))"

subsection \<open>Truncation\<close>

lemma boundary_below_le: "boundary_below s n \<le> n"
  by (induction n) auto

lemma boundary_below_boundary: "is_char_boundary s (boundary_below s n)"
  by (induction n) (auto simp: is_char_boundary_def)

lemma boundary_below_greatest: "i \<le> n \<Longrightarrow> is_char_boundary s i \<Longrightarrow> i \<le> boundary_below s n"
  by (induction n) (auto simp: le_Suc_eq)

lemma length_truncate: "length (truncate_on_char_boundary t n) \<le> n"
  using boundary_below_le [of t n] by (simp add: truncate_on_char_boundary_def)

lemma truncate_prefix: "\<exists>rest. t = truncate_on_char_boundary t n @ rest"
  by (metis append_Nil2 append_take_drop_id truncate_on_char_boundary_def)

text \<open>C30: truncation never splits a character and wastes less than one. The result is a prefix of the text of at most
  \<open>max_bytes\<close> bytes, well-formed when the text is, the text itself when it fits, and otherwise at most three bytes
  shorter than the budget.\<close>

theorem truncate_on_char_boundary_exact:
  assumes "valid_utf8 body"
  shows "valid_utf8 (truncate_on_char_boundary body max_bytes) \<and>
    (\<exists>rest. body = truncate_on_char_boundary body max_bytes @ rest) \<and>
    length (truncate_on_char_boundary body max_bytes) \<le> max_bytes \<and>
    (if length body \<le> max_bytes then truncate_on_char_boundary body max_bytes = body
     else max_bytes < length (truncate_on_char_boundary body max_bytes) + 4)"
proof (cases "length body \<le> max_bytes")
  case True
  then show ?thesis using assms by (simp add: truncate_on_char_boundary_def)
next
  case False
  let ?b = "boundary_below body max_bytes"
  have b: "?b \<le> length body" using False boundary_below_le [of body max_bytes] by simp
  then have "valid_utf8 (take ?b body)"
    using assms boundary_below_boundary by (intro valid_utf8_take)
  moreover obtain i where "i \<le> max_bytes" "max_bytes < i + 4" "is_char_boundary body i"
    using boundary_near [OF assms, of max_bytes] False by auto
  then have "max_bytes < ?b + 4" using boundary_below_greatest [of i max_bytes body] by simp
  ultimately show ?thesis
    using False b truncate_prefix [of body max_bytes] length_truncate [of body max_bytes]
    by (simp add: truncate_on_char_boundary_def)
qed

theorem truncate_on_char_boundary_exact_witness:
  "valid_utf8 (truncate_on_char_boundary [CHR ''a'', CHR 0xC3, CHR 0xA9] 2)"
  using truncate_on_char_boundary_exact [of "[CHR ''a'', CHR 0xC3, CHR 0xA9]" 2]
  by (simp add: valid_utf8_Cons char_len_def char_ok_def lead_width_def second_byte_ok_def byte_of_def)

subsection \<open>Budgets per execution\<close>

text \<open>
  A channel with a budget: pushing grows its count by at most one, and not at all once the budget is used up.
\<close>

locale op_budget =
  fixes push :: "'s \<Rightarrow> 'a \<Rightarrow> 's" and used :: "'s \<Rightarrow> nat" and cap :: nat
  assumes grows: "used s \<le> used (push s a) \<and> used (push s a) \<le> Suc (used s)"
    and capped: "cap \<le> used s \<Longrightarrow> used (push s a) = used s"
begin

lemma push_within: "used s \<le> cap \<Longrightarrow> used (push s a) \<le> cap"
  using grows [of s a] capped [of s a] by linarith

lemma run_within: "used s \<le> cap \<Longrightarrow> used (foldl push s xs) \<le> cap"
  by (induction xs arbitrary: s) (simp_all add: push_within)

lemma run_mono: "used s \<le> used (foldl push s xs)"
proof (induction xs arbitrary: s)
  case (Cons a xs)
  then show ?case using grows [of s a] by (auto intro: order_trans)
qed simp

lemma run_length: "used (foldl push s xs) \<le> used s + length xs"
proof (induction xs arbitrary: s)
  case (Cons a xs)
  have "used (foldl push s (a # xs)) \<le> used (push s a) + length xs" using Cons by simp
  then show ?case using grows [of s a] by simp
qed simp

end

definition emit_push :: "nat \<Rightarrow> nat \<Rightarrow> emit_buffer \<Rightarrow> string \<times> string \<Rightarrow> emit_buffer" where
  "emit_push max_ops kl buf call = snd (emit_native max_ops kl buf (fst call) (snd call))"

interpretation emits: op_budget "emit_push max_ops kl" "\<lambda>b. length (eb_items b)" max_ops for max_ops kl
  by unfold_locales (auto simp: emit_push_def emit_native_def)

definition log_push :: "log_limits \<Rightarrow> log_accumulator \<Rightarrow> pending_log \<Rightarrow> log_accumulator" where
  "log_push limits acc pending = capture_log acc limits pending"

interpretation logs: op_budget "log_push limits" "\<lambda>a. length (la_entries a)" "ll_max_entries limits" for limits
  by unfold_locales (auto simp: log_push_def capture_log_def Let_def)

subsection \<open>What the effects channel records\<close>

definition well_tagged :: "nat \<Rightarrow> string \<times> string \<Rightarrow> bool" where
  "well_tagged kl call \<longleftrightarrow> fst call \<noteq> [] \<and> chars_count (fst call) \<le> kl"

lemma emit_push_items:
  "\<not> eb_poisoned b \<Longrightarrow>
   eb_items (emit_push max_ops kl b call) =
     (if well_tagged kl call \<and> length (eb_items b) < max_ops then eb_items b @ [call] else eb_items b) \<and>
   \<not> eb_poisoned (emit_push max_ops kl b call)"
  by (cases call) (auto simp: emit_push_def emit_native_def well_tagged_def)

lemma emits_from:
  "\<not> eb_poisoned b \<Longrightarrow>
   eb_items (foldl (emit_push max_ops kl) b calls) =
     eb_items b @ take (max_ops - length (eb_items b)) (filter (well_tagged kl) calls) \<and>
   \<not> eb_poisoned (foldl (emit_push max_ops kl) b calls)"
proof (induction calls arbitrary: b)
  case (Cons c cs)
  note push = emit_push_items [OF Cons.prems, of max_ops kl c]
  show ?case
  proof (cases "well_tagged kl c \<and> length (eb_items b) < max_ops")
    case True
    then have "max_ops - length (eb_items b) = Suc (max_ops - Suc (length (eb_items b)))" by linarith
    then show ?thesis using True push Cons.IH [of "emit_push max_ops kl b c"] by simp
  next
    case False
    then show ?thesis using push Cons.IH [of "emit_push max_ops kl b c"] by auto
  qed
qed simp

text \<open>The effects of an execution are exactly its first \<open>max_ops\<close> well-tagged \<open>emit\<close> calls, in call order, whatever
  else the handler emitted and however it ended; a call replies with an error iff it recorded nothing.\<close>

lemma effects_exact:
  "drain_effects raw_ok (foldl (emit_push max_ops kl) emit_buffer_new calls) =
     map (\<lambda>(kind, value). \<lparr>ef_kind = kind, ef_value = value\<rparr>)
       (filter (\<lambda>p. raw_ok (snd p)) (take max_ops (filter (well_tagged kl) calls))) \<and>
   (fst (emit_native max_ops kl buf kind value) \<noteq> [] \<longleftrightarrow> snd (emit_native max_ops kl buf kind value) = buf)"
proof -
  have "\<not> eb_poisoned emit_buffer_new" "eb_items emit_buffer_new = []" by (simp_all add: emit_buffer_new_def)
  then have "eb_items (foldl (emit_push max_ops kl) emit_buffer_new calls) =
        take max_ops (filter (well_tagged kl) calls) \<and>
      \<not> eb_poisoned (foldl (emit_push max_ops kl) emit_buffer_new calls)"
    using emits_from [of emit_buffer_new max_ops kl calls] by simp
  then show ?thesis
    by (cases buf) (auto simp: drain_effects_def emit_native_def)
qed

subsection \<open>What the log channel keeps\<close>

definition raw_size :: "raw_log \<Rightarrow> nat" where
  "raw_size r = length (rl_template r) + length (rl_properties r) + length (rl_message r)"

definition pending_size :: "pending_log \<Rightarrow> nat" where
  "pending_size p = length (pl_template p) + length (pl_properties p) + length (pl_message p)"

text \<open>The entry a call is kept as: itself when it fits the per-entry budget, otherwise its truncation.\<close>

definition kept_as :: "log_limits \<Rightarrow> pending_log \<Rightarrow> nat \<Rightarrow> raw_log" where
  "kept_as limits p n =
     \<lparr>rl_level = pl_level p, rl_template = pl_template p,
      rl_properties = (if pending_size p \<le> ll_max_entry_bytes limits then pl_properties p else LOG_TRUNCATED_MARKER),
      rl_message = (if pending_size p \<le> ll_max_entry_bytes limits then pl_message p
                    else truncate_on_char_boundary (pl_message p)
                           (ll_max_entry_bytes limits - length (pl_template p) - length LOG_TRUNCATED_MARKER)),
      rl_seq = of_nat n, rl_offset_us = pl_offset_us p\<rparr>"

text \<open>The bounds fit a machine word, as resolved limits and texts in memory do.\<close>

definition limits_fit :: "log_limits \<Rightarrow> bool" where
  "limits_fit l \<longleftrightarrow> ll_max_entry_bytes l < usize_max \<and> ll_max_total_bytes l < usize_max"

lemma usat_add3_gt: "m < usize_max \<Longrightarrow> m < usat_add (usat_add a b) c \<longleftrightarrow> m < a + b + c"
  by (auto simp: usat_add_def min_def)

lemma usat_add4_gt: "m < usize_max \<Longrightarrow> m < usat_add t (usat_add (usat_add a b) c) \<longleftrightarrow> m < t + (a + b + c)"
  by (auto simp: usat_add_def min_def)

lemma capture_log_exact:
  assumes "limits_fit l"
  shows "capture_log acc l p =
    (if ll_max_entries l \<le> length (la_entries acc) \<or>
        ll_max_total_bytes l < la_total_bytes acc + raw_size (kept_as l p (length (la_entries acc)))
     then acc
     else acc\<lparr>la_total_bytes := la_total_bytes acc + raw_size (kept_as l p (length (la_entries acc))),
              la_entries := la_entries acc @ [kept_as l p (length (la_entries acc))]\<rparr>)"
proof -
  have exact: "usat_add t (usat_add (usat_add a b) c) = t + (a + b + c)" if "t + (a + b + c) \<le> ll_max_total_bytes l" for t a b c
    using that assms by (simp add: usat_add_def limits_fit_def)
  show ?thesis
    using assms usat_add3_gt [of "ll_max_entry_bytes l"] usat_add4_gt [of "ll_max_total_bytes l"] exact
    by (auto simp: capture_log_def kept_as_def raw_size_def pending_size_def limits_fit_def Let_def not_less)
qed

lemma kept_as_size:
  "raw_size (kept_as l p n) \<le> max (ll_max_entry_bytes l) (length (pl_template p) + length LOG_TRUNCATED_MARKER)"
  using length_truncate [of "pl_message p" "ll_max_entry_bytes l - length (pl_template p) - length LOG_TRUNCATED_MARKER"]
  by (auto simp: kept_as_def raw_size_def pending_size_def)

text \<open>The entries of an accumulator, as the calls they were kept from.\<close>

definition log_inv :: "log_limits \<Rightarrow> pending_log list \<Rightarrow> log_accumulator \<Rightarrow> bool" where
  "log_inv l ps acc \<longleftrightarrow>
     la_entries acc = map2 (kept_as l) ps [0..<length ps] \<and>
     la_total_bytes acc = sum_list (map raw_size (la_entries acc)) \<and>
     la_total_bytes acc \<le> ll_max_total_bytes l \<and> length ps \<le> ll_max_entries l"

lemma log_inv_push:
  assumes "limits_fit l" and "log_inv l ps acc"
  shows "log_inv l ps (log_push l acc p) \<or> log_inv l (ps @ [p]) (log_push l acc p)"
proof -
  have n: "length (la_entries acc) = length ps" using assms(2) by (simp add: log_inv_def)
  show ?thesis
    using assms capture_log_exact [OF assms(1), of acc p]
    by (auto simp: log_push_def log_inv_def n)
qed

lemma log_inv_run:
  assumes "limits_fit l" and "log_inv l ps acc"
  shows "\<exists>qs. subseq qs calls \<and> log_inv l (ps @ qs) (foldl (log_push l) acc calls)"
  using assms(2)
proof (induction calls arbitrary: ps acc)
  case Nil
  then show ?case by (intro exI [of _ "[]"]) simp
next
  case (Cons c cs)
  from log_inv_push [OF assms(1) Cons.prems, of c] show ?case
  proof
    assume "log_inv l ps (log_push l acc c)"
    from Cons.IH [OF this] show ?thesis by (auto intro: list_emb_Cons)
  next
    assume "log_inv l (ps @ [c]) (log_push l acc c)"
    from Cons.IH [OF this] obtain qs where "subseq qs cs" "log_inv l (ps @ c # qs) (foldl (log_push l) (log_push l acc c) cs)"
      by auto
    then show ?thesis by (intro exI [of _ "c # qs"]) simp
  qed
qed

lemma log_inv_default: "log_inv l [] log_accumulator_default"
  by (simp add: log_inv_def log_accumulator_default_def)

lemma log_inv_entry_size:
  assumes "log_inv l qs acc" and "r \<in> set (la_entries acc)"
  shows "raw_size r \<le> max (ll_max_entry_bytes l) (length (rl_template r) + length LOG_TRUNCATED_MARKER)"
proof -
  obtain p n where "r = kept_as l p n"
    using assms by (auto simp: log_inv_def set_zip)
  then show ?thesis using kept_as_size [of l p n] by (simp add: kept_as_def)
qed

text \<open>The log of an execution. Whatever a handler logs, what is kept is a subsequence of its calls in call order,
  numbered \<open>0, 1, 2, ...\<close> without gaps, each call either verbatim or (past the per-entry budget) with the marker for its
  properties and its message cut; at most \<open>max_entries\<close> of them, adding up to at most \<open>max_total_bytes\<close>. An entry is
  within \<open>max_entry_bytes\<close> except for its template, which truncation leaves whole.\<close>

lemma logs_bounded:
  assumes "limits_fit l"
  shows "\<exists>qs. subseq qs calls \<and> length qs \<le> ll_max_entries l \<and>
    la_entries (foldl (log_push l) log_accumulator_default calls) = map2 (kept_as l) qs [0..<length qs] \<and>
    sum_list (map raw_size (la_entries (foldl (log_push l) log_accumulator_default calls))) \<le> ll_max_total_bytes l \<and>
    (\<forall>r \<in> set (la_entries (foldl (log_push l) log_accumulator_default calls)).
       raw_size r \<le> max (ll_max_entry_bytes l) (length (rl_template r) + 18))"
proof -
  let ?acc = "foldl (log_push l) log_accumulator_default calls"
  obtain qs where "subseq qs calls" and inv: "log_inv l qs ?acc"
    using log_inv_run [OF assms log_inv_default, of calls] by auto
  moreover have "length LOG_TRUNCATED_MARKER = 18" by (simp add: LOG_TRUNCATED_MARKER_def)
  ultimately show ?thesis using log_inv_entry_size [OF inv] by (auto simp: log_inv_def)
qed

definition sample_limits :: log_limits where
  "sample_limits = \<lparr>ll_floor = LInfo, ll_max_entries = 2, ll_max_entry_bytes = 4, ll_max_total_bytes = 64\<rparr>"

definition sample_call :: pending_log where
  "sample_call = \<lparr>pl_level = LWarn, pl_template = ''disk at {p}'', pl_properties = ''{}'', pl_message = ''disk at 9'',
     pl_offset_us = None\<rparr>"

text \<open>The per-entry budget does not bind the template: a long one is kept whole.\<close>

lemma long_template_kept:
  "map raw_size (la_entries (log_push sample_limits log_accumulator_default sample_call)) = [29]"
  by (simp add: log_push_def capture_log_def log_accumulator_default_def sample_limits_def sample_call_def
      usat_add_def usize_max_def LOG_TRUNCATED_MARKER_def truncate_on_char_boundary_def raw_size_def Let_def)

end
