(* ===== verification/Mux.thy ===== *)
theory Mux
  imports Channels Ssrf
begin

text \<open>
  The capability mux: \<^verbatim>\<open>runlet-core/src/capability.rs\<close> (registry, trust, dispatch), the closure behind \<open>__io\<close> of
  \<^verbatim>\<open>engine/channels.rs\<close> and the JavaScript half of the call, \<^verbatim>\<open>js/io.js\<close> and \<^verbatim>\<open>js/ffi.js\<close>.

  A backend (\<^verbatim>\<open>dyn Egress\<close>) is a state transformer on a world \<open>'w\<close> that returns or panics. The name server is the
  argument \<open>dns\<close>. The mux and the script exchange text: serde's printer and JavaScript's reader are the fields of
  \<open>json_text\<close>; which number literals read as zero is \<open>jt_zero\<close>. Host names are ASCII, where \<^verbatim>\<open>to_lowercase\<close> is the
  ASCII one.
\<close>

subsection \<open>Address texts\<close>

definition hex_digit :: "nat \<Rightarrow> char" where
  "hex_digit n = (if n < 10 then char_of (48 + n) else char_of (87 + n))"

fun show_hex :: "nat \<Rightarrow> string" where
  "show_hex n = (if n < 16 then [hex_digit n] else show_hex (n div 16) @ [hex_digit (n mod 16)])"

declare show_hex.simps [simp del]

fun join_with :: "string \<Rightarrow> string list \<Rightarrow> string" where
  "join_with sep [] = []"
| "join_with sep [x] = x"
| "join_with sep (x # xs) = x @ sep @ join_with sep xs"

definition zero_run :: "u16 list \<Rightarrow> nat" where
  "zero_run xs = length (takeWhile (\<lambda>x. x = 0) xs)"

text \<open>The first of the longest runs of zero segments, as the standard library compresses it.\<close>

definition longest_zero_run :: "u16 list \<Rightarrow> nat \<times> nat" where
  "longest_zero_run xs =
     foldl (\<lambda>(start, len) i. if len < zero_run (drop i xs) then (i, zero_run (drop i xs)) else (start, len))
       (0, 0) [0..<length xs]"

definition show_segments :: "u16 list \<Rightarrow> string" where
  "show_segments xs = join_with '':'' (map (\<lambda>x. show_hex (unat x)) xs)"

fun show_ipv6 :: "ipv6 \<Rightarrow> string" where
  "show_ipv6 (Ipv6 s0 s1 s2 s3 s4 s5 s6 s7) =
     (case v6_to_ipv4_mapped (Ipv6 s0 s1 s2 s3 s4 s5 s6 s7) of
        Some v \<Rightarrow> ''::ffff:'' @ show_ipv4 v
      | None \<Rightarrow>
          let xs = [s0, s1, s2, s3, s4, s5, s6, s7];
              (start, len) = longest_zero_run xs
          in if 1 < len then show_segments (take start xs) @ ''::'' @ show_segments (drop (start + len) xs)
             else show_segments xs)"

fun show_ip :: "ip_addr \<Rightarrow> string" where
  "show_ip (V4 ip) = show_ipv4 ip"
| "show_ip (V6 ip) = show_ipv6 ip"

text \<open>The texts of \<^verbatim>\<open>block_private_ip\<close>; the other constructors belong to other checks.\<close>

fun ssrf_message :: "ssrf_error \<Rightarrow> string" where
  "ssrf_message (PrivateLiteral a) = ''requests to private IP '' @ show_ip a @ '' are blocked''"
| "ssrf_message (ResolvesPrivate h a) =
     ''host '' @ [CHR 0x27] @ h @ [CHR 0x27] @ '' resolves to private IP '' @ show_ip a @ '', blocked''"
| "ssrf_message _ = ''blocked''"

subsection \<open>Trust\<close>

text \<open>A callback that returns or panics.\<close>

datatype 'a unwound = Panicked | Returned 'a

record target =
  tg_host :: string
  tg_port :: u16

record ssrf_policy =
  sp_allowed_hosts :: "string list"
  sp_extract_target :: "string \<Rightarrow> (string, target option) result unwound"

definition enforce ::
  "(string \<Rightarrow> u16 \<Rightarrow> dns_answer) \<Rightarrow> ssrf_policy \<Rightarrow> string \<Rightarrow> bool \<Rightarrow> (string, unit) result unwound" where
  "enforce dns policy payload allow_private =
     (case sp_extract_target policy payload of
        Panicked \<Rightarrow> Panicked
      | Returned (Inl message) \<Rightarrow> Returned (Inl message)
      | Returned (Inr None) \<Rightarrow> Returned (Inr ())
      | Returned (Inr (Some t)) \<Rightarrow>
          if sp_allowed_hosts policy \<noteq> [] \<and>
             \<not> list_ex (\<lambda>host. to_ascii_lowercase host = to_ascii_lowercase (tg_host t)) (sp_allowed_hosts policy)
          then Returned (Inl (''host '' @ [CHR 0x27] @ tg_host t @ [CHR 0x27] @ '' is not in the allowlist''))
          else (case block_private_ip (dns (tg_host t) (tg_port t)) (tg_host t) allow_private of
                  Inl e \<Rightarrow> Returned (Inl (ssrf_message e))
                | Inr u \<Rightarrow> Returned (Inr ())))"

datatype trust = OperatorSupplied | ScriptControlled ssrf_policy

subsection \<open>The registry\<close>

type_synonym 'w egress = "'w \<Rightarrow> string \<Rightarrow> string \<Rightarrow> string \<Rightarrow> (egress_error, string) result unwound \<times> 'w"

record 'w capability_def =
  kd_name :: string
  kd_js_wrapper :: string
  kd_types :: string
  kd_trust :: trust
  kd_backend :: "'w egress option"

definition capability_def_new :: "string \<Rightarrow> string \<Rightarrow> string \<Rightarrow> trust \<Rightarrow> 'w capability_def" where
  "capability_def_new name js_wrapper types trust =
     \<lparr>kd_name = name, kd_js_wrapper = js_wrapper, kd_types = types, kd_trust = trust, kd_backend = None\<rparr>"

definition with_backend :: "'w capability_def \<Rightarrow> 'w egress \<Rightarrow> 'w capability_def" where
  "with_backend d backend = d\<lparr>kd_backend := Some backend\<rparr>"

record 'w route =
  rt_backend :: "'w egress option"
  rt_trust :: trust

datatype registry_error = DuplicateName string

record 'w capability_registry =
  rg_defs :: "'w capability_def list"
  rg_routes :: "string \<rightharpoonup> 'w route"
  rg_fallback :: "'w egress option"

definition registry_default :: "'w capability_registry" where
  "registry_default = \<lparr>rg_defs = [], rg_routes = Map.empty, rg_fallback = None\<rparr>"

fun build_routes ::
  "(string \<rightharpoonup> 'w route) \<Rightarrow> 'w capability_def list \<Rightarrow> (registry_error, string \<rightharpoonup> 'w route) result" where
  "build_routes routes [] = Inr routes"
| "build_routes routes (d # ds) =
     (case routes (kd_name d) of
        Some r \<Rightarrow> Inl (DuplicateName (kd_name d))
      | None \<Rightarrow>
          build_routes (routes(kd_name d \<mapsto> \<lparr>rt_backend = kd_backend d, rt_trust = kd_trust d\<rparr>)) ds)"

definition registry_build ::
  "'w capability_def list \<Rightarrow> 'w egress option \<Rightarrow> (registry_error, 'w capability_registry) result" where
  "registry_build defs fallback =
     (case build_routes Map.empty defs of
        Inl e \<Rightarrow> Inl e
      | Inr routes \<Rightarrow> Inr \<lparr>rg_defs = defs, rg_routes = routes, rg_fallback = fallback\<rparr>)"

definition is_active :: "'w capability_registry \<Rightarrow> bool" where
  "is_active reg \<longleftrightarrow> rg_defs reg \<noteq> [] \<or> rg_fallback reg \<noteq> None"

subsection \<open>Dispatch\<close>

record json_text =
  jt_print :: "json \<Rightarrow> string"
  jt_parse :: "string \<Rightarrow> json option"
  jt_zero :: "string \<Rightarrow> bool"

definition dynamic_fault_json :: "json_text \<Rightarrow> egress_error \<Rightarrow> string" where
  "dynamic_fault_json jt fault = jt_print jt (to_tag fault)"

record 'w mux_call =
  mc_name :: string
  mc_action :: string
  mc_payload :: string
  mc_allow_private :: bool
  mc_fallback :: "'w egress option"

text \<open>\<^verbatim>\<open>Option::or\<close>.\<close>

definition or_else :: "'a option \<Rightarrow> 'a option \<Rightarrow> 'a option" where
  "or_else a b = (case a of Some x \<Rightarrow> Some x | None \<Rightarrow> b)"

definition mux_fault :: "string \<Rightarrow> string \<Rightarrow> bool \<Rightarrow> error_owner \<Rightarrow> string \<Rightarrow> egress_error" where
  "mux_fault error code retryable owner source =
     \<lparr>eg_code = code, eg_message = error, eg_source = source, eg_details = None, eg_retryable = retryable,
      eg_owner = owner\<rparr>"

definition ssrf_block :: "string \<Rightarrow> string \<Rightarrow> egress_error" where
  "ssrf_block name message = mux_fault message ''IO_SSRF_BLOCKED'' False Developer name"

definition egress_unavailable :: "string \<Rightarrow> egress_error" where
  "egress_unavailable name =
     mux_fault ''no egress backend is available for this capability'' ''EGRESS_UNAVAILABLE'' True Operator name"

definition deny :: "string \<Rightarrow> string \<Rightarrow> error_owner \<Rightarrow> string \<Rightarrow> egress_error" where
  "deny code message owner name = mux_fault message code False owner name"

definition call_backend :: "json_text \<Rightarrow> 'w egress option \<Rightarrow> 'w mux_call \<Rightarrow> 'w \<Rightarrow> string unwound \<times> 'w" where
  "call_backend jt backend call w =
     (case backend of
        None \<Rightarrow> (Returned (dynamic_fault_json jt (egress_unavailable (mc_name call))), w)
      | Some egress \<Rightarrow>
          (case egress w (mc_name call) (mc_action call) (mc_payload call) of
             (Panicked, w') \<Rightarrow> (Panicked, w')
           | (Returned (Inr json), w') \<Rightarrow> (Returned json, w')
           | (Returned (Inl err), w') \<Rightarrow> (Returned (dynamic_fault_json jt err), w')))"

definition backend_for :: "'w capability_registry \<Rightarrow> 'w mux_call \<Rightarrow> 'w egress option" where
  "backend_for reg call =
     (case rg_routes reg (mc_name call) of
        Some route \<Rightarrow> or_else (or_else (rt_backend route) (mc_fallback call)) (rg_fallback reg)
      | None \<Rightarrow> or_else (mc_fallback call) (rg_fallback reg))"

definition policy_check ::
  "(string \<Rightarrow> u16 \<Rightarrow> dns_answer) \<Rightarrow> 'w capability_registry \<Rightarrow> 'w mux_call \<Rightarrow> (string, unit) result unwound" where
  "policy_check dns reg call =
     (case rg_routes reg (mc_name call) of
        Some route \<Rightarrow>
          (case rt_trust route of
             ScriptControlled policy \<Rightarrow> enforce dns policy (mc_payload call) (mc_allow_private call)
           | OperatorSupplied \<Rightarrow> Returned (Inr ()))
      | None \<Rightarrow> Returned (Inr ()))"

definition dispatch_inner ::
  "json_text \<Rightarrow> (string \<Rightarrow> u16 \<Rightarrow> dns_answer) \<Rightarrow> 'w capability_registry \<Rightarrow> 'w mux_call \<Rightarrow> 'w \<Rightarrow>
   string unwound \<times> 'w" where
  "dispatch_inner jt dns reg call w =
     (case policy_check dns reg call of
        Panicked \<Rightarrow> (Panicked, w)
      | Returned (Inl message) \<Rightarrow> (Returned (dynamic_fault_json jt (ssrf_block (mc_name call) message)), w)
      | Returned (Inr u) \<Rightarrow> call_backend jt (backend_for reg call) call w)"

definition dispatch ::
  "json_text \<Rightarrow> (string \<Rightarrow> u16 \<Rightarrow> dns_answer) \<Rightarrow> 'w capability_registry \<Rightarrow> 'w mux_call \<Rightarrow> 'w \<Rightarrow> string \<times> 'w" where
  "dispatch jt dns reg call w =
     (case dispatch_inner jt dns reg call w of
        (Returned json, w') \<Rightarrow> (json, w')
      | (Panicked, w') \<Rightarrow>
          (dynamic_fault_json jt
             (deny ''IO_ENFORCEMENT_FAILED'' ''capability enforcement failed'' Operator (mc_name call)), w'))"

subsection \<open>The host function and its wrapper\<close>

record 'w mux_params =
  mp_registry :: "'w capability_registry"
  mp_fallback :: "'w egress option"
  mp_enabled_io :: "string list"
  mp_max_ops :: nat
  mp_allow_private :: bool

text \<open>
  \<^verbatim>\<open>inject_registry\<close>: \<open>None\<close> withholds the mux; otherwise the wrappers that are evaluated, in order.
\<close>

definition inject_registry :: "'w mux_params \<Rightarrow> string list option" where
  "inject_registry p =
     (if \<not> is_active (mp_registry p) \<and> mp_fallback p = None then None
      else Some (map kd_js_wrapper
                   (filter (\<lambda>d. kd_name d \<in> set (mp_enabled_io p)) (rg_defs (mp_registry p)))))"

text \<open>The state across calls: the operations used and the world.\<close>

definition io_native ::
  "json_text \<Rightarrow> (string \<Rightarrow> u16 \<Rightarrow> dns_answer) \<Rightarrow> 'w mux_params \<Rightarrow> nat \<times> 'w \<Rightarrow> string \<Rightarrow> string \<Rightarrow> string \<Rightarrow>
   string \<times> nat \<times> 'w" where
  "io_native jt dns p st name action payload =
     (if name \<notin> set (mp_enabled_io p)
      then (dynamic_fault_json jt
              (mux_fault ''resource is not in the request's io allowlist'' ''RESOURCE_NOT_FOUND'' False Developer name),
            st)
      else if mp_max_ops p \<le> fst st
      then (dynamic_fault_json jt
              (mux_fault (''too many operations: limit is '' @ show_nat (mp_max_ops p) @ '' per execution'')
                 ''IO_OP_LIMIT'' False Developer ''engine''), st)
      else (case dispatch jt dns (mp_registry p)
                   \<lparr>mc_name = name, mc_action = action, mc_payload = payload,
                    mc_allow_private = mp_allow_private p, mc_fallback = mp_fallback p\<rparr> (snd st) of
              (json, w') \<Rightarrow> (json, fst st + 1, w')))"

text \<open>JavaScript truth of a JSON value, and \<^verbatim>\<open>__ffi.unwrap\<close>; a later duplicate of a property wins.\<close>

fun js_truthy :: "(string \<Rightarrow> bool) \<Rightarrow> json \<Rightarrow> bool" where
  "js_truthy zero JNull = False"
| "js_truthy zero (JBool b) = b"
| "js_truthy zero (JNum n) = (\<not> zero n)"
| "js_truthy zero (JStr s) = (s \<noteq> [])"
| "js_truthy zero (JArr xs) = True"
| "js_truthy zero (JObj fs) = True"

fun js_get :: "json \<Rightarrow> string \<Rightarrow> json option" where
  "js_get (JObj fs) key = map_of (rev fs) key"
| "js_get _ key = None"

datatype unwrapped = Value json | ThrownTag json | BadJson

definition unwrap :: "json_text \<Rightarrow> string \<Rightarrow> unwrapped" where
  "unwrap jt raw =
     (case jt_parse jt raw of
        None \<Rightarrow> BadJson
      | Some res \<Rightarrow>
          (case js_get res ''error'' of
             Some err \<Rightarrow> if js_truthy (jt_zero jt) err then ThrownTag res else Value res
           | None \<Rightarrow> Value res))"

definition io_call ::
  "json_text \<Rightarrow> (string \<Rightarrow> u16 \<Rightarrow> dns_answer) \<Rightarrow> 'w mux_params \<Rightarrow> nat \<times> 'w \<Rightarrow> string \<Rightarrow> string \<Rightarrow> string \<Rightarrow>
   unwrapped \<times> nat \<times> 'w" where
  "io_call jt dns p st name action payload =
     (case io_native jt dns p st name action payload of (raw, st') \<Rightarrow> (unwrap jt raw, st'))"

subsection \<open>Building a registry\<close>

definition route_of :: "'w capability_def \<Rightarrow> 'w route" where
  "route_of d = \<lparr>rt_backend = kd_backend d, rt_trust = kd_trust d\<rparr>"

lemma build_routes_ok:
  "distinct (map kd_name defs) \<Longrightarrow> dom routes \<inter> kd_name ` set defs = {} \<Longrightarrow>
   build_routes routes defs = Inr (routes ++ map_of (map (\<lambda>d. (kd_name d, route_of d)) defs))"
proof (induction defs arbitrary: routes)
  case (Cons d ds)
  have fresh: "routes (kd_name d) = None" using Cons.prems by (auto simp: domIff)
  have disj: "dom (routes(kd_name d \<mapsto> route_of d)) \<inter> kd_name ` set ds = {}"
    using Cons.prems unfolding dom_fun_upd by simp
  have "build_routes (routes(kd_name d \<mapsto> route_of d)) ds =
      Inr (routes(kd_name d \<mapsto> route_of d) ++ map_of (map (\<lambda>d. (kd_name d, route_of d)) ds))"
    using Cons.prems by (intro Cons.IH [OF _ disj]) simp
  moreover have "routes(kd_name d \<mapsto> route_of d) ++ map_of (map (\<lambda>d. (kd_name d, route_of d)) ds) =
      routes ++ map_of (map (\<lambda>d. (kd_name d, route_of d)) (d # ds))"
    using Cons.prems by (intro ext) (auto simp: map_add_def image_iff split: option.splits dest!: map_of_SomeD)
  moreover have "build_routes routes (d # ds) = build_routes (routes(kd_name d \<mapsto> route_of d)) ds"
    using fresh by (simp add: route_of_def)
  ultimately show ?case by (simp only:)
qed simp

lemma build_routes_dup:
  "build_routes routes defs = Inl (DuplicateName n) \<longleftrightarrow>
     (\<exists>pre d post. defs = pre @ d # post \<and> n = kd_name d \<and> distinct (map kd_name pre) \<and>
        dom routes \<inter> kd_name ` set pre = {} \<and> kd_name d \<in> dom routes \<union> kd_name ` set pre)"
proof (induction defs arbitrary: routes)
  case (Cons d ds)
  show ?case
  proof (cases "routes (kd_name d)")
    case (Some r)
    then have d: "kd_name d \<in> dom routes" by auto
    have "(\<exists>pre e post. d # ds = pre @ e # post \<and> n = kd_name e \<and> distinct (map kd_name pre) \<and>
        dom routes \<inter> kd_name ` set pre = {} \<and> kd_name e \<in> dom routes \<union> kd_name ` set pre) \<longleftrightarrow> n = kd_name d"
      (is "?L \<longleftrightarrow> ?R")
    proof
      assume ?L
      then obtain pre e post where *: "d # ds = pre @ e # post" "n = kd_name e" "dom routes \<inter> kd_name ` set pre = {}"
        by blast
      then show ?R using d by (cases pre) auto
    next
      assume ?R
      then show ?L using d by (intro exI [of _ "[]"] exI [of _ d] exI [of _ ds]) simp
    qed
    then show ?thesis using Some by auto
  next
    case None
    let ?r = "routes(kd_name d \<mapsto> route_of d)"
    have "(\<exists>pre e post. d # ds = pre @ e # post \<and> n = kd_name e \<and> distinct (map kd_name pre) \<and>
        dom routes \<inter> kd_name ` set pre = {} \<and> kd_name e \<in> dom routes \<union> kd_name ` set pre) \<longleftrightarrow>
      (\<exists>pre e post. ds = pre @ e # post \<and> n = kd_name e \<and> distinct (map kd_name pre) \<and>
        dom ?r \<inter> kd_name ` set pre = {} \<and> kd_name e \<in> dom ?r \<union> kd_name ` set pre)"
      (is "?L \<longleftrightarrow> ?R")
    proof
      assume ?L
      then obtain pre e post where *: "d # ds = pre @ e # post" "n = kd_name e" "distinct (map kd_name pre)"
        "dom routes \<inter> kd_name ` set pre = {}" "kd_name e \<in> dom routes \<union> kd_name ` set pre" by blast
      then obtain pre' where pre: "pre = d # pre'" "ds = pre' @ e # post"
        using None by (cases pre) auto
      then show ?R using * by (intro exI [of _ pre'] exI [of _ e] exI [of _ post]) auto
    next
      assume ?R
      then obtain pre e post where "ds = pre @ e # post" "n = kd_name e" "distinct (map kd_name pre)"
        "dom ?r \<inter> kd_name ` set pre = {}" "kd_name e \<in> dom ?r \<union> kd_name ` set pre" by blast
      then show ?L using None by (intro exI [of _ "d # pre"] exI [of _ e] exI [of _ post]) auto
    qed
    moreover have "build_routes routes (d # ds) = build_routes ?r ds" using None by (simp add: route_of_def)
    ultimately show ?thesis using Cons.IH [of ?r] by (simp only:)
  qed
qed simp

text \<open>A registry is built exactly from distinct names. Building succeeds iff no two definitions share a name, and then
  every definition is routed to its own backend under its own trust and nothing else is routed; otherwise it
  reports the name of the first definition that repeats an earlier one.\<close>

lemma registry_build_exact:
  "(is_ok (registry_build defs fb) \<longleftrightarrow> distinct (map kd_name defs)) \<and>
   (registry_build defs fb = Inr reg \<longrightarrow>
      rg_defs reg = defs \<and> rg_fallback reg = fb \<and> dom (rg_routes reg) = kd_name ` set defs \<and>
      (\<forall>d \<in> set defs. rg_routes reg (kd_name d) = Some (route_of d))) \<and>
   (registry_build defs fb = Inl (DuplicateName n) \<longleftrightarrow>
      (\<exists>pre d post. defs = pre @ d # post \<and> n = kd_name d \<and> distinct (map kd_name pre) \<and>
         kd_name d \<in> kd_name ` set pre))"
proof -
  have dup: "build_routes Map.empty defs = Inl (DuplicateName m) \<longleftrightarrow>
      (\<exists>pre d post. defs = pre @ d # post \<and> m = kd_name d \<and> distinct (map kd_name pre) \<and>
         kd_name d \<in> kd_name ` set pre)" for m
    by (simp add: build_routes_dup)
  show ?thesis
  proof (cases "distinct (map kd_name defs)")
    case True
    let ?kv = "map (\<lambda>d. (kd_name d, route_of d)) defs"
    have b: "build_routes Map.empty defs = Inr (map_of ?kv)"
      using build_routes_ok [OF True, of Map.empty] by simp
    have "map_of ?kv (kd_name d) = Some (route_of d)" if "d \<in> set defs" for d
      using that True by (intro map_of_is_SomeI) (auto simp: comp_def)
    moreover have "dom (map_of ?kv) = kd_name ` set defs"
      by (simp add: dom_map_of_conv_image_fst image_image)
    ultimately show ?thesis using True b dup by (auto simp: registry_build_def)
  next
    case False
    then obtain m where "build_routes Map.empty defs = Inl (DuplicateName m)"
    proof -
      have "\<exists>pre d post. defs = pre @ d # post \<and> distinct (map kd_name pre) \<and> kd_name d \<in> kd_name ` set pre"
        using False
      proof (induction defs rule: rev_induct)
        case (snoc d ds)
        then show ?case
          by (cases "distinct (map kd_name ds)") (fastforce simp: append_eq_append_conv2)+
      qed simp
      then show ?thesis using dup that by blast
    qed
    then have "registry_build defs fb = Inl (DuplicateName m)" by (simp add: registry_build_def)
    moreover have "registry_build defs fb = Inl (DuplicateName n) \<longleftrightarrow> build_routes Map.empty defs = Inl (DuplicateName n)"
      using calculation by (auto simp: registry_build_def split: sum.splits)
    ultimately show ?thesis using False dup [of n] by simp
  qed
qed

subsection \<open>What a script can reach\<close>

text \<open>
  One call that a script may make: of a listed resource, whose policy (when its targets are the script's) accepted
  the payload, on the backend the name is routed to.
\<close>

definition call_of :: "'w mux_params \<Rightarrow> string \<Rightarrow> string \<Rightarrow> string \<Rightarrow> 'w mux_call" where
  "call_of p name action payload =
     \<lparr>mc_name = name, mc_action = action, mc_payload = payload, mc_allow_private = mp_allow_private p,
      mc_fallback = mp_fallback p\<rparr>"

definition permitted_step :: "(string \<Rightarrow> u16 \<Rightarrow> dns_answer) \<Rightarrow> 'w mux_params \<Rightarrow> ('w \<times> 'w) set" where
  "permitted_step dns p =
     {(w, w'). \<exists>name action payload egress.
        name \<in> set (mp_enabled_io p) \<and>
        policy_check dns (mp_registry p) (call_of p name action payload) = Returned (Inr ()) \<and>
        backend_for (mp_registry p) (call_of p name action payload) = Some egress \<and>
        w' = snd (egress w name action payload)}"

lemma snd_call_backend:
  "snd (call_backend jt b c w) = (case b of None \<Rightarrow> w | Some e \<Rightarrow> snd (e w (mc_name c) (mc_action c) (mc_payload c)))"
  by (auto simp: call_backend_def split: option.split prod.split unwound.split sum.split)

lemma snd_dispatch:
  "snd (dispatch jt dns reg c w) =
     (case policy_check dns reg c of
        Returned (Inr u) \<Rightarrow>
          (case backend_for reg c of None \<Rightarrow> w | Some e \<Rightarrow> snd (e w (mc_name c) (mc_action c) (mc_payload c)))
      | _ \<Rightarrow> w)"
  using snd_call_backend [of jt "backend_for reg c" c w]
  by (auto simp: dispatch_def dispatch_inner_def split: unwound.split sum.split prod.split option.split)

lemma io_native_world:
  "snd (snd (io_native jt dns p st name action payload)) = snd st \<or>
   (snd st, snd (snd (io_native jt dns p st name action payload))) \<in> permitted_step dns p"
  using snd_dispatch [of jt dns "mp_registry p" "call_of p name action payload" "snd st"]
  by (auto simp: io_native_def permitted_step_def call_of_def split: unwound.splits sum.splits option.splits prod.split)
    (metis prod.exhaust_sel)

lemma io_native_used:
  "fst (snd (io_native jt dns p st name action payload)) =
     (if name \<in> set (mp_enabled_io p) \<and> fst st < mp_max_ops p then fst st + 1 else fst st) \<and>
   (\<not> (name \<in> set (mp_enabled_io p) \<and> fst st < mp_max_ops p) \<longrightarrow> snd (io_native jt dns p st name action payload) = st)"
  by (auto simp: io_native_def split: prod.split)

definition io_push ::
  "json_text \<Rightarrow> (string \<Rightarrow> u16 \<Rightarrow> dns_answer) \<Rightarrow> 'w mux_params \<Rightarrow> nat \<times> 'w \<Rightarrow> string \<times> string \<times> string \<Rightarrow> nat \<times> 'w"
where
  "io_push jt dns p st call = snd (io_native jt dns p st (fst call) (fst (snd call)) (snd (snd call)))"

interpretation ios: op_budget "io_push jt dns p" fst "mp_max_ops p" for jt dns p
  by unfold_locales (auto simp: io_push_def io_native_used)

lemma io_push_reach:
  assumes "(w0, snd st) \<in> permitted_step dns p ^^ n" and "n \<le> fst st"
  shows "\<exists>m. (w0, snd (io_push jt dns p st c)) \<in> permitted_step dns p ^^ m \<and> m \<le> fst (io_push jt dns p st c)"
proof (cases "snd (io_push jt dns p st c) = snd st")
  case True
  then show ?thesis using assms ios.grows [of st jt dns p c] by (intro exI [of _ n]) simp
next
  case False
  then have step: "(snd st, snd (io_push jt dns p st c)) \<in> permitted_step dns p"
    using io_native_world [of jt dns p st] by (auto simp: io_push_def)
  have "fst (io_push jt dns p st c) = fst st + 1"
    using False io_native_used [of jt dns p st "fst c" "fst (snd c)" "snd (snd c)"] by (auto simp: io_push_def)
  then show ?thesis using assms step by (intro exI [of _ "Suc n"]) auto
qed

lemma io_run_reach:
  "(w0, snd st) \<in> permitted_step dns p ^^ n \<Longrightarrow> n \<le> fst st \<Longrightarrow>
   \<exists>m. (w0, snd (foldl (io_push jt dns p) st calls)) \<in> permitted_step dns p ^^ m \<and>
       m \<le> fst (foldl (io_push jt dns p) st calls)"
proof (induction calls arbitrary: st n)
  case (Cons c cs)
  obtain m where "(w0, snd (io_push jt dns p st c)) \<in> permitted_step dns p ^^ m" "m \<le> fst (io_push jt dns p st c)"
    using io_push_reach [OF Cons.prems] by blast
  from Cons.IH [OF this] show ?case by simp
qed auto

text \<open>
  Whatever calls a handler makes through the mux, in whatever order, the outside changes only by calls of listed
  resources whose policy returned and accepted the target, each on the backend its name is routed to, and by at most
  \<open>max_ops\<close> of them. A policy that fails or panics, a missing backend, an unlisted name and an exhausted budget change
  nothing.
\<close>

lemma permitted_within:
  "\<exists>n \<le> mp_max_ops p. (w, snd (foldl (io_push jt dns p) (0, w) calls)) \<in> permitted_step dns p ^^ n"
proof -
  obtain n where "(w, snd (foldl (io_push jt dns p) (0, w) calls)) \<in> permitted_step dns p ^^ n"
      and "n \<le> fst (foldl (io_push jt dns p) (0, w) calls)"
    using io_run_reach [where st = "(0, w)" and n = 0 and jt = jt and dns = dns and p = p and calls = calls] by auto
  then show ?thesis
    using ios.run_within [where s = "(0, w)" and jt = jt and dns = dns and p = p and xs = calls] by (auto intro: le_trans)
qed

subsection \<open>Faults as the script and the client see them\<close>

lemma js_get_to_tag: "js_get (to_tag e) ''error'' = Some (JStr (eg_message e))"
  by (cases "eg_details e") (simp_all add: to_tag_def)

text \<open>
  An error raised by the mux or a backend and not caught by the handler, as the engine finds it: the exception
  \<^verbatim>\<open>__ffi.unwrap\<close> throws carries the message and the tag.
\<close>

definition uncaught :: "bool \<Rightarrow> nat \<Rightarrow> string option \<Rightarrow> json \<Rightarrow> engine_error" where
  "uncaught timed_out limit_ms stack tag =
     classify_throw timed_out limit_ms
       (ThrownObject stack
          (case js_get tag ''error'' of Some (JStr m) \<Rightarrow> if m = [] then None else Some m | _ \<Rightarrow> None) (read_tag tag))"

text \<open>C29: what becomes of a fault. Provided JavaScript reads back the tag serde printed, a fault with a message is thrown,
  and a fault with an empty message is handed to the script as a successful result; conversely a successful answer of a
  backend is thrown when it is an object with a truthy \<open>error\<close>. An uncaught fault keeps its retry hint exactly when its
  source is one of the eleven fixed tags; the faults of the mux carry the resource's logical name as their source, so
  under any other name they end as a \<open>422 SCRIPT_ERROR\<close> without \<open>Retry-After\<close>.\<close>

theorem fault_reaches_script:
  assumes "jt_parse jt (dynamic_fault_json jt e) = Some (to_tag e)" and "eg_details e \<noteq> Some JNull"
    and "jt_parse jt raw = Some res"
  shows "(unwrap jt (dynamic_fault_json jt e) = ThrownTag (to_tag e) \<longleftrightarrow> eg_message e \<noteq> []) \<and>
    (unwrap jt (dynamic_fault_json jt e) = Value (to_tag e) \<longleftrightarrow> eg_message e = []) \<and>
    (unwrap jt raw = ThrownTag res \<longleftrightarrow> (\<exists>v. js_get res ''error'' = Some v \<and> js_truthy (jt_zero jt) v)) \<and>
    (pr_retry_after (project_envelope (into_envelope (uncaught False lim stack (to_tag e)) dbg tr)) \<longleftrightarrow>
       eg_retryable e \<and> (\<exists>src. eg_source e = source_tag src)) \<and>
    ((\<nexists>src. eg_source e = source_tag src) \<longrightarrow>
       uncaught False lim stack (to_tag e) = ScriptErr (eg_message e) stack \<and>
       pr_status (project_envelope (into_envelope (uncaught False lim stack (to_tag e)) dbg tr)) = 422) \<and>
    eg_source (ssrf_block name m) = name \<and> eg_source (egress_unavailable name) = name \<and>
    eg_source (deny code m owner name) = name"
proof -
  have thrown: "unwrap jt (dynamic_fault_json jt e) = (if eg_message e \<noteq> [] then ThrownTag (to_tag e) else Value (to_tag e))"
    using assms(1) by (simp add: unwrap_def js_get_to_tag)
  have data: "unwrap jt raw = ThrownTag res \<longleftrightarrow> (\<exists>v. js_get res ''error'' = Some v \<and> js_truthy (jt_zero jt) v)"
    using assms(3) by (auto simp: unwrap_def split: option.splits)
  have msg: "(case (if eg_message e = [] then None else Some (eg_message e)) of Some m \<Rightarrow> m | None \<Rightarrow> []) = eg_message e"
    by simp
  have status: "pr_status (project False Developer ''SCRIPT_ERROR'') = 422"
    by (simp add: project_def projected_park_def park_status_def)
  have sources: "eg_source (ssrf_block name m) = name" "eg_source (egress_unavailable name) = name"
    "eg_source (deny code m owner name) = name"
    by (simp_all add: ssrf_block_def egress_unavailable_def deny_def mux_fault_def)
  show ?thesis
    using thrown data msg status sources
    by (auto simp: uncaught_def js_get_to_tag egress_error_roundtrip [OF assms(2)] project_envelope_def
        project_retry_after class_simps)
qed

definition sample_text :: "egress_error \<Rightarrow> json_text" where
  "sample_text e = \<lparr>jt_print = (\<lambda>_. ''x''), jt_parse = (\<lambda>_. Some (to_tag e)), jt_zero = (\<lambda>_. False)\<rparr>"

theorem fault_reaches_script_witness:
  "uncaught False 4000 None (to_tag (egress_unavailable ''orders'')) =
     ScriptErr ''no egress backend is available for this capability'' None"
proof -
  let ?e = "egress_unavailable ''orders''"
  have "\<nexists>src. eg_source ?e = source_tag src"
  proof
    assume "\<exists>src. eg_source ?e = source_tag src"
    then obtain src where "''orders'' = source_tag src" by (auto simp: egress_unavailable_def mux_fault_def)
    then show False by (cases src) simp_all
  qed
  moreover have "jt_parse (sample_text ?e) (dynamic_fault_json (sample_text ?e) ?e) = Some (to_tag ?e)"
    and "eg_details ?e \<noteq> Some JNull" and "jt_parse (sample_text ?e) ''x'' = Some (to_tag ?e)"
    by (simp_all add: sample_text_def egress_unavailable_def mux_fault_def)
  ultimately show ?thesis
    using fault_reaches_script [of "sample_text ?e" ?e "''x''" "to_tag ?e" 4000 None False False]
    by (simp add: egress_unavailable_def mux_fault_def)
qed

end
