(* ===== verification/Engine.thy ===== *)
theory Engine
  imports Handler Mux
begin

text \<open>
  One execution: \<^verbatim>\<open>runlet-core/src/engine/mod.rs\<close>, the phases of \<^verbatim>\<open>engine/classify.rs\<close> and the injection rules of
  \<^verbatim>\<open>engine/inject.rs\<close>.

  QuickJS is the parameter: a \<open>script_run\<close> is what it did with a script, phase by phase, including the host functions the
  script called, in order. A theorem about all runs is a theorem about all scripts, whatever they compute from the
  replies. The model folds the host calls over the buffers and the outside world and assembles the result as the
  engine does. Calls of the \<open>s3\<close> capability are the subject of theory \<open>S3\<close>.
\<close>

subsection \<open>Profiles and injected authority\<close>

datatype profile = Full | Deterministic

text \<open>
  The ambient authorities the deterministic profile takes away, the two removed in every profile, and the native function
  behind the system library, which stays a global in both.
\<close>

datatype authority = Eval | ProxyCtor | MathRandom | DateNow | NewDate | SysNative | DatetimeNow | CryptoUuid

definition injected_authority :: "profile \<Rightarrow> authority list" where
  "injected_authority p =
     [Eval, ProxyCtor, MathRandom, DateNow, NewDate, SysNative] @ (case p of Full \<Rightarrow> [DatetimeNow, CryptoUuid] | Deterministic \<Rightarrow> [])"

definition sanitize_globals :: "authority list \<Rightarrow> authority list" where
  "sanitize_globals g = filter (\<lambda>a. a \<noteq> Eval \<and> a \<noteq> ProxyCtor) g"

definition sanitize_determinism :: "authority list \<Rightarrow> authority list" where
  "sanitize_determinism g = filter (\<lambda>a. a \<noteq> MathRandom \<and> a \<noteq> DateNow \<and> a \<noteq> NewDate) g"

definition harden :: "profile \<Rightarrow> authority list \<Rightarrow> authority list" where
  "harden p g =
     (let g1 = sanitize_globals g in case p of Deterministic \<Rightarrow> sanitize_determinism g1 | Full \<Rightarrow> g1)"

text \<open>
  What the handler body can use: the source is evaluated first and may keep references (\<open>captured\<close>) to what is there,
  then the globals are hardened.
\<close>

definition handler_authority :: "profile \<Rightarrow> authority list \<Rightarrow> authority list" where
  "handler_authority p captured =
     filter (\<lambda>a. a \<in> set captured) (injected_authority p) @ harden p (injected_authority p)"

subsection \<open>Evaluating the source\<close>

definition UNRESOLVED_MARKER :: string where
  "UNRESOLVED_MARKER = ''module not in registry''"

text \<open>\<^verbatim>\<open>str::lines\<close>: split on newlines, a trailing carriage return belongs to the terminator.\<close>

definition chomp :: "string \<Rightarrow> string" where
  "chomp l = (if l \<noteq> [] \<and> last l = CHR 0x0D then butlast l else l)"

definition is_es_module :: "string \<Rightarrow> bool" where
  "is_es_module script =
     list_ex (\<lambda>line. case strip_prefix ''export'' (trim_start (chomp line)) of
                       Some (c # rest) \<Rightarrow> c \<in> set [CHR '' '', CHR 0x09, CHR 0x7B, CHR ''*'']
                     | _ \<Rightarrow> False)
       (split_on CHR 0x0A script)"

fun contains_text :: "string \<Rightarrow> string \<Rightarrow> bool" where
  "contains_text needle [] = (needle = [])"
| "contains_text needle (c # cs) = (strip_prefix needle (c # cs) \<noteq> None \<or> contains_text needle cs)"

definition classify_module_error :: "string option \<Rightarrow> engine_error" where
  "classify_module_error message =
     (case message of
        Some msg \<Rightarrow> if contains_text UNRESOLVED_MARKER msg then ModuleNotFound msg else Syntax msg
      | None \<Rightarrow> Syntax ''syntax error'')"

definition classify_eval_error :: "string option \<Rightarrow> engine_error" where
  "classify_eval_error message = Syntax (case message of Some m \<Rightarrow> m | None \<Rightarrow> ''syntax error'')"

subsection \<open>Host calls\<close>

datatype host_call =
    HEmit string string
  | HLog string string string string nat
  | HIo string string string
  | HHttp string string string string

datatype eval_outcome = Evaluated bool | EvalThrows "string option"
datatype call_outcome = CallReturns "(string, string) result" | CallThrows thrown

record script_run =
  sr_context_error :: "string option"
  sr_setup_error :: "string option"
  sr_eval_calls :: "host_call list"
  sr_eval :: eval_outcome
  sr_harden_error :: "string option"
  sr_freeze_error :: "string option"
  sr_context_parses :: bool
  sr_handler_calls :: "host_call list"
  sr_call :: call_outcome
  sr_timed_out :: bool

record 'w exec_params =
  xp_script :: string
  xp_profile :: profile
  xp_timeout_ms :: nat
  xp_mux :: "'w mux_params"
  xp_allowed_hosts :: "string list"
  xp_max_ops :: nat
  xp_max_emit_kind_len :: nat
  xp_log_limits :: log_limits
  xp_max_output_size :: nat
  xp_allow_private :: bool
  xp_wildcard_hosts :: bool

record exec_env =
  xe_text :: json_text
  xe_dns :: "string \<Rightarrow> u16 \<Rightarrow> dns_answer"
  xe_http :: http_env
  xe_raw_ok :: "string \<Rightarrow> bool"

record 'w exec_state =
  es_emit :: emit_buffer
  es_log :: log_accumulator
  es_io :: "nat \<times> 'w"
  es_http :: "http_metric list"
  es_sent :: "(http_request \<times> parsed_url list) list"

definition exec_state_new :: "'w \<Rightarrow> 'w exec_state" where
  "exec_state_new w =
     \<lparr>es_emit = emit_buffer_new, es_log = log_accumulator_default, es_io = (0, w), es_http = [], es_sent = []\<rparr>"

definition mux_injected :: "'w exec_params \<Rightarrow> bool" where
  "mux_injected p \<longleftrightarrow> xp_profile p = Full \<and> inject_registry (xp_mux p) \<noteq> None"

definition http_injected :: "'w exec_params \<Rightarrow> bool" where
  "http_injected p \<longleftrightarrow> xp_profile p = Full \<and> xp_allowed_hosts p \<noteq> []"

text \<open>
  One call of a host function; a function that was not injected is absent, and calling it does nothing here. The native
  behind \<open>log\<close> knows no level floor: the wrapper compares with it (\<open>log_wrapper\<close>), and a script may call the native itself.
\<close>

fun host_step :: "exec_env \<Rightarrow> 'w exec_params \<Rightarrow> 'w exec_state \<Rightarrow> host_call \<Rightarrow> 'w exec_state" where
  "host_step env p st (HEmit kind value) =
     st\<lparr>es_emit := snd (emit_native (xp_max_ops p) (xp_max_emit_kind_len p) (es_emit st) kind value)\<rparr>"
| "host_step env p st (HLog level template properties message elapsed) =
     st\<lparr>es_log := snd (log_native (xp_log_limits p) (xp_profile p = Full) elapsed (es_log st)
                        level template properties message)\<rparr>"
| "host_step env p st (HIo name action payload) =
     (if mux_injected p
      then st\<lparr>es_io := snd (io_native (xe_text env) (xe_dns env) (xp_mux p) (es_io st) name action payload)\<rparr>
      else st)"
| "host_step env p st (HHttp verb url body headers) =
     (if http_injected p
      then (case http_call (xe_http env) (xp_allowed_hosts p) (xp_max_ops p) (xp_allow_private p) (xp_wildcard_hosts p)
                   (es_http st) verb url body headers of
              (reply, collector, sent) \<Rightarrow>
                st\<lparr>es_http := collector,
                   es_sent := es_sent st @ (case sent of Some r \<Rightarrow> [r] | None \<Rightarrow> [])\<rparr>)
      else st)"

text \<open>
  The function \<open>record\<close> of \<^verbatim>\<open>js/log.js\<close>: nothing below the floor, otherwise one call of the native. Merging the properties and
  rendering the message are the script's side.
\<close>

definition log_wrapper :: "log_level \<Rightarrow> log_level \<Rightarrow> string \<Rightarrow> string \<Rightarrow> string \<Rightarrow> nat \<Rightarrow> host_call list" where
  "log_wrapper floor level template properties message elapsed =
     (if log_level_ordinal level < log_level_ordinal floor then []
      else [HLog (log_level_as_str level) template properties message elapsed])"

subsection \<open>The run\<close>

definition resolve_handler :: "string \<Rightarrow> script_run \<Rightarrow> (engine_error, unit) result" where
  "resolve_handler script run =
     (case sr_eval run of
        EvalThrows message \<Rightarrow>
          Inl (if is_es_module script then classify_module_error message else classify_eval_error message)
      | Evaluated found \<Rightarrow>
          (case sr_harden_error run of
             Some e \<Rightarrow> Inl (Internal e)
           | None \<Rightarrow> if found then Inr () else Inl HandlerNotDefined))"

definition invoke_handler :: "nat \<Rightarrow> script_run \<Rightarrow> (engine_error, string) result" where
  "invoke_handler timeout_ms run =
     (if \<not> sr_context_parses run then Inl MemoryLimit
      else (case sr_call run of
              CallReturns (Inr json) \<Rightarrow> Inr json
            | CallReturns (Inl e) \<Rightarrow> Inl (Internal e)
            | CallThrows caught \<Rightarrow> Inl (classify_throw (sr_timed_out run) timeout_ms caught)))"

definition enforce_output_cap :: "(engine_error, string) result \<Rightarrow> nat \<Rightarrow> (engine_error, string) result" where
  "enforce_output_cap outcome max_output_size =
     (if max_output_size = 0 then outcome
      else (case outcome of
              Inr json \<Rightarrow> if max_output_size < length json then Inl (OutputTooLarge (length json) max_output_size) else outcome
            | Inl e \<Rightarrow> outcome))"

definition calls_made :: "string \<Rightarrow> script_run \<Rightarrow> host_call list" where
  "calls_made script run =
     (if sr_setup_error run \<noteq> None then []
      else sr_eval_calls run @
             (if is_ok (resolve_handler script run) \<and> sr_freeze_error run = None \<and> sr_context_parses run
              then sr_handler_calls run else []))"

text \<open>The closure of \<^verbatim>\<open>run\<close> over the fresh context: injection, evaluation and hardening, freezing, the handler.\<close>

definition js_result :: "string \<Rightarrow> nat \<Rightarrow> script_run \<Rightarrow> (engine_error, string) result" where
  "js_result script timeout_ms run =
     (case sr_setup_error run of
        Some e \<Rightarrow> Inl (Internal e)
      | None \<Rightarrow>
          (case resolve_handler script run of
             Inl e \<Rightarrow> Inl e
           | Inr u \<Rightarrow>
               (case sr_freeze_error run of
                  Some e \<Rightarrow> Inl (Internal e)
                | None \<Rightarrow> invoke_handler timeout_ms run)))"

record 'w exec_result =
  er_outcome :: "(engine_error, string) result"
  er_effects :: "effect list"
  er_logs :: "log_entry list"
  er_http_metrics :: "http_metric list"
  er_sent :: "(http_request \<times> parsed_url list) list"
  er_world :: 'w

definition engine_run ::
  "exec_env \<Rightarrow> 'w exec_params \<Rightarrow> script_run \<Rightarrow> 'w \<Rightarrow> (engine_error, 'w exec_result) result" where
  "engine_run env p run w =
     (case sr_context_error run of
        Some e \<Rightarrow> Inl (Internal e)
      | None \<Rightarrow>
          (let st = foldl (host_step env p) (exec_state_new w) (calls_made (xp_script p) run)
           in Inr \<lparr>er_outcome = enforce_output_cap (js_result (xp_script p) (xp_timeout_ms p) run) (xp_max_output_size p),
                   er_effects = drain_effects (xe_raw_ok env) (es_emit st),
                   er_logs = drain_logs (xe_raw_ok env) (es_log st), er_http_metrics = es_http st,
                   er_sent = es_sent st, er_world = snd (es_io st)\<rparr>))"

subsection \<open>Every channel sees its own calls only\<close>

definition emit_calls :: "host_call list \<Rightarrow> (string \<times> string) list" where
  "emit_calls cs = List.map_filter (\<lambda>c. case c of HEmit k v \<Rightarrow> Some (k, v) | _ \<Rightarrow> None) cs"

definition io_calls :: "host_call list \<Rightarrow> (string \<times> string \<times> string) list" where
  "io_calls cs = List.map_filter (\<lambda>c. case c of HIo n a p \<Rightarrow> Some (n, a, p) | _ \<Rightarrow> None) cs"

definition log_calls :: "'w exec_params \<Rightarrow> host_call list \<Rightarrow> pending_log list" where
  "log_calls p cs = List.map_filter
     (\<lambda>c. case c of
        HLog level template properties message elapsed \<Rightarrow>
          Some \<lparr>pl_level = (case log_level_parse level of Some l \<Rightarrow> l | None \<Rightarrow> LInfo), pl_template = template,
                pl_properties = properties, pl_message = message,
                pl_offset_us = (if xp_profile p = Full then Some elapsed else None)\<rparr>
      | _ \<Rightarrow> None) cs"

lemma emit_calls_simps [simp]:
  "emit_calls [] = []" "emit_calls (HEmit k v # cs) = (k, v) # emit_calls cs"
  "emit_calls (HLog l t q m e # cs) = emit_calls cs" "emit_calls (HIo n a y # cs) = emit_calls cs"
  "emit_calls (HHttp x u b h # cs) = emit_calls cs"
  by (simp_all add: emit_calls_def map_filter_simps)

lemma io_calls_simps [simp]:
  "io_calls [] = []" "io_calls (HIo n a y # cs) = (n, a, y) # io_calls cs"
  "io_calls (HLog l t q m e # cs) = io_calls cs" "io_calls (HEmit k v # cs) = io_calls cs"
  "io_calls (HHttp x u b h # cs) = io_calls cs"
  by (simp_all add: io_calls_def map_filter_simps)

lemma log_calls_simps [simp]:
  "log_calls p [] = []" "log_calls p (HEmit k v # cs) = log_calls p cs"
  "log_calls p (HIo n a y # cs) = log_calls p cs" "log_calls p (HHttp x u b h # cs) = log_calls p cs"
  "log_calls p (HLog l t q m e # cs) =
     \<lparr>pl_level = (case log_level_parse l of Some l' \<Rightarrow> l' | None \<Rightarrow> LInfo), pl_template = t, pl_properties = q,
      pl_message = m, pl_offset_us = (if xp_profile p = Full then Some e else None)\<rparr> # log_calls p cs"
  by (simp_all add: log_calls_def map_filter_simps)

lemma push_pair:
  "emit_push mo kl b (k, v) = snd (emit_native mo kl b k v)"
  "io_push jt dns mp st (n, a, y) = snd (io_native jt dns mp st n a y)"
  by (simp_all add: emit_push_def io_push_def)

text \<open>An HTTP call touches its own collector only.\<close>

lemma host_step_HHttp:
  "es_emit (host_step env p st (HHttp x u b h)) = es_emit st"
  "es_log (host_step env p st (HHttp x u b h)) = es_log st"
  "es_io (host_step env p st (HHttp x u b h)) = es_io st"
  by (simp_all split: prod.split)

lemma es_emit_run:
  "es_emit (foldl (host_step env p) st cs) = foldl (emit_push (xp_max_ops p) (xp_max_emit_kind_len p)) (es_emit st) (emit_calls cs)"
proof (induction cs arbitrary: st)
  case (Cons c cs)
  show ?case
  proof (cases c)
    case (HHttp x u b h)
    then show ?thesis using Cons [of "host_step env p st c"] by (simp add: host_step_HHttp del: host_step.simps)
  qed (simp_all add: Cons push_pair)
qed simp

lemma host_step_HLog:
  "\<not> la_poisoned (es_log st) \<Longrightarrow>
   es_log (host_step env p st (HLog l t q m e)) = foldl (log_push (xp_log_limits p)) (es_log st) (log_calls p [HLog l t q m e])"
  by (simp add: log_push_def log_native_def eq_commute)

lemma log_push_poisoned: "la_poisoned (log_push l acc pl) = la_poisoned acc"
  by (simp add: log_push_def capture_log_def Let_def)

lemma log_run_poisoned: "la_poisoned (foldl (log_push l) acc pls) = la_poisoned acc"
  by (induction pls arbitrary: acc) (simp_all add: log_push_poisoned)

lemma es_log_run:
  "\<not> la_poisoned (es_log st) \<Longrightarrow>
   es_log (foldl (host_step env p) st cs) = foldl (log_push (xp_log_limits p)) (es_log st) (log_calls p cs) \<and>
   \<not> la_poisoned (es_log (foldl (host_step env p) st cs))"
proof (induction cs arbitrary: st)
  case (Cons c cs)
  show ?case
  proof (cases c)
    case (HLog l t q m e)
    let ?st = "host_step env p st c"
    have e: "es_log ?st = foldl (log_push (xp_log_limits p)) (es_log st) (log_calls p [c])"
      using HLog host_step_HLog [OF Cons.prems] by (simp del: host_step.simps)
    then have "\<not> la_poisoned (es_log ?st)" using HLog Cons.prems by (simp add: log_push_poisoned)
    from Cons.IH [OF this] e show ?thesis
      using HLog Cons.prems by (simp add: log_run_poisoned log_push_poisoned del: host_step.simps)
  next
    case (HHttp x u b h)
    then show ?thesis
      using Cons.IH [of "host_step env p st c"] Cons.prems by (simp add: host_step_HHttp log_run_poisoned del: host_step.simps)
  qed (use Cons in \<open>simp_all add: log_run_poisoned\<close>)
qed simp

lemma es_io_run:
  "es_io (foldl (host_step env p) st cs) =
     (if mux_injected p then foldl (io_push (xe_text env) (xe_dns env) (xp_mux p)) (es_io st) (io_calls cs) else es_io st)"
proof (induction cs arbitrary: st)
  case (Cons c cs)
  show ?case
  proof (cases c)
    case (HHttp x u b h)
    then show ?thesis using Cons [of "host_step env p st c"] by (simp add: host_step_HHttp del: host_step.simps)
  qed (simp_all add: Cons push_pair)
qed simp

definition http_push :: "exec_env \<Rightarrow> 'w exec_params \<Rightarrow> http_metric list \<Rightarrow> string \<times> string \<times> string \<times> string \<Rightarrow> http_metric list"
where
  "http_push env p collector c =
     (case c of (verb, url, body, headers) \<Rightarrow>
        fst (snd (http_call (xe_http env) (xp_allowed_hosts p) (xp_max_ops p) (xp_allow_private p) (xp_wildcard_hosts p)
                    collector verb url body headers)))"

interpretation https: op_budget "http_push env p" length "xp_max_ops p" for env p
  by unfold_locales
     (auto simp: http_push_def http_call_def check_op_limit_def Let_def split: sum.split prod.split)

lemma es_http_step:
  "length (es_http st) \<le> xp_max_ops p \<Longrightarrow>
   length (es_http (host_step env p st c)) \<le> xp_max_ops p \<and>
   (\<not> http_injected p \<longrightarrow> es_http (host_step env p st c) = es_http st \<and> es_sent (host_step env p st c) = es_sent st)"
proof (cases c)
  case (HHttp verb url body headers)
  assume "length (es_http st) \<le> xp_max_ops p"
  from https.push_within [OF this, of env "(verb, url, body, headers)"] show ?thesis
    using \<open>length (es_http st) \<le> xp_max_ops p\<close> HHttp by (auto simp: http_push_def split: prod.split)
qed auto

lemma es_http_run:
  "length (es_http st) \<le> xp_max_ops p \<Longrightarrow>
   length (es_http (foldl (host_step env p) st cs)) \<le> xp_max_ops p \<and>
   (\<not> http_injected p \<longrightarrow>
      es_http (foldl (host_step env p) st cs) = es_http st \<and> es_sent (foldl (host_step env p) st cs) = es_sent st)"
proof (induction cs arbitrary: st)
  case (Cons c cs)
  have "length (es_http (host_step env p st c)) \<le> xp_max_ops p" using es_http_step [OF Cons.prems] by blast
  from Cons.IH [OF this] show ?case using es_http_step [OF Cons.prems, of env c] by auto
qed simp

subsection \<open>Properties\<close>

lemma log_offsets_deterministic:
  "xp_profile p = Deterministic \<Longrightarrow> pl \<in> set (log_calls p cs) \<Longrightarrow> pl_offset_us pl = None"
  by (induction cs) (auto simp: log_calls_def map_filter_simps split: host_call.splits)

lemma log_run_offsets:
  "(\<And>pl. pl \<in> set pls \<Longrightarrow> pl_offset_us pl = None) \<Longrightarrow> (\<And>r. r \<in> set (la_entries acc) \<Longrightarrow> rl_offset_us r = None) \<Longrightarrow>
   r \<in> set (la_entries (foldl (log_push l) acc pls)) \<Longrightarrow> rl_offset_us r = None"
proof (induction pls arbitrary: acc)
  case (Cons pl pls)
  have "rl_offset_us r' = None" if "r' \<in> set (la_entries (log_push l acc pl))" for r'
    using that Cons.prems(1) [of pl] Cons.prems(2) by (auto simp: log_push_def capture_log_def Let_def split: if_splits)
  then show ?case using Cons.IH [of "log_push l acc pl"] Cons.prems(1,3) by simp
qed simp

text \<open>An execution is contained. Whatever a script does, in every phase and however it ends: its effects are exactly its
  first \<open>max_ops\<close> well-tagged \<open>emit\<close> calls; it changes the outside world through the mux only by permitted calls, at most
  \<open>max_ops\<close>; it makes at most \<open>max_ops\<close> HTTP calls; a result over the output cap never leaves the engine; and under the
  deterministic profile it changes nothing outside, sends nothing and its log carries no timing.\<close>

lemma engine_run_contained:
  assumes "engine_run env p run w = Inr r"
  shows "er_effects r =
      map (\<lambda>(kind, value). \<lparr>ef_kind = kind, ef_value = value\<rparr>)
        (filter (\<lambda>e. xe_raw_ok env (snd e))
          (take (xp_max_ops p) (filter (well_tagged (xp_max_emit_kind_len p)) (emit_calls (calls_made (xp_script p) run))))) \<and>
   (\<exists>n \<le> mp_max_ops (xp_mux p). (w, er_world r) \<in> permitted_step (xe_dns env) (xp_mux p) ^^ n) \<and>
   length (er_http_metrics r) \<le> xp_max_ops p \<and>
   (er_outcome r = Inr json \<longrightarrow> xp_max_output_size p = 0 \<or> length json \<le> xp_max_output_size p) \<and>
   (xp_profile p = Deterministic \<longrightarrow>
      er_world r = w \<and> er_http_metrics r = [] \<and>
      er_sent r = [] \<and>
      (\<forall>entry \<in> set (er_logs r). le_offset_us entry = None))"
proof -
  let ?cs = "calls_made (xp_script p) run"
  let ?st = "foldl (host_step env p) (exec_state_new w) ?cs"
  have emit: "eb_items (es_emit ?st) =
      take (xp_max_ops p) (filter (well_tagged (xp_max_emit_kind_len p)) (emit_calls ?cs)) \<and> \<not> eb_poisoned (es_emit ?st)"
    using emits_from [of emit_buffer_new "xp_max_ops p" "xp_max_emit_kind_len p" "emit_calls ?cs"]
    by (simp add: es_emit_run exec_state_new_def emit_buffer_new_def)
  have io: "es_io ?st = (if mux_injected p then foldl (io_push (xe_text env) (xe_dns env) (xp_mux p)) (0, w) (io_calls ?cs) else (0, w))"
    by (simp add: es_io_run exec_state_new_def)
  have reach: "\<exists>n \<le> mp_max_ops (xp_mux p). (w, snd (es_io ?st)) \<in> permitted_step (xe_dns env) (xp_mux p) ^^ n"
  proof (cases "mux_injected p")
    case True
    then show ?thesis using io permitted_within [of "xp_mux p" w "xe_text env" "xe_dns env" "io_calls ?cs"] by simp
  next
    case False
    then show ?thesis using io by (intro exI [of _ 0]) simp
  qed
  have http: "length (es_http ?st) \<le> xp_max_ops p" "\<not> http_injected p \<Longrightarrow> es_http ?st = [] \<and> es_sent ?st = []"
    using es_http_run [of "exec_state_new w" p env ?cs] by (simp_all add: exec_state_new_def)
  have logs: "es_log ?st = foldl (log_push (xp_log_limits p)) log_accumulator_default (log_calls p ?cs)"
    using es_log_run [of "exec_state_new w" env p ?cs] by (simp add: exec_state_new_def log_accumulator_default_def)
  have timing: "rl_offset_us r = None" if "xp_profile p = Deterministic" "r \<in> set (la_entries (es_log ?st))" for r
    using that log_run_offsets [of "log_calls p ?cs" log_accumulator_default r "xp_log_limits p"] log_offsets_deterministic [OF that(1)]
    by (simp add: logs log_accumulator_default_def)
  have cap: "er_outcome r = Inr json \<longrightarrow> xp_max_output_size p = 0 \<or> length json \<le> xp_max_output_size p"
    using assms by (auto simp: engine_run_def enforce_output_cap_def Let_def split: option.splits sum.splits if_splits)
  have det: "xp_profile p = Deterministic \<Longrightarrow> \<not> mux_injected p \<and> \<not> http_injected p"
    by (simp add: mux_injected_def http_injected_def)
  have r: "er_effects r = drain_effects (xe_raw_ok env) (es_emit ?st)" "er_world r = snd (es_io ?st)"
    "er_logs r = drain_logs (xe_raw_ok env) (es_log ?st)" "er_http_metrics r = es_http ?st" "er_sent r = es_sent ?st"
    using assms by (auto simp: engine_run_def Let_def split: option.splits)
  have effects: "er_effects r =
      map (\<lambda>(kind, value). \<lparr>ef_kind = kind, ef_value = value\<rparr>)
        (filter (\<lambda>e. xe_raw_ok env (snd e))
          (take (xp_max_ops p) (filter (well_tagged (xp_max_emit_kind_len p)) (emit_calls ?cs))))"
    using emit by (simp add: r drain_effects_def)
  have quiet: "er_world r = w \<and> er_http_metrics r = [] \<and> er_sent r = [] \<and>
      (\<forall>entry \<in> set (er_logs r). le_offset_us entry = None)" if "xp_profile p = Deterministic"
    using det [OF that] http(2) io timing [OF that] by (auto simp: r drain_logs_def)
  have "\<exists>n \<le> mp_max_ops (xp_mux p). (w, er_world r) \<in> permitted_step (xe_dns env) (xp_mux p) ^^ n"
    and "length (er_http_metrics r) \<le> xp_max_ops p"
    using reach http(1) by (simp_all only: r)
  then show ?thesis using effects cap quiet by blast
qed

text \<open>
  What was sent: one recorded call per request, each to a validated URL, and redirects within the policy. What was
  logged: entries and bytes within their limits.
\<close>

definition sent_ok :: "exec_env \<Rightarrow> 'w exec_params \<Rightarrow> http_request \<times> parsed_url list \<Rightarrow> bool" where
  "sent_ok env p s \<longleftrightarrow>
     is_ok (validate_url (he_parse (xe_http env)) (he_dns (xe_http env)) (hr_url (fst s)) (xp_allowed_hosts p)
              (xp_allow_private p) (xp_wildcard_hosts p)) \<and>
     length (snd s) \<le> 4 \<and>
     list_all (hop_allowed (he_dns (xe_http env)) (xp_allowed_hosts p) (xp_allow_private p) (xp_wildcard_hosts p)) (snd s)"

lemma http_call_sent:
  assumes "http_call (xe_http env) (xp_allowed_hosts p) mo (xp_allow_private p) (xp_wildcard_hosts p) col verb url body headers =
      (reply, col', sent)"
  shows "length col \<le> length col' \<and> (sent \<noteq> None \<longrightarrow> length col' = Suc (length col)) \<and>
    (\<forall>s. sent = Some s \<longrightarrow> sent_ok env p s)"
  using assms redirects_bounded_and_checked [of "he_dns (xe_http env)" "xp_allowed_hosts p" "xp_allow_private p" "xp_wildcard_hosts p"]
  by (auto simp: http_call_def check_op_limit_def sent_ok_def is_ok_iff Let_def split: sum.splits prod.splits if_splits)

lemma es_sent_run:
  "length (es_sent st) \<le> length (es_http st) \<Longrightarrow> list_all (sent_ok env p) (es_sent st) \<Longrightarrow>
   length (es_sent (foldl (host_step env p) st cs)) \<le> length (es_http (foldl (host_step env p) st cs)) \<and>
   list_all (sent_ok env p) (es_sent (foldl (host_step env p) st cs))"
proof (induction cs arbitrary: st)
  case (Cons c cs)
  have "length (es_sent (host_step env p st c)) \<le> length (es_http (host_step env p st c)) \<and>
      list_all (sent_ok env p) (es_sent (host_step env p st c))"
  proof (cases c)
    case (HHttp verb url body headers)
    obtain reply col' sent where h: "http_call (xe_http env) (xp_allowed_hosts p) (xp_max_ops p) (xp_allow_private p)
        (xp_wildcard_hosts p) (es_http st) verb url body headers = (reply, col', sent)" by (metis prod_cases3)
    show ?thesis using http_call_sent [OF h] Cons.prems by (cases sent) (auto simp: HHttp h)
  qed (use Cons.prems in auto)
  then show ?case using Cons.IH [of "host_step env p st c"] by simp
qed simp

lemma engine_run_sent:
  assumes "engine_run env p run w = Inr r"
  shows "length (er_sent r) \<le> length (er_http_metrics r) \<and> list_all (sent_ok env p) (er_sent r)"
  using assms es_sent_run [of "exec_state_new w" env p]
  by (auto simp: engine_run_def exec_state_new_def Let_def split: option.splits)

definition entry_size :: "log_entry \<Rightarrow> nat" where
  "entry_size e = length (le_template e) + length (le_properties e) + length (le_message e)"

lemma sum_list_filter_le: "sum_list (map f (filter P xs)) \<le> sum_list (map (f :: 'a \<Rightarrow> nat) xs)"
  by (induction xs) auto

lemma drain_logs_sizes:
  "sum_list (map entry_size (drain_logs raw_ok acc)) \<le> sum_list (map raw_size (la_entries acc))"
  "e \<in> set (drain_logs raw_ok acc) \<Longrightarrow>
   \<exists>r \<in> set (la_entries acc). entry_size e = raw_size r \<and> le_template e = rl_template r"
proof -
  have "map entry_size (drain_logs raw_ok acc) =
      (if la_poisoned acc then [] else map raw_size (filter (\<lambda>r. raw_ok (rl_properties r)) (la_entries acc)))"
    by (simp add: drain_logs_def entry_size_def raw_size_def)
  then show "sum_list (map entry_size (drain_logs raw_ok acc)) \<le> sum_list (map raw_size (la_entries acc))"
    by (simp add: sum_list_filter_le)
  show "e \<in> set (drain_logs raw_ok acc) \<Longrightarrow>
      \<exists>r \<in> set (la_entries acc). entry_size e = raw_size r \<and> le_template e = rl_template r"
    by (auto simp: drain_logs_def entry_size_def raw_size_def split: if_splits)
qed

lemma engine_run_logs:
  assumes "engine_run env p run w = Inr r"
  shows "length (er_logs r) \<le> ll_max_entries (xp_log_limits p)"
    and "limits_fit (xp_log_limits p) \<Longrightarrow>
      sum_list (map entry_size (er_logs r)) \<le> ll_max_total_bytes (xp_log_limits p) \<and>
      (\<forall>e \<in> set (er_logs r). entry_size e \<le> max (ll_max_entry_bytes (xp_log_limits p)) (length (le_template e) + 18))"
proof -
  let ?st = "foldl (host_step env p) (exec_state_new w) (calls_made (xp_script p) run)"
  let ?calls = "log_calls p (calls_made (xp_script p) run)"
  have acc: "es_log ?st = foldl (log_push (xp_log_limits p)) log_accumulator_default ?calls"
    using es_log_run [of "exec_state_new w" env p] by (simp add: exec_state_new_def log_accumulator_default_def)
  then have "length (la_entries (es_log ?st)) \<le> ll_max_entries (xp_log_limits p)"
    using logs.run_within [of log_accumulator_default "xp_log_limits p"] by (simp add: log_accumulator_default_def)
  moreover have r: "er_logs r = drain_logs (xe_raw_ok env) (es_log ?st)"
    using assms by (auto simp: engine_run_def Let_def split: option.splits)
  ultimately show "length (er_logs r) \<le> ll_max_entries (xp_log_limits p)"
    by (auto simp: drain_logs_def intro: order_trans [OF length_filter_le])
  show "sum_list (map entry_size (er_logs r)) \<le> ll_max_total_bytes (xp_log_limits p) \<and>
      (\<forall>e \<in> set (er_logs r). entry_size e \<le> max (ll_max_entry_bytes (xp_log_limits p)) (length (le_template e) + 18))"
    if fit: "limits_fit (xp_log_limits p)"
  proof -
    from logs_bounded [OF fit, of ?calls] have
      t: "sum_list (map raw_size (la_entries (es_log ?st))) \<le> ll_max_total_bytes (xp_log_limits p)" and
      e: "\<forall>x \<in> set (la_entries (es_log ?st)). raw_size x \<le> max (ll_max_entry_bytes (xp_log_limits p)) (length (rl_template x) + 18)"
      unfolding acc by blast+
    show ?thesis
      unfolding r using order_trans [OF drain_logs_sizes(1) t] e drain_logs_sizes(2) by metis
  qed
qed

text \<open>
  The level floor is a courtesy of the wrapper. Calls made through it are never below the floor; a script that calls the
  native itself records an entry of any level.
\<close>

lemma log_floor_by_wrapper:
  "HLog l t q m e \<in> set (log_wrapper floor level template properties message elapsed) \<Longrightarrow>
   log_level_parse l = Some level \<and> log_level_ordinal floor \<le> log_level_ordinal level"
  by (auto simp: log_wrapper_def log_level_parse_as_str split: if_splits)

lemma log_floor_bypassed:
  assumes "limits_fit (xp_log_limits p)" and "0 < ll_max_entries (xp_log_limits p)" and "0 < ll_max_entry_bytes (xp_log_limits p)"
    and "0 < ll_max_total_bytes (xp_log_limits p)"
  shows "map rl_level (la_entries (es_log (host_step env p (exec_state_new w) (HLog ''trace'' ''t'' [] [] e)))) = [LTrace]"
proof -
  have "log_level_parse ''trace'' = Some LTrace" by (simp add: log_level_parse_def)
  then show ?thesis
    using assms by (simp add: exec_state_new_def log_native_def log_accumulator_default_def capture_log_exact kept_as_def
        pending_size_def raw_size_def)
qed

definition sample_script :: script_run where
  "sample_script =
     \<lparr>sr_context_error = None, sr_setup_error = None, sr_eval_calls = [], sr_eval = Evaluated True,
      sr_harden_error = None, sr_freeze_error = None, sr_context_parses = True,
      sr_handler_calls = [HEmit ''a'' ''1'', HIo ''db'' ''get'' ''{}'', HEmit ''b'' ''2'', HEmit ''c'' ''3''],
      sr_call = CallReturns (Inr ''{}''), sr_timed_out = False\<rparr>"

end
