(* ===== verification/Wire.thy ===== *)
theory Wire
  imports Handler
begin

text \<open>
  The wire contract between the box and its egress broker: the frames of \<^verbatim>\<open>runlet-wire/src/wire.rs\<close>. A stream is the
  list of bytes that arrive before its end; serde's encoder and decoder are the arguments \<open>enc\<close> and \<open>dec\<close>.
\<close>

unbundle bit_operations_syntax

subsection \<open>Messages\<close>

record wire_call =
  wc_name :: string
  wc_action :: string
  wc_payload :: string

datatype wire_request = Init wire_init | Call wire_call | Drain

datatype wire_response =
    Ack
  | InitError string string
  | Reply "(egress_error, string) result"
  | Metrics backend_metrics
  | ProtocolError string

text \<open>The hand-written \<^verbatim>\<open>Debug\<close> of the handshake record, field by field: the token shows only its presence.\<close>

datatype debug_field = DebugList "string list" | DebugNum u64 | DebugOpt "string option"

definition wire_init_debug :: "wire_init \<Rightarrow> (string \<times> debug_field) list" where
  "wire_init_debug i =
     [(''resources'', DebugList (wi_resources i)), (''timeout_ms'', DebugNum (wi_timeout_ms i)),
      (''tenant'', DebugOpt (wi_tenant i)), (''actor'', DebugOpt (wi_actor i)),
      (''principal_kind'', DebugOpt (wi_principal_kind i)), (''on_behalf_of'', DebugOpt (wi_on_behalf_of i)),
      (''token'', DebugOpt (map_option (\<lambda>_. ''<redacted>'') (wi_token i)))]"

lemma token_redacted: "wire_init_debug (i\<lparr>wi_token := Some t\<rparr>) = wire_init_debug (i\<lparr>wi_token := Some t'\<rparr>)"
  by (simp add: wire_init_debug_def)

subsection \<open>Framing\<close>

definition MAX_FRAME_BYTES :: u32 where
  "MAX_FRAME_BYTES = 64 * 1024 * 1024"

definition to_le_bytes :: "u32 \<Rightarrow> u8 list" where
  "to_le_bytes w = [ucast w, ucast (drop_bit 8 w), ucast (drop_bit 16 w), ucast (drop_bit 24 w)]"

fun from_le_bytes :: "u8 list \<Rightarrow> u32" where
  "from_le_bytes [a, b, c, d] =
     ucast a OR push_bit 8 (ucast b) OR push_bit 16 (ucast c) OR push_bit 24 (ucast d)"
| "from_le_bytes _ = 0"

datatype io_error =
    NotSerializable
  | TooLargeToEncode
  | ExceedsSizeCap
  | UnexpectedEof
  | BadPayload
  | Transport string

text \<open>\<^verbatim>\<open>write_frame\<close>: the bytes put on the stream.\<close>

definition write_frame :: "('a \<Rightarrow> u8 list option) \<Rightarrow> 'a \<Rightarrow> (io_error, u8 list) result" where
  "write_frame enc v =
     (case enc v of
        None \<Rightarrow> Inl NotSerializable
      | Some bytes \<Rightarrow>
          if 2 ^ 32 \<le> length bytes then Inl TooLargeToEncode
          else let len = of_nat (length bytes)
               in if MAX_FRAME_BYTES < len then Inl ExceedsSizeCap else Inr (to_le_bytes len @ bytes))"

text \<open>
  \<^verbatim>\<open>read_frame\<close> on what is left of the stream; \<open>None\<close> is the end of the session. A short read of the length prefix is
  \<^verbatim>\<open>UnexpectedEof\<close> of \<^verbatim>\<open>read_exact\<close>, wherever in the prefix the stream ends.
\<close>

definition read_frame :: "(u8 list \<Rightarrow> 'a option) \<Rightarrow> u8 list \<Rightarrow> (io_error, ('a \<times> u8 list) option) result" where
  "read_frame dec inp =
     (if length inp < 4 then Inr None
      else let len = from_le_bytes (take 4 inp);
               body = drop 4 inp;
               size = unat len
           in if MAX_FRAME_BYTES < len then Inl ExceedsSizeCap
              else if length body < size then Inl UnexpectedEof
              else (case dec (take size body) of
                      None \<Rightarrow> Inl BadPayload
                    | Some v \<Rightarrow> Inr (Some (v, drop size body))))"

subsection \<open>Frames survive the stream\<close>

lemma length_to_le_bytes [simp]: "length (to_le_bytes w) = 4"
  by (simp add: to_le_bytes_def)

lemma from_to_le_bytes [simp]: "from_le_bytes (to_le_bytes w) = w"
proof (rule bit_word_eqI)
  fix n
  assume "n < LENGTH(32)"
  then show "bit (from_le_bytes (to_le_bytes w)) n = bit w n"
    by (cases "n < 16"; cases "n < 24") (auto simp: to_le_bytes_def bit_simps)
qed

lemma write_frame_ok:
  "write_frame enc v = Inr out \<longleftrightarrow>
     (\<exists>bytes. enc v = Some bytes \<and> length bytes \<le> 64 * 1024 * 1024 \<and> out = to_le_bytes (of_nat (length bytes)) @ bytes)"
proof -
  have le: "MAX_FRAME_BYTES < of_nat n \<longleftrightarrow> 64 * 1024 * 1024 < n" if "n < 2 ^ 32" for n
    using that by (simp add: MAX_FRAME_BYTES_def word_less_nat_alt unat_of_nat)
  show ?thesis
    by (auto simp: write_frame_def Let_def le not_le not_less split: option.splits if_splits)
qed

lemma read_written:
  assumes "write_frame enc v = Inr out" and "\<And>bytes. enc v = Some bytes \<Longrightarrow> dec bytes = Some v"
  shows "read_frame dec (out @ rest) = Inr (Some (v, rest))"
proof -
  obtain bytes where b: "enc v = Some bytes" "length bytes \<le> 64 * 1024 * 1024"
      "out = to_le_bytes (of_nat (length bytes)) @ bytes"
    using assms(1) by (auto simp: write_frame_ok)
  have "unat (of_nat (length bytes) :: u32) = length bytes" using b(2) by (simp add: unat_of_nat)
  moreover have "\<not> MAX_FRAME_BYTES < (of_nat (length bytes) :: u32)"
    using b(2) by (simp add: MAX_FRAME_BYTES_def word_less_nat_alt unat_of_nat)
  ultimately show ?thesis using b assms(2) by (simp add: read_frame_def Let_def)
qed

text \<open>Writing a list of messages one after the other, and reading until the stream ends.\<close>

fun write_frames :: "('a \<Rightarrow> u8 list option) \<Rightarrow> 'a list \<Rightarrow> (io_error, u8 list) result" where
  "write_frames enc [] = Inr []"
| "write_frames enc (v # vs) =
     (case write_frame enc v of
        Inl e \<Rightarrow> Inl e
      | Inr out \<Rightarrow> (case write_frames enc vs of Inl e \<Rightarrow> Inl e | Inr outs \<Rightarrow> Inr (out @ outs)))"

function read_frames :: "(u8 list \<Rightarrow> 'a option) \<Rightarrow> u8 list \<Rightarrow> (io_error, 'a list) result" where
  "read_frames dec inp =
     (case read_frame dec inp of
        Inl e \<Rightarrow> Inl e
      | Inr None \<Rightarrow> Inr []
      | Inr (Some (v, rest)) \<Rightarrow> (case read_frames dec rest of Inl e \<Rightarrow> Inl e | Inr vs \<Rightarrow> Inr (v # vs)))"
  by pat_completeness auto
termination
  by (relation "measure (\<lambda>(dec, inp). length inp)")
     (auto simp: read_frame_def Let_def split: if_splits option.splits)

declare read_frames.simps [simp del]

lemma read_frames_written:
  "write_frames enc vs = Inr out \<Longrightarrow> (\<And>v bytes. v \<in> set vs \<Longrightarrow> enc v = Some bytes \<Longrightarrow> dec bytes = Some v) \<Longrightarrow>
   read_frames dec out = Inr vs"
proof (induction vs arbitrary: out)
  case Nil
  then show ?case by (subst read_frames.simps) (simp add: read_frame_def)
next
  case (Cons v vs)
  obtain o1 o2 where o: "write_frame enc v = Inr o1" "write_frames enc vs = Inr o2" "out = o1 @ o2"
    using Cons.prems(1) by (auto split: sum.splits)
  have "read_frame dec out = Inr (Some (v, o2))"
    unfolding o(3) using Cons.prems(2) by (intro read_written [OF o(1)]) simp
  then show ?case using Cons.IH [OF o(2)] Cons.prems(2) by (subst read_frames.simps) simp
qed

text \<open>C31: frames survive the stream. Any list of messages whose encodings fit the cap and decode back is read back
  exactly, in order, from the stream their frames were written to; a message is refused by the writer exactly when it
  does not serialise or its encoding is over \<open>64 MiB\<close>.\<close>

theorem frames_roundtrip:
  assumes "\<forall>v \<in> set vs. \<exists>bytes. enc v = Some bytes \<and> dec bytes = Some v"
  shows "(is_ok (write_frames enc vs) \<longleftrightarrow> (\<forall>v \<in> set vs. length (the (enc v)) \<le> 64 * 1024 * 1024)) \<and>
    (\<forall>out. write_frames enc vs = Inr out \<longrightarrow> read_frames dec out = Inr vs)"
proof -
  have "is_ok (write_frames enc vs) \<longleftrightarrow> (\<forall>v \<in> set vs. is_ok (write_frame enc v))"
    by (induction vs) (auto simp: is_ok_iff split: sum.splits)
  moreover have "is_ok (write_frame enc v) \<longleftrightarrow> length (the (enc v)) \<le> 64 * 1024 * 1024" if "v \<in> set vs" for v
    using assms that by (auto simp: is_ok_iff write_frame_ok)
  moreover have "read_frames dec out = Inr vs" if "write_frames enc vs = Inr out" for out
    using read_frames_written [OF that, of dec] assms by fastforce
  ultimately show ?thesis by auto
qed

theorem frames_roundtrip_witness:
  "\<exists>out. write_frames Some [[1 :: u8, 2], [3]] = Inr out \<and> read_frames Some out = Inr [[1, 2], [3]]"
proof -
  have ok: "is_ok (write_frames Some [[1 :: u8, 2], [3]])"
    using frames_roundtrip [of "[[1, 2], [3]]" Some Some] by simp
  then obtain out where "write_frames Some [[1 :: u8, 2], [3]] = Inr out" by (auto simp: is_ok_iff)
  then show ?thesis using frames_roundtrip [of "[[1, 2], [3]]" Some Some] by auto
qed

text \<open>Reading is total, bounded and rejects damage. No frame longer than the cap is ever decoded, whatever the bytes; a
  frame cut after its length prefix is an error; a frame cut within its length prefix reads as the clean end of the
  session; and the frame of an over-long prefix is refused before its body.\<close>

lemma read_frame_damage:
  assumes "write_frame enc v = Inr out" and "k < length out"
  shows "(4 \<le> k \<longrightarrow> read_frame dec (take k out) = Inl UnexpectedEof) \<and>
    (k < 4 \<longrightarrow> read_frame dec (take k out) = Inr None) \<and>
    (\<forall>inp w rest. read_frame dec inp = Inr (Some (w, rest)) \<longrightarrow>
       (\<exists>body. dec body = Some w \<and> length body \<le> 64 * 1024 * 1024 \<and> inp = take 4 inp @ body @ rest)) \<and>
    (MAX_FRAME_BYTES < len \<longrightarrow> read_frame dec (to_le_bytes len @ tail) = Inl ExceedsSizeCap)"
proof -
  obtain bytes where b: "length bytes \<le> 64 * 1024 * 1024" "out = to_le_bytes (of_nat (length bytes)) @ bytes"
    using assms(1) by (auto simp: write_frame_ok)
  have u: "unat (of_nat (length bytes) :: u32) = length bytes" using b(1) by (simp add: unat_of_nat)
  have cap: "\<not> MAX_FRAME_BYTES < (of_nat (length bytes) :: u32)"
    using b(1) by (simp add: MAX_FRAME_BYTES_def word_less_nat_alt unat_of_nat)
  have "read_frame dec (take k out) = Inl UnexpectedEof" if "4 \<le> k"
  proof -
    have "k - 4 < length bytes" using that assms(2) b(2) by simp
    then show ?thesis using that b(2) u cap by (simp add: read_frame_def Let_def)
  qed
  moreover have "read_frame dec (take k out) = Inr None" if "k < 4"
    using that assms(2) by (simp add: read_frame_def)
  moreover have "\<exists>body. dec body = Some w \<and> length body \<le> 64 * 1024 * 1024 \<and> inp = take 4 inp @ body @ rest"
    if r: "read_frame dec inp = Inr (Some (w, rest))" for inp w rest
  proof -
    let ?n = "unat (from_le_bytes (take 4 inp))"
    have "dec (take ?n (drop 4 inp)) = Some w" "rest = drop ?n (drop 4 inp)"
      "\<not> MAX_FRAME_BYTES < from_le_bytes (take 4 inp)"
      using r by (auto simp: read_frame_def Let_def split: if_splits option.splits)
    moreover from this(3) have "?n \<le> 64 * 1024 * 1024"
      by (simp add: MAX_FRAME_BYTES_def word_less_nat_alt not_less)
    ultimately show ?thesis
      by (intro exI [of _ "take ?n (drop 4 inp)"]) (simp add: min.coboundedI2 del: drop_drop)
  qed
  moreover have "read_frame dec (to_le_bytes len @ tail) = Inl ExceedsSizeCap" if "MAX_FRAME_BYTES < len"
    using that by (simp add: read_frame_def Let_def)
  ultimately show ?thesis by blast
qed

end
