(* ===== verification/Broker.thy ===== *)
theory Broker
  imports Wire Mux
begin

text \<open>
  The egress side of a request: the broker client (\<^verbatim>\<open>runlet/src/broker.rs\<close>), the certificate pin of its QUIC transport
  (\<^verbatim>\<open>runlet-wire/src/quic.rs\<close>). Box-direct calls are in theory \<open>Local_Io\<close>.

  The broker process is a parameter: \<open>bv_serve\<close> answers a request and changes its state. A session is a stream in each
  direction, so what the broker answered and the box has not read yet stays in the session (\<open>sc_inbox\<close>). How an
  exchange ends is decided outside: its \<open>fate\<close>. An await that never ends is \<open>Never\<close>; \<^verbatim>\<open>tokio::time::timeout\<close> turns it
  into an error and drops the exchange where it stands. Name lookup, dialling and opening a stream, the token file,
  the HTTP client and hex decoding are arguments.
\<close>

subsection \<open>Transport selection\<close>

datatype box_auth = NoAuth | StaticToken string | ServiceAccountFile string

record quic_client =
  qc_replicas :: "string list"
  qc_server_name :: string
  qc_pin :: "u8 list"
  qc_auth :: box_auth

datatype broker_transport = NoBroker | Uds string | Quic quic_client

definition box_auth_token :: "(string \<Rightarrow> (string, string) result) \<Rightarrow> box_auth \<Rightarrow> (string, string option) result" where
  "box_auth_token read_file auth =
     (case auth of
        NoAuth \<Rightarrow> Inr None
      | StaticToken secret \<Rightarrow> Inr (Some secret)
      | ServiceAccountFile path \<Rightarrow>
          (case read_file path of Inl e \<Rightarrow> Inl e | Inr content \<Rightarrow> Inr (Some (trim content))))"

definition build_auth :: "broker_quic \<Rightarrow> (string, box_auth) result" where
  "build_auth quic =
     (case (bq_auth_token quic, bq_auth_token_file quic) of
        (Some t, Some p) \<Rightarrow> Inl ''set only one of broker_quic.auth_token / auth_token_file''
      | (Some t, None) \<Rightarrow> Inr (StaticToken t)
      | (None, Some p) \<Rightarrow> Inr (ServiceAccountFile p)
      | (None, None) \<Rightarrow> Inr NoAuth)"

definition parse_pin :: "(string \<Rightarrow> (string, u8 list) result) \<Rightarrow> string \<Rightarrow> (string, u8 list) result" where
  "parse_pin hex_decode hex_pin =
     (case hex_decode (trim hex_pin) of
        Inl e \<Rightarrow> Inl (''invalid server_cert_pin hex: '' @ e)
      | Inr bytes \<Rightarrow>
          if length bytes = 32 then Inr bytes else Inl ''server_cert_pin must be 32 bytes (64 hex chars)'')"

definition quic_client_from_config ::
  "(string \<Rightarrow> (string, u8 list) result) \<Rightarrow> (u8 list \<Rightarrow> (string, unit) result) \<Rightarrow> broker_quic \<Rightarrow> (string, quic_client) result"
where
  "quic_client_from_config hex_decode client_endpoint quic =
     (case parse_pin hex_decode (bq_server_cert_pin quic) of
        Inl e \<Rightarrow> Inl e
      | Inr pin \<Rightarrow>
          (case client_endpoint pin of
             Inl e \<Rightarrow> Inl e
           | Inr u \<Rightarrow>
               (case build_auth quic of
                  Inl e \<Rightarrow> Inl e
                | Inr auth \<Rightarrow>
                    Inr \<lparr>qc_replicas = bq_replicas quic, qc_server_name = bq_server_name quic, qc_pin = pin,
                         qc_auth = auth\<rparr>)))"

definition transport_from_config ::
  "(string \<Rightarrow> (string, u8 list) result) \<Rightarrow> (u8 list \<Rightarrow> (string, unit) result) \<Rightarrow> string option \<Rightarrow>
   broker_quic option \<Rightarrow> (string, broker_transport) result" where
  "transport_from_config hex_decode client_endpoint socket quic =
     (case quic of
        Some quic_cfg \<Rightarrow>
          if bq_replicas quic_cfg = [] then Inl ''broker_quic.replicas must not be empty''
          else (case quic_client_from_config hex_decode client_endpoint quic_cfg of
                  Inl e \<Rightarrow> Inl e
                | Inr client \<Rightarrow> Inr (Quic client))
      | None \<Rightarrow> Inr (case socket of None \<Rightarrow> NoBroker | Some path \<Rightarrow> Uds path))"

fun transport_label :: "broker_transport \<Rightarrow> string" where
  "transport_label NoBroker = ''none''"
| "transport_label (Uds path) = ''uds''"
| "transport_label (Quic client) = ''quic''"

text \<open>The certificate check of the client endpoint; \<open>sha256\<close> is the digest.\<close>

definition cert_fingerprint :: "(u8 list \<Rightarrow> u8 list) \<Rightarrow> u8 list \<Rightarrow> u8 list" where
  "cert_fingerprint sha256 cert_der = sha256 cert_der"

definition verify_server_cert :: "(u8 list \<Rightarrow> u8 list) \<Rightarrow> u8 list \<Rightarrow> u8 list \<Rightarrow> string \<Rightarrow> (string, unit) result" where
  "verify_server_cert sha256 pin end_entity server_name =
     (if cert_fingerprint sha256 end_entity = pin then Inr ()
      else Inl ''fabricd server certificate fingerprint does not match the configured pin'')"

subsection \<open>QUIC connections\<close>

text \<open>What dialling meets at one moment: the name server, the replicas, which connections live, opening a stream.\<close>

record ('a, 'c, 'st) quic_net =
  qn_lookup :: "string \<Rightarrow> (string, 'a list) result"
  qn_dial :: "'a \<Rightarrow> (string, 'c) result"
  qn_alive :: "'c \<Rightarrow> bool"
  qn_open_bi :: "'c \<Rightarrow> (string, 'st) result"

fun dial_addresses :: "('a \<Rightarrow> (string, 'c) result) \<Rightarrow> string option \<Rightarrow> 'a list \<Rightarrow> (string option, 'c) result" where
  "dial_addresses dial last_error [] = Inl last_error"
| "dial_addresses dial last_error (a # addrs) =
     (case dial a of Inr c \<Rightarrow> Inr c | Inl e \<Rightarrow> dial_addresses dial (Some e) addrs)"

fun connect_replicas ::
  "('a, 'c, 'st) quic_net \<Rightarrow> string option \<Rightarrow> string list \<Rightarrow> (string option, 'c) result" where
  "connect_replicas net last_error [] = Inl last_error"
| "connect_replicas net last_error (replica # replicas) =
     (case qn_lookup net replica of
        Inl e \<Rightarrow> connect_replicas net (Some e) replicas
      | Inr addrs \<Rightarrow>
          (case dial_addresses (qn_dial net) last_error addrs of
             Inr c \<Rightarrow> Inr c
           | Inl last_error' \<Rightarrow> connect_replicas net last_error' replicas))"

definition connect_any :: "('a, 'c, 'st) quic_net \<Rightarrow> string list \<Rightarrow> (string, 'c) result" where
  "connect_any net replicas =
     (case connect_replicas net None replicas of
        Inr c \<Rightarrow> Inr c
      | Inl (Some e) \<Rightarrow> Inl e
      | Inl None \<Rightarrow> Inl ''no broker replica addresses to connect to'')"

definition live_connection ::
  "('a, 'c, 'st) quic_net \<Rightarrow> string list \<Rightarrow> 'c option \<Rightarrow> (string, 'c) result \<times> 'c option" where
  "live_connection net replicas cached =
     (case cached of
        Some existing \<Rightarrow>
          if qn_alive net existing then (Inr existing, cached)
          else (case connect_any net replicas of Inr fresh \<Rightarrow> (Inr fresh, Some fresh) | Inl e \<Rightarrow> (Inl e, cached))
      | None \<Rightarrow>
          (case connect_any net replicas of Inr fresh \<Rightarrow> (Inr fresh, Some fresh) | Inl e \<Rightarrow> (Inl e, cached)))"

text \<open>\<open>net\<close> is met by the first attempt, \<open>net'\<close> by the reconnection.\<close>

definition open_quic_session ::
  "('a, 'c, 'st) quic_net \<Rightarrow> ('a, 'c, 'st) quic_net \<Rightarrow> string list \<Rightarrow> 'c option \<Rightarrow> (string, 'st) result \<times> 'c option" where
  "open_quic_session net net' replicas cached =
     (case live_connection net replicas cached of
        (Inl e, cached1) \<Rightarrow> (Inl e, cached1)
      | (Inr c, cached1) \<Rightarrow>
          (case qn_open_bi net c of
             Inr stream \<Rightarrow> (Inr stream, cached1)
           | Inl stale \<Rightarrow>
               (case live_connection net' replicas None of
                  (Inl e, cached2) \<Rightarrow> (Inl e, cached2)
                | (Inr c', cached2) \<Rightarrow> (qn_open_bi net' c', cached2))))"

subsection \<open>Sessions\<close>

record 'd broker_env =
  bv_enc :: "wire_request \<Rightarrow> u8 list option"
  bv_serve :: "'d \<Rightarrow> wire_request \<Rightarrow> wire_response \<times> 'd"
  bv_show :: "io_error \<Rightarrow> string"

record 'd session_conn =
  sc_daemon :: 'd
  sc_inbox :: "wire_response list"

datatype fate = Answers | WriteFails string | ReadFails string | Closes | Stalls bool

datatype 'a awaited = Ready 'a | Never

definition deliver :: "'d broker_env \<Rightarrow> 'd session_conn \<Rightarrow> wire_request \<Rightarrow> 'd session_conn" where
  "deliver env conn req =
     (case bv_serve env (sc_daemon conn) req of
        (resp, d) \<Rightarrow> conn\<lparr>sc_daemon := d, sc_inbox := sc_inbox conn @ [resp]\<rparr>)"

text \<open>One request frame written and one response frame read; \<open>Ready (Inr None)\<close> is the end of the stream.\<close>

definition exchange ::
  "'d broker_env \<Rightarrow> fate \<Rightarrow> 'd session_conn \<Rightarrow> wire_request \<Rightarrow>
   (io_error + io_error, wire_response option) result awaited \<times> 'd session_conn" where
  "exchange env fate conn req =
     (case write_frame (bv_enc env) req of
        Inl e \<Rightarrow> (Ready (Inl (Inl e)), conn)
      | Inr out \<Rightarrow>
          (case fate of
             WriteFails m \<Rightarrow> (Ready (Inl (Inl (Transport m))), conn)
           | ReadFails m \<Rightarrow> (Ready (Inl (Inr (Transport m))), deliver env conn req)
           | Closes \<Rightarrow> (Ready (Inr None), deliver env conn req)
           | Stalls written \<Rightarrow> (Never, if written then deliver env conn req else conn)
           | Answers \<Rightarrow>
               let c = deliver env conn req
               in (Ready (Inr (Some (hd (sc_inbox c)))), c\<lparr>sc_inbox := tl (sc_inbox c)\<rparr>)))"

definition roundtrip ::
  "'d broker_env \<Rightarrow> fate \<Rightarrow> 'd session_conn \<Rightarrow> wire_request \<Rightarrow>
   (io_error, wire_response) result awaited \<times> 'd session_conn" where
  "roundtrip env fate conn req =
     (case exchange env fate conn req of
        (Never, c) \<Rightarrow> (Never, c)
      | (Ready (Inl (Inl e)), c) \<Rightarrow> (Ready (Inl e), c)
      | (Ready (Inl (Inr e)), c) \<Rightarrow> (Ready (Inl e), c)
      | (Ready (Inr None), c) \<Rightarrow> (Ready (Inl UnexpectedEof), c)
      | (Ready (Inr (Some r)), c) \<Rightarrow> (Ready (Inr r), c))"

definition handshake ::
  "'d broker_env \<Rightarrow> fate \<Rightarrow> 'd session_conn \<Rightarrow> wire_init \<Rightarrow> (session_error, 'd session_conn) result awaited" where
  "handshake env fate conn init =
     (case exchange env fate conn (Init init) of
        (Never, c) \<Rightarrow> Never
      | (Ready (Inl (Inl e)), c) \<Rightarrow> Ready (Inl (Unavailable (''broker write failed: '' @ bv_show env e)))
      | (Ready (Inl (Inr e)), c) \<Rightarrow> Ready (Inl (Unavailable (''broker handshake read failed: '' @ bv_show env e)))
      | (Ready (Inr None), c) \<Rightarrow> Ready (Inl (Unavailable ''broker closed the connection during handshake''))
      | (Ready (Inr (Some r)), c) \<Rightarrow>
          (case r of
             Ack \<Rightarrow> Ready (Inr c)
           | InitError code message \<Rightarrow> Ready (Inl (Resolve code message))
           | _ \<Rightarrow> Ready (Inl (Protocol ''unexpected response to Init''))))"

text \<open>
  \<^verbatim>\<open>connect_session\<close>: the socket (\<open>uds\<close>) or the stream (\<open>quic\<close>) that was opened, or why not, and the token file.
\<close>

definition connect_session ::
  "'d broker_env \<Rightarrow> fate \<Rightarrow> (string \<Rightarrow> (string, string) result) \<Rightarrow> (string \<Rightarrow> (string, 'd) result) \<Rightarrow>
   (quic_client \<Rightarrow> (string, 'd) result) \<Rightarrow> broker_transport \<Rightarrow> wire_init \<Rightarrow>
   (session_error, 'd session_conn) result awaited" where
  "connect_session env fate read_file uds quic transport init =
     (case transport of
        NoBroker \<Rightarrow> Ready (Inl (Unavailable ''no egress broker configured''))
      | Uds path \<Rightarrow>
          (case uds path of
             Inl e \<Rightarrow> Ready (Inl (Unavailable (''broker unreachable: '' @ e)))
           | Inr d \<Rightarrow> handshake env fate \<lparr>sc_daemon = d, sc_inbox = []\<rparr> init)
      | Quic client \<Rightarrow>
          (case box_auth_token read_file (qc_auth client) of
             Inl e \<Rightarrow> Ready (Inl (Unavailable (''auth token unreadable: '' @ e)))
           | Inr token \<Rightarrow>
               (case quic client of
                  Inl e \<Rightarrow> Ready (Inl (Unavailable (''broker unreachable: '' @ e)))
                | Inr d \<Rightarrow> handshake env fate \<lparr>sc_daemon = d, sc_inbox = []\<rparr> (init\<lparr>wi_token := token\<rparr>))))"

definition transport_error :: "string \<Rightarrow> string \<Rightarrow> string \<Rightarrow> egress_error" where
  "transport_error source code message = egress_owner (egress_retryable (egress_error_new source code message)) Operator"

definition broker_call ::
  "'d broker_env \<Rightarrow> fate \<Rightarrow> 'd session_conn \<Rightarrow> string \<Rightarrow> string \<Rightarrow> string \<Rightarrow>
   (egress_error, string) result \<times> 'd session_conn" where
  "broker_call env fate conn name action payload =
     (case roundtrip env fate conn (Call \<lparr>wc_name = name, wc_action = action, wc_payload = payload\<rparr>) of
        (Never, c) \<Rightarrow> (Inl (transport_error name ''IO_TIMEOUT'' ''broker call exceeded the execution deadline''), c)
      | (Ready (Inl e), c) \<Rightarrow> (Inl (transport_error name ''IO_TRANSPORT'' (bv_show env e)), c)
      | (Ready (Inr (Reply result)), c) \<Rightarrow> (result, c)
      | (Ready (Inr (ProtocolError m)), c) \<Rightarrow> (Inl (transport_error name ''IO_PROTOCOL'' m), c)
      | (Ready (Inr _), c) \<Rightarrow> (Inl (transport_error name ''IO_PROTOCOL'' ''unexpected daemon response''), c))"

definition broker_drain ::
  "'d broker_env \<Rightarrow> fate \<Rightarrow> 'd session_conn \<Rightarrow> backend_metrics awaited \<times> 'd session_conn" where
  "broker_drain env fate conn =
     (case roundtrip env fate conn Drain of
        (Never, c) \<Rightarrow> (Never, c)
      | (Ready (Inr (Metrics m)), c) \<Rightarrow> (Ready m, c)
      | (Ready _, c) \<Rightarrow> (Ready backend_metrics_default, c))"

subsection \<open>Failover\<close>

definition addresses :: "('a, 'c, 'st) quic_net \<Rightarrow> string list \<Rightarrow> 'a list" where
  "addresses net replicas =
     concat (map (\<lambda>r. case qn_lookup net r of Inl e \<Rightarrow> [] | Inr addrs \<Rightarrow> addrs) replicas)"

lemma dial_addresses_ok:
  "dial_addresses dial le addrs = Inr c \<longleftrightarrow>
     (\<exists>pre a post. addrs = pre @ a # post \<and> (\<forall>b \<in> set pre. \<not> is_ok (dial b)) \<and> dial a = Inr c)"
proof (induction addrs arbitrary: le)
  case (Cons a addrs)
  show ?case
  proof (cases "dial a")
    case (Inl e)
    have "(\<exists>pre b post. a # addrs = pre @ b # post \<and> (\<forall>x \<in> set pre. \<not> is_ok (dial x)) \<and> dial b = Inr c) \<longleftrightarrow>
        (\<exists>pre b post. addrs = pre @ b # post \<and> (\<forall>x \<in> set pre. \<not> is_ok (dial x)) \<and> dial b = Inr c)"
      (is "?L \<longleftrightarrow> ?R")
    proof
      assume ?L
      then obtain pre b post where "a # addrs = pre @ b # post" "\<forall>x \<in> set pre. \<not> is_ok (dial x)" "dial b = Inr c"
        by blast
      then show ?R using Inl by (cases pre) auto
    next
      assume ?R
      then obtain pre b post where "addrs = pre @ b # post" "\<forall>x \<in> set pre. \<not> is_ok (dial x)" "dial b = Inr c"
        by blast
      then show ?L using Inl by (intro exI [of _ "a # pre"]) auto
    qed
    then show ?thesis using Inl Cons.IH by simp
  next
    case (Inr d)
    have "d = c" if "a # addrs = pre @ b # post" "\<forall>x \<in> set pre. \<not> is_ok (dial x)" "dial b = Inr c" for pre b post
      using that Inr by (cases pre) auto
    moreover have "d = c \<Longrightarrow> a # addrs = [] @ a # addrs \<and> (\<forall>x \<in> set []. \<not> is_ok (dial x)) \<and> dial a = Inr c"
      using Inr by simp
    moreover have "dial_addresses dial le (a # addrs) = Inr c \<longleftrightarrow> d = c" using Inr by simp
    ultimately show ?thesis by metis
  qed
qed simp

lemma dial_addresses_append:
  "dial_addresses dial le (xs @ ys) =
     (case dial_addresses dial le xs of Inr c \<Rightarrow> Inr c | Inl le' \<Rightarrow> dial_addresses dial le' ys)"
  by (induction xs arbitrary: le) (auto split: sum.split)

lemma dial_addresses_is_ok: "is_ok (dial_addresses dial le xs) \<longleftrightarrow> (\<exists>a \<in> set xs. is_ok (dial a))"
  by (induction xs arbitrary: le) (auto split: sum.split simp: is_ok_iff)

lemma dial_addresses_indep: "dial_addresses dial le xs = Inr c \<longleftrightarrow> dial_addresses dial le' xs = Inr c"
  by (simp add: dial_addresses_ok)

lemma connect_replicas_ok:
  "connect_replicas net le replicas = Inr c \<longleftrightarrow> dial_addresses (qn_dial net) le' (addresses net replicas) = Inr c"
proof (induction replicas arbitrary: le le')
  case Nil
  then show ?case by (simp add: addresses_def)
next
  case (Cons r rs)
  show ?case
  proof (cases "qn_lookup net r")
    case (Inl e)
    then show ?thesis using Cons.IH [of "Some e" le'] by (simp add: addresses_def)
  next
    case (Inr addrs)
    then have cat: "addresses net (r # rs) = addrs @ addresses net rs" by (simp add: addresses_def)
    show ?thesis
    proof (cases "dial_addresses (qn_dial net) le addrs")
      case (Inl e)
      then obtain e' where "dial_addresses (qn_dial net) le' addrs = Inl e'"
        using dial_addresses_is_ok [of "qn_dial net" le addrs] dial_addresses_is_ok [of "qn_dial net" le' addrs]
        by (cases "dial_addresses (qn_dial net) le' addrs") auto
      then show ?thesis using Inl Inr Cons.IH [of e e'] by (simp add: cat dial_addresses_append)
    next
      case r: (Inr d)
      then have "dial_addresses (qn_dial net) le' addrs = Inr d" using dial_addresses_indep [of "qn_dial net" le addrs d le'] by simp
      then show ?thesis using r Inr by (simp add: cat dial_addresses_append)
    qed
  qed
qed

text \<open>Failover. A session is opened on a live cached connection when there is one; otherwise the replicas are tried in
  configured order, their addresses in resolved order, and the first that answers is used and cached. Connecting
  fails iff no address answers. A stream that cannot be opened on the connection is retried on one fresh connection,
  and on no second one.\<close>

lemma open_session_fails_over:
  "(connect_any net replicas = Inr c \<longleftrightarrow>
      (\<exists>pre a post. addresses net replicas = pre @ a # post \<and> (\<forall>b \<in> set pre. \<not> is_ok (qn_dial net b)) \<and>
         qn_dial net a = Inr c)) \<and>
   (live_connection net replicas (Some c) = (Inr c, Some c) \<longleftrightarrow> qn_alive net c \<or> connect_any net replicas = Inr c) \<and>
   (fst (live_connection net replicas cached) = Inr c' \<longrightarrow> snd (live_connection net replicas cached) = Some c') \<and>
   (fst (open_quic_session net net' replicas cached) = Inr st \<longleftrightarrow>
      (\<exists>c. fst (live_connection net replicas cached) = Inr c \<and>
         (qn_open_bi net c = Inr st \<or>
          \<not> is_ok (qn_open_bi net c) \<and>
            (\<exists>c'. connect_any net' replicas = Inr c' \<and> qn_open_bi net' c' = Inr st))))"
proof -
  have conn: "connect_any net replicas = Inr c \<longleftrightarrow> connect_replicas net None replicas = Inr c" for c
    by (auto simp: connect_any_def split: sum.split option.split)
  have any: "connect_any net replicas = Inr c \<longleftrightarrow>
      (\<exists>pre a post. addresses net replicas = pre @ a # post \<and> (\<forall>b \<in> set pre. \<not> is_ok (qn_dial net b)) \<and>
         qn_dial net a = Inr c)"
    unfolding conn connect_replicas_ok [of net None replicas c None] dial_addresses_ok ..
  have cache: "fst (live_connection net replicas cached) = Inr c' \<longrightarrow> snd (live_connection net replicas cached) = Some c'"
    by (auto simp: live_connection_def split: option.splits sum.splits)
  have live: "live_connection net replicas (Some c) = (Inr c, Some c) \<longleftrightarrow> qn_alive net c \<or> connect_any net replicas = Inr c"
    by (auto simp: live_connection_def split: sum.split)
  have open': "fst (open_quic_session net net' replicas cached) = Inr st \<longleftrightarrow>
      (\<exists>c. fst (live_connection net replicas cached) = Inr c \<and>
         (qn_open_bi net c = Inr st \<or>
          \<not> is_ok (qn_open_bi net c) \<and>
            (\<exists>c'. connect_any net' replicas = Inr c' \<and> qn_open_bi net' c' = Inr st)))"
    by (cases "live_connection net replicas cached")
       (auto simp: open_quic_session_def live_connection_def [of net' replicas None] is_ok_iff split: sum.splits)
  show ?thesis using any live cache open' by blast
qed

subsection \<open>Answers and requests\<close>

text \<open>
  The specification of a call: the broker serves it or not, and what comes back is about this call. \<open>reply_result\<close>
  is the caller's reading of one response.
\<close>

fun reply_result :: "string \<Rightarrow> wire_response \<Rightarrow> (egress_error, string) result" where
  "reply_result name (Reply r) = r"
| "reply_result name (ProtocolError m) = Inl (transport_error name ''IO_PROTOCOL'' m)"
| "reply_result name _ = Inl (transport_error name ''IO_PROTOCOL'' ''unexpected daemon response'')"

definition direct_call ::
  "'d broker_env \<Rightarrow> fate \<Rightarrow> 'd \<Rightarrow> string \<Rightarrow> string \<Rightarrow> string \<Rightarrow> (egress_error, string) result \<times> 'd" where
  "direct_call env fate d name action payload =
     (let req = Call \<lparr>wc_name = name, wc_action = action, wc_payload = payload\<rparr>
      in case write_frame (bv_enc env) req of
           Inl e \<Rightarrow> (Inl (transport_error name ''IO_TRANSPORT'' (bv_show env e)), d)
         | Inr out \<Rightarrow>
             (case fate of
                WriteFails m \<Rightarrow> (Inl (transport_error name ''IO_TRANSPORT'' (bv_show env (Transport m))), d)
              | ReadFails m \<Rightarrow>
                  (Inl (transport_error name ''IO_TRANSPORT'' (bv_show env (Transport m))), snd (bv_serve env d req))
              | Closes \<Rightarrow>
                  (Inl (transport_error name ''IO_TRANSPORT'' (bv_show env UnexpectedEof)), snd (bv_serve env d req))
              | Stalls written \<Rightarrow>
                  (Inl (transport_error name ''IO_TIMEOUT'' ''broker call exceeded the execution deadline''),
                   if written then snd (bv_serve env d req) else d)
              | Answers \<Rightarrow> (reply_result name (fst (bv_serve env d req)), snd (bv_serve env d req))))"

definition leaves_nothing :: "fate \<Rightarrow> bool" where
  "leaves_nothing f \<longleftrightarrow> (case f of Answers \<Rightarrow> True | WriteFails m \<Rightarrow> True | Stalls written \<Rightarrow> \<not> written | _ \<Rightarrow> False)"

lemma broker_call_direct:
  assumes "sc_inbox conn = []"
  shows "fst (broker_call env fate conn name action payload) = fst (direct_call env fate (sc_daemon conn) name action payload) \<and>
    sc_daemon (snd (broker_call env fate conn name action payload)) =
      snd (direct_call env fate (sc_daemon conn) name action payload) \<and>
    (leaves_nothing fate \<longrightarrow> sc_inbox (snd (broker_call env fate conn name action payload)) = [])"
proof -
  let ?req = "Call \<lparr>wc_name = name, wc_action = action, wc_payload = payload\<rparr>"
  obtain resp d where s: "bv_serve env (sc_daemon conn) ?req = (resp, d)" by fastforce
  show ?thesis
    using assms s
    by (cases "write_frame (bv_enc env) ?req"; cases fate; cases resp)
       (simp_all add: broker_call_def direct_call_def roundtrip_def exchange_def deliver_def leaves_nothing_def Let_def)
qed

fun run_session ::
  "'d broker_env \<Rightarrow> 'd session_conn \<Rightarrow> (fate \<times> string \<times> string \<times> string) list \<Rightarrow>
   (egress_error, string) result list \<times> 'd session_conn" where
  "run_session env conn [] = ([], conn)"
| "run_session env conn ((fate, name, action, payload) # cs) =
     (case broker_call env fate conn name action payload of
        (r, conn') \<Rightarrow> (case run_session env conn' cs of (rs, c) \<Rightarrow> (r # rs, c)))"

fun run_direct ::
  "'d broker_env \<Rightarrow> 'd \<Rightarrow> (fate \<times> string \<times> string \<times> string) list \<Rightarrow> (egress_error, string) result list \<times> 'd" where
  "run_direct env d [] = ([], d)"
| "run_direct env d ((fate, name, action, payload) # cs) =
     (case direct_call env fate d name action payload of
        (r, d') \<Rightarrow> (case run_direct env d' cs of (rs, d'') \<Rightarrow> (r # rs, d'')))"

text \<open>C27: answers belong to their requests, as long as no response is left unread. A session on which every call was
  answered, could not be written or timed out before it was written implements the lock-step specification: every call
  gets the broker's answer to itself, and the broker has served exactly the written calls, in order.\<close>

theorem session_refines_direct:
  assumes "sc_inbox conn = []" and "\<forall>c \<in> set calls. leaves_nothing (fst c)"
  shows "fst (run_session env conn calls) = fst (run_direct env (sc_daemon conn) calls) \<and>
    sc_daemon (snd (run_session env conn calls)) = snd (run_direct env (sc_daemon conn) calls) \<and>
    sc_inbox (snd (run_session env conn calls)) = []"
  using assms
proof (induction calls arbitrary: conn)
  case (Cons c cs)
  obtain fate name action payload where c: "c = (fate, name, action, payload)" by (cases c)
  obtain r conn' where b: "broker_call env fate conn name action payload = (r, conn')" by fastforce
  have "fst (direct_call env fate (sc_daemon conn) name action payload) = r"
    and "snd (direct_call env fate (sc_daemon conn) name action payload) = sc_daemon conn'"
    and i: "sc_inbox conn' = []"
    using broker_call_direct [OF Cons.prems(1), of env fate name action payload] Cons.prems(2) b c by auto
  then have d: "direct_call env fate (sc_daemon conn) name action payload = (r, sc_daemon conn')" by (simp add: prod_eq_iff)
  have "\<forall>c \<in> set cs. leaves_nothing (fst c)" using Cons.prems(2) by simp
  note Cons.IH [OF i this]
  then show ?case by (simp add: c b d case_prod_beta)
qed simp

definition sample_broker :: "nat broker_env" where
  "sample_broker = \<lparr>bv_enc = (\<lambda>_. Some []), bv_serve = (\<lambda>n req. (Reply (Inr (show_nat n)), n + 1)), bv_show = (\<lambda>_. ''io'')\<rparr>"

theorem session_refines_direct_witness:
  "fst (run_session sample_broker \<lparr>sc_daemon = 0, sc_inbox = []\<rparr>
          [(Answers, ''orders'', ''get'', ''{}''), (Stalls False, ''orders'', ''get'', ''{}'')]) =
   fst (run_direct sample_broker 0
          [(Answers, ''orders'', ''get'', ''{}''), (Stalls False, ''orders'', ''get'', ''{}'')])"
  using session_refines_direct [of "\<lparr>sc_daemon = 0, sc_inbox = []\<rparr>"
      "[(Answers, ''orders'', ''get'', ''{}''), (Stalls False, ''orders'', ''get'', ''{}'')]" sample_broker]
  by (simp add: leaves_nothing_def)

text \<open>C28: a timed-out call desynchronises the session. After a call that was written but timed out, the next call that
  completes returns the answer to the timed-out one, not to itself, and the answer to itself stays unread.\<close>

theorem timeout_shifts_answers:
  assumes "sc_inbox conn = []"
    and "write_frame (bv_enc env) (Call \<lparr>wc_name = n1, wc_action = a1, wc_payload = p1\<rparr>) = Inr out1"
    and "write_frame (bv_enc env) (Call \<lparr>wc_name = n2, wc_action = a2, wc_payload = p2\<rparr>) = Inr out2"
    and "bv_serve env (sc_daemon conn) (Call \<lparr>wc_name = n1, wc_action = a1, wc_payload = p1\<rparr>) = (Reply r1, d1)"
    and "bv_serve env d1 (Call \<lparr>wc_name = n2, wc_action = a2, wc_payload = p2\<rparr>) = (Reply r2, d2)"
  shows "map (map_sum eg_code id) (fst (run_session env conn [(Stalls True, n1, a1, p1), (Answers, n2, a2, p2)])) =
      [Inl ''IO_TIMEOUT'', map_sum eg_code id r1] \<and>
    sc_inbox (snd (run_session env conn [(Stalls True, n1, a1, p1), (Answers, n2, a2, p2)])) = [Reply r2]"
  using assms
  by (simp add: broker_call_def roundtrip_def exchange_def deliver_def transport_error_def egress_owner_def
      egress_retryable_def egress_error_new_def Let_def)

theorem timeout_shifts_answers_witness:
  "sc_inbox (snd (run_session sample_broker \<lparr>sc_daemon = 0, sc_inbox = []\<rparr>
     [(Stalls True, ''orders'', ''get'', ''1''), (Answers, ''orders'', ''get'', ''2'')])) = [Reply (Inr (show_nat 1))]"
proof -
  let ?c = "\<lambda>p. Call \<lparr>wc_name = ''orders'', wc_action = ''get'', wc_payload = p\<rparr>"
  have w: "write_frame (bv_enc sample_broker) (?c p) = Inr (to_le_bytes 0)" for p
    by (simp add: write_frame_def sample_broker_def MAX_FRAME_BYTES_def Let_def)
  show ?thesis
    using timeout_shifts_answers [of "\<lparr>sc_daemon = 0, sc_inbox = []\<rparr>" sample_broker "''orders''" "''get''" "''1''" _
        "''orders''" "''get''" "''2''" _ "Inr (show_nat 0)" 1 "Inr (show_nat 1)" 2, OF _ w w]
    by (simp add: sample_broker_def)
qed

text \<open>Only calls are bounded by the deadline. Against a broker that accepts a request and never answers, a call returns
  \<open>IO_TIMEOUT\<close>, but opening a session and draining its metrics never return.\<close>

lemma silent_broker_hangs:
  assumes "\<forall>req. is_ok (write_frame (bv_enc env) req)"
  shows "fst (broker_call env (Stalls True) conn name action payload) =
      Inl (transport_error name ''IO_TIMEOUT'' ''broker call exceeded the execution deadline'') \<and>
    fst (broker_drain env (Stalls True) conn) = Never \<and>
    (uds path = Inr d \<longrightarrow> connect_session env (Stalls True) read_file uds quic (Uds path) init = Never) \<and>
    (box_auth_token read_file (qc_auth client) = Inr token \<longrightarrow> quic client = Inr d \<longrightarrow>
       connect_session env (Stalls True) read_file uds quic (Quic client) init = Never)"
proof -
  have "\<exists>out. write_frame (bv_enc env) req = Inr out" for req using assms by (simp add: is_ok_iff)
  then have never: "exchange env (Stalls True) c req = (Never, deliver env c req)" for c req
    by (auto simp: exchange_def split: sum.split) (metis sum.distinct(1))
  show ?thesis
    by (simp add: broker_call_def broker_drain_def roundtrip_def connect_session_def handshake_def never split: prod.split)
qed

end
