(* ===== verification/Local_Io.thy ===== *)
theory Local_Io
  imports Broker
begin

text \<open>
  Box-direct egress, \<^verbatim>\<open>runlet/src/local_io.rs\<close>: a resource the operator bound to a co-located endpoint is reached by a
  POST of the box, any other one through the broker session. What the endpoint does with a POST and how long it takes is
  decided outside (\<open>post_outcome\<close>, \<open>lf_duration_us\<close>), as is the fate of a broker exchange. The client is built without a redirect
  policy (\<^verbatim>\<open>main.rs\<close>), so that \<^verbatim>\<open>reqwest\<close> follows the redirects the endpoint answers with: the further requests it sends on
  behalf of one call are \<open>lf_hops\<close>, and \<open>redirect_chain\<close> states what the library documents of them. The immutable part
  of \<^verbatim>\<open>BoxEgress\<close> is \<open>box_egress\<close> of the pipeline with the bindings; \<open>box_state\<close> is the session and the recorded metrics.
\<close>

subsection \<open>Definitions\<close>

definition TENANT_HEADER :: string where "TENANT_HEADER = ''x-runlet-tenant''"
definition ACTOR_HEADER :: string where "ACTOR_HEADER = ''x-runlet-actor''"
definition PRINCIPAL_KIND_HEADER :: string where "PRINCIPAL_KIND_HEADER = ''x-runlet-principal-kind''"
definition ON_BEHALF_OF_HEADER :: string where "ON_BEHALF_OF_HEADER = ''x-runlet-on-behalf-of''"

record local_io_metric =
  lm_action :: string
  lm_duration_us :: nat
  lm_request_bytes :: nat
  lm_status :: u16

record local_request =
  lr_method :: string
  lr_url :: string
  lr_headers :: "(string \<times> string) list"
  lr_body :: string

text \<open>The body \<^verbatim>\<open>LocalCallEnvelope\<close>; the payload is carried verbatim as a string.\<close>

definition local_call_envelope :: "string \<Rightarrow> string \<Rightarrow> json" where
  "local_call_envelope action payload = JObj [(''action'', JStr action), (''payload'', JStr payload)]"

datatype post_outcome =
    SendElapsed
  | SendFails string
  | BodyFails string
  | BodyStalls
  | Responds u16 string

record local_fate =
  lf_broker :: fate
  lf_hops :: "local_request \<Rightarrow> local_request list"
  lf_post :: post_outcome
  lf_duration_us :: nat

record 'd box_ports =
  bx_local :: "string \<rightharpoonup> string"
  bx_env :: "'d broker_env"
  bx_print :: "json \<Rightarrow> string"

record 'd box_state =
  bs_broker :: "'d session_conn option"
  bs_metrics :: "string \<rightharpoonup> local_io_metric list"

definition box_state_new :: "'d session_conn box_egress \<Rightarrow> 'd box_state" where
  "box_state_new be = \<lparr>bs_broker = be_session be, bs_metrics = Map.empty\<rparr>"

definition opt_header :: "string \<Rightarrow> string option \<Rightarrow> (string \<times> string) list" where
  "opt_header name v = (case v of None \<Rightarrow> [] | Some x \<Rightarrow> [(name, x)])"

definition build_request :: "'c box_egress \<Rightarrow> string \<Rightarrow> string \<Rightarrow> local_request" where
  "build_request be url body =
     \<lparr>lr_method = ''POST'', lr_url = url,
      lr_headers = (''content-type'', ''application/json'') # opt_header TENANT_HEADER (be_tenant be)
        @ opt_header ACTOR_HEADER (be_actor be) @ opt_header PRINCIPAL_KIND_HEADER (be_principal_kind be)
        @ opt_header ON_BEHALF_OF_HEADER (be_on_behalf_of be),
      lr_body = body\<rparr>"

definition local_error :: "string \<Rightarrow> string \<Rightarrow> string \<Rightarrow> egress_error" where
  "local_error name code message = egress_owner (egress_retryable (egress_error_new name code message)) Operator"

definition record_local :: "'d box_state \<Rightarrow> string \<Rightarrow> local_io_metric \<Rightarrow> 'd box_state" where
  "record_local st name metric =
     st\<lparr>bs_metrics := (bs_metrics st)(name \<mapsto> (case bs_metrics st name of None \<Rightarrow> [] | Some ms \<Rightarrow> ms) @ [metric])\<rparr>"

definition is_success :: "u16 \<Rightarrow> bool" where
  "is_success code \<longleftrightarrow> 200 \<le> code \<and> code < 300"

text \<open>The status and the result of one POST; \<open>None\<close> when the body never ends (only sending is under the deadline).\<close>

fun post_result :: "string \<Rightarrow> post_outcome \<Rightarrow> (u16 \<times> (egress_error, string) result) option" where
  "post_result name SendElapsed = Some (0, Inl (local_error name ''IO_TRANSPORT'' ''box-direct call exceeded the execution deadline''))"
| "post_result name (SendFails m) = Some (0, Inl (local_error name ''IO_TRANSPORT'' (''box-direct request failed: '' @ m)))"
| "post_result name (BodyFails m) = Some (0, Inl (local_error name ''IO_TRANSPORT'' (''box-direct read failed: '' @ m)))"
| "post_result name BodyStalls = None"
| "post_result name (Responds code body) =
     Some (code, if is_success code then Inr body
                 else Inl (local_error name ''IO_LOCAL_HTTP'' (''local endpoint returned HTTP '' @ show_nat (unat code))))"

text \<open>
  The documented default of the client: a redirect is followed at most ten times in a row; a hop repeats method and body
  (307, 308) or becomes a GET without a body (301, 302, 303), goes wherever the answer says, and keeps every header the
  caller set but the credentials, of which a box-direct request has none.
\<close>

definition identity_headers :: "string list" where
  "identity_headers = [TENANT_HEADER, ACTOR_HEADER, PRINCIPAL_KIND_HEADER, ON_BEHALF_OF_HEADER]"

definition redirected :: "local_request \<Rightarrow> local_request \<Rightarrow> bool" where
  "redirected q h \<longleftrightarrow>
     (lr_method h = lr_method q \<and> lr_body h = lr_body q \<or> lr_method h = ''GET'' \<and> lr_body h = []) \<and>
     (\<forall>name \<in> set identity_headers. map_of (lr_headers h) name = map_of (lr_headers q) name)"

fun redirect_chain :: "nat \<Rightarrow> local_request \<Rightarrow> local_request list \<Rightarrow> bool" where
  "redirect_chain n q [] \<longleftrightarrow> True"
| "redirect_chain 0 q (h # hops) \<longleftrightarrow> False"
| "redirect_chain (Suc n) q (h # hops) \<longleftrightarrow> redirected q h \<and> redirect_chain n h hops"

definition call_local ::
  "'d box_ports \<Rightarrow> 'c box_egress \<Rightarrow> local_fate \<Rightarrow> 'd box_state \<Rightarrow> string \<Rightarrow> string \<Rightarrow> string \<Rightarrow> string \<Rightarrow>
   (egress_error, string) result awaited \<times> 'd box_state \<times> local_request list" where
  "call_local ports be fate st name url action payload =
     (let body = bx_print ports (local_call_envelope action payload);
          request = build_request be url body;
          sent = request # lf_hops fate request
      in case post_result name (lf_post fate) of
           None \<Rightarrow> (Never, st, sent)
         | Some (status, result) \<Rightarrow>
             (Ready result,
              record_local st name
                \<lparr>lm_action = action, lm_duration_us = lf_duration_us fate, lm_request_bytes = length body,
                 lm_status = status\<rparr>, sent))"

definition box_call ::
  "'d box_ports \<Rightarrow> 'c box_egress \<Rightarrow> local_fate \<Rightarrow> 'd box_state \<Rightarrow> string \<Rightarrow> string \<Rightarrow> string \<Rightarrow>
   (egress_error, string) result awaited \<times> 'd box_state \<times> local_request list" where
  "box_call ports be fate st name action payload =
     (case bx_local ports name of
        Some url \<Rightarrow> call_local ports be fate st name url action payload
      | None \<Rightarrow>
          (case bs_broker st of
             None \<Rightarrow>
               (Ready (Inl (local_error name ''EGRESS_UNAVAILABLE'' ''no broker session for a non-local resource'')), st, [])
           | Some conn \<Rightarrow>
               (case broker_call (bx_env ports) (lf_broker fate) conn name action payload of
                  (r, conn') \<Rightarrow> (Ready r, st\<lparr>bs_broker := Some conn'\<rparr>, []))))"

definition drain_local :: "'d box_state \<Rightarrow> (string \<rightharpoonup> local_io_metric list) \<times> 'd box_state" where
  "drain_local st = (bs_metrics st, st\<lparr>bs_metrics := Map.empty\<rparr>)"

definition drain_metrics :: "'d box_ports \<Rightarrow> fate \<Rightarrow> 'd box_state \<Rightarrow> backend_metrics awaited \<times> 'd box_state" where
  "drain_metrics ports fate st =
     (case bs_broker st of
        None \<Rightarrow> (Ready backend_metrics_default, st)
      | Some conn \<Rightarrow>
          (case broker_drain (bx_env ports) fate conn of (m, conn') \<Rightarrow> (m, st\<lparr>bs_broker := Some conn'\<rparr>)))"

subsection \<open>Runs of calls\<close>

fun run_box ::
  "'d box_ports \<Rightarrow> 'c box_egress \<Rightarrow> 'd box_state \<Rightarrow> (local_fate \<times> string \<times> string \<times> string) list \<Rightarrow>
   ((egress_error, string) result awaited \<times> local_request list) list \<times> 'd box_state" where
  "run_box ports be st [] = ([], st)"
| "run_box ports be st ((fate, name, action, payload) # cs) =
     (case box_call ports be fate st name action payload of
        (r, st', req) \<Rightarrow> (case run_box ports be st' cs of (rs, st'') \<Rightarrow> ((r, req) # rs, st'')))"

definition meters :: "'d box_ports \<Rightarrow> string \<Rightarrow> local_fate \<times> string \<times> string \<times> string \<Rightarrow> bool" where
  "meters ports name call \<longleftrightarrow> fst (snd call) = name \<and> bx_local ports name \<noteq> None \<and> lf_post (fst call) \<noteq> BodyStalls"

definition metrics_under :: "'d box_state \<Rightarrow> string \<Rightarrow> local_io_metric list" where
  "metrics_under st name = (case bs_metrics st name of None \<Rightarrow> [] | Some ms \<Rightarrow> ms)"

lemma post_result_None: "post_result name o' = None \<longleftrightarrow> o' = BodyStalls"
  by (cases o') simp_all

lemma box_call_metrics:
  "metrics_under (fst (snd (box_call ports be fate st n action payload))) name =
     metrics_under st name @
       (if meters ports name (fate, n, action, payload)
        then [\<lparr>lm_action = action, lm_duration_us = lf_duration_us fate,
               lm_request_bytes = length (bx_print ports (local_call_envelope action payload)),
               lm_status = fst (the (post_result n (lf_post fate)))\<rparr>]
        else [])"
  using post_result_None [of n "lf_post fate"]
  by (auto simp: box_call_def call_local_def metrics_under_def record_local_def meters_def Let_def
      split: option.split prod.split)

lemma run_box_metrics:
  "length (metrics_under (snd (run_box ports be st calls)) name) =
     length (metrics_under st name) + length (filter (meters ports name) calls)"
proof (induction calls arbitrary: st)
  case (Cons c cs)
  obtain fate n action payload where c: "c = (fate, n, action, payload)" by (cases c)
  obtain r st' req where b: "box_call ports be fate st n action payload = (r, st', req)" by (metis prod_cases3)
  have "length (metrics_under st' name) = length (metrics_under st name) + (if meters ports name c then 1 else 0)"
    using box_call_metrics [of ports be fate st n action payload name] b c by simp
  then show ?case using Cons.IH [of st'] by (simp add: c b case_prod_beta)
qed simp

lemma redirect_chain_length: "redirect_chain n q hops \<Longrightarrow> length hops \<le> n"
  by (induction n q hops rule: redirect_chain.induct) auto

lemma redirect_chain_hop:
  "redirect_chain n q hops \<Longrightarrow> h \<in> set hops \<Longrightarrow>
   (lr_method h = lr_method q \<and> lr_body h = lr_body q \<or> lr_method h = ''GET'' \<and> lr_body h = []) \<and>
   (\<forall>name \<in> set identity_headers. map_of (lr_headers h) name = map_of (lr_headers q) name)"
  by (induction n q hops rule: redirect_chain.induct) (auto simp: redirected_def)

lemma build_request_identity:
  "lr_url (build_request be url body) = url \<and> lr_method (build_request be url body) = ''POST'' \<and>
   map_of (lr_headers (build_request be url body)) TENANT_HEADER = be_tenant be \<and>
   map_of (lr_headers (build_request be url body)) ACTOR_HEADER = be_actor be \<and>
   map_of (lr_headers (build_request be url body)) PRINCIPAL_KIND_HEADER = be_principal_kind be \<and>
   map_of (lr_headers (build_request be url body)) ON_BEHALF_OF_HEADER = be_on_behalf_of be"
  by (auto simp: build_request_def opt_header_def TENANT_HEADER_def ACTOR_HEADER_def PRINCIPAL_KIND_HEADER_def
      ON_BEHALF_OF_HEADER_def split: option.split)

text \<open>Where a resource is reached and what it learns. A bound name is POSTed to the operator's endpoint (and redirected from there) and never
  touches the broker session; any other name goes to the broker session and is never POSTed; without a session it
  is unavailable. The request's headers are a function of the trusted identity alone (none of the script's name,
  action or payload enters them), each identity header is present exactly when the identity has the field, and the
  script's payload travels only inside the body. Every box-direct call that returns leaves one metric, under its name,
  in every run of calls.\<close>

lemma box_call_routes:
  "(bx_local ports name = Some url \<longrightarrow>
      (let request = build_request be url (bx_print ports (local_call_envelope action payload))
       in snd (snd (box_call ports be fate st name action payload)) = request # lf_hops fate request) \<and>
      bs_broker (fst (snd (box_call ports be fate st name action payload))) = bs_broker st) \<and>
   (bx_local ports name = None \<longrightarrow>
      snd (snd (box_call ports be fate st name action payload)) = [] \<and>
      bs_metrics (fst (snd (box_call ports be fate st name action payload))) = bs_metrics st \<and>
      (case bs_broker st of
         Some conn \<Rightarrow> fst (box_call ports be fate st name action payload) =
           Ready (fst (broker_call (bx_env ports) (lf_broker fate) conn name action payload))
       | None \<Rightarrow> fst (box_call ports be fate st name action payload) =
           Ready (Inl (local_error name ''EGRESS_UNAVAILABLE'' ''no broker session for a non-local resource'')))) \<and>
   lr_headers (build_request be url body) = lr_headers (build_request be url' body') \<and>
   (map_of (lr_headers (build_request be url body)) TENANT_HEADER = be_tenant be \<and>
    map_of (lr_headers (build_request be url body)) ACTOR_HEADER = be_actor be \<and>
    map_of (lr_headers (build_request be url body)) PRINCIPAL_KIND_HEADER = be_principal_kind be \<and>
    map_of (lr_headers (build_request be url body)) ON_BEHALF_OF_HEADER = be_on_behalf_of be) \<and>
   length (metrics_under (snd (run_box ports be (box_state_new be') calls)) name) =
     length (filter (meters ports name) calls)"
proof -
  have "metrics_under (box_state_new be') name = []" by (simp add: metrics_under_def box_state_new_def)
  then have m: "length (metrics_under (snd (run_box ports be (box_state_new be') calls)) name) =
      length (filter (meters ports name) calls)"
    using run_box_metrics [of ports be "box_state_new be'" calls name] by simp
  have r1: "bx_local ports name = Some url \<longrightarrow>
      (let request = build_request be url (bx_print ports (local_call_envelope action payload))
       in snd (snd (box_call ports be fate st name action payload)) = request # lf_hops fate request) \<and>
      bs_broker (fst (snd (box_call ports be fate st name action payload))) = bs_broker st"
    by (auto simp: box_call_def call_local_def record_local_def Let_def split: option.split)
  have r2: "bx_local ports name = None \<longrightarrow>
      snd (snd (box_call ports be fate st name action payload)) = [] \<and>
      bs_metrics (fst (snd (box_call ports be fate st name action payload))) = bs_metrics st \<and>
      (case bs_broker st of
         Some conn \<Rightarrow> fst (box_call ports be fate st name action payload) =
           Ready (fst (broker_call (bx_env ports) (lf_broker fate) conn name action payload))
       | None \<Rightarrow> fst (box_call ports be fate st name action payload) =
           Ready (Inl (local_error name ''EGRESS_UNAVAILABLE'' ''no broker session for a non-local resource'')))"
    by (auto simp: box_call_def split: option.split prod.split)
  show ?thesis using m build_request_identity [of be url body] r1 r2 by (auto simp: build_request_def)
qed

end
