(* ===== verification/Pool.thy ===== *)
theory Pool
  imports Engine
begin

text \<open>
  The runtime pool, \<^verbatim>\<open>runlet-core/src/pool.rs\<close>, as the logic host (\<^verbatim>\<open>host.rs\<close>) uses it: a run checks that the pool accepts,
  takes a runtime, executes and returns it, while a shutdown may run at any time. The accesses of the accepting flag and
  of the queue are steps of their own (\<open>pool_step\<close>), so a \<open>pool_world\<close> also holds the threads between two accesses: runs that passed the check
  (\<open>pw_entering\<close>), runtimes checked out (\<open>pw_out\<close>) and runtimes whose release saw an accepting pool and has not pushed
  yet (\<open>pw_returning\<close>). A runtime is an opaque value; creating one is the argument \<open>create\<close>. The gauge and the
  sweep counters are only ever added to, so their updates are part of the step they stand next to.
\<close>

definition GC_EVERY_N :: u64 where "GC_EVERY_N = 16"

record 'r js_pool =
  jp_idle :: "'r list"
  jp_size :: nat
  jp_accepting :: bool
  jp_in_flight :: nat
  jp_release_seq :: u64
  jp_gc_runs :: u64

record pool_stats =
  ps_size :: nat
  ps_idle :: nat
  ps_in_flight :: nat

text \<open>\<^verbatim>\<open>ArrayQueue::push\<close>: a full queue gives the value back, which is dropped.\<close>

definition queue_push :: "nat \<Rightarrow> 'r list \<Rightarrow> 'r \<Rightarrow> 'r list" where
  "queue_push capacity q r = (if length q < capacity then q @ [r] else q)"

fun warm :: "(nat \<Rightarrow> (string, 'r) result) \<Rightarrow> nat \<Rightarrow> nat \<Rightarrow> 'r list \<Rightarrow> (string, 'r list) result" where
  "warm create capacity 0 q = Inr q"
| "warm create capacity (Suc n) q =
     (case create n of
        Inl e \<Rightarrow> Inl e
      | Inr r \<Rightarrow>
          if length q < capacity then warm create capacity n (queue_push capacity q r)
          else Inl ''pool queue full during init'')"

text \<open>The \<open>surface\<close> is the outcome of compiling the injected framework on a throwaway runtime, or \<open>Inr ()\<close> when disabled.\<close>

definition pool_slots :: "nat \<Rightarrow> nat option \<Rightarrow> nat" where
  "pool_slots configured parallelism =
     (if 0 < configured then configured else (case parallelism of Some n \<Rightarrow> n | None \<Rightarrow> 4))"

definition pool_new ::
  "(nat \<Rightarrow> (string, 'r) result) \<Rightarrow> (string, unit) result \<Rightarrow> nat \<Rightarrow> nat option \<Rightarrow> (string, 'r js_pool) result" where
  "pool_new create surface configured parallelism =
     (let size = pool_slots configured parallelism
      in case warm create size size [] of
           Inl e \<Rightarrow> Inl e
         | Inr q \<Rightarrow>
             (case surface of
                Inl e \<Rightarrow> Inl e
              | Inr u \<Rightarrow>
                  Inr \<lparr>jp_idle = q, jp_size = size, jp_accepting = True, jp_in_flight = 0, jp_release_seq = 0,
                       jp_gc_runs = 0\<rparr>))"

definition pool_acquire :: "(string, 'r) result \<Rightarrow> 'r js_pool \<Rightarrow> (string, 'r) result \<times> 'r js_pool" where
  "pool_acquire create p =
     (case jp_idle p of
        r # rs \<Rightarrow> (Inr r, p\<lparr>jp_idle := rs, jp_in_flight := jp_in_flight p + 1\<rparr>)
      | [] \<Rightarrow>
          (case create of
             Inl e \<Rightarrow> (Inl e, p)
           | Inr r \<Rightarrow> (Inr r, p\<lparr>jp_in_flight := jp_in_flight p + 1\<rparr>)))"

text \<open>
  The two halves of \<^verbatim>\<open>release\<close>: the gauge, the accepting flag and the sweep; then the push. \<open>True\<close> means the push follows.
\<close>

definition release_start :: "'r js_pool \<Rightarrow> bool \<times> 'r js_pool" where
  "release_start p =
     (let p1 = p\<lparr>jp_in_flight := jp_in_flight p - 1\<rparr>
      in if jp_accepting p1
         then (True, p1\<lparr>jp_release_seq := jp_release_seq p1 + 1,
                        jp_gc_runs := (if jp_release_seq p1 mod GC_EVERY_N = 0 then jp_gc_runs p1 + 1
                                       else jp_gc_runs p1)\<rparr>)
         else (False, p1))"

definition release_push :: "'r \<Rightarrow> 'r js_pool \<Rightarrow> 'r js_pool" where
  "release_push r p = p\<lparr>jp_idle := queue_push (jp_size p) (jp_idle p) r\<rparr>"

definition pool_release :: "'r \<Rightarrow> 'r js_pool \<Rightarrow> 'r js_pool" where
  "pool_release r p = (case release_start p of (push, p1) \<Rightarrow> if push then release_push r p1 else p1)"

definition shutdown_store :: "'r js_pool \<Rightarrow> 'r js_pool" where
  "shutdown_store p = p\<lparr>jp_accepting := False\<rparr>"

definition pool_shutdown :: "'r js_pool \<Rightarrow> 'r js_pool" where
  "pool_shutdown p = (shutdown_store p)\<lparr>jp_idle := []\<rparr>"

definition pool_stats_of :: "'r js_pool \<Rightarrow> pool_stats" where
  "pool_stats_of p = \<lparr>ps_size = jp_size p, ps_idle = length (jp_idle p), ps_in_flight = jp_in_flight p\<rparr>"

subsection \<open>All interleavings\<close>

record 'r pool_world =
  pw_pool :: "'r js_pool"
  pw_entering :: nat
  pw_out :: "'r list"
  pw_returning :: "'r list"
  pw_draining :: bool
  pw_panicked :: nat
  pw_releases :: nat

inductive pool_step :: "'r pool_world \<Rightarrow> 'r pool_world \<Rightarrow> bool" where
  enter: "jp_accepting (pw_pool w) \<Longrightarrow> pool_step w (w\<lparr>pw_entering := pw_entering w + 1\<rparr>)"
| acquire: "0 < pw_entering w \<Longrightarrow> pool_acquire create (pw_pool w) = (Inr r, p) \<Longrightarrow>
    pool_step w (w\<lparr>pw_pool := p, pw_entering := pw_entering w - 1, pw_out := r # pw_out w\<rparr>)"
| acquire_fails: "0 < pw_entering w \<Longrightarrow> pool_acquire create (pw_pool w) = (Inl e, p) \<Longrightarrow>
    pool_step w (w\<lparr>pw_pool := p, pw_entering := pw_entering w - 1\<rparr>)"
| run_panics: "r \<in> set (pw_out w) \<Longrightarrow>
    pool_step w (w\<lparr>pw_out := remove1 r (pw_out w), pw_panicked := pw_panicked w + 1\<rparr>)"
| release_accepted: "r \<in> set (pw_out w) \<Longrightarrow> release_start (pw_pool w) = (True, p) \<Longrightarrow>
    pool_step w (w\<lparr>pw_pool := p, pw_out := remove1 r (pw_out w), pw_returning := r # pw_returning w,
                   pw_releases := pw_releases w + 1\<rparr>)"
| release_disposed: "r \<in> set (pw_out w) \<Longrightarrow> release_start (pw_pool w) = (False, p) \<Longrightarrow>
    pool_step w (w\<lparr>pw_pool := p, pw_out := remove1 r (pw_out w)\<rparr>)"
| release_pushed: "r \<in> set (pw_returning w) \<Longrightarrow>
    pool_step w (w\<lparr>pw_pool := release_push r (pw_pool w), pw_returning := remove1 r (pw_returning w)\<rparr>)"
| shutdown: "pool_step w (w\<lparr>pw_pool := shutdown_store (pw_pool w), pw_draining := True\<rparr>)"
| drain_one: "pw_draining w \<Longrightarrow> jp_idle (pw_pool w) = r # rs \<Longrightarrow>
    pool_step w (w\<lparr>pw_pool := (pw_pool w)\<lparr>jp_idle := rs\<rparr>\<rparr>)"
| drained: "pw_draining w \<Longrightarrow> jp_idle (pw_pool w) = [] \<Longrightarrow> pool_step w (w\<lparr>pw_draining := False\<rparr>)"

inductive pool_reachable :: "'r js_pool \<Rightarrow> 'r pool_world \<Rightarrow> bool" for p0 where
  start: "pool_reachable p0
    \<lparr>pw_pool = p0, pw_entering = 0, pw_out = [], pw_returning = [], pw_draining = False, pw_panicked = 0, pw_releases = 0\<rparr>"
| step: "pool_reachable p0 w \<Longrightarrow> pool_step w w' \<Longrightarrow> pool_reachable p0 w'"

lemmas pool_defs = pool_acquire_def release_start_def release_push_def shutdown_store_def queue_push_def Let_def

text \<open>The well-formed states: the queue within its slots, the gauge and the sweep counter exact.\<close>

definition pool_inv :: "nat \<Rightarrow> 'r pool_world \<Rightarrow> bool" where
  "pool_inv slots w \<longleftrightarrow>
     jp_size (pw_pool w) = slots \<and> length (jp_idle (pw_pool w)) \<le> slots \<and>
     jp_in_flight (pw_pool w) = length (pw_out w) + pw_panicked w \<and>
     jp_release_seq (pw_pool w) = of_nat (pw_releases w) \<and>
     jp_gc_runs (pw_pool w) = of_nat ((pw_releases w + 15) div 16) \<and>
     (pw_draining w \<longrightarrow> \<not> jp_accepting (pw_pool w))"

lemma of_nat_mod_16: "(of_nat n :: u64) mod 16 = 0 \<longleftrightarrow> n mod 16 = 0"
proof -
  have "(of_nat n :: u64) mod 16 = 0 \<longleftrightarrow> unat ((of_nat n :: u64) mod 16) = 0" by (simp add: unat_eq_0)
  also have "\<dots> \<longleftrightarrow> n mod 2 ^ 64 mod 16 = 0" by (simp add: unat_mod unat_of_nat)
  also have "n mod 2 ^ 64 mod 16 = n mod 16" by (rule mod_mod_cancel) simp
  finally show ?thesis .
qed

lemma ceil16_step_dvd: "n mod 16 = 0 \<Longrightarrow> (Suc n + 15) div 16 = Suc ((n + 15) div (16::nat))"
  by (auto simp: mod_eq_0_iff_dvd elim!: dvdE)
lemma ceil16_step: assumes "n mod 16 \<noteq> 0" shows "(Suc n + 15) div 16 = (n + 15) div (16::nat)"
proof -
  have "n = 16 * (n div 16) + n mod 16" "0 < n mod 16" "n mod 16 < 16" using assms by (auto intro: mod_less_divisor)
  then obtain q r where n: "n = 16 * q + r" "0 < r" "r < 16" by blast
  have "(Suc n + 15) div 16 = Suc q" by (rule div_nat_eqI) (use n in simp_all)
  moreover have "(n + 15) div 16 = Suc q" by (rule div_nat_eqI) (use n in simp_all)
  ultimately show ?thesis by (simp only:)
qed

lemma gc_count_step:
  "of_nat ((Suc n + 15) div 16) =
     (if (of_nat n :: u64) mod GC_EVERY_N = 0 then of_nat ((n + 15) div 16) + 1 else (of_nat ((n + 15) div 16) :: u64))"
proof (cases "n mod 16 = 0")
  case True
  have m: "(of_nat n :: u64) mod GC_EVERY_N = 0" unfolding GC_EVERY_N_def by (rule iffD2 [OF of_nat_mod_16 True])
  show ?thesis unfolding ceil16_step_dvd [OF True] if_P [OF m] by (rule trans [OF of_nat_Suc add.commute])
next
  case False
  have m: "(of_nat n :: u64) mod GC_EVERY_N \<noteq> 0" unfolding GC_EVERY_N_def
    by (rule notI) (rule notE [OF False], rule iffD1 [OF of_nat_mod_16])
  show ?thesis unfolding ceil16_step [OF False] if_not_P [OF m] ..
qed

lemma length_remove1_in: "r \<in> set xs \<Longrightarrow> length xs = Suc (length (remove1 r xs))"
  by (induction xs) auto

lemma pool_inv_step: "pool_step w w' \<Longrightarrow> pool_inv slots w \<Longrightarrow> pool_inv slots w'"
proof (induction rule: pool_step.induct)
  case (release_accepted r w p)
  then show ?case
    using length_remove1_in [of r "pw_out w"] gc_count_step [of "pw_releases w"]
    by (auto simp: pool_inv_def release_start_def Let_def split: if_splits)
next
  case (release_disposed r w p)
  then show ?case
    using length_remove1_in [of r "pw_out w"] by (auto simp: pool_inv_def release_start_def Let_def split: if_splits)
next
  case (run_panics r w)
  then show ?case using length_remove1_in [of r "pw_out w"] by (auto simp: pool_inv_def)
qed (auto simp: pool_inv_def pool_defs split: list.splits sum.splits if_splits)

lemma warm_idle: "warm create c n q = Inr q' \<Longrightarrow> length q + n \<le> c \<Longrightarrow> length q' = length q + n"
  by (induction n arbitrary: q) (auto simp: queue_push_def split: sum.splits)

lemma pool_new_inv:
  assumes "pool_new create surface configured parallelism = Inr p0" and "pool_reachable p0 w"
  shows "pool_inv (pool_slots configured parallelism) w"
  using assms(2)
proof (induction rule: pool_reachable.induct)
  case start
  show ?case
    using assms(1) warm_idle [of create _ "pool_slots configured parallelism" "[]"]
    by (auto simp: pool_new_def pool_inv_def Let_def split: sum.splits)
next
  case (step w w')
  then show ?case using pool_inv_step by blast
qed

text \<open>A fully shut-down pool, with no release in between its two halves, stays empty and lets no run in.\<close>

definition shut :: "'r pool_world \<Rightarrow> bool" where
  "shut w \<longleftrightarrow> \<not> jp_accepting (pw_pool w) \<and> jp_idle (pw_pool w) = [] \<and> pw_returning w = []"

lemma shut_step: "pool_step w w' \<Longrightarrow> shut w \<Longrightarrow> shut w' \<and> pw_entering w' \<le> pw_entering w"
  by (induction rule: pool_step.induct) (auto simp: shut_def pool_defs split: list.splits sum.splits if_splits)

text \<open>C25: the pool never loses count. In every interleaving of runs, releases, panics and shutdowns of a pool that booted, at
  most \<open>size\<close> runtimes are idle, the in-flight gauge is the number of runtimes checked out plus the runs that panicked,
  the sweep ran on exactly one release in sixteen (across the wrap of the counter), and once the pool is shut down,
  empty and without a release under way, it stays so and lets no further run in.\<close>

theorem pool_accounting:
  assumes "pool_new create surface configured parallelism = Inr p0" and "pool_reachable p0 w"
  shows "length (jp_idle (pw_pool w)) \<le> pool_slots configured parallelism \<and>
    jp_in_flight (pw_pool w) = length (pw_out w) + pw_panicked w \<and>
    jp_gc_runs (pw_pool w) = of_nat ((pw_releases w + 15) div 16) \<and>
    (shut w \<longrightarrow> pool_step w w' \<longrightarrow> shut w' \<and> pw_entering w' \<le> pw_entering w)"
  using pool_new_inv [OF assms] shut_step [of w w'] by (auto simp: pool_inv_def)

definition sample_pool :: "nat js_pool" where
  "sample_pool = \<lparr>jp_idle = [0], jp_size = 1, jp_accepting = True, jp_in_flight = 0, jp_release_seq = 0, jp_gc_runs = 0\<rparr>"

lemma sample_pool_new: "pool_new (\<lambda>n. Inr n) (Inr ()) 1 None = Inr sample_pool"
  by (simp add: pool_new_def pool_slots_def sample_pool_def queue_push_def Let_def)

definition sample_start :: "nat pool_world" where
  "sample_start = \<lparr>pw_pool = sample_pool, pw_entering = 0, pw_out = [], pw_returning = [], pw_draining = False,
     pw_panicked = 0, pw_releases = 0\<rparr>"

theorem pool_accounting_witness:
  "length (jp_idle (pw_pool sample_start)) \<le> 1 \<and> jp_in_flight (pw_pool sample_start) = 0"
proof -
  have "pool_reachable sample_pool sample_start" unfolding sample_start_def by (rule pool_reachable.start)
  from pool_accounting [OF sample_pool_new this] show ?thesis by (simp add: pool_slots_def sample_start_def)
qed

text \<open>A shutdown can leave a warm runtime behind. A release that saw the pool accepting and pushes after the shutdown has
  drained the queue leaves a runtime in a pool that is shut down, with nothing in flight and nobody left to dispose of
  it.\<close>

lemma shutdown_leaves_runtime:
  "\<exists>w. pool_reachable sample_pool w \<and> \<not> jp_accepting (pw_pool w) \<and> \<not> pw_draining w \<and> pw_entering w = 0 \<and>
     pw_out w = [] \<and> pw_returning w = [] \<and> jp_idle (pw_pool w) = [0]"
proof -
  let ?w = "\<lambda>p e out ret dr n. \<lparr>pw_pool = p, pw_entering = e, pw_out = out, pw_returning = ret, pw_draining = dr,
     pw_panicked = 0, pw_releases = n\<rparr>"
  let ?p = "\<lambda>idle acc fl sq. \<lparr>jp_idle = idle, jp_size = 1, jp_accepting = acc, jp_in_flight = fl, jp_release_seq = sq,
     jp_gc_runs = sq\<rparr> :: nat js_pool"
  have r0: "pool_reachable sample_pool (?w (?p [0] True 0 0) 0 [] [] False 0)"
    using pool_reachable.start [of sample_pool] by (simp add: sample_pool_def)
  have r1: "pool_reachable sample_pool (?w (?p [0] True 0 0) 1 [] [] False 0)"
    using pool_reachable.step [OF r0 pool_step.enter] by simp
  have r2: "pool_reachable sample_pool (?w (?p [] True 1 0) 0 [0] [] False 0)"
    using pool_reachable.step [OF r1 pool_step.acquire [of _ "Inl []" 0]] by (simp add: pool_acquire_def)
  have r3: "pool_reachable sample_pool (?w (?p [] True 0 1) 0 [] [0] False 1)"
    using pool_reachable.step [OF r2 pool_step.release_accepted [of 0]]
    by (simp add: release_start_def GC_EVERY_N_def Let_def)
  have r4: "pool_reachable sample_pool (?w (?p [] False 0 1) 0 [] [0] True 1)"
    using pool_reachable.step [OF r3 pool_step.shutdown] by (simp add: shutdown_store_def)
  have r5: "pool_reachable sample_pool (?w (?p [] False 0 1) 0 [] [0] False 1)"
    using pool_reachable.step [OF r4 pool_step.drained] by simp
  have r6: "pool_reachable sample_pool (?w (?p [0] False 0 1) 0 [] [] False 1)"
    using pool_reachable.step [OF r5 pool_step.release_pushed [of 0]] by (simp add: release_push_def queue_push_def)
  show ?thesis using r6 by (intro exI [of _ "?w (?p [0] False 0 1) 0 [] [] False 1"]) simp
qed

end
