(* ===== verification/Logic_Host.thy ===== *)
theory Logic_Host
  imports Pool
begin

text \<open>
  The callable host, \<^verbatim>\<open>runlet-core/src/host.rs\<close>, and the compiled-bytecode cache, \<^verbatim>\<open>runlet-core/src/bytecode.rs\<close> with
  \<^verbatim>\<open>obtain_declared\<close> of \<^verbatim>\<open>engine/classify.rs\<close>.

  Arguments of the model: the hash (\<^verbatim>\<open>sha2\<close>), QuickJS's \<open>declare\<close>, \<open>write\<close> and \<open>load\<close> of a module (\<open>module_ops\<close>), what QuickJS
  does with a module or a script (\<open>js_exec\<close>), and which entries the \<^verbatim>\<open>moka\<close> cache drops (\<open>keep\<close>, before any operation).
  Strings are bytes.
\<close>

subsection \<open>The bytecode cache\<close>

definition DEFAULT_MIN_SOURCE_BYTES :: nat where "DEFAULT_MIN_SOURCE_BYTES = 2048"
definition BYTECODE_CACHE_CAPACITY :: nat where "BYTECODE_CACHE_CAPACITY = 1024"

definition le_bytes_64 :: "u64 \<Rightarrow> string" where
  "le_bytes_64 w = map (\<lambda>i. char_of (unat (drop_bit (8 * i) w))) [0..<8]"

definition digest_input :: "string \<Rightarrow> string \<Rightarrow> string" where
  "digest_input namespace source =
     le_bytes_64 (if length namespace < 2 ^ 64 then of_nat (length namespace) else - 1) @ namespace @ source"

definition digest :: "(string \<Rightarrow> 'h) \<Rightarrow> string \<Rightarrow> string \<Rightarrow> 'h" where
  "digest sha namespace source = sha (digest_input namespace source)"

record ('h, 'b) bytecode_cache =
  bc_entries :: "'h \<rightharpoonup> 'b"
  bc_min_source_bytes :: nat
  bc_hits :: u64
  bc_misses :: u64
  bc_stored :: u64

definition cache_new :: "nat \<Rightarrow> ('h, 'b) bytecode_cache" where
  "cache_new min_source_bytes =
     \<lparr>bc_entries = Map.empty, bc_min_source_bytes = min_source_bytes, bc_hits = 0, bc_misses = 0, bc_stored = 0\<rparr>"

definition should_store :: "('h, 'b) bytecode_cache \<Rightarrow> nat \<Rightarrow> bool" where
  "should_store c source_len \<longleftrightarrow> bc_min_source_bytes c \<le> source_len"

definition note_hit :: "('h, 'b) bytecode_cache \<Rightarrow> ('h, 'b) bytecode_cache" where
  "note_hit c = c\<lparr>bc_hits := bc_hits c + 1\<rparr>"

definition note_miss :: "('h, 'b) bytecode_cache \<Rightarrow> ('h, 'b) bytecode_cache" where
  "note_miss c = c\<lparr>bc_misses := bc_misses c + 1\<rparr>"

definition cache_insert :: "'h \<Rightarrow> 'b \<Rightarrow> ('h, 'b) bytecode_cache \<Rightarrow> ('h, 'b) bytecode_cache" where
  "cache_insert key bytecode c = c\<lparr>bc_stored := bc_stored c + 1, bc_entries := (bc_entries c)(key \<mapsto> bytecode)\<rparr>"

definition cache_evict :: "('h \<Rightarrow> bool) \<Rightarrow> ('h, 'b) bytecode_cache \<Rightarrow> ('h, 'b) bytecode_cache" where
  "cache_evict keep c = c\<lparr>bc_entries := (\<lambda>k. if keep k then bc_entries c k else None)\<rparr>"

record ('m, 'b) module_ops =
  mo_declare :: "string \<Rightarrow> 'm option"
  mo_write :: "'m \<Rightarrow> 'b option"
  mo_load :: "'b \<Rightarrow> 'm option"

definition obtain_declared ::
  "(string \<Rightarrow> 'h) \<Rightarrow> ('m, 'b) module_ops \<Rightarrow> string option \<Rightarrow> string \<Rightarrow> ('h, 'b) bytecode_cache \<Rightarrow>
   'm option \<times> ('h, 'b) bytecode_cache" where
  "obtain_declared sha ops cache_namespace script cache =
     (let namespace = (case cache_namespace of Some n \<Rightarrow> n | None \<Rightarrow> []);
          key = digest sha namespace script
      in case bc_entries cache key of
           Some bytecode \<Rightarrow> (mo_load ops bytecode, note_hit cache)
         | None \<Rightarrow>
             (let cache1 = note_miss cache
              in case mo_declare ops script of
                   None \<Rightarrow> (None, cache1)
                 | Some declared \<Rightarrow>
                     (Some declared,
                      if should_store cache1 (length script)
                      then (case mo_write ops declared of
                              Some bytes \<Rightarrow> cache_insert key bytes cache1
                            | None \<Rightarrow> cache1)
                      else cache1)))"

subsection \<open>The key is injective\<close>

lemma le_bytes_64_length [simp]: "length (le_bytes_64 w) = 8"
  by (simp add: le_bytes_64_def)

lemma le_bytes_64_inj: "le_bytes_64 v = le_bytes_64 w \<Longrightarrow> v = w"
proof (rule bit_word_eqI)
  fix n
  assume eq: "le_bytes_64 v = le_bytes_64 w" and n: "n < LENGTH(64)"
  have byte: "bit u n = bit (of_char (le_bytes_64 u ! (n div 8)) :: nat) (n mod 8)" for u :: u64
  proof -
    have "n div 8 < 8" using n by (simp add: div_less_iff_less_mult)
    then have "le_bytes_64 u ! (n div 8) = char_of (unat (drop_bit (8 * (n div 8)) u))"
      by (simp add: le_bytes_64_def nth_upt)
    then have "(of_char (le_bytes_64 u ! (n div 8)) :: nat) = take_bit 8 (unat (drop_bit (8 * (n div 8)) u))"
      by (simp add: take_bit_eq_mod)
    then have "bit (of_char (le_bytes_64 u ! (n div 8)) :: nat) (n mod 8) \<longleftrightarrow> bit u (8 * (n div 8) + n mod 8)"
      by (auto simp: bit_take_bit_iff bit_unsigned_iff bit_drop_bit_eq dest: bit_imp_le_length)
    then show ?thesis by simp
  qed
  show "bit v n = bit w n" using byte [of v] byte [of w] eq by simp
qed

lemma digest_input_inj:
  assumes "length n1 < 2 ^ 64" and "length n2 < 2 ^ 64" and "digest_input n1 s1 = digest_input n2 s2"
  shows "n1 = n2 \<and> s1 = s2"
proof -
  have "le_bytes_64 (of_nat (length n1)) = le_bytes_64 (of_nat (length n2))" and rest: "n1 @ s1 = n2 @ s2"
    using assms by (simp_all add: digest_input_def)
  then have "(of_nat (length n1) :: u64) = of_nat (length n2)" using le_bytes_64_inj by blast
  then have "length n1 = length n2" using assms(1,2) unat_of_nat_u64 by metis
  then show ?thesis using rest by simp
qed

subsection \<open>Concurrent use of the cache\<close>

text \<open>
  \<^verbatim>\<open>obtain_declared\<close> in its two atomic parts: the lookup (and compile), then the insertion it leaves to do. Many requests
  interleave; the world keeps the insertions under way and what every request obtained.
\<close>

definition namespace_of :: "string option \<Rightarrow> string" where
  "namespace_of ns = (case ns of Some n \<Rightarrow> n | None \<Rightarrow> [])"

definition obtain_lookup ::
  "(string \<Rightarrow> 'h) \<Rightarrow> ('m, 'b) module_ops \<Rightarrow> string option \<Rightarrow> string \<Rightarrow> ('h, 'b) bytecode_cache \<Rightarrow>
   'm option \<times> ('h \<times> 'b) list \<times> ('h, 'b) bytecode_cache" where
  "obtain_lookup sha ops ns script c =
     (let key = digest sha (namespace_of ns) script
      in case bc_entries c key of
           Some bytecode \<Rightarrow> (mo_load ops bytecode, [], note_hit c)
         | None \<Rightarrow>
             (case mo_declare ops script of
                None \<Rightarrow> (None, [], note_miss c)
              | Some declared \<Rightarrow>
                  (Some declared,
                   (if should_store c (length script)
                    then (case mo_write ops declared of Some bytes \<Rightarrow> [(key, bytes)] | None \<Rightarrow> []) else []),
                   note_miss c)))"

lemma obtain_declared_lookup:
  "obtain_declared sha ops ns script c =
     (case obtain_lookup sha ops ns script c of
        (m, todo, c') \<Rightarrow> (m, fold (\<lambda>(k, b). cache_insert k b) todo c'))"
  by (simp add: obtain_declared_def obtain_lookup_def namespace_of_def should_store_def note_miss_def Let_def
      split: option.split)

record ('h, 'b, 'm) cache_world =
  cw_cache :: "('h, 'b) bytecode_cache"
  cw_todo :: "('h \<times> 'b) list"
  cw_log :: "(string \<times> string \<times> 'm option) list"

inductive cache_step ::
  "(string \<Rightarrow> 'h) \<Rightarrow> ('m, 'b) module_ops \<Rightarrow> ('h, 'b, 'm) cache_world \<Rightarrow> ('h, 'b, 'm) cache_world \<Rightarrow> bool"
for sha ops where
  lookup: "obtain_lookup sha ops ns script (cw_cache w) = (m, todo, c) \<Longrightarrow>
    cache_step sha ops w
      (w\<lparr>cw_cache := c, cw_todo := todo @ cw_todo w, cw_log := cw_log w @ [(namespace_of ns, script, m)]\<rparr>)"
| insert: "(k, b) \<in> set (cw_todo w) \<Longrightarrow>
    cache_step sha ops w (w\<lparr>cw_cache := cache_insert k b (cw_cache w), cw_todo := remove1 (k, b) (cw_todo w)\<rparr>)"
| evict: "cache_step sha ops w (w\<lparr>cw_cache := cache_evict keep (cw_cache w)\<rparr>)"

inductive cache_reachable ::
  "(string \<Rightarrow> 'h) \<Rightarrow> ('m, 'b) module_ops \<Rightarrow> nat \<Rightarrow> ('h, 'b, 'm) cache_world \<Rightarrow> bool" for sha ops floor where
  start: "cache_reachable sha ops floor \<lparr>cw_cache = cache_new floor, cw_todo = [], cw_log = []\<rparr>"
| step: "cache_reachable sha ops floor w \<Longrightarrow> cache_step sha ops w w' \<Longrightarrow> cache_reachable sha ops floor w'"

text \<open>Bytecode has an origin: a logged request whose script compiles to it, under the key of that request.\<close>

definition has_origin ::
  "(string \<Rightarrow> 'h) \<Rightarrow> ('m, 'b) module_ops \<Rightarrow> nat \<Rightarrow> (string \<times> string \<times> 'm option) list \<Rightarrow> 'h \<Rightarrow> 'b \<Rightarrow> bool" where
  "has_origin sha ops floor history k b \<longleftrightarrow>
     (\<exists>ns script r m. (ns, script, r) \<in> set history \<and> k = digest sha ns script \<and> floor \<le> length script \<and>
        mo_declare ops script = Some m \<and> mo_write ops m = Some b)"

definition cache_inv :: "(string \<Rightarrow> 'h) \<Rightarrow> ('m, 'b) module_ops \<Rightarrow> nat \<Rightarrow> ('h, 'b, 'm) cache_world \<Rightarrow> bool" where
  "cache_inv sha ops floor w \<longleftrightarrow>
     bc_min_source_bytes (cw_cache w) = floor \<and>
     (\<forall>k b. bc_entries (cw_cache w) k = Some b \<longrightarrow> has_origin sha ops floor (cw_log w) k b) \<and>
     (\<forall>(k, b) \<in> set (cw_todo w). has_origin sha ops floor (cw_log w) k b) \<and>
     bc_hits (cw_cache w) + bc_misses (cw_cache w) = of_nat (length (cw_log w))"

lemmas cache_defs = cache_new_def cache_insert_def cache_evict_def note_hit_def note_miss_def should_store_def

lemma has_origin_mono:
  "has_origin sha ops floor h k b \<Longrightarrow> has_origin sha ops floor (h @ [x]) k b"
  unfolding has_origin_def by (metis UnI1 set_append)

lemma obtain_lookup_inv:
  assumes inv: "cache_inv sha ops floor w" and start: "obtain_lookup sha ops ns script (cw_cache w) = (m, todo, c)"
  shows "cache_inv sha ops floor
    (w\<lparr>cw_cache := c, cw_todo := todo @ cw_todo w, cw_log := cw_log w @ [(namespace_of ns, script, m)]\<rparr>)"
proof -
  have c: "bc_entries c = bc_entries (cw_cache w)" "bc_min_source_bytes c = bc_min_source_bytes (cw_cache w)"
    "bc_hits c + bc_misses c = bc_hits (cw_cache w) + bc_misses (cw_cache w) + 1"
    using start by (auto simp: obtain_lookup_def cache_defs Let_def split: option.splits)
  have todo: "has_origin sha ops floor (cw_log w @ [(namespace_of ns, script, m)]) k b" if "(k, b) \<in> set todo" for k b
  proof -
    from that start inv obtain d where d: "mo_declare ops script = Some d" "mo_write ops d = Some b"
      "k = digest sha (namespace_of ns) script" "floor \<le> length script"
      by (auto simp: obtain_lookup_def cache_inv_def cache_defs Let_def split: option.splits if_splits)
    then show ?thesis unfolding has_origin_def by (intro exI [of _ "namespace_of ns"] exI [of _ script] exI [of _ m] exI [of _ d]) simp
  qed
  show ?thesis using inv todo by (auto simp: cache_inv_def c has_origin_mono add_ac)
qed

lemma cache_inv_step: "cache_step sha ops w w' \<Longrightarrow> cache_inv sha ops floor w \<Longrightarrow> cache_inv sha ops floor w'"
proof (induction rule: cache_step.induct)
  case (lookup ns script w m todo c)
  from obtain_lookup_inv [OF lookup(2,1)] show ?case .
next
  case (insert k b w)
  then show ?case by (auto simp: cache_inv_def cache_defs dest: notin_set_remove1 split: if_splits)
next
  case (evict w keep)
  then show ?case by (simp add: cache_inv_def cache_defs)
qed

lemma cache_reachable_inv: "cache_reachable sha ops floor w \<Longrightarrow> cache_inv sha ops floor w"
proof (induction rule: cache_reachable.induct)
  case start
  show ?case by (simp add: cache_inv_def cache_defs)
next
  case (step w w')
  then show ?case using cache_inv_step by blast
qed

text \<open>The inputs that were hashed, and the assumption on the hash: no collision among them.\<close>

definition hashed :: "(string \<times> string \<times> 'm option) list \<Rightarrow> string set" where
  "hashed history = (\<lambda>(ns, script, r). digest_input ns script) ` set history"

definition short_namespaces :: "(string \<times> string \<times> 'm option) list \<Rightarrow> bool" where
  "short_namespaces history \<longleftrightarrow> (\<forall>(ns, script, r) \<in> set history. length ns < 2 ^ 64)"

lemma key_source:
  assumes "inj_on sha (insert (digest_input ns script) (hashed history))" and "short_namespaces history"
    and "length ns < 2 ^ 64" and "(ns', script', r) \<in> set history" and "digest sha ns script = digest sha ns' script'"
  shows "ns' = ns \<and> script' = script"
proof -
  have "digest_input ns' script' \<in> hashed history" using assms(4) unfolding hashed_def by force
  then have "digest_input ns script = digest_input ns' script'"
    using inj_onD [OF assms(1)] assms(5) by (simp add: digest_def)
  moreover have "length ns' < 2 ^ 64" using assms(2,4) unfolding short_namespaces_def by fast
  ultimately show ?thesis using digest_input_inj assms(3) by metis
qed

lemma lookup_result:
  assumes inv: "cache_inv sha ops floor w" and start: "obtain_lookup sha ops ns script (cw_cache w) = (m, todo, c)"
    and inj: "inj_on sha (insert (digest_input (namespace_of ns) script) (hashed (cw_log w)))"
    and short: "short_namespaces (cw_log w)" "length (namespace_of ns) < 2 ^ 64"
    and load: "\<And>x b. mo_write ops x = Some b \<Longrightarrow> mo_load ops b = Some x"
  shows "m = mo_declare ops script"
proof (cases "bc_entries (cw_cache w) (digest sha (namespace_of ns) script)")
  case None
  then show ?thesis using start by (auto simp: obtain_lookup_def Let_def split: option.splits)
next
  case (Some b)
  then have "has_origin sha ops floor (cw_log w) (digest sha (namespace_of ns) script) b"
    using inv by (simp add: cache_inv_def)
  then obtain ns' script' r x where o: "(ns', script', r) \<in> set (cw_log w)"
    "digest sha (namespace_of ns) script = digest sha ns' script'" "mo_declare ops script' = Some x" "mo_write ops x = Some b"
    unfolding has_origin_def by blast
  have "script' = script" using key_source [OF inj short o(1,2)] ..
  then show ?thesis using start Some o load by (auto simp: obtain_lookup_def Let_def)
qed

lemma cache_results:
  assumes load: "\<And>x b. mo_write ops x = Some b \<Longrightarrow> mo_load ops b = Some x"
  shows "cache_reachable sha ops floor w \<Longrightarrow> inj_on sha (hashed (cw_log w)) \<Longrightarrow> short_namespaces (cw_log w) \<Longrightarrow>
    \<forall>(ns, script, m) \<in> set (cw_log w). m = mo_declare ops script"
proof (induction rule: cache_reachable.induct)
  case start
  show ?case by simp
next
  case (step w w')
  from step.hyps(2) show ?case
  proof cases
    case (lookup ns script m todo c)
    have log: "hashed (cw_log w') = insert (digest_input (namespace_of ns) script) (hashed (cw_log w))"
      using lookup(1) by (simp add: hashed_def)
    have short: "short_namespaces (cw_log w)" "length (namespace_of ns) < 2 ^ 64"
      using step.prems(2) lookup(1) by (auto simp: short_namespaces_def)
    have "m = mo_declare ops script"
      using lookup_result [OF cache_reachable_inv [OF step.hyps(1)] lookup(2) _ short load] step.prems(1) log by simp
    moreover have "\<forall>(ns, script, m) \<in> set (cw_log w). m = mo_declare ops script"
      using step.IH short(1) inj_on_subset [OF step.prems(1)] log by blast
    ultimately show ?thesis using lookup(1) by auto
  qed (use step in auto)
qed

text \<open>C20: the bytecode cache is transparent and private. However lookups, insertions and evictions of concurrent requests
  interleave, every request obtains exactly what compiling its own source gives, and a cached entry under the key of a
  namespace and source was put there by a request of that very namespace and source (so tenants never share an entry);
  hits and misses count the requests. Assumed: no hash collision among the inputs, and that QuickJS loads back what
  it wrote.\<close>

theorem cache_transparent:
  assumes "cache_reachable sha ops floor w" and "inj_on sha (insert (digest_input ns script) (hashed (cw_log w)))"
    and "short_namespaces (cw_log w)" and "length ns < 2 ^ 64"
    and "\<And>x b. mo_write ops x = Some b \<Longrightarrow> mo_load ops b = Some x"
  shows "(\<forall>(n, s, m) \<in> set (cw_log w). m = mo_declare ops s) \<and>
    (bc_entries (cw_cache w) (digest sha ns script) \<noteq> None \<longrightarrow>
       floor \<le> length script \<and> (\<exists>m. (ns, script, m) \<in> set (cw_log w))) \<and>
    bc_hits (cw_cache w) + bc_misses (cw_cache w) = of_nat (length (cw_log w))"
proof -
  have inv: "cache_inv sha ops floor w" using assms(1) by (rule cache_reachable_inv)
  have "floor \<le> length script \<and> (\<exists>m. (ns, script, m) \<in> set (cw_log w))"
    if "bc_entries (cw_cache w) (digest sha ns script) = Some b" for b
  proof -
    from inv that obtain ns' script' r where o: "(ns', script', r) \<in> set (cw_log w)"
      "digest sha ns script = digest sha ns' script'" "floor \<le> length script'"
      unfolding cache_inv_def has_origin_def by blast
    then show ?thesis using key_source [OF assms(2-4) o(1,2)] by blast
  qed
  moreover have "\<forall>(n, s, m) \<in> set (cw_log w). m = mo_declare ops s"
    using cache_results [OF assms(5) assms(1) inj_on_subset [OF assms(2)] assms(3)] by blast
  ultimately show ?thesis using inv by (auto simp: cache_inv_def)
qed

text \<open>A toy compiler: a module is its source, bytecode is the module.\<close>

definition sample_ops :: "(string, string) module_ops" where
  "sample_ops = \<lparr>mo_declare = Some, mo_write = Some, mo_load = Some\<rparr>"

theorem cache_transparent_witness:
  "\<exists>w. cache_reachable id sample_ops 0 w \<and> (\<forall>(n, s, m) \<in> set (cw_log w). m = mo_declare sample_ops s) \<and>
     bc_hits (cw_cache w) = 1 \<and> bc_entries (cw_cache w) (digest id ''b'' ''x'') = None"
proof -
  let ?k = "digest id ''a'' ''x''"
  let ?c = "\<lambda>e h m st. \<lparr>bc_entries = e, bc_min_source_bytes = 0, bc_hits = h, bc_misses = m, bc_stored = st\<rparr>"
  let ?l = "(''a'', ''x'', Some ''x'')"
  have a: "cache_reachable id sample_ops 0 \<lparr>cw_cache = ?c Map.empty 0 1 0, cw_todo = [(?k, ''x'')], cw_log = [?l]\<rparr>"
    using cache_reachable.step [OF cache_reachable.start [of id sample_ops 0] cache_step.lookup [of id sample_ops "Some ''a''" "''x''"]]
    by (simp add: obtain_lookup_def cache_defs sample_ops_def namespace_of_def Let_def)
  have b: "cache_reachable id sample_ops 0 \<lparr>cw_cache = ?c [?k \<mapsto> ''x''] 0 1 1, cw_todo = [], cw_log = [?l]\<rparr>"
    using cache_reachable.step [OF a cache_step.insert [of ?k "''x''"]] by (simp add: cache_defs)
  have c: "cache_reachable id sample_ops 0 \<lparr>cw_cache = ?c [?k \<mapsto> ''x''] 1 1 1, cw_todo = [], cw_log = [?l, ?l]\<rparr>"
    using cache_reachable.step [OF b cache_step.lookup [of id sample_ops "Some ''a''" "''x''"]]
    by (simp add: obtain_lookup_def cache_defs sample_ops_def namespace_of_def)
  have "bc_entries (?c [?k \<mapsto> ''x''] 1 1 1) (digest id ''b'' ''x'') \<noteq> None \<longrightarrow> False"
    using cache_transparent [OF c, of "''b''" "''x''"] by (simp add: short_namespaces_def sample_ops_def)
  then show ?thesis
    using cache_transparent [OF c, of "''b''" "''x''"] c by (intro exI [of _ "\<lparr>cw_cache = ?c [?k \<mapsto> ''x''] 1 1 1, cw_todo = [], cw_log = [?l, ?l]\<rparr>"]) (auto simp: sample_ops_def)
qed

subsection \<open>The host\<close>

datatype code_ref = CodeInline string | CodeRegistered string

record capability_set =
  cs_allowed_hosts :: "string list"
  cs_s3 :: "json option"
  cs_sys :: "json option"
  cs_io :: "string list"

definition capability_set_none :: capability_set where
  "capability_set_none = \<lparr>cs_allowed_hosts = [], cs_s3 = None, cs_sys = None, cs_io = []\<rparr>"

record 'w host_invocation =
  hv_code :: code_ref
  hv_context_json :: string
  hv_profile :: profile
  hv_caps :: capability_set
  hv_egress :: "'w egress option"
  hv_cache_namespace :: "string option"
  hv_log_level :: "log_level option"
  hv_default_currency :: "string option"

definition with_defaults :: "code_ref \<Rightarrow> string \<Rightarrow> 'w host_invocation" where
  "with_defaults code context_json =
     \<lparr>hv_code = code, hv_context_json = context_json, hv_profile = Full, hv_caps = capability_set_none,
      hv_egress = None, hv_cache_namespace = None, hv_log_level = None, hv_default_currency = None\<rparr>"

definition host_inline :: "string \<Rightarrow> string \<Rightarrow> 'w host_invocation" where
  "host_inline source context_json = with_defaults (CodeInline source) context_json"

definition host_registered :: "string \<Rightarrow> string \<Rightarrow> 'w host_invocation" where
  "host_registered key context_json = with_defaults (CodeRegistered key) context_json"

record ('w, 'r, 'h, 'b) logic_host =
  lh_pool :: "'r js_pool"
  lh_cache :: "('h, 'b) bytecode_cache"
  lh_limits :: engine_config
  lh_allow_private_targets :: bool
  lh_registry :: "string \<rightharpoonup> string"
  lh_capabilities :: "'w capability_registry"

definition host_new ::
  "'r js_pool \<Rightarrow> ('h, 'b) bytecode_cache \<Rightarrow> (string \<rightharpoonup> string) \<Rightarrow> engine_config \<Rightarrow> bool \<Rightarrow> ('w, 'r, 'h, 'b) logic_host" where
  "host_new pool cache registry limits allow_private =
     \<lparr>lh_pool = pool, lh_cache = cache, lh_limits = limits, lh_allow_private_targets = allow_private,
      lh_registry = registry, lh_capabilities = registry_default\<rparr>"

text \<open>\<^verbatim>\<open>LogicHostBuilder::build\<close> over the capabilities gathered and the fallback set.\<close>

definition host_build ::
  "'r js_pool \<Rightarrow> ('h, 'b) bytecode_cache \<Rightarrow> (string \<rightharpoonup> string) \<Rightarrow> engine_config \<Rightarrow> bool \<Rightarrow> 'w capability_def list \<Rightarrow>
   'w egress option \<Rightarrow> (registry_error, ('w, 'r, 'h, 'b) logic_host) result" where
  "host_build pool cache registry limits allow_private defs fallback =
     (case registry_build defs fallback of
        Inl e \<Rightarrow> Inl e
      | Inr capabilities \<Rightarrow>
          Inr \<lparr>lh_pool = pool, lh_cache = cache, lh_limits = limits, lh_allow_private_targets = allow_private,
               lh_registry = registry, lh_capabilities = capabilities\<rparr>)"

definition host_shutdown :: "('w, 'r, 'h, 'b) logic_host \<Rightarrow> ('w, 'r, 'h, 'b) logic_host" where
  "host_shutdown h = h\<lparr>lh_pool := pool_shutdown (lh_pool h)\<rparr>"

definition resolve_source :: "(string \<rightharpoonup> string) \<Rightarrow> code_ref \<Rightarrow> (engine_error, string) result" where
  "resolve_source registry code =
     (case code of
        CodeInline source \<Rightarrow> Inr source
      | CodeRegistered key \<Rightarrow>
          (case registry key of
             Some source \<Rightarrow> Inr source
           | None \<Rightarrow> Inl (ScriptNotFound (''no registered script for key `'' @ key @ ''`''))))"

definition host_params :: "('w, 'r, 'h, 'b) logic_host \<Rightarrow> 'w host_invocation \<Rightarrow> string \<Rightarrow> 'w exec_params" where
  "host_params h iv source =
     \<lparr>xp_script = source, xp_profile = hv_profile iv, xp_timeout_ms = unat (ec_timeout_ms (lh_limits h)),
      xp_mux = \<lparr>mp_registry = lh_capabilities h, mp_fallback = hv_egress iv, mp_enabled_io = cs_io (hv_caps iv),
                mp_max_ops = ec_max_ops (lh_limits h), mp_allow_private = lh_allow_private_targets h\<rparr>,
      xp_allowed_hosts = cs_allowed_hosts (hv_caps iv), xp_max_ops = ec_max_ops (lh_limits h),
      xp_max_emit_kind_len = ec_max_emit_kind_len (lh_limits h),
      xp_log_limits = \<lparr>ll_floor = (case hv_log_level iv of Some l \<Rightarrow> l | None \<Rightarrow> ec_log_level (lh_limits h)),
                       ll_max_entries = ec_max_log_entries (lh_limits h),
                       ll_max_entry_bytes = ec_max_log_entry_bytes (lh_limits h),
                       ll_max_total_bytes = ec_max_log_total_bytes (lh_limits h)\<rparr>,
      xp_max_output_size = ec_max_output_size (lh_limits h), xp_allow_private = lh_allow_private_targets h,
      xp_wildcard_hosts = (ec_allow_wildcard_hosts (lh_limits h) \<and> \<not> lh_allow_private_targets h)\<rparr>"

text \<open>
  QuickJS on one runtime: creating a runtime, compiling, and executing. \<open>qj_exec\<close> is given the module when the source is an
  ES module that compiled; it covers the currency, \<open>sys\<close> and \<open>s3\<close> configuration through the invocation.
\<close>

record ('w, 'r, 'h, 'm, 'b) quickjs =
  qj_create :: "(string, 'r) result"
  qj_sha :: "string \<Rightarrow> 'h"
  qj_modules :: "('m, 'b) module_ops"
  qj_exec :: "'r \<Rightarrow> 'w exec_params \<Rightarrow> 'w host_invocation \<Rightarrow> 'm option \<Rightarrow> script_run"

definition set_up :: "script_run \<Rightarrow> bool" where
  "set_up run \<longleftrightarrow> sr_context_error run = None \<and> sr_setup_error run = None"

definition execute_source ::
  "('w, 'r, 'h, 'm, 'b) quickjs \<Rightarrow> 'r \<Rightarrow> 'w exec_params \<Rightarrow> 'w host_invocation \<Rightarrow> ('h, 'b) bytecode_cache \<Rightarrow>
   script_run \<times> ('h, 'b) bytecode_cache" where
  "execute_source js runtime p iv cache =
     (if is_es_module (xp_script p)
      then (case obtain_declared (qj_sha js) (qj_modules js) (hv_cache_namespace iv) (xp_script p) cache of
              (declared, cache') \<Rightarrow>
                let run = qj_exec js runtime p iv declared in (run, if set_up run then cache' else cache))
      else (qj_exec js runtime p iv None, cache))"

record 'w host_outcome =
  ho_result :: "(engine_error, string) result"
  ho_effects :: "effect list"
  ho_logs :: "log_entry list"
  ho_http_metrics :: "http_metric list"
  ho_sent :: "(http_request \<times> parsed_url list) list"
  ho_world :: 'w

definition outcome_of :: "'w exec_result \<Rightarrow> 'w host_outcome" where
  "outcome_of r =
     \<lparr>ho_result = er_outcome r, ho_effects = er_effects r, ho_logs = er_logs r,
      ho_http_metrics = er_http_metrics r, ho_sent = er_sent r, ho_world = er_world r\<rparr>"

definition host_run ::
  "('w, 'r, 'h, 'm, 'b) quickjs \<Rightarrow> exec_env \<Rightarrow> ('w, 'r, 'h, 'b) logic_host \<Rightarrow> 'w host_invocation \<Rightarrow> 'w \<Rightarrow>
   (engine_error, 'w host_outcome) result \<times> ('w, 'r, 'h, 'b) logic_host" where
  "host_run js env h iv w =
     (if \<not> jp_accepting (lh_pool h) then (Inl ShuttingDown, h)
      else case resolve_source (lh_registry h) (hv_code iv) of
             Inl e \<Rightarrow> (Inl e, h)
           | Inr source \<Rightarrow>
               (case pool_acquire (qj_create js) (lh_pool h) of
                  (Inl e, pool) \<Rightarrow> (Inl (Internal e), h\<lparr>lh_pool := pool\<rparr>)
                | (Inr runtime, pool) \<Rightarrow>
                    (let params = host_params h iv source;
                         (run, cache) = execute_source js runtime params iv (lh_cache h);
                         exec = engine_run env params run w;
                         h' = h\<lparr>lh_pool := pool_release runtime pool, lh_cache := cache\<rparr>
                     in case exec of
                          Inl e \<Rightarrow> (Inl e, h')
                        | Inr r \<Rightarrow> (Inr (outcome_of r), h'))))"

subsection \<open>What the host guarantees\<close>

lemma pool_acquire_release:
  assumes "pool_acquire create p = (Inr r, p')" and "jp_accepting p"
  shows "pool_release r p' =
    p\<lparr>jp_idle := queue_push (jp_size p) (tl (jp_idle p)) r, jp_release_seq := jp_release_seq p + 1,
      jp_gc_runs := (if jp_release_seq p mod GC_EVERY_N = 0 then jp_gc_runs p + 1 else jp_gc_runs p)\<rparr>"
proof -
  have "p' = p\<lparr>jp_idle := tl (jp_idle p), jp_in_flight := jp_in_flight p + 1\<rparr>"
    using assms(1) by (auto simp: pool_acquire_def split: list.splits sum.splits)
  then show ?thesis using assms(2) by (simp add: pool_release_def release_start_def release_push_def)
qed

lemma pool_acquire_fails: "pool_acquire create p = (Inl e, p') \<Longrightarrow> p' = p"
  by (auto simp: pool_acquire_def split: list.splits sum.splits)

text \<open>
  The runtime a run would get, the script execution it would make of it, and the pool a run leaves: what it took is again in the queue,
  at its end.
\<close>

definition runtime_for :: "('w, 'r, 'h, 'm, 'b) quickjs \<Rightarrow> 'r js_pool \<Rightarrow> (string, 'r) result" where
  "runtime_for js p = (case jp_idle p of r # rs \<Rightarrow> Inr r | [] \<Rightarrow> qj_create js)"

definition host_exec ::
  "('w, 'r, 'h, 'm, 'b) quickjs \<Rightarrow> ('w, 'r, 'h, 'b) logic_host \<Rightarrow> 'w host_invocation \<Rightarrow> 'r \<Rightarrow> string \<Rightarrow> script_run" where
  "host_exec js h iv r source = fst (execute_source js r (host_params h iv source) iv (lh_cache h))"

definition given_back :: "'r \<Rightarrow> 'r js_pool \<Rightarrow> 'r js_pool \<Rightarrow> bool" where
  "given_back r p p' \<longleftrightarrow>
     (length (jp_idle p) \<le> jp_size p \<and> 0 < jp_size p \<longrightarrow> jp_idle p' = tl (jp_idle p) @ [r]) \<and>
     (length (jp_idle p) \<le> jp_size p \<longrightarrow> length (jp_idle p') \<le> jp_size p) \<and>
     jp_in_flight p' = jp_in_flight p \<and> jp_accepting p' = jp_accepting p \<and> jp_size p' = jp_size p \<and>
     jp_release_seq p' = jp_release_seq p + 1 \<and>
     jp_gc_runs p' = jp_gc_runs p + (if jp_release_seq p mod GC_EVERY_N = 0 then 1 else 0)"

lemma given_back_queue:
  "given_back r p (p\<lparr>jp_idle := queue_push (jp_size p) (tl (jp_idle p)) r, jp_release_seq := jp_release_seq p + 1,
     jp_gc_runs := (if jp_release_seq p mod GC_EVERY_N = 0 then jp_gc_runs p + 1 else jp_gc_runs p)\<rparr>)"
  by (auto simp: given_back_def queue_push_def)

lemma pool_acquire_runtime: "fst (pool_acquire (qj_create js) p) = runtime_for js p"
  by (simp add: pool_acquire_def runtime_for_def split: list.splits sum.splits)

lemma resolve_source_error:
  "resolve_source registry code = Inl e \<longleftrightarrow>
     (\<exists>key. code = CodeRegistered key \<and> registry key = None \<and>
            e = ScriptNotFound (''no registered script for key `'' @ key @ ''`''))"
  by (auto simp: resolve_source_def split: code_ref.splits option.splits)

lemma host_run_cases:
  assumes "host_run js env h iv w = (res, h')"
  shows "(res, h') =
     (if \<not> jp_accepting (lh_pool h) then (Inl ShuttingDown, h)
      else case resolve_source (lh_registry h) (hv_code iv) of
             Inl e \<Rightarrow> (Inl e, h)
           | Inr source \<Rightarrow>
               (case runtime_for js (lh_pool h) of
                  Inl m \<Rightarrow> (Inl (Internal m), h)
                | Inr r \<Rightarrow>
                    (map_sum id outcome_of (engine_run env (host_params h iv source) (host_exec js h iv r source) w), h')))"
proof -
  obtain got pool where a: "pool_acquire (qj_create js) (lh_pool h) = (got, pool)" by fastforce
  have "got = runtime_for js (lh_pool h)" using pool_acquire_runtime [of js "lh_pool h"] a by simp
  moreover have "h\<lparr>lh_pool := pool\<rparr> = h" if "got = Inl m" for m using pool_acquire_fails [of _ _ m pool] a that by auto
  ultimately show ?thesis using a assms by (auto simp: host_run_def host_exec_def Let_def split: sum.splits prod.splits)
qed

lemma host_run_returns:
  assumes "jp_accepting (lh_pool h)" and "resolve_source (lh_registry h) (hv_code iv) = Inr source"
    and "runtime_for js (lh_pool h) = Inr r" and "host_run js env h iv w = (res, h')"
  shows "given_back r (lh_pool h) (lh_pool h')" "lh_limits h' = lh_limits h" "lh_registry h' = lh_registry h"
    "lh_capabilities h' = lh_capabilities h" "lh_allow_private_targets h' = lh_allow_private_targets h"
proof -
  obtain pool where a: "pool_acquire (qj_create js) (lh_pool h) = (Inr r, pool)"
    using pool_acquire_runtime [of js "lh_pool h"] assms(3) by (metis prod.collapse)
  have "\<exists>cache. h' = h\<lparr>lh_pool := pool_release r pool, lh_cache := cache\<rparr>"
    using assms(1, 2, 4) a by (auto simp: host_run_def Let_def split: sum.splits prod.splits)
  then show "given_back r (lh_pool h) (lh_pool h')" "lh_limits h' = lh_limits h" "lh_registry h' = lh_registry h"
    "lh_capabilities h' = lh_capabilities h" "lh_allow_private_targets h' = lh_allow_private_targets h"
    using given_back_queue [of r "lh_pool h"] by (auto simp: pool_acquire_release [OF a assms(1)])
qed

text \<open>C21: a run refuses when it must and gives back what it takes. It answers that the host is shutting down exactly when the pool
  does not accept, that the script is unknown exactly when a registered key has no source, and an internal failure exactly
  when no runtime can be had or the context cannot be created; no other error is returned, a run refused before it took a
  runtime leaves the host as it was, and otherwise the answer is the engine's outcome on the runtime taken. Whatever the script does, a run that
  took a runtime puts it back at the end of the idle queue, leaving the in-flight gauge, the accepting flag and the size as they
  were, and counts one release, with a sweep on every sixteenth.\<close>

theorem host_run_balanced:
  assumes "host_run js env h iv w = (res, h')"
  shows "(res = Inl ShuttingDown \<longleftrightarrow> \<not> jp_accepting (lh_pool h)) \<and>
   (res = Inl (ScriptNotFound m) \<longleftrightarrow>
      jp_accepting (lh_pool h) \<and>
      (\<exists>key. hv_code iv = CodeRegistered key \<and> lh_registry h key = None \<and> m = ''no registered script for key `'' @ key @ ''`'')) \<and>
   (res = Inl (Internal n) \<longleftrightarrow>
      jp_accepting (lh_pool h) \<and>
      (\<exists>source. resolve_source (lh_registry h) (hv_code iv) = Inr source \<and>
         (runtime_for js (lh_pool h) = Inl n \<or>
          (\<exists>r. runtime_for js (lh_pool h) = Inr r \<and> sr_context_error (host_exec js h iv r source) = Some n)))) \<and>
   (res = Inl e \<longrightarrow> e = ShuttingDown \<or> (\<exists>m. e = ScriptNotFound m) \<or> (\<exists>m. e = Internal m)) \<and>
   (if jp_accepting (lh_pool h) \<and> is_ok (resolve_source (lh_registry h) (hv_code iv)) \<and> is_ok (runtime_for js (lh_pool h))
    then \<exists>source r. resolve_source (lh_registry h) (hv_code iv) = Inr source \<and> runtime_for js (lh_pool h) = Inr r \<and>
      res = map_sum id outcome_of (engine_run env (host_params h iv source) (host_exec js h iv r source) w) \<and>
      given_back r (lh_pool h) (lh_pool h') \<and> lh_limits h' = lh_limits h \<and> lh_registry h' = lh_registry h \<and>
      lh_capabilities h' = lh_capabilities h \<and> lh_allow_private_targets h' = lh_allow_private_targets h
    else h' = h)"
proof -
  note run = host_run_cases [OF assms]
  have engine: "engine_run env p x w = Inl d \<longleftrightarrow> (\<exists>n. sr_context_error x = Some n \<and> d = Internal n)" for p x d
    by (auto simp: engine_run_def Let_def split: option.splits)
  have ms: "map_sum id outcome_of x = Inl d \<longleftrightarrow> x = Inl d" for x and d :: engine_error by (cases x) auto
  show ?thesis
  proof (cases "jp_accepting (lh_pool h)")
    case acc: True
    show ?thesis
    proof (cases "resolve_source (lh_registry h) (hv_code iv)")
      case (Inl d)
      with run acc have "res = Inl d" "h' = h" by simp_all
      moreover from Inl obtain key where "hv_code iv = CodeRegistered key" "lh_registry h key = None"
        "d = ScriptNotFound (''no registered script for key `'' @ key @ ''`'')" unfolding resolve_source_error by blast
      ultimately show ?thesis using acc Inl by (auto simp: is_ok_iff)
    next
      case src: (Inr source)
      then have "\<nexists>key. hv_code iv = CodeRegistered key \<and> lh_registry h key = None" by (auto simp: resolve_source_def split: option.splits)
      note known = src this
      show ?thesis
      proof (cases "runtime_for js (lh_pool h)")
        case (Inl d)
        then show ?thesis using run acc known by (auto simp: is_ok_iff)
      next
        case (Inr r)
        note returned = host_run_returns [OF acc src Inr assms]
        have "res = map_sum id outcome_of (engine_run env (host_params h iv source) (host_exec js h iv r source) w)"
          using run acc src Inr by simp
        then show ?thesis using returned acc known Inr by (auto simp: is_ok_iff ms engine)
      qed
    qed
  qed (use run in auto)
qed

definition sample_js :: "(nat, nat, string, string, string) quickjs" where
  "sample_js = \<lparr>qj_create = Inr 0, qj_sha = id, qj_modules = sample_ops, qj_exec = (\<lambda>r p iv m. sample_script)\<rparr>"

definition sample_host :: "(nat, nat, string, string) logic_host" where
  "sample_host = host_new sample_pool (cache_new 0) Map.empty (engine_config_default\<lparr>ec_max_output_size := 1\<rparr>) False"

theorem host_run_balanced_witness:
  "\<forall>env. \<exists>out h'. host_run sample_js env sample_host (host_inline ''handler'' ''{}'') 7 = (Inr out, h') \<and>
      jp_idle (lh_pool sample_host) = [0] \<and> jp_idle (lh_pool h') = [0] \<and> jp_in_flight (lh_pool h') = 0 \<and>
      jp_release_seq (lh_pool h') = 1"
proof
  fix env
  let ?iv = "host_inline ''handler'' ''{}'' :: nat host_invocation"
  obtain res h' where run: "host_run sample_js env sample_host ?iv 7 = (res, h')" by fastforce
  have host: "jp_accepting (lh_pool sample_host)" "resolve_source (lh_registry sample_host) (hv_code ?iv) = Inr ''handler''"
    "runtime_for sample_js (lh_pool sample_host) = Inr 0" "jp_idle (lh_pool sample_host) = [0]" "jp_size (lh_pool sample_host) = 1"
    "jp_in_flight (lh_pool sample_host) = 0" "jp_release_seq (lh_pool sample_host) = 0"
    "sr_context_error (host_exec sample_js sample_host ?iv 0 ''handler'') = None"
    by (simp_all add: sample_host_def host_new_def sample_pool_def resolve_source_def host_inline_def with_defaults_def
        runtime_for_def host_exec_def execute_source_def is_es_module_def chomp_def sample_js_def sample_script_def
        host_params_def trim_start_def ascii_ws_def)
  have "given_back 0 (lh_pool sample_host) (lh_pool h')"
    using host_run_balanced [OF run, of "[]" "[]" ShuttingDown] host(1-3) by (auto simp: is_ok_iff)
  moreover have "\<exists>out. res = Inr out"
  proof (cases res)
    case (Inl d)
    then show ?thesis
      using host_run_balanced [OF run, of m n d for m n] host(1-3, 8) resolve_source_error [of "lh_registry sample_host" "hv_code ?iv"]
      by (metis Inl_Inr_False Inr_inject option.distinct(1))
  qed simp
  ultimately show "\<exists>out h'. host_run sample_js env sample_host ?iv 7 = (Inr out, h') \<and>
      jp_idle (lh_pool sample_host) = [0] \<and> jp_idle (lh_pool h') = [0] \<and> jp_in_flight (lh_pool h') = 0 \<and>
      jp_release_seq (lh_pool h') = 1"
    using run host(4-7) by (auto simp: given_back_def)
qed

lemma host_run_engine:
  assumes "host_run js env h iv w = (Inr out, h')"
  obtains source run r where "resolve_source (lh_registry h) (hv_code iv) = Inr source"
    "engine_run env (host_params h iv source) run w = Inr r" "out = outcome_of r"
  using assms by (auto simp: host_run_def Let_def split: if_splits sum.splits prod.splits)

lemma sum_list_le_length: "(\<And>x. x \<in> set xs \<Longrightarrow> f x \<le> (k :: nat)) \<Longrightarrow> sum_list (map f xs) \<le> k * length xs"
  by (induction xs) (fastforce intro: add_mono)+

text \<open>C19: the host's limits bind every execution. Whatever the script and QuickJS do, a run changes the outside world through the
  mux only by at most \<open>max_ops\<close> permitted calls on the resources the invocation enabled, and records at most \<open>max_ops\<close>
  effects and HTTP calls. Every HTTP request it sent is one of the recorded calls or a redirect one of them followed: each call
  goes to a validated URL of the invocation's hosts, where the wildcard counts only if the configuration allows it and private
  targets are not allowed, and follows at most four redirects, each to an allowed host that passed the private-address
  check, so at most \<open>5 * max_ops\<close> requests leave. It keeps at most \<open>max_log_entries\<close> log entries, and for byte limits below the
  largest \<^verbatim>\<open>usize\<close> they hold at most \<open>max_log_total_bytes\<close> together and \<open>max_log_entry_bytes\<close> each, except that an entry over its
  limit keeps its template and 18 bytes of marker. A result over the output cap never leaves; and a deterministic run changes
  nothing, sends nothing and logs no timing.\<close>

theorem host_run_contained:
  assumes "host_run js env h iv w = (Inr out, h')"
  shows "\<exists>source. resolve_source (lh_registry h) (hv_code iv) = Inr source \<and>
    (\<exists>n \<le> ec_max_ops (lh_limits h). (w, ho_world out) \<in> permitted_step (xe_dns env) (xp_mux (host_params h iv source)) ^^ n) \<and>
    length (ho_effects out) \<le> ec_max_ops (lh_limits h) \<and> length (ho_http_metrics out) \<le> ec_max_ops (lh_limits h) \<and>
    length (ho_sent out) \<le> length (ho_http_metrics out) \<and>
    (\<forall>(req, hops) \<in> set (ho_sent out).
       is_ok (validate_url (he_parse (xe_http env)) (he_dns (xe_http env)) (hr_url req) (cs_allowed_hosts (hv_caps iv))
                (lh_allow_private_targets h)
                (ec_allow_wildcard_hosts (lh_limits h) \<and> \<not> lh_allow_private_targets h)) \<and>
       length hops \<le> 4 \<and>
       list_all (hop_allowed (he_dns (xe_http env)) (cs_allowed_hosts (hv_caps iv)) (lh_allow_private_targets h)
                  (ec_allow_wildcard_hosts (lh_limits h) \<and> \<not> lh_allow_private_targets h)) hops) \<and>
    sum_list (map (\<lambda>(req, hops). 1 + length hops) (ho_sent out)) \<le> 5 * ec_max_ops (lh_limits h) \<and>
    length (ho_logs out) \<le> ec_max_log_entries (lh_limits h) \<and>
    (ec_max_log_entry_bytes (lh_limits h) < usize_max \<and> ec_max_log_total_bytes (lh_limits h) < usize_max \<longrightarrow>
       sum_list (map entry_size (ho_logs out)) \<le> ec_max_log_total_bytes (lh_limits h) \<and>
       (\<forall>entry \<in> set (ho_logs out).
          entry_size entry \<le> max (ec_max_log_entry_bytes (lh_limits h)) (length (le_template entry) + 18))) \<and>
    (ho_result out = Inr json \<longrightarrow>
       ec_max_output_size (lh_limits h) = 0 \<or> length json \<le> ec_max_output_size (lh_limits h)) \<and>
    (hv_profile iv = Deterministic \<longrightarrow>
       ho_world out = w \<and> ho_http_metrics out = [] \<and> ho_sent out = [] \<and>
       (\<forall>entry \<in> set (ho_logs out). le_offset_us entry = None))"
proof -
  from assms obtain source run r where src: "resolve_source (lh_registry h) (hv_code iv) = Inr source"
    and run: "engine_run env (host_params h iv source) run w = Inr r" and out: "out = outcome_of r"
    by (rule host_run_engine)
  let ?p = "host_params h iv source"
  have p: "mp_max_ops (xp_mux ?p) = ec_max_ops (lh_limits h)" "xp_max_ops ?p = ec_max_ops (lh_limits h)"
    "ll_max_entries (xp_log_limits ?p) = ec_max_log_entries (lh_limits h)"
    "ll_max_entry_bytes (xp_log_limits ?p) = ec_max_log_entry_bytes (lh_limits h)"
    "ll_max_total_bytes (xp_log_limits ?p) = ec_max_log_total_bytes (lh_limits h)"
    "xp_max_output_size ?p = ec_max_output_size (lh_limits h)" "xp_profile ?p = hv_profile iv"
    "xp_allowed_hosts ?p = cs_allowed_hosts (hv_caps iv)" "xp_allow_private ?p = lh_allow_private_targets h"
    "xp_wildcard_hosts ?p = (ec_allow_wildcard_hosts (lh_limits h) \<and> \<not> lh_allow_private_targets h)"
    by (simp_all add: host_params_def)
  have o: "ho_world out = er_world r" "ho_effects out = er_effects r" "ho_http_metrics out = er_http_metrics r"
    "ho_logs out = er_logs r" "ho_sent out = er_sent r" "ho_result out = er_outcome r"
    by (simp_all add: out outcome_of_def)
  note c = engine_run_contained [OF run, unfolded p]
  have effects: "length (er_effects r) \<le> ec_max_ops (lh_limits h)"
    using c by (auto intro!: order_trans [OF length_filter_le])
  have calls: "length (er_http_metrics r) \<le> ec_max_ops (lh_limits h)" using c by blast
  note sent = engine_run_sent [OF run, unfolded sent_ok_def list_all_iff p]
  have "sum_list (map (\<lambda>(req, hops). 1 + length hops) (er_sent r)) \<le> 5 * length (er_sent r)"
    using sent by (intro sum_list_le_length) auto
  also have "\<dots> \<le> 5 * ec_max_ops (lh_limits h)" using order_trans [OF conjunct1 [OF sent] calls] by simp
  finally have requests: "sum_list (map (\<lambda>(req, hops). 1 + length hops) (er_sent r)) \<le> 5 * ec_max_ops (lh_limits h)" .
  have each: "\<forall>(req, hops) \<in> set (er_sent r).
       is_ok (validate_url (he_parse (xe_http env)) (he_dns (xe_http env)) (hr_url req) (cs_allowed_hosts (hv_caps iv))
                (lh_allow_private_targets h) (ec_allow_wildcard_hosts (lh_limits h) \<and> \<not> lh_allow_private_targets h)) \<and>
       length hops \<le> 4 \<and>
       list_all (hop_allowed (he_dns (xe_http env)) (cs_allowed_hosts (hv_caps iv)) (lh_allow_private_targets h)
                  (ec_allow_wildcard_hosts (lh_limits h) \<and> \<not> lh_allow_private_targets h)) hops"
    using sent by (fastforce simp: list_all_iff)
  note logs = engine_run_logs(1) [OF run, unfolded p] engine_run_logs(2) [OF run, unfolded limits_fit_def p]
  show ?thesis
    unfolding o by (intro exI [of _ source] conjI impI) (use src c effects sent requests each logs in \<open>blast | auto\<close>)+
qed

theorem host_run_contained_witness:
  "\<forall>env. \<exists>out h'. host_run sample_js env sample_host ((host_inline ''handler'' ''{}'')\<lparr>hv_profile := Deterministic\<rparr>) 7 =
       (Inr out, h') \<and> ho_world out = 7 \<and> ho_result out = Inl (OutputTooLarge 2 1)"
proof
  fix env
  let ?iv = "(host_inline ''handler'' ''{}'')\<lparr>hv_profile := Deterministic\<rparr> :: nat host_invocation"
  have "\<exists>out h'. host_run sample_js env sample_host ?iv 7 = (Inr out, h') \<and> ho_result out = Inl (OutputTooLarge 2 1)"
    by (simp add: host_run_def sample_host_def host_new_def sample_pool_def resolve_source_def host_inline_def with_defaults_def
        pool_acquire_def execute_source_def is_es_module_def chomp_def sample_js_def engine_run_def sample_script_def
        js_result_def resolve_handler_def invoke_handler_def enforce_output_cap_def outcome_of_def host_params_def Let_def
        trim_start_def ascii_ws_def)
  then obtain out h' where run: "host_run sample_js env sample_host ?iv 7 = (Inr out, h')"
    and res: "ho_result out = Inl (OutputTooLarge 2 1)" by blast
  have "hv_profile ?iv = Deterministic" by simp
  with host_run_contained [OF run] have "ho_world out = 7" by blast
  with run res show "\<exists>out h'. host_run sample_js env sample_host ?iv 7 = (Inr out, h') \<and> ho_world out = 7 \<and>
     ho_result out = Inl (OutputTooLarge 2 1)" by blast
qed

end
