(* ===== verification/Catalogue.thy ===== *)
theory Catalogue
  imports Engine
begin

text \<open>
  The two catalogues read at boot: the script registry (\<^verbatim>\<open>runlet-core/src/registry.rs\<close>) and the importable modules
  (\<^verbatim>\<open>runlet-core/src/modules.rs\<close>), and the import resolver over the latter.

  A directory tree as the scan sees it is an \<open>fs_node\<close>, with the failures of the file system in place: a directory that
  cannot be listed, an entry that cannot be read, a file whose reading fails. Names and contents are bytes. A path is the
  list of its components below the root.
\<close>

datatype fs_node =
    FileN "(string, string) result"
  | DirN "(string \<times> fs_node) list"
  | UnlistableDir string
  | BrokenEntry string

datatype load_error = LoadIo string | TooLarge "string list" nat nat | PathNotUtf8

subsection \<open>Keys\<close>

text \<open>\<^verbatim>\<open>Path::file_stem\<close> and \<^verbatim>\<open>Path::extension\<close>: split at the last dot, unless nothing precedes it.\<close>

definition dot_split :: "string \<Rightarrow> string \<times> string option" where
  "dot_split name =
     (let r = rev name; ext = takeWhile (\<lambda>c. c \<noteq> CHR ''.'') r
      in case dropWhile (\<lambda>c. c \<noteq> CHR ''.'') r of
           dot # before \<Rightarrow> if before = [] then (name, None) else (rev before, Some (rev ext))
         | [] \<Rightarrow> (name, None))"

fun join_slash :: "string list \<Rightarrow> string" where
  "join_slash [] = []"
| "join_slash [x] = x"
| "join_slash (x # xs) = x @ ''/'' @ join_slash xs"

text \<open>\<^verbatim>\<open>derive_key\<close> on the path relative to the root.\<close>

definition key_parts :: "string list \<Rightarrow> string list" where
  "key_parts path = butlast path @ [fst (dot_split (last path))]"

definition derive_key :: "string list \<Rightarrow> (load_error, string) result" where
  "derive_key path =
     (if list_all valid_utf8 (key_parts path) then Inr (join_slash (key_parts path)) else Inl PathNotUtf8)"

subsection \<open>The scan\<close>

fun scan ::
  "string list \<Rightarrow> nat \<Rightarrow> string list \<Rightarrow> (string \<times> fs_node) list \<Rightarrow> (string \<rightharpoonup> string) \<Rightarrow> (string list \<times> fs_node) list \<Rightarrow>
   (load_error, (string \<rightharpoonup> string) \<times> (string list \<times> fs_node) list) result" where
  "scan exts max_size current [] scripts pending = Inr (scripts, pending)"
| "scan exts max_size current ((name, node) # entries) scripts pending =
     (case node of
        BrokenEntry e \<Rightarrow> Inl (LoadIo e)
      | FileN content \<Rightarrow>
          (case snd (dot_split name) of
             None \<Rightarrow> scan exts max_size current entries scripts pending
           | Some ext \<Rightarrow>
               if ext \<in> set exts
               then (case content of
                       Inl e \<Rightarrow> Inl (LoadIo e)
                     | Inr source \<Rightarrow>
                         if max_size < length source
                         then Inl (TooLarge (current @ [name]) (length source) max_size)
                         else (case derive_key (current @ [name]) of
                                 Inl e \<Rightarrow> Inl e
                               | Inr key \<Rightarrow> scan exts max_size current entries (scripts(key \<mapsto> source)) pending))
               else scan exts max_size current entries scripts pending)
      | _ \<Rightarrow> scan exts max_size current entries scripts ((current @ [name], node) # pending))"

primrec weight :: "fs_node \<Rightarrow> nat" where
  "weight (FileN c) = 1"
| "weight (DirN es) = 1 + sum_list (map snd (map (map_prod id weight) es))"
| "weight (UnlistableDir e) = 1"
| "weight (BrokenEntry e) = 1"

abbreviation pending_weight :: "(string list \<times> fs_node) list \<Rightarrow> nat" where
  "pending_weight ps \<equiv> sum_list (map (weight \<circ> snd) ps)"

lemma scan_weight:
  "scan exts m cur es scripts pending = Inr (scripts', pending') \<Longrightarrow>
   pending_weight pending' \<le> pending_weight pending + sum_list (map (weight \<circ> snd) es)"
  by (induction exts m cur es scripts pending rule: scan.induct)
     (fastforce split: fs_node.splits option.splits sum.splits if_splits)+

lemma weight_DirN: "weight (DirN es) = 1 + sum_list (map (weight \<circ> snd) es)"
  by (simp add: comp_def snd_map_prod)

function load_loop ::
  "string list \<Rightarrow> nat \<Rightarrow> (string \<rightharpoonup> string) \<Rightarrow> (string list \<times> fs_node) list \<Rightarrow> (load_error, string \<rightharpoonup> string) result" where
  "load_loop exts max_size scripts [] = Inr scripts"
| "load_loop exts max_size scripts ((current, node) # pending) =
     (case node of
        DirN entries \<Rightarrow>
          (case scan exts max_size current entries scripts pending of
             Inl e \<Rightarrow> Inl e
           | Inr (scripts', pending') \<Rightarrow> load_loop exts max_size scripts' pending')
      | UnlistableDir e \<Rightarrow> Inl (LoadIo e)
      | _ \<Rightarrow> Inl (LoadIo ''not a directory''))"
  by pat_completeness auto
termination
  by (relation "measure (\<lambda>(exts, m, scripts, pending). pending_weight pending)")
     (auto simp: weight_DirN dest!: scan_weight simp del: weight.simps)

definition registry_load :: "nat \<Rightarrow> fs_node \<Rightarrow> (load_error, string \<rightharpoonup> string) result" where
  "registry_load max_script_size dir = load_loop [''js''] max_script_size Map.empty [([], dir)]"

definition module_load :: "nat \<Rightarrow> fs_node \<Rightarrow> (load_error, string \<rightharpoonup> string) result" where
  "module_load max_size dir = load_loop [''js'', ''mjs''] max_size Map.empty [([], dir)]"

subsection \<open>Imports\<close>

text \<open>The resolver and the loader: a name is found in the map or not at all; \<open>Inl\<close> carries the marker.\<close>

definition resolve_import :: "(string \<rightharpoonup> string) \<Rightarrow> string \<Rightarrow> string \<Rightarrow> (string \<times> string \<times> string, string) result" where
  "resolve_import modules base name =
     (if modules name \<noteq> None then Inr name else Inl (base, name, UNRESOLVED_MARKER))"

definition load_import :: "(string \<rightharpoonup> string) \<Rightarrow> string \<Rightarrow> (string \<times> string, string) result" where
  "load_import modules name =
     (case modules name of Some source \<Rightarrow> Inr source | None \<Rightarrow> Inl (name, UNRESOLVED_MARKER))"

subsection \<open>The reference: all files of a tree\<close>

primrec files :: "fs_node \<Rightarrow> (string list \<times> (string, string) result) list" where
  "files (FileN c) = [([], c)]"
| "files (DirN es) = concat (map (\<lambda>(n, fs). map (\<lambda>(p, c). (n # p, c)) fs) (map (map_prod id files) es))"
| "files (UnlistableDir e) = []"
| "files (BrokenEntry e) = []"

primrec listable :: "fs_node \<Rightarrow> bool" where
  "listable (FileN c) = True"
| "listable (DirN es) = list_all snd (map (map_prod id listable) es)"
| "listable (UnlistableDir e) = False"
| "listable (BrokenEntry e) = False"

lemma in_files_DirN: "(q, c) \<in> set (files (DirN es)) \<longleftrightarrow> (\<exists>n t p. (n, t) \<in> set es \<and> q = n # p \<and> (p, c) \<in> set (files t))"
  by (force simp: image_iff)

lemma listable_DirN: "listable (DirN es) \<longleftrightarrow> (\<forall>(n, t) \<in> set es. listable t)"
  by (auto simp: list_all_iff)

text \<open>Which files a catalogue takes, and when it can.\<close>

definition takes :: "string list \<Rightarrow> string list \<Rightarrow> bool" where
  "takes exts path \<longleftrightarrow> path \<noteq> [] \<and> (case snd (dot_split (last path)) of Some e \<Rightarrow> e \<in> set exts | None \<Rightarrow> False)"

definition file_ok :: "string list \<Rightarrow> nat \<Rightarrow> string list \<Rightarrow> (string, string) result \<Rightarrow> bool" where
  "file_ok exts m path c \<longleftrightarrow>
     (takes exts path \<longrightarrow> (\<exists>src. c = Inr src \<and> length src \<le> m) \<and> list_all valid_utf8 (key_parts path))"

definition loadable :: "string list \<Rightarrow> nat \<Rightarrow> fs_node \<Rightarrow> bool" where
  "loadable exts m root \<longleftrightarrow>
     (\<exists>es. root = DirN es) \<and> listable root \<and> (\<forall>(p, c) \<in> set (files root). file_ok exts m p c)"

text \<open>The same for the directories still to be scanned: what they hold, below their own path.\<close>

definition pending_files :: "(string list \<times> fs_node) list \<Rightarrow> (string list \<times> (string, string) result) set" where
  "pending_files ps = {(d @ q, c) | d t q c. (d, t) \<in> set ps \<and> (q, c) \<in> set (files t)}"

definition is_dir :: "fs_node \<Rightarrow> bool" where
  "is_dir t \<longleftrightarrow> (case t of DirN es \<Rightarrow> True | UnlistableDir e \<Rightarrow> True | _ \<Rightarrow> False)"

definition here :: "string list \<Rightarrow> (string \<times> fs_node) list \<Rightarrow> (string list \<times> (string, string) result) list" where
  "here d es = List.map_filter (\<lambda>(n, t). case t of FileN c \<Rightarrow> Some (d @ [n], c) | _ \<Rightarrow> None) es"

definition below :: "string list \<Rightarrow> (string \<times> fs_node) list \<Rightarrow> (string list \<times> fs_node) list" where
  "below d es = List.map_filter (\<lambda>(n, t). if is_dir t then Some (d @ [n], t) else None) es"

definition add_file ::
  "string list \<Rightarrow> (string \<rightharpoonup> string) \<Rightarrow> string list \<times> (string, string) result \<Rightarrow> (string \<rightharpoonup> string)" where
  "add_file exts s f =
     (if takes exts (fst f) then (case snd f of Inr src \<Rightarrow> s(join_slash (key_parts (fst f)) \<mapsto> src) | Inl e \<Rightarrow> s) else s)"

lemma here_simps [simp]:
  "here d [] = []" "here d ((n, FileN c) # es) = (d @ [n], c) # here d es" "here d ((n, DirN ts) # es) = here d es"
  "here d ((n, UnlistableDir e) # es) = here d es" "here d ((n, BrokenEntry e) # es) = here d es"
  by (simp_all add: here_def map_filter_simps)

lemma below_simps [simp]:
  "below d [] = []" "below d ((n, FileN c) # es) = below d es" "below d ((n, DirN ts) # es) = (d @ [n], DirN ts) # below d es"
  "below d ((n, UnlistableDir e) # es) = (d @ [n], UnlistableDir e) # below d es"
  "below d ((n, BrokenEntry e) # es) = below d es"
  by (simp_all add: below_def is_dir_def map_filter_simps)

lemma scan_file:
  "file_ok exts m (d @ [n]) c \<Longrightarrow>
     scan exts m d ((n, FileN c) # es) s ps = scan exts m d es (add_file exts s (d @ [n], c)) ps"
  "\<not> file_ok exts m (d @ [n]) c \<Longrightarrow> \<not> is_ok (scan exts m d ((n, FileN c) # es) s ps)"
  by (auto simp: file_ok_def takes_def add_file_def derive_key_def not_less is_ok_iff
      split: option.splits sum.splits if_splits)

text \<open>What one directory contributes, and when its scan succeeds.\<close>

definition entries_ok :: "string list \<Rightarrow> nat \<Rightarrow> string list \<Rightarrow> (string \<times> fs_node) list \<Rightarrow> bool" where
  "entries_ok exts m d es \<longleftrightarrow>
     (\<forall>(p, c) \<in> set (here d es). file_ok exts m p c) \<and> (\<forall>(n, t) \<in> set es. \<forall>e. t \<noteq> BrokenEntry e)"

lemma scan_ok:
  "entries_ok exts m d es \<Longrightarrow>
   scan exts m d es s ps = Inr (foldl (add_file exts) s (here d es), rev (below d es) @ ps)"
proof (induction es arbitrary: s ps)
  case (Cons x es)
  obtain n t where x: "x = (n, t)" by force
  show ?case
  proof (cases t)
    case (FileN c)
    then show ?thesis using Cons x by (simp add: entries_ok_def scan_file(1) del: scan.simps(2))
  qed (use Cons x in \<open>auto simp: entries_ok_def\<close>)
qed simp

lemma scan_not_ok: "\<not> entries_ok exts m d es \<Longrightarrow> \<not> is_ok (scan exts m d es s ps)"
proof (induction es arbitrary: s ps)
  case (Cons x es)
  obtain n t where x: "x = (n, t)" by force
  show ?case
  proof (cases t)
    case (FileN c)
    then show ?thesis
      using Cons x scan_file [of exts m d n c es s ps]
      by (cases "file_ok exts m (d @ [n]) c") (auto simp: entries_ok_def simp del: scan.simps(2))
  qed (use Cons x in \<open>auto simp: entries_ok_def\<close>)
qed (simp add: entries_ok_def)

lemma pending_files_simps:
  "pending_files (rev xs @ ps) = pending_files xs \<union> pending_files ps"
  "pending_files ((d, t) # ps) = {(d @ q, c) | q c. (q, c) \<in> set (files t)} \<union> pending_files ps"
  by (auto simp: pending_files_def simp del: files.simps)

lemma files_split:
  "{(d @ q, c) | q c. (q, c) \<in> set (files (DirN es))} = set (here d es) \<union> pending_files (below d es)"
proof (induction es)
  case Nil
  show ?case by (simp add: pending_files_def)
next
  case (Cons x es)
  obtain n t where x: "x = (n, t)" by force
  have "{(d @ q, c) | q c. (q, c) \<in> set (files (DirN (x # es)))} =
      {(d @ n # p, c) | p c. (p, c) \<in> set (files t)} \<union> {(d @ q, c) | q c. (q, c) \<in> set (files (DirN es))}"
    unfolding in_files_DirN by (auto simp: x)
  also have "\<dots> = {(d @ n # p, c) | p c. (p, c) \<in> set (files t)} \<union> (set (here d es) \<union> pending_files (below d es))"
    using Cons by simp
  also have "\<dots> = set (here d (x # es)) \<union> pending_files (below d (x # es))"
    by (cases t) (auto simp: x pending_files_simps(2) simp del: files.simps(2))
  finally show ?case .
qed

definition pending_ok :: "string list \<Rightarrow> nat \<Rightarrow> (string list \<times> fs_node) list \<Rightarrow> bool" where
  "pending_ok exts m ps \<longleftrightarrow>
     (\<forall>(d, t) \<in> set ps. (\<exists>es. t = DirN es) \<and> listable t) \<and> (\<forall>(p, c) \<in> pending_files ps. file_ok exts m p c)"

lemma below_listable:
  "listable (DirN es) \<longleftrightarrow>
     (\<forall>(n, t) \<in> set es. \<forall>e. t \<noteq> BrokenEntry e) \<and> (\<forall>(p, t) \<in> set (below d es). (\<exists>ts. t = DirN ts) \<and> listable t)"
proof (induction es)
  case (Cons x es)
  obtain n t where "x = (n, t)" by force
  then show ?case using Cons by (cases t) (auto simp: listable_DirN)
qed simp

lemma pending_ok_DirN:
  "pending_ok exts m ((d, DirN es) # ps) \<longleftrightarrow> entries_ok exts m d es \<and> pending_ok exts m (rev (below d es) @ ps)"
proof -
  let ?dirs = "\<lambda>xs. \<forall>(p, t) \<in> set xs. (\<exists>ts. t = DirN ts) \<and> listable t"
  let ?ok = "\<lambda>F. \<forall>(p, c) \<in> F. file_ok exts m p c"
  have f: "pending_files ((d, DirN es) # ps) = set (here d es) \<union> pending_files (rev (below d es) @ ps)"
    unfolding pending_files_simps files_split by blast
  have head: "?dirs ((d, DirN es) # ps) \<longleftrightarrow> listable (DirN es) \<and> ?dirs ps" by (simp del: listable.simps)
  have tail: "?dirs (rev (below d es) @ ps) \<longleftrightarrow> ?dirs (below d es) \<and> ?dirs ps" by (simp add: ball_Un)
  have files: "?ok (set (here d es) \<union> pending_files (rev (below d es) @ ps)) \<longleftrightarrow>
      ?ok (set (here d es)) \<and> ?ok (pending_files (rev (below d es) @ ps))" by (simp add: ball_Un)
  show ?thesis unfolding pending_ok_def entries_ok_def head tail f files below_listable [of es d] by argo
qed

lemma load_loop_ok: "is_ok (load_loop exts m s ps) \<longleftrightarrow> pending_ok exts m ps"
proof (induction exts m s ps rule: load_loop.induct)
  case (1 exts m s)
  show ?case by (simp add: pending_ok_def pending_files_def)
next
  case (2 exts m s d t ps)
  show ?case
  proof (cases t)
    case (DirN es)
    show ?thesis
    proof (cases "entries_ok exts m d es")
      case True
      from scan_ok [OF this, of s ps] show ?thesis
        using 2 [OF DirN] True by (simp add: DirN pending_ok_DirN)
    next
      case False
      with scan_not_ok [OF this, of s ps] show ?thesis by (auto simp: DirN pending_ok_DirN is_ok_iff split: sum.splits)
    qed
  qed (auto simp: pending_ok_def)
qed

text \<open>A map built from files: every entry comes from one of them (or was there before), and each of them has an entry.\<close>

definition contributes :: "string list \<Rightarrow> (string list \<times> (string, string) result) set \<Rightarrow> string \<Rightarrow> string \<Rightarrow> bool" where
  "contributes exts F k v \<longleftrightarrow> (\<exists>p. (p, Inr v) \<in> F \<and> takes exts p \<and> k = join_slash (key_parts p))"

definition built_from ::
  "string list \<Rightarrow> (string \<rightharpoonup> string) \<Rightarrow> (string list \<times> (string, string) result) set \<Rightarrow> (string \<rightharpoonup> string) \<Rightarrow> bool" where
  "built_from exts s F S \<longleftrightarrow>
     (\<forall>k v. S k = Some v \<longrightarrow> s k = Some v \<or> contributes exts F k v) \<and> dom s \<subseteq> dom S \<and>
     (\<forall>k v. contributes exts F k v \<longrightarrow> k \<in> dom S)"

lemma contributes_Un: "contributes exts (F \<union> G) k v \<longleftrightarrow> contributes exts F k v \<or> contributes exts G k v"
  unfolding contributes_def by blast

lemma built_from_trans:
  "built_from exts s F S' \<Longrightarrow> built_from exts S' G S \<Longrightarrow> built_from exts s (F \<union> G) S"
  unfolding built_from_def contributes_Un by blast

lemma built_from_fold: "built_from exts s (set fs) (foldl (add_file exts) s fs)"
proof (induction fs rule: rev_induct)
  case Nil
  show ?case by (simp add: built_from_def contributes_def)
next
  case (snoc f fs)
  obtain p c where f: "f = (p, c)" by force
  have "built_from exts s' {f} (add_file exts s' f)" for s'
    by (auto simp: f built_from_def contributes_def add_file_def split: sum.splits if_splits)
  from built_from_trans [OF snoc this] show ?case by simp
qed

lemma load_loop_built: "load_loop exts m s ps = Inr S \<Longrightarrow> built_from exts s (pending_files ps) S"
proof (induction exts m s ps rule: load_loop.induct)
  case (1 exts m s)
  then show ?case by (simp add: built_from_def contributes_def pending_files_def)
next
  case (2 exts m s d t ps)
  then obtain es where t: "t = DirN es" by (auto split: fs_node.splits)
  have ok: "entries_ok exts m d es"
    using 2(2) scan_not_ok [of exts m d es s ps] by (auto simp: t split: sum.splits)
  have "load_loop exts m (foldl (add_file exts) s (here d es)) (rev (below d es) @ ps) = Inr S"
    using 2(2) by (simp add: t scan_ok [OF ok])
  from built_from_trans [OF built_from_fold 2(1) [OF t scan_ok [OF ok] refl this]] show ?case
    by (simp add: t pending_files_simps files_split Un_assoc del: files.simps)
qed

subsection \<open>Keys name files\<close>

lemma dot_split_Some: "dot_split n = (st, Some e) \<Longrightarrow> n = st @ CHR ''.'' # e"
proof -
  assume a: "dot_split n = (st, Some e)"
  let ?dot = "\<lambda>c :: char. c \<noteq> CHR ''.''"
  from a obtain dot before where d: "dropWhile ?dot (rev n) = dot # before"
    and st: "st = rev before" and e: "e = rev (takeWhile ?dot (rev n))"
    by (auto simp: dot_split_def Let_def split: list.splits if_splits)
  have "dot = CHR ''.''" using d hd_dropWhile [of ?dot "rev n"] by auto
  then have "rev n = takeWhile ?dot (rev n) @ CHR ''.'' # before" using takeWhile_dropWhile_id [of ?dot "rev n"] d by simp
  then have "n = rev (takeWhile ?dot (rev n) @ CHR ''.'' # before)" by (metis rev_rev_ident)
  then show ?thesis using st e by simp
qed

lemma split_on_join: "xs \<noteq> [] \<Longrightarrow> \<forall>x \<in> set xs. CHR ''/'' \<notin> set x \<Longrightarrow> split_on CHR ''/'' (join_slash xs) = xs"
proof (induction xs rule: join_slash.induct)
  case (2 x)
  then have "CHR ''/'' \<notin> set x" by simp
  then show ?case by (induction x) auto
next
  case (3 x y ys)
  have "split_on CHR ''/'' (x @ CHR ''/'' # r) = x # split_on CHR ''/'' r" if "CHR ''/'' \<notin> set x" for x r
    using that by (induction x) auto
  then show ?case using 3 by simp
qed simp

lemma key_inj:
  assumes "takes [ext] p" "takes [ext] q" "join_slash (key_parts p) = join_slash (key_parts q)"
    and "\<forall>x \<in> set p. CHR ''/'' \<notin> set x" "\<forall>x \<in> set q. CHR ''/'' \<notin> set x"
  shows "p = q"
proof -
  have stem: "\<exists>st. dot_split (last r) = (st, Some ext) \<and> r = butlast r @ [st @ CHR ''.'' # ext] \<and>
      key_parts r = butlast r @ [st]" if "takes [ext] r" for r
  proof -
    from that obtain st where "dot_split (last r) = (st, Some ext)" and ne: "r \<noteq> []"
      by (cases "dot_split (last r)") (auto simp: takes_def split: option.splits)
    then show ?thesis using dot_split_Some [of "last r"] append_butlast_last_id [OF ne] by (auto simp: key_parts_def)
  qed
  have noslash: "\<forall>x \<in> set (key_parts r). CHR ''/'' \<notin> set x"
    if "takes [ext] r" "\<forall>x \<in> set r. CHR ''/'' \<notin> set x" for r
  proof -
    from stem [OF that(1)] obtain st where "r = butlast r @ [st @ CHR ''.'' # ext]" "key_parts r = butlast r @ [st]" by blast
    then show ?thesis using that(2) by (metis Un_iff empty_iff empty_set in_set_conv_decomp list.set_intros(1) set_ConsD set_append)
  qed
  have "key_parts p = key_parts q"
    using split_on_join [of "key_parts p"] split_on_join [of "key_parts q"] noslash assms
    by (metis append_is_Nil_conv key_parts_def list.distinct(1))
  then show ?thesis using stem [OF assms(1)] stem [OF assms(2)] by (metis append1_eq_conv)
qed

text \<open>C26: the script registry is exactly the tree it was loaded from. Loading terminates, and it succeeds iff every directory
  can be listed and every \<^verbatim>\<open>.js\<close> file can be read, is within the size limit and has a UTF-8 path; then a key is
  registered iff a \<^verbatim>\<open>.js\<close> file has that relative path without extension, and it gives that file's source. Assumed of
  the file system: a path names one file and names hold no slash.\<close>

theorem registry_load_exact:
  assumes "distinct (map fst (files dir))" and "\<forall>(p, c) \<in> set (files dir). \<forall>x \<in> set p. CHR ''/'' \<notin> set x"
  shows "(is_ok (registry_load max_size dir) \<longleftrightarrow> loadable [''js''] max_size dir) \<and>
    (registry_load max_size dir = Inr scripts \<longrightarrow>
       (scripts key = Some src \<longleftrightarrow>
          (\<exists>p. (p, Inr src) \<in> set (files dir) \<and> takes [''js''] p \<and> key = join_slash (key_parts p))))"
proof -
  have F: "pending_files [([], dir)] = set (files dir)" by (auto simp: pending_files_def)
  have ok: "is_ok (registry_load max_size dir) \<longleftrightarrow> loadable [''js''] max_size dir"
    unfolding registry_load_def load_loop_ok pending_ok_def loadable_def F by simp
  have "v = v'" if "contributes [''js''] (set (files dir)) key v" "contributes [''js''] (set (files dir)) key v'" for v v'
  proof -
    from that obtain p q where pq: "(p, Inr v) \<in> set (files dir)" "(q, Inr v') \<in> set (files dir)"
      "takes [''js''] p" "takes [''js''] q" "join_slash (key_parts p) = join_slash (key_parts q)"
      unfolding contributes_def by auto
    then have "p = q" using assms(2) by (intro key_inj [of "''js''"]) auto
    then show ?thesis using pq(1,2) assms(1) by (auto dest: eq_key_imp_eq_value)
  qed
  then have "scripts key = Some src \<longleftrightarrow> contributes [''js''] (set (files dir)) key src"
    if "registry_load max_size dir = Inr scripts"
    using load_loop_built [OF that [unfolded registry_load_def], unfolded F] by (auto simp: built_from_def)
  then show ?thesis using ok unfolding contributes_def by blast
qed

lemma valid_utf8_ascii: "of_char c < (128 :: nat) \<Longrightarrow> valid_utf8 (c # cs) \<longleftrightarrow> valid_utf8 cs"
  by (simp add: valid_utf8_Cons char_len_def char_ok_def lead_width_def byte_of_def)

definition sample_tree :: fs_node where
  "sample_tree = DirN [(''acme'', DirN [(''price.js'', FileN (Inr ''code'')), (''notes.txt'', FileN (Inl ''denied''))])]"

theorem registry_load_exact_witness:
  "is_ok (registry_load 4 sample_tree) \<and> \<not> is_ok (registry_load 3 sample_tree)"
proof -
  have d: "distinct (map fst (files sample_tree))" "\<forall>(p, c) \<in> set (files sample_tree). \<forall>x \<in> set p. CHR ''/'' \<notin> set x"
    by (simp_all add: sample_tree_def)
  have "loadable [''js''] n sample_tree \<longleftrightarrow> length ''code'' \<le> n" for n
    by (simp add: loadable_def sample_tree_def file_ok_def takes_def dot_split_def key_parts_def valid_utf8_ascii Let_def)
  then show ?thesis using registry_load_exact [OF d, of 4] registry_load_exact [OF d, of 3] by simp
qed

text \<open>The module catalogue depends on the order of a directory listing. Two listings of the same directory that holds
  \<^verbatim>\<open>a.js\<close> and \<^verbatim>\<open>a.mjs\<close> load without an error into different sources for the specifier \<open>a\<close>: one file silently replaces
  the other.\<close>

lemma module_collision_silent:
  "let js = (''a.js'', FileN (Inr ''1'')); mjs = (''a.mjs'', FileN (Inr ''2''))
   in module_load 9 (DirN [js, mjs]) = Inr [''a'' \<mapsto> ''2''] \<and> module_load 9 (DirN [mjs, js]) = Inr [''a'' \<mapsto> ''1'']"
  by (simp add: module_load_def dot_split_def derive_key_def key_parts_def valid_utf8_ascii Let_def)

end
