(* ===== verification/Decimal.thy ===== *)
theory Decimal
  imports Complex_Main "HOL-Library.Multiset" Error_Taxonomy
begin

text \<open>
  The exact-decimal bridge, \<^verbatim>\<open>runlet-core/src/decimal.rs\<close>, behind \<^verbatim>\<open>$std.decimal\<close> and \<^verbatim>\<open>money\<close>.

  The number type is \<^verbatim>\<open>rust_decimal\<close>, outside the repository: its operations are the record \<open>decimal_ops\<close> and what the code
  relies on is the predicate \<open>whole_unit_laws\<close> (comparison is by value, floors and roundings to zero places are whole,
  sums and differences of whole numbers are exact when they are returned). serde's reader of the weights and printer
  of a value are the fields \<open>dc_read_array\<close> and \<open>dc_print_json\<close>.
\<close>

datatype rounding = MidpointAwayFromZero | MidpointNearestEven | AwayFromZero | ToZero | ToPositiveInfinity | ToNegativeInfinity

record 'd decimal_ops =
  dc_from_str :: "string \<Rightarrow> (string, 'd) result"
  dc_to_string :: "'d \<Rightarrow> string"
  dc_from_u64 :: "nat \<Rightarrow> 'd"
  dc_le :: "'d \<Rightarrow> 'd \<Rightarrow> bool"
  dc_add :: "'d \<Rightarrow> 'd \<Rightarrow> 'd option"
  dc_sub :: "'d \<Rightarrow> 'd \<Rightarrow> 'd option"
  dc_mul :: "'d \<Rightarrow> 'd \<Rightarrow> 'd option"
  dc_div :: "'d \<Rightarrow> 'd \<Rightarrow> 'd option"
  dc_abs :: "'d \<Rightarrow> 'd"
  dc_floor :: "'d \<Rightarrow> 'd"
  dc_round_dp :: "'d \<Rightarrow> nat \<Rightarrow> rounding \<Rightarrow> 'd"
  dc_rescale :: "'d \<Rightarrow> nat \<Rightarrow> 'd"
  dc_read_array :: "string \<Rightarrow> (string, json list) result"
  dc_print_json :: "json \<Rightarrow> string"

datatype decimal_out = Scalar string | DecimalList "string list"

abbreviation dc_zero :: "'d decimal_ops \<Rightarrow> 'd" where "dc_zero ops \<equiv> dc_from_u64 ops 0"
abbreviation dc_one :: "'d decimal_ops \<Rightarrow> 'd" where "dc_one ops \<equiv> dc_from_u64 ops 1"

definition or_overflow :: "'a option \<Rightarrow> (string, 'a) result" where
  "or_overflow x = (case x of Some v \<Rightarrow> Inr v | None \<Rightarrow> Inl ''decimal overflow'')"

subsection \<open>Parsing arguments\<close>

definition rounding_strategy :: "string \<Rightarrow> (string, rounding) result" where
  "rounding_strategy mode =
     (let t = trim mode in
      if t = [] \<or> t = ''half_up'' then Inr MidpointAwayFromZero
      else if t = ''half_even'' then Inr MidpointNearestEven
      else if t = ''up'' then Inr AwayFromZero
      else if t = ''down'' then Inr ToZero
      else if t = ''ceil'' then Inr ToPositiveInfinity
      else if t = ''floor'' then Inr ToNegativeInfinity
      else Inl (''unknown rounding mode: '' @ [CHR 0x27] @ t @ [CHR 0x27]))"

definition parse_decimal :: "'d decimal_ops \<Rightarrow> string \<Rightarrow> (string, 'd) result" where
  "parse_decimal ops value =
     (case dc_from_str ops (trim value) of
        Inr d \<Rightarrow> Inr d
      | Inl e \<Rightarrow> Inl (''invalid decimal '' @ [CHR 0x27] @ value @ [CHR 0x27] @ '': '' @ e))"

definition parse_places :: "string \<Rightarrow> (string, nat) result" where
  "parse_places places_str =
     (case parse_usize (trim places_str) of
        Some n \<Rightarrow> if n < 2 ^ 32 then Inr n else Inl (''invalid places: '' @ [CHR 0x27] @ places_str @ [CHR 0x27])
      | None \<Rightarrow> Inl (''invalid places: '' @ [CHR 0x27] @ places_str @ [CHR 0x27]))"

definition minor_places :: "string \<Rightarrow> (string, nat) result" where
  "minor_places places_str =
     (let trimmed = trim places_str in
      if trimmed = [] then Inr 2
      else case parse_places trimmed of
             Inl e \<Rightarrow> Inl e
           | Inr places \<Rightarrow>
               if 18 < places then Inl (''minor-unit places too large: '' @ show_nat places @ '' (max 18)'')
               else Inr places)"

text \<open>\<^verbatim>\<open>10_u64.checked_pow\<close>.\<close>

definition scale_factor :: "'d decimal_ops \<Rightarrow> nat \<Rightarrow> (string, 'd) result" where
  "scale_factor ops places =
     (if 10 ^ places < (2 :: nat) ^ 64 then Inr (dc_from_u64 ops (10 ^ places)) else Inl ''minor-unit scale overflow'')"

subsection \<open>Operations\<close>

definition negate :: "'d decimal_ops \<Rightarrow> 'd \<Rightarrow> (string, string) result" where
  "negate ops v = map_sum id (dc_to_string ops) (or_overflow (dc_sub ops (dc_zero ops) v))"

definition round_op :: "'d decimal_ops \<Rightarrow> 'd \<Rightarrow> string \<Rightarrow> string \<Rightarrow> (string, string) result" where
  "round_op ops v places_str mode =
     (case parse_places places_str of
        Inl e \<Rightarrow> Inl e
      | Inr places \<Rightarrow>
          (case rounding_strategy mode of
             Inl e \<Rightarrow> Inl e
           | Inr strategy \<Rightarrow> Inr (dc_to_string ops (dc_round_dp ops v places strategy))))"

definition round_to :: "'d decimal_ops \<Rightarrow> 'd \<Rightarrow> string \<Rightarrow> string \<Rightarrow> (string, string) result" where
  "round_to ops v step_str mode =
     (case parse_decimal ops step_str of
        Inl e \<Rightarrow> Inl e
      | Inr step \<Rightarrow>
          if dc_le ops step (dc_zero ops)
          then Inl (''round_to step must be positive: '' @ [CHR 0x27] @ step_str @ [CHR 0x27])
          else (case rounding_strategy mode of
                  Inl e \<Rightarrow> Inl e
                | Inr strategy \<Rightarrow>
                    (case dc_div ops v step of
                       None \<Rightarrow> Inl ''decimal overflow''
                     | Some q \<Rightarrow>
                         map_sum id (dc_to_string ops) (or_overflow (dc_mul ops (dc_round_dp ops q 0 strategy) step)))))"

definition to_minor :: "'d decimal_ops \<Rightarrow> 'd \<Rightarrow> string \<Rightarrow> (string, string) result" where
  "to_minor ops v places_str =
     (case minor_places places_str of
        Inl e \<Rightarrow> Inl e
      | Inr places \<Rightarrow>
          (case scale_factor ops places of
             Inl e \<Rightarrow> Inl e
           | Inr factor \<Rightarrow>
               (case dc_mul ops v factor of
                  None \<Rightarrow> Inl ''decimal overflow''
                | Some scaled \<Rightarrow> Inr (dc_to_string ops (dc_round_dp ops scaled 0 MidpointAwayFromZero)))))"

definition from_minor :: "'d decimal_ops \<Rightarrow> 'd \<Rightarrow> string \<Rightarrow> (string, string) result" where
  "from_minor ops v places_str =
     (case minor_places places_str of
        Inl e \<Rightarrow> Inl e
      | Inr places \<Rightarrow>
          (case scale_factor ops places of
             Inl e \<Rightarrow> Inl e
           | Inr factor \<Rightarrow>
               (case dc_div ops v factor of
                  None \<Rightarrow> Inl ''decimal overflow''
                | Some major \<Rightarrow> Inr (dc_to_string ops (dc_round_dp ops major places MidpointAwayFromZero)))))"

definition compare_op :: "'d decimal_ops \<Rightarrow> 'd \<Rightarrow> string \<Rightarrow> (string, string) result" where
  "compare_op ops left rhs =
     (case parse_decimal ops rhs of
        Inl e \<Rightarrow> Inl e
      | Inr right \<Rightarrow>
          Inr (if \<not> dc_le ops right left then ''-1'' else if dc_le ops left right then ''0'' else ''1''))"

definition arithmetic :: "'d decimal_ops \<Rightarrow> string \<Rightarrow> 'd \<Rightarrow> string \<Rightarrow> (string, string) result" where
  "arithmetic ops opname left rhs =
     (case parse_decimal ops rhs of
        Inl e \<Rightarrow> Inl e
      | Inr right \<Rightarrow>
          (if opname = ''add'' then map_sum id (dc_to_string ops) (or_overflow (dc_add ops left right))
           else if opname = ''sub'' then map_sum id (dc_to_string ops) (or_overflow (dc_sub ops left right))
           else if opname = ''mul'' then map_sum id (dc_to_string ops) (or_overflow (dc_mul ops left right))
           else if opname = ''div''
           then (if dc_le ops right (dc_zero ops) \<and> dc_le ops (dc_zero ops) right then Inl ''division by zero''
                 else map_sum id (dc_to_string ops) (or_overflow (dc_div ops left right)))
           else Inl (''unknown decimal op: '' @ opname)))"

subsection \<open>Allocation\<close>

fun collect_results :: "('e, 'a) result list \<Rightarrow> ('e, 'a list) result" where
  "collect_results [] = Inr []"
| "collect_results (Inl e # rs) = Inl e"
| "collect_results (Inr a # rs) = (case collect_results rs of Inl e \<Rightarrow> Inl e | Inr as' \<Rightarrow> Inr (a # as'))"

definition weight_to_decimal :: "'d decimal_ops \<Rightarrow> json \<Rightarrow> (string, 'd) result" where
  "weight_to_decimal ops v =
     (let t = (case v of JStr s \<Rightarrow> s | _ \<Rightarrow> dc_print_json ops v)
      in case parse_decimal ops t of
           Inl e \<Rightarrow> Inl e
         | Inr weight \<Rightarrow>
             if \<not> dc_le ops (dc_zero ops) weight
             then Inl (''allocation weight cannot be negative: '' @ [CHR 0x27] @ t @ [CHR 0x27])
             else Inr weight)"

definition parse_weights :: "'d decimal_ops \<Rightarrow> string \<Rightarrow> (string, 'd list) result" where
  "parse_weights ops weights_json =
     (case dc_read_array ops weights_json of
        Inl e \<Rightarrow> Inl (''invalid allocation weights: '' @ e)
      | Inr raw \<Rightarrow>
          if raw = [] then Inl ''allocation needs at least one weight''
          else collect_results (map (weight_to_decimal ops) raw))"

fun sum_from :: "'d decimal_ops \<Rightarrow> 'd \<Rightarrow> 'd list \<Rightarrow> (string, 'd) result" where
  "sum_from ops acc [] = Inr acc"
| "sum_from ops acc (v # vs) = (case dc_add ops acc v of None \<Rightarrow> Inl ''decimal overflow'' | Some s \<Rightarrow> sum_from ops s vs)"

definition sum_decimals :: "'d decimal_ops \<Rightarrow> 'd list \<Rightarrow> (string, 'd) result" where
  "sum_decimals ops vs = sum_from ops (dc_zero ops) vs"

definition exact_share :: "'d decimal_ops \<Rightarrow> 'd \<Rightarrow> 'd \<Rightarrow> 'd \<Rightarrow> 'd option" where
  "exact_share ops total_minor sum_weights weight =
     (case dc_mul ops total_minor weight of None \<Rightarrow> None | Some scaled \<Rightarrow> dc_div ops scaled sum_weights)"

fun floor_shares :: "'d decimal_ops \<Rightarrow> 'd \<Rightarrow> 'd list \<Rightarrow> 'd \<Rightarrow> (string, 'd list \<times> 'd list) result" where
  "floor_shares ops total_minor [] sum_weights = Inr ([], [])"
| "floor_shares ops total_minor (weight # weights) sum_weights =
     (case exact_share ops total_minor sum_weights weight of
        None \<Rightarrow> Inl ''decimal overflow''
      | Some exact \<Rightarrow>
          (case dc_sub ops exact (dc_floor ops exact) of
             None \<Rightarrow> Inl ''decimal overflow''
           | Some remainder \<Rightarrow>
               (case floor_shares ops total_minor weights sum_weights of
                  Inl e \<Rightarrow> Inl e
                | Inr (shares, remainders) \<Rightarrow> Inr (dc_floor ops exact # shares, remainder # remainders))))"

text \<open>\<^verbatim>\<open>sort_by\<close> with the comparator of the code: larger remainder first, ties by index.\<close>

definition before :: "'d decimal_ops \<Rightarrow> nat \<times> 'd \<Rightarrow> nat \<times> 'd \<Rightarrow> bool" where
  "before ops l r \<longleftrightarrow>
     \<not> dc_le ops (snd l) (snd r) \<or> (dc_le ops (snd l) (snd r) \<and> dc_le ops (snd r) (snd l) \<and> fst l \<le> fst r)"

fun insert_by :: "('a \<Rightarrow> 'a \<Rightarrow> bool) \<Rightarrow> 'a \<Rightarrow> 'a list \<Rightarrow> 'a list" where
  "insert_by le x [] = [x]"
| "insert_by le x (y # ys) = (if le x y then x # y # ys else y # insert_by le x ys)"

definition sort_by :: "('a \<Rightarrow> 'a \<Rightarrow> bool) \<Rightarrow> 'a list \<Rightarrow> 'a list" where
  "sort_by le xs = foldr (insert_by le) xs []"

fun hand_out :: "'d decimal_ops \<Rightarrow> (nat \<times> 'd) list \<Rightarrow> 'd \<Rightarrow> 'd list \<Rightarrow> (string, 'd list) result" where
  "hand_out ops [] leftover shares = Inr shares"
| "hand_out ops ((index, remainder) # order) leftover shares =
     (if dc_le ops leftover (dc_zero ops) then Inr shares
      else if index < length shares
      then (case dc_add ops (shares ! index) (dc_one ops) of
              None \<Rightarrow> Inl ''decimal overflow''
            | Some share \<Rightarrow>
                (case dc_sub ops leftover (dc_one ops) of
                   None \<Rightarrow> Inl ''decimal overflow''
                 | Some rest \<Rightarrow> hand_out ops order rest (shares[index := share])))
      else hand_out ops order leftover shares)"

definition distribute_leftover :: "'d decimal_ops \<Rightarrow> 'd \<Rightarrow> 'd list \<Rightarrow> 'd list \<Rightarrow> (string, 'd list) result" where
  "distribute_leftover ops total_minor shares remainders =
     (case sum_decimals ops shares of
        Inl e \<Rightarrow> Inl e
      | Inr allocated \<Rightarrow>
          (case dc_sub ops total_minor allocated of
             None \<Rightarrow> Inl ''decimal overflow''
           | Some leftover \<Rightarrow>
               hand_out ops (sort_by (before ops) (zip [0..<length remainders] remainders)) leftover shares))"

definition minor_to_major :: "'d decimal_ops \<Rightarrow> 'd \<Rightarrow> 'd \<Rightarrow> nat \<Rightarrow> (string, string) result" where
  "minor_to_major ops minor scale places =
     (case dc_div ops minor scale of
        None \<Rightarrow> Inl ''decimal overflow''
      | Some major \<Rightarrow> Inr (dc_to_string ops (dc_rescale ops major places)))"

text \<open>The whole minor units each weight is given.\<close>

definition allocate_minor :: "'d decimal_ops \<Rightarrow> 'd \<Rightarrow> 'd list \<Rightarrow> (string, 'd list) result" where
  "allocate_minor ops total_minor weights =
     (case sum_decimals ops weights of
        Inl e \<Rightarrow> Inl e
      | Inr sum_weights \<Rightarrow>
          if dc_le ops sum_weights (dc_zero ops) then Inl ''allocation weights must sum to a positive value''
          else (case floor_shares ops total_minor weights sum_weights of
                  Inl e \<Rightarrow> Inl e
                | Inr (shares, remainders) \<Rightarrow> distribute_leftover ops total_minor shares remainders))"

definition allocate :: "'d decimal_ops \<Rightarrow> 'd \<Rightarrow> string \<Rightarrow> string \<Rightarrow> (string, string list) result" where
  "allocate ops v places_str weights_json =
     (case minor_places places_str of
        Inl e \<Rightarrow> Inl e
      | Inr places \<Rightarrow>
          (case scale_factor ops places of
             Inl e \<Rightarrow> Inl e
           | Inr scale \<Rightarrow>
               (case dc_mul ops v scale of
                  None \<Rightarrow> Inl ''decimal overflow''
                | Some scaled \<Rightarrow>
                    (case parse_weights ops weights_json of
                       Inl e \<Rightarrow> Inl e
                     | Inr weights \<Rightarrow>
                         (case allocate_minor ops (dc_round_dp ops scaled 0 MidpointAwayFromZero) weights of
                            Inl e \<Rightarrow> Inl e
                          | Inr shares \<Rightarrow> collect_results (map (\<lambda>minor. minor_to_major ops minor scale places) shares))))))"

definition decimal_dispatch :: "'d decimal_ops \<Rightarrow> string \<Rightarrow> string \<Rightarrow> string \<Rightarrow> string \<Rightarrow> (string, decimal_out) result" where
  "decimal_dispatch ops opname lhs rhs aux =
     (case parse_decimal ops lhs of
        Inl e \<Rightarrow> Inl e
      | Inr left \<Rightarrow>
          (if opname = ''parse'' then Inr (Scalar (dc_to_string ops left))
           else if opname = ''neg'' then map_sum id Scalar (negate ops left)
           else if opname = ''abs'' then Inr (Scalar (dc_to_string ops (dc_abs ops left)))
           else if opname = ''round'' then map_sum id Scalar (round_op ops left rhs aux)
           else if opname = ''round_to'' then map_sum id Scalar (round_to ops left rhs aux)
           else if opname = ''to_cents'' \<or> opname = ''to_minor'' then map_sum id Scalar (to_minor ops left rhs)
           else if opname = ''from_cents'' \<or> opname = ''from_minor'' then map_sum id Scalar (from_minor ops left rhs)
           else if opname = ''cmp'' then map_sum id Scalar (compare_op ops left rhs)
           else if opname = ''allocate'' then map_sum id DecimalList (allocate ops left rhs aux)
           else if opname \<in> {''add'', ''sub'', ''mul'', ''div''} then map_sum id Scalar (arithmetic ops opname left rhs)
           else Inl (''unknown decimal op: '' @ opname)))"

subsection \<open>Shares add up\<close>

text \<open>What the code relies on of the number type, by the rational value of a decimal.\<close>

definition half_away :: "rat \<Rightarrow> rat" where
  "half_away x = (if 0 \<le> x then of_int \<lfloor>x + 1 / 2\<rfloor> else of_int \<lceil>x - 1 / 2\<rceil>)"

lemma half_away_whole: "half_away x \<in> \<int>"
  by (simp add: half_away_def)

definition whole_unit_laws :: "'d decimal_ops \<Rightarrow> ('d \<Rightarrow> rat) \<Rightarrow> bool" where
  "whole_unit_laws ops val \<longleftrightarrow>
     (\<forall>a b. dc_le ops a b \<longleftrightarrow> val a \<le> val b) \<and> (\<forall>n. val (dc_from_u64 ops n) = of_nat n) \<and>
     (\<forall>a. val (dc_floor ops a) = of_int \<lfloor>val a\<rfloor>) \<and>
     (\<forall>a b c. val a \<in> \<int> \<and> val b \<in> \<int> \<and> dc_add ops a b = Some c \<longrightarrow> val c = val a + val b) \<and>
     (\<forall>a b c. val a \<in> \<int> \<and> val b \<in> \<int> \<and> dc_sub ops a b = Some c \<longrightarrow> val c = val a - val b) \<and>
     (\<forall>a r. dc_sub ops a (dc_floor ops a) = Some r \<longrightarrow> val r = val a - of_int \<lfloor>val a\<rfloor>) \<and>
     (\<forall>a. val (dc_round_dp ops a 0 MidpointAwayFromZero) = half_away (val a))"

lemma whole_unit_laws_dest:
  assumes "whole_unit_laws ops val"
  shows "dc_le ops a b \<longleftrightarrow> val a \<le> val b" "val (dc_from_u64 ops n) = of_nat n" "val (dc_floor ops a) = of_int \<lfloor>val a\<rfloor>"
    "val a \<in> \<int> \<Longrightarrow> val b \<in> \<int> \<Longrightarrow> dc_add ops a b = Some c \<Longrightarrow> val c = val a + val b"
    "val a \<in> \<int> \<Longrightarrow> val b \<in> \<int> \<Longrightarrow> dc_sub ops a b = Some c \<Longrightarrow> val c = val a - val b"
    "dc_sub ops a (dc_floor ops a) = Some r \<Longrightarrow> val r = val a - of_int \<lfloor>val a\<rfloor>"
    "val (dc_round_dp ops a 0 MidpointAwayFromZero) = half_away (val a)"
  using assms unfolding whole_unit_laws_def by blast+

lemma sum_from_whole:
  assumes laws: "whole_unit_laws ops val"
  shows "val acc \<in> \<int> \<Longrightarrow> \<forall>v \<in> set vs. val v \<in> \<int> \<Longrightarrow> sum_from ops acc vs = Inr s \<Longrightarrow>
    val s = val acc + sum_list (map val vs) \<and> val s \<in> \<int>"
proof (induction vs arbitrary: acc)
  case (Cons v vs)
  then obtain c where c: "dc_add ops acc v = Some c" "sum_from ops c vs = Inr s" by (auto split: option.splits)
  have "val c = val acc + val v" using whole_unit_laws_dest(4) [OF laws _ _ c(1)] Cons.prems by simp
  moreover from this have "val s = val c + sum_list (map val vs) \<and> val s \<in> \<int>"
    using Cons.IH [of c] Cons.prems(1,2) c(2) by (metis Ints_add list.set_intros)
  ultimately show ?case by (metis add.assoc list.simps(9) sum_list.Cons)
qed simp

lemma insert_by_mset: "mset (insert_by le x xs) = add_mset x (mset xs)"
  by (induction xs) auto

lemma sort_by_mset: "mset (sort_by le xs) = mset xs"
  unfolding sort_by_def by (induction xs) (simp_all add: insert_by_mset)

lemma sort_by_sorted:
  assumes "\<And>x y. le x y \<or> le y x" and "\<And>x y z. le x y \<Longrightarrow> le y z \<Longrightarrow> le x z"
  shows "sorted_wrt le (sort_by le xs)"
proof -
  have "sorted_wrt le ys \<Longrightarrow> sorted_wrt le (insert_by le x ys)" for x ys
  proof (induction ys)
    case (Cons y ys)
    have "set (insert_by le x ys) = insert x (set ys)" by (metis insert_by_mset set_mset_add_mset_insert set_mset_mset)
    then show ?case using Cons assms(1) [of x y] assms(2) [of x y] by auto
  qed simp
  then show ?thesis unfolding sort_by_def by (induction xs) auto
qed

lemma before_total_trans:
  assumes "whole_unit_laws ops val"
  shows "before ops x y \<or> before ops y x" "before ops x y \<Longrightarrow> before ops y z \<Longrightarrow> before ops x z"
  using assms by (auto simp: before_def whole_unit_laws_dest(1) [OF assms])

text \<open>
  Handing out \<open>z\<close> units gives one to each of the first \<open>z\<close> indices of the order: to none when \<open>z\<close> is not positive, to
  all of them when there are fewer.
\<close>

lemma hand_out_first:
  assumes laws: "whole_unit_laws ops val"
  shows "val leftover = of_int z \<Longrightarrow> distinct (map fst order) \<Longrightarrow>
    (\<forall>i \<in> fst ` set order. i < length shares) \<Longrightarrow> (\<forall>s \<in> set shares. val s \<in> \<int>) \<Longrightarrow>
    hand_out ops order leftover shares = Inr out \<Longrightarrow>
    length out = length shares \<and>
    (\<forall>j < length shares. val (out ! j) = val (shares ! j) + (if j \<in> fst ` set (take (nat z) order) then 1 else 0))"
proof (induction order arbitrary: z leftover shares)
  case Nil
  then show ?case by simp
next
  case (Cons x order)
  obtain i r where x: "x = (i, r)" by force
  have le: "dc_le ops leftover (dc_zero ops) \<longleftrightarrow> z \<le> 0"
    using Cons.prems(1) by (simp add: whole_unit_laws_dest(1,2) [OF laws])
  show ?case
  proof (cases "z \<le> 0")
    case True
    then show ?thesis using Cons.prems(5) by (simp add: x le)
  next
    case False
    have i: "i < length shares" using Cons.prems(3) x by auto
    then obtain s l where s: "dc_add ops (shares ! i) (dc_one ops) = Some s" "dc_sub ops leftover (dc_one ops) = Some l"
      and rest: "hand_out ops order l (shares[i := s]) = Inr out"
      using Cons.prems(5) False by (auto simp: x le split: option.splits)
    have v: "val s = val (shares ! i) + 1" "val l = of_int (z - 1)"
      using whole_unit_laws_dest(4) [OF laws _ _ s(1)] whole_unit_laws_dest(5) [OF laws _ _ s(2)] Cons.prems(1,4) i
      by (simp_all add: whole_unit_laws_dest(2) [OF laws])
    have whole: "\<forall>s' \<in> set (shares[i := s]). val s' \<in> \<int>"
      using Cons.prems(4) v(1) i set_update_subset_insert [of shares i s] by (auto intro: Ints_add)
    have "i \<notin> fst ` set (take (nat (z - 1)) order)" using Cons.prems(2) x by (auto dest: in_set_takeD)
    moreover have "nat z = Suc (nat (z - 1))" using False by simp
    ultimately show ?thesis
      using Cons.IH [OF v(2) _ _ whole rest] Cons.prems(2,3) x v(1) i by (auto simp: nth_list_update)
  qed
qed

lemma floor_shares_exact:
  "floor_shares ops tot weights W = Inr (shares, remainders) \<Longrightarrow>
   \<exists>qs. map (exact_share ops tot W) weights = map Some qs \<and> shares = map (dc_floor ops) qs \<and>
     length remainders = length qs \<and> (\<forall>i < length qs. dc_sub ops (qs ! i) (dc_floor ops (qs ! i)) = Some (remainders ! i))"
proof (induction weights arbitrary: shares remainders)
  case Nil
  then show ?case by (intro exI [of _ "[]"]) simp
next
  case (Cons w ws)
  then obtain q r ss rs where q: "exact_share ops tot W w = Some q" "dc_sub ops q (dc_floor ops q) = Some r"
    "floor_shares ops tot ws W = Inr (ss, rs)" "shares = dc_floor ops q # ss" "remainders = r # rs"
    by (auto split: option.splits sum.splits)
  from Cons.IH [OF q(3)] obtain qs where "map (exact_share ops tot W) ws = map Some qs" "ss = map (dc_floor ops) qs"
    "length rs = length qs" "\<forall>i < length qs. dc_sub ops (qs ! i) (dc_floor ops (qs ! i)) = Some (rs ! i)" by blast
  then show ?case using q by (intro exI [of _ "q # qs"]) (auto simp: less_Suc_eq_0_disj)
qed

text \<open>
  Quotients within \<open>1/n\<close> of the true proportion leave between zero and \<open>n\<close> units over.
\<close>

lemma leftover_bounds:
  fixes qs ts :: "rat list" and tot :: rat
  assumes "length qs = length ts" and "ts \<noteq> []" and "sum_list ts = tot" and "tot \<in> \<int>"
    and near: "\<And>i. i < length ts \<Longrightarrow> \<bar>qs ! i - ts ! i\<bar> < 1 / of_nat (length ts)"
  obtains k where "k \<le> length ts" and "tot - sum_list (map (\<lambda>q. of_int \<lfloor>q\<rfloor>) qs) = of_nat k"
proof -
  let ?n = "length ts"
  let ?F = "sum_list (map (\<lambda>q. of_int \<lfloor>q\<rfloor>) qs) :: rat"
  have n: "0 < ?n" using assms(2) by simp
  have bound: "\<bar>\<Sum>i < ?n. qs ! i - ts ! i\<bar> < 1"
  proof -
    have "\<bar>\<Sum>i < ?n. qs ! i - ts ! i\<bar> \<le> (\<Sum>i < ?n. \<bar>qs ! i - ts ! i\<bar>)" by (rule sum_abs)
    also have "\<dots> < (\<Sum>i < ?n. 1 / of_nat ?n)" using near n by (intro sum_strict_mono) auto
    also have "\<dots> = 1" using n by simp
    finally show ?thesis .
  qed
  have q: "sum_list qs = (\<Sum>i < ?n. qs ! i)" and t: "tot = (\<Sum>i < ?n. ts ! i)"
    and F: "?F = (\<Sum>i < ?n. of_int \<lfloor>qs ! i\<rfloor>)"
    using assms(1,3) by (simp_all add: sum_list_sum_nth atLeast0LessThan)
  have "?F \<le> sum_list qs" unfolding F q by (intro sum_mono) (rule of_int_floor_le)
  moreover have "sum_list qs \<le> ?F + of_nat ?n"
  proof -
    have "sum_list qs \<le> (\<Sum>i < ?n. of_int \<lfloor>qs ! i\<rfloor> + 1)"
      unfolding q by (intro sum_mono) linarith
    then show ?thesis unfolding F by (simp add: sum.distrib)
  qed
  moreover have "\<bar>sum_list qs - tot\<bar> < 1" using bound by (simp add: q t sum_subtractf)
  ultimately have b: "- 1 < tot - ?F" "tot - ?F < of_nat ?n + 1" by linarith+
  have "?F \<in> \<int>" unfolding F by (intro Ints_sum) simp
  then have "tot - ?F \<in> \<int>" using assms(4) by (rule Ints_diff [rotated])
  then obtain z where z: "tot - ?F = of_int z" by (rule Ints_cases)
  have "0 \<le> z" "z \<le> int ?n" using b unfolding z by linarith+
  then show ?thesis using z by (intro that [of "nat z"]) auto
qed

text \<open>The order in which units are handed out: every index once, by falling remainder.\<close>

lemma order_facts:
  assumes "whole_unit_laws ops val" and "order = sort_by (before ops) (zip [0..<length rs] rs)"
  shows "length order = length rs" "distinct (map fst order)" "\<And>i r. (i, r) \<in> set order \<longleftrightarrow> i < length rs \<and> r = rs ! i"
    "sorted_wrt (before ops) order"
proof -
  have m: "mset order = mset (zip [0..<length rs] rs)" by (simp add: assms(2) sort_by_mset)
  show "length order = length rs" using mset_eq_length [OF m] by simp
  have "mset (map fst order) = mset [0..<length rs]" using m by (metis length_upt map_fst_zip minus_nat.diff_0 mset_map)
  then show "distinct (map fst order)" using mset_eq_imp_distinct_iff [of "map fst order" "[0..<length rs]"] by simp
  show "(i, r) \<in> set order \<longleftrightarrow> i < length rs \<and> r = rs ! i" for i r
    using mset_eq_setD [OF m] by (auto simp: in_set_zip intro!: exI [of _ i])
  show "sorted_wrt (before ops) order"
    unfolding assms(2) by (rule sort_by_sorted) (use before_total_trans [OF assms(1)] in blast)+
qed

lemma first_before_rest:
  assumes "sorted_wrt le xs" and "x \<in> set (take k xs)" and "y \<in> set xs" and "y \<notin> set (take k xs)"
  shows "le x y"
proof -
  have "y \<in> set (drop k xs)" using assms(3,4) append_take_drop_id [of k xs] by (metis Un_iff set_append)
  moreover have "sorted_wrt le (take k xs @ drop k xs)" using assms(1) by simp
  ultimately show ?thesis using assms(2) unfolding sorted_wrt_append by blast
qed

text \<open>
  A split of \<open>tot\<close> by the largest fractional parts of the quotients \<open>qs\<close>: each share is the floor of its quotient or
  one more, a larger fractional part (or the same one earlier) is served first, and the shares add up to the
  floors plus what was left over, as far as that lies between none and one unit each.
\<close>

definition largest_remainder_split :: "rat list \<Rightarrow> rat \<Rightarrow> rat list \<Rightarrow> bool" where
  "largest_remainder_split qs tot ms \<longleftrightarrow>
     length ms = length qs \<and>
     (\<forall>i < length qs. ms ! i = of_int \<lfloor>qs ! i\<rfloor> \<or> ms ! i = of_int \<lfloor>qs ! i\<rfloor> + 1) \<and>
     (\<forall>i < length qs. \<forall>j < length qs. ms ! i \<noteq> of_int \<lfloor>qs ! i\<rfloor> \<and> ms ! j = of_int \<lfloor>qs ! j\<rfloor> \<longrightarrow>
        frac (qs ! j) < frac (qs ! i) \<or> (frac (qs ! j) = frac (qs ! i) \<and> i < j)) \<and>
     (let floors = sum_list (map (\<lambda>q. of_int \<lfloor>q\<rfloor>) qs)
      in sum_list ms = floors + max 0 (min (tot - floors) (of_nat (length qs))))"

lemma of_nat_min_nat: "of_nat (min (nat z) n) = max 0 (min (of_int z) (of_nat n :: rat))"
proof (cases "z \<le> 0")
  case False
  then have "of_nat (nat z) = (of_int z :: rat)" by simp
  then show ?thesis using False by (simp flip: of_nat_min)
qed (simp add: min_def)

lemma distribution_exact:
  assumes laws: "whole_unit_laws ops val" and len: "length rs = length qs"
    and rem: "\<And>i. i < length qs \<Longrightarrow> val (rs ! i) = frac (val (qs ! i))"
    and z: "val l = of_int z" "val l = tot - sum_list (map (\<lambda>q. of_int \<lfloor>val q\<rfloor>) qs)"
    and out: "hand_out ops (sort_by (before ops) (zip [0..<length rs] rs)) l (map (dc_floor ops) qs) = Inr shares"
  shows "largest_remainder_split (map val qs) tot (map val shares)"
proof -
  let ?fs = "map (dc_floor ops) qs"
  define order where "order = sort_by (before ops) (zip [0..<length rs] rs)"
  note order = order_facts [OF laws order_def]
  have idx: "\<forall>i \<in> fst ` set order. i < length ?fs" using order(3) len by auto
  define K where "K = fst ` set (take (nat z) order)"
  have floor: "val (?fs ! i) = of_int \<lfloor>val (qs ! i)\<rfloor>" if "i < length qs" for i
    using that by (simp add: whole_unit_laws_dest(3) [OF laws])
  have given: "length shares = length qs"
    "\<And>j. j < length qs \<Longrightarrow> val (shares ! j) = of_int \<lfloor>val (qs ! j)\<rfloor> + (if j \<in> K then 1 else 0)"
    using hand_out_first [OF laws z(1) order(2) idx _ out [folded order_def]] floor
    by (simp_all add: K_def whole_unit_laws_dest(3) [OF laws])
  have sub: "K \<subseteq> {..<length qs}" using idx by (auto simp: K_def dest: in_set_takeD)
  have "distinct (map fst (take (nat z) order))" using order(2) by (simp add: take_map [symmetric])
  then have card: "card K = min (nat z) (length qs)"
    using distinct_card [of "map fst (take (nat z) order)"] order(1) len by (simp add: K_def min.commute)
  have "sum_list (map val shares) = (\<Sum>j < length qs. of_int \<lfloor>val (qs ! j)\<rfloor> + (if j \<in> K then 1 else 0))"
    using given by (simp add: sum_list_sum_nth atLeast0LessThan)
  also have "\<dots> = sum_list (map (\<lambda>q. of_int \<lfloor>val q\<rfloor>) qs) + of_nat (card K)"
    using sub by (simp add: sum.distrib sum_list_sum_nth atLeast0LessThan sum.If_cases Int_absorb1)
  finally have "sum_list (map val shares) =
      sum_list (map (\<lambda>q. of_int \<lfloor>val q\<rfloor>) qs) + max 0 (min (val l) (of_nat (length qs)))"
    unfolding card z(1) of_nat_min_nat .
  moreover have "frac (val (qs ! j)) < frac (val (qs ! i)) \<or> (frac (val (qs ! j)) = frac (val (qs ! i)) \<and> i < j)"
    if i: "i < length qs" "i \<in> K" and j: "j < length qs" "j \<notin> K" for i j
  proof -
    obtain r where r: "(i, r) \<in> set (take (nat z) order)" using i(2) by (auto simp: K_def)
    moreover have "r = rs ! i" using in_set_takeD [OF r] order(3) by blast
    moreover have "(j, rs ! j) \<in> set order" using j(1) order(3) len by simp
    moreover have "(j, rs ! j) \<notin> set (take (nat z) order)" using j(2) by (force simp: K_def)
    ultimately have "before ops (i, rs ! i) (j, rs ! j)" using first_before_rest [OF order(4)] by blast
    moreover have "i \<noteq> j" using i(2) j(2) by blast
    ultimately show ?thesis
      using rem [OF i(1)] rem [OF j(1)] by (auto simp: before_def whole_unit_laws_dest(1) [OF laws])
  qed
  ultimately show ?thesis
    using given z(2) by (auto simp: largest_remainder_split_def Let_def comp_def split: if_splits)
qed

definition true_share :: "('d \<Rightarrow> rat) \<Rightarrow> 'd \<Rightarrow> 'd list \<Rightarrow> 'd \<Rightarrow> rat" where
  "true_share val tot weights w = val tot * val w / sum_list (map val weights)"

lemma true_shares_total:
  "0 < sum_list (map val weights) \<Longrightarrow> sum_list (map (true_share val tot weights) weights) = val tot"
proof -
  assume pos: "0 < sum_list (map val weights)"
  have "map (true_share val tot weights) weights = map (\<lambda>w. val tot / sum_list (map val weights) * val w) weights"
    by (simp add: true_share_def)
  then have "sum_list (map (true_share val tot weights) weights) =
      val tot / sum_list (map val weights) * sum_list (map val weights)" by (simp only: sum_list_const_mult)
  then show ?thesis using pos by simp
qed

lemma allocate_minor_split:
  assumes laws: "whole_unit_laws ops val" and run: "allocate_minor ops tot weights = Inr shares" and whole: "val tot \<in> \<int>"
  shows "\<exists>W qs. sum_decimals ops weights = Inr W \<and> \<not> dc_le ops W (dc_zero ops) \<and>
    map (exact_share ops tot W) weights = map Some qs \<and>
    largest_remainder_split (map val qs) (val tot) (map val shares)"
proof -
  from run obtain W fs rs where W: "sum_decimals ops weights = Inr W" "\<not> dc_le ops W (dc_zero ops)"
    and fl: "floor_shares ops tot weights W = Inr (fs, rs)" and dist: "distribute_leftover ops tot fs rs = Inr shares"
    by (auto simp: allocate_minor_def split: if_splits sum.splits prod.splits)
  from floor_shares_exact [OF fl] obtain qs where qs: "map (exact_share ops tot W) weights = map Some qs"
    and fs: "fs = map (dc_floor ops) qs" and len: "length rs = length qs"
    and rem: "\<And>i. i < length qs \<Longrightarrow> dc_sub ops (qs ! i) (dc_floor ops (qs ! i)) = Some (rs ! i)" by blast
  from dist obtain A l where A: "sum_decimals ops fs = Inr A" and l: "dc_sub ops tot A = Some l"
    and out: "hand_out ops (sort_by (before ops) (zip [0..<length rs] rs)) l fs = Inr shares"
    by (auto simp: distribute_leftover_def split: sum.splits option.splits)
  have fsw: "\<forall>s \<in> set fs. val s \<in> \<int>" by (auto simp: fs whole_unit_laws_dest(3) [OF laws])
  have vA: "val A = sum_list (map val fs)" "val A \<in> \<int>"
    using sum_from_whole [OF laws _ fsw A [unfolded sum_decimals_def]] whole_unit_laws_dest(2) [OF laws, of 0] by auto
  then have vl: "val l = val tot - sum_list (map (\<lambda>q. of_int \<lfloor>val q\<rfloor>) qs)"
    using whole_unit_laws_dest(5) [OF laws whole _ l] by (simp add: fs comp_def whole_unit_laws_dest(3) [OF laws])
  have "val tot - val A \<in> \<int>" using whole vA(2) by (rule Ints_diff)
  then obtain z where z: "val l = of_int z"
    using whole_unit_laws_dest(5) [OF laws whole vA(2) l] by (auto elim: Ints_cases)
  have "val (rs ! i) = frac (val (qs ! i))" if "i < length qs" for i
    using whole_unit_laws_dest(6) [OF laws rem] that by (simp add: frac_def)
  from distribution_exact [OF laws len this z vl out [unfolded fs]] show ?thesis using W qs by blast
qed

lemma near_quotients_total:
  assumes "length qs = length weights" and "val tot \<in> \<int>" and pos: "0 < sum_list (map val weights)"
    and near: "\<And>i. i < length weights \<Longrightarrow>
      \<bar>val (qs ! i) - true_share val tot weights (weights ! i)\<bar> < 1 / of_nat (length weights)"
    and split: "largest_remainder_split (map val qs) (val tot) ms"
  shows "sum_list ms = val tot"
proof -
  have "weights \<noteq> []" using pos by auto
  then obtain k where "k \<le> length weights"
      and k: "val tot - sum_list (map (\<lambda>q. of_int \<lfloor>q\<rfloor>) (map val qs)) = of_nat k"
    using leftover_bounds [of "map val qs" "map (true_share val tot weights) weights" "val tot"]
      assms(1,2) near true_shares_total [OF pos] by auto
  then show ?thesis using split assms(1) by (simp add: largest_remainder_split_def Let_def)
qed

lemma collect_results_Inr: "collect_results rs = Inr xs \<longleftrightarrow> rs = map Inr xs"
  by (induction rs arbitrary: xs rule: collect_results.induct) (auto split: sum.splits, blast)

text \<open>C37: what an allocation adds up to. A successful allocation rounds the amount half away from zero to whole minor
  units and prints one share per weight. Each share is the floor of the quotient the number type computed for its
  weight, or one more; the extra units go to the largest fractional parts, the earlier weight first among equals; and
  the shares add up to the floors plus the units left over, none if that is negative and at most one per
  weight. So they add up to the rounded amount exactly when between zero and \<open>n\<close> units are left over, and this is so
  whenever each of the \<open>n\<close> computed quotients is within \<open>1/n\<close> of the true proportion.\<close>

theorem allocate_exact:
  assumes laws: "whole_unit_laws ops val" and run: "allocate ops v places_str weights_json = Inr out"
  shows "\<exists>places scaled weights W qs minors.
    minor_places places_str = Inr places \<and> parse_weights ops weights_json = Inr weights \<and>
    dc_mul ops v (dc_from_u64 ops (10 ^ places)) = Some scaled \<and>
    (let tot = dc_round_dp ops scaled 0 MidpointAwayFromZero; n = length weights
     in val tot = half_away (val scaled) \<and>
        sum_decimals ops weights = Inr W \<and> 0 < val W \<and> map (exact_share ops tot W) weights = map Some qs \<and>
        map Inr out = map (\<lambda>minor. minor_to_major ops minor (dc_from_u64 ops (10 ^ places)) places) minors \<and>
        largest_remainder_split (map val qs) (val tot) (map val minors) \<and>
        (0 < sum_list (map val weights) \<and>
         (\<forall>i < n. \<bar>val (qs ! i) - true_share val tot weights (weights ! i)\<bar> < 1 / of_nat n) \<longrightarrow>
           sum_list (map val minors) = val tot))"
proof -
  from run obtain places scaled weights minors where p: "minor_places places_str = Inr places"
      "parse_weights ops weights_json = Inr weights" "dc_mul ops v (dc_from_u64 ops (10 ^ places)) = Some scaled"
    and m: "allocate_minor ops (dc_round_dp ops scaled 0 MidpointAwayFromZero) weights = Inr minors"
    and o: "collect_results (map (\<lambda>minor. minor_to_major ops minor (dc_from_u64 ops (10 ^ places)) places) minors) = Inr out"
    by (auto simp: allocate_def scale_factor_def split: sum.splits option.splits if_splits)
  let ?tot = "dc_round_dp ops scaled 0 MidpointAwayFromZero"
  have tot: "val ?tot = half_away (val scaled)" by (rule whole_unit_laws_dest(7) [OF laws])
  then have whole: "val ?tot \<in> \<int>" by (simp add: half_away_whole)
  from allocate_minor_split [OF laws m whole] obtain W qs where W: "sum_decimals ops weights = Inr W"
      "\<not> dc_le ops W (dc_zero ops)" "map (exact_share ops ?tot W) weights = map Some qs"
      "largest_remainder_split (map val qs) (val ?tot) (map val minors)" by blast
  have "length qs = length weights" using W(3) by (metis length_map)
  then have "sum_list (map val minors) = val ?tot"
    if "0 < sum_list (map val weights)"
       "\<forall>i < length weights. \<bar>val (qs ! i) - true_share val ?tot weights (weights ! i)\<bar> < 1 / of_nat (length weights)"
    using near_quotients_total [OF _ whole that(1) _ W(4)] that(2) by blast
  moreover have "0 < val W" using W(2) by (simp add: whole_unit_laws_dest(1,2) [OF laws])
  ultimately show ?thesis
    using p W o tot
    by (intro exI [of _ places] exI [of _ scaled] exI [of _ weights] exI [of _ W] exI [of _ qs] exI [of _ minors])
      (simp add: Let_def collect_results_Inr)
qed

text \<open>
  Rationals without a bound, as a number type. Numerals are tally strings: a weight is the length of its text, a share
  is printed as one stroke per cent.
\<close>

definition sample_decimal :: "rat decimal_ops" where
  "sample_decimal =
     \<lparr>dc_from_str = (\<lambda>s. Inr (of_nat (length s))),
      dc_to_string = (\<lambda>d. replicate (nat \<lfloor>d * 100\<rfloor>) CHR ''|''), dc_from_u64 = of_nat, dc_le = (\<le>),
      dc_add = (\<lambda>a b. Some (a + b)), dc_sub = (\<lambda>a b. Some (a - b)), dc_mul = (\<lambda>a b. Some (a * b)),
      dc_div = (\<lambda>a b. Some (a / b)), dc_abs = abs, dc_floor = (\<lambda>a. of_int \<lfloor>a\<rfloor>),
      dc_round_dp = (\<lambda>a n s. half_away (a * 10 ^ n) / 10 ^ n), dc_rescale = (\<lambda>a n. a),
      dc_read_array = (\<lambda>s. Inr (map (\<lambda>c. JStr [c]) s)), dc_print_json = (\<lambda>j. [])\<rparr>"

lemma sample_decimal_laws: "whole_unit_laws sample_decimal id"
  by (simp add: whole_unit_laws_def sample_decimal_def)

lemma sample_arguments: "minor_places [] = Inr 2" "parse_weights sample_decimal ''|||'' = Inr [1, 1, 1]"
    "parse_weights sample_decimal ''|'' = Inr [1]"
  by (simp_all add: minor_places_def trim_def parse_weights_def sample_decimal_def weight_to_decimal_def parse_decimal_def
      ascii_ws_def Let_def)

lemma sample_scale: "scale_factor sample_decimal 2 = Inr 100"
  by (simp add: scale_factor_def sample_decimal_def)

lemma sample_sum: "sum_decimals sample_decimal [1, 1, 1] = Inr 3"
  by (simp add: sum_decimals_def sample_decimal_def)

lemma sample_minor: "allocate_minor sample_decimal 10 [1, 1, 1] = Inr [4, 3, 3]"
proof -
  have "\<lfloor>10 / 3 :: rat\<rfloor> = 3" by (simp add: floor_eq_iff)
  then show ?thesis
    by (simp add: allocate_minor_def sample_sum)
      (simp add: sample_decimal_def exact_share_def distribute_leftover_def sum_decimals_def sort_by_def before_def
        numeral_3_eq_3)
qed

lemma sample_allocation: "allocate sample_decimal (1 / 10) [] ''|||'' = Inr [''||||'', ''|||'', ''|||'']"
proof -
  have "dc_mul sample_decimal (1 / 10) 100 = Some 10" "dc_round_dp sample_decimal 10 0 MidpointAwayFromZero = 10"
    by (simp_all add: sample_decimal_def half_away_def floor_eq_iff)
  moreover have "map (\<lambda>minor. minor_to_major sample_decimal minor 100 2) [4, 3, 3] =
      map Inr [''||||'', ''|||'', ''|||'']"
    by (simp add: minor_to_major_def sample_decimal_def numeral_eq_Suc)
  ultimately show ?thesis
    by (simp add: allocate_def sample_arguments sample_scale sample_minor collect_results_Inr)
qed

theorem allocate_exact_witness:
  "\<exists>minors :: rat list. allocate sample_decimal (1 / 10) [] ''|||'' = Inr [''||||'', ''|||'', ''|||''] \<and> length minors = 3 \<and>
     sum_list minors = 10"
proof -
  have tot: "dc_mul sample_decimal (1 / 10) (dc_from_u64 sample_decimal (10 ^ 2)) = Some 10"
      "dc_round_dp sample_decimal 10 0 MidpointAwayFromZero = 10"
    by (simp_all add: sample_decimal_def half_away_def floor_eq_iff)
  obtain places scaled weights W qs minors where m: "minor_places [] = Inr places"
      "parse_weights sample_decimal ''|||'' = Inr weights"
      "dc_mul sample_decimal (1 / 10) (dc_from_u64 sample_decimal (10 ^ places)) = Some scaled"
      "sum_decimals sample_decimal weights = Inr W"
      "map (exact_share sample_decimal (dc_round_dp sample_decimal scaled 0 MidpointAwayFromZero) W) weights = map Some qs"
      "map Inr [''||||'', ''|||'', ''|||''] =
       map (\<lambda>m. minor_to_major sample_decimal m (dc_from_u64 sample_decimal (10 ^ places)) places) minors"
      "0 < sum_list (map id weights) \<and>
       (\<forall>i < length weights. \<bar>id (qs ! i) - true_share id (dc_round_dp sample_decimal scaled 0 MidpointAwayFromZero)
          weights (weights ! i)\<bar> < 1 / of_nat (length weights)) \<longrightarrow>
       sum_list (map id minors) = id (dc_round_dp sample_decimal scaled 0 MidpointAwayFromZero)"
    using allocate_exact [OF sample_decimal_laws sample_allocation] unfolding Let_def by blast
  have v: "places = 2" "weights = [1, 1, 1]" using m(1,2) by (simp_all add: sample_arguments)
  have w: "scaled = 10" "W = 3" using m(3,4) tot(1) unfolding v by (simp_all add: sample_sum)
  have "qs = [10 / 3, 10 / 3, 10 / 3]" using m(5) unfolding v w tot(2)
    by (auto simp: exact_share_def sample_decimal_def)
  moreover have "length minors = 3" using arg_cong [OF m(6), of length] by simp
  ultimately show ?thesis
    using m(7) sample_allocation unfolding v w tot(2) by (auto simp: numeral_3_eq_3 less_Suc_eq true_share_def)
qed

text \<open>
  The shares add up to the amount rounded to minor units, which is not the amount itself when that is finer: half a
  cent is allocated as one cent.
\<close>

lemma allocate_gains_half_a_cent: "allocate sample_decimal (1 / 200) [] ''|'' = Inr [dc_to_string sample_decimal (1 / 100)]"
proof -
  have "allocate_minor sample_decimal 1 [1] = Inr [1]"
    by (simp add: allocate_minor_def sample_decimal_def exact_share_def distribute_leftover_def sum_decimals_def
        sort_by_def before_def)
  moreover have "dc_mul sample_decimal (1 / 200) 100 = Some (1 / 2)"
      "dc_round_dp sample_decimal (1 / 2) 0 MidpointAwayFromZero = 1"
    by (simp_all add: sample_decimal_def half_away_def)
  ultimately show ?thesis
    by (simp add: allocate_def sample_arguments sample_scale minor_to_major_def) (simp add: sample_decimal_def)
qed

end
