(* ===== verification/S3.thy ===== *)
theory S3
  imports Mux Http_Egress
begin

text \<open>
  The object-store capability, \<^verbatim>\<open>runlet-core/src/s3.rs\<close>: presigned URLs and upload forms (AWS signature version 4), the folder
  total and the gated deletion.

  Arguments of the model (\<open>s3_env\<close>): the percent-encoder with the two sets, HMAC, SHA-256, hex and base64, serde's readers of
  the four payloads and its printer (printing succeeds; HMAC takes keys of any length), the clock with its formatting by chrono, the name server, the HTTP client and the
  store behind it. The store is a state \<open>'w\<close> that a request may change.
\<close>

definition S3_FALLBACK :: fault where "S3_FALLBACK = fault_new ''S3_ERROR'' False Developer"
definition S3_UPSTREAM :: fault where "S3_UPSTREAM = fault_new ''S3_UPSTREAM'' True Operator"
definition S3_OP_LIMIT :: fault where "S3_OP_LIMIT = fault_new ''S3_OP_LIMIT'' False Developer"
definition S3_FORBIDDEN :: fault where "S3_FORBIDDEN = fault_new ''S3_FORBIDDEN'' False Operator"
definition SERVICE :: string where "SERVICE = ''s3''"

record s3_error =
  s3e_fault :: fault
  s3e_message :: string
  s3e_details :: "json option"

definition s3_signing :: "string \<Rightarrow> s3_error" where
  "s3_signing m = \<lparr>s3e_fault = S3_FALLBACK, s3e_message = m, s3e_details = None\<rparr>"

definition s3_upstream :: "string \<Rightarrow> s3_error" where
  "s3_upstream m = \<lparr>s3e_fault = S3_UPSTREAM, s3e_message = m, s3e_details = None\<rparr>"

definition s3_upstream_status :: "string \<Rightarrow> u16 \<Rightarrow> s3_error" where
  "s3_upstream_status m status =
     \<lparr>s3e_fault = S3_UPSTREAM, s3e_message = m,
      s3e_details = Some (JObj [(''http_status'', JNum (show_nat (unat status)))])\<rparr>"

definition s3_forbidden :: "string \<Rightarrow> s3_error" where
  "s3_forbidden m = \<lparr>s3e_fault = S3_FORBIDDEN, s3e_message = m, s3e_details = None\<rparr>"

record s3_config =
  sc_endpoint :: string
  sc_region :: string
  sc_bucket :: string
  sc_access_key :: string
  sc_secret_key :: string
  sc_path_style :: bool
  sc_expires :: nat
  sc_max_expires :: nat
  sc_max_upload_size :: nat
  sc_allow_delete :: bool

definition default_expires :: nat where "default_expires = 900"
definition default_max_expires :: nat where "default_max_expires = 604800"

record s3_metric =
  sm_action :: string
  sm_method :: string
  sm_expires :: nat
  sm_bytes :: "nat option"
  sm_objects :: "nat option"

record presign_payload =
  pp_method :: string
  pp_key :: string
  pp_expires :: nat

record s3_request =
  s3r_method :: string
  s3r_url :: string

record s3_response =
  s3p_status :: u16
  s3p_text :: "(string, string) result"

record 'w s3_env =
  se_segment :: "string \<Rightarrow> string"
  se_path :: "string \<Rightarrow> string"
  se_hmac :: "string \<Rightarrow> string \<Rightarrow> string"
  se_sha256_hex :: "string \<Rightarrow> string"
  se_hex :: "string \<Rightarrow> string"
  se_base64 :: "string \<Rightarrow> string"
  se_presign :: "string \<Rightarrow> (string, presign_payload) result"
  se_presign_post :: "string \<Rightarrow> (string, string \<times> nat) result"
  se_prefix :: "string \<Rightarrow> (string, string) result"
  se_delete_key :: "string \<Rightarrow> (string, string) result"
  se_print :: "json \<Rightarrow> string"
  se_timestamps :: "(string, string \<times> string \<times> int) result"
  se_iso :: "int \<Rightarrow> string option"
  se_dns :: "string \<Rightarrow> u16 \<Rightarrow> dns_answer"
  se_client :: "(string, unit) result"
  se_send :: "s3_request \<Rightarrow> 'w \<Rightarrow> (string, s3_response) result \<times> 'w"

subsection \<open>Inputs, hosts and URLs\<close>

definition to_ascii_upper :: "char \<Rightarrow> char" where
  "to_ascii_upper c = (let n = of_char c :: nat in if 97 \<le> n \<and> n \<le> 122 then char_of (n - 32) else c)"

text \<open>\<^verbatim>\<open>chars().take(n)\<close> on UTF-8 bytes.\<close>

fun take_chars :: "nat \<Rightarrow> string \<Rightarrow> string" where
  "take_chars n [] = []"
| "take_chars n (c # cs) =
     (if continuation c then c # take_chars n cs else (case n of 0 \<Rightarrow> [] | Suc m \<Rightarrow> c # take_chars m cs))"

definition normalize_method :: "string \<Rightarrow> (string, string) result" where
  "normalize_method raw =
     (let m = map to_ascii_upper raw in
      if m = [] \<or> m = ''PUT'' then Inr ''PUT''
      else if m = ''GET'' then Inr ''GET''
      else if m = ''HEAD'' then Inr ''HEAD''
      else if m = ''DELETE'' then Inr ''DELETE''
      else Inl (''unsupported s3 method: '' @ m))"

definition clamp_expires :: "nat \<Rightarrow> s3_config \<Rightarrow> nat" where
  "clamp_expires requested config =
     (let base = (if requested = 0 then sc_expires config else requested)
      in min (max base 1) (max (sc_max_expires config) 1))"

fun split_str :: "string \<Rightarrow> string \<Rightarrow> string list" where
  "split_str sep [] = [[]]"
| "split_str sep (c # cs) =
     (case strip_prefix sep (c # cs) of
        Some rest \<Rightarrow> if length rest < length (c # cs) then [] # split_str sep rest else [c # cs]
      | None \<Rightarrow> (case split_str sep cs of [] \<Rightarrow> [[c]] | w # ws \<Rightarrow> (c # w) # ws))"

definition split_once :: "string \<Rightarrow> string \<Rightarrow> (string \<times> string) option" where
  "split_once sep s =
     (case split_str sep s of w # v # ws \<Rightarrow> Some (w, drop (length w + length sep) s) | _ \<Rightarrow> None)"

definition split_host_port :: "string \<Rightarrow> string \<times> string" where
  "split_host_port authority =
     (case rsplit_once CHR '':'' authority of
        Some (host_part, port_part) \<Rightarrow>
          if port_part \<noteq> [] \<and> list_all (\<lambda>c. digit_val c \<noteq> None) port_part
          then (host_part, CHR '':'' # port_part) else (authority, [])
      | None \<Rightarrow> (authority, []))"

definition endpoint_port :: "string \<Rightarrow> string \<Rightarrow> (string, u16) result" where
  "endpoint_port scheme port_suffix =
     (case port_suffix of
        c # port_str \<Rightarrow>
          (case parse_usize port_str of
             Some n \<Rightarrow> if n < 2 ^ 16 then Inr (of_nat n)
                       else Inl (''invalid s3 endpoint port '' @ [CHR 0x27] @ port_str @ [CHR 0x27])
           | None \<Rightarrow> Inl (''invalid s3 endpoint port '' @ [CHR 0x27] @ port_str @ [CHR 0x27]))
      | [] \<Rightarrow> Inr (if to_ascii_lowercase scheme = ''https'' then 443 else 80))"

definition trim_brackets :: "string \<Rightarrow> string" where
  "trim_brackets s = rev (dropWhile (\<lambda>c. c = CHR '']'') (rev (dropWhile (\<lambda>c. c = CHR ''['') s)))"

definition resolve_host :: "(string \<Rightarrow> u16 \<Rightarrow> dns_answer) \<Rightarrow> s3_config \<Rightarrow> bool \<Rightarrow> (string, string \<times> string) result" where
  "resolve_host dns config allow_private =
     (case split_once ''://'' (sc_endpoint config) of
        None \<Rightarrow> Inl ''s3 endpoint must include a scheme (http:// or https://)''
      | Some (scheme, authority) \<Rightarrow>
          if to_ascii_lowercase scheme \<noteq> ''http'' \<and> to_ascii_lowercase scheme \<noteq> ''https''
          then Inl (''s3 endpoint scheme must be http or https, got '' @ [CHR 0x27] @ scheme @ [CHR 0x27])
          else (let authority_clean = hd (split_on CHR ''/'' authority) in
                if authority_clean = [] then Inl ''s3 endpoint host is empty''
                else (let (host_only, port_suffix) = split_host_port authority_clean in
                      case endpoint_port scheme port_suffix of
                        Inl e \<Rightarrow> Inl e
                      | Inr port \<Rightarrow>
                          (let bare_host = trim_brackets host_only in
                           case block_private_ip (dns bare_host port) bare_host allow_private of
                             Inl e \<Rightarrow> Inl (ssrf_message e)
                           | Inr u \<Rightarrow>
                               if sc_path_style config then Inr (scheme, authority_clean)
                               else Inr (scheme, sc_bucket config @ ''.'' @ host_only @ port_suffix)))))"

definition uri_encode_path :: "'w s3_env \<Rightarrow> string \<Rightarrow> string" where
  "uri_encode_path env key =
     CHR ''/'' # se_path env (case strip_prefix ''/'' key of Some rest \<Rightarrow> rest | None \<Rightarrow> key)"

definition build_uri :: "'w s3_env \<Rightarrow> s3_config \<Rightarrow> string \<Rightarrow> string" where
  "build_uri env config key =
     (if sc_path_style config then CHR ''/'' # se_segment env (sc_bucket config) @ uri_encode_path env key
      else uri_encode_path env key)"

definition list_uri :: "'w s3_env \<Rightarrow> s3_config \<Rightarrow> string" where
  "list_uri env config = (if sc_path_style config then CHR ''/'' # se_segment env (sc_bucket config) else ''/'')"

definition post_url :: "'w s3_env \<Rightarrow> string \<Rightarrow> string \<Rightarrow> s3_config \<Rightarrow> string" where
  "post_url env scheme host config =
     (if sc_path_style config then scheme @ ''://'' @ host @ ''/'' @ se_segment env (sc_bucket config)
      else scheme @ ''://'' @ host @ ''/'')"

definition s3_scope :: "string \<Rightarrow> s3_config \<Rightarrow> string" where
  "s3_scope datestamp config = datestamp @ ''/'' @ sc_region config @ ''/'' @ SERVICE @ ''/aws4_request''"

definition build_canonical_query :: "'w s3_env \<Rightarrow> string \<Rightarrow> string \<Rightarrow> string \<Rightarrow> nat \<Rightarrow> string" where
  "build_canonical_query env access_key scope amz_date expires =
     ''X-Amz-Algorithm=AWS4-HMAC-SHA256&X-Amz-Credential='' @ se_segment env (access_key @ ''/'' @ scope) @
     ''&X-Amz-Date='' @ se_segment env amz_date @ ''&X-Amz-Expires='' @ show_nat expires @ ''&X-Amz-SignedHeaders=host''"

fun insert_pair :: "string \<times> string \<Rightarrow> (string \<times> string) list \<Rightarrow> (string \<times> string) list" where
  "insert_pair x [] = [x]"
| "insert_pair x (y # ys) =
     (if lexordp_eq (map (of_char :: char \<Rightarrow> nat) (fst x)) (map of_char (fst y)) then x # y # ys else y # insert_pair x ys)"

fun join_amp :: "string list \<Rightarrow> string" where
  "join_amp [] = []"
| "join_amp [x] = x"
| "join_amp (x # xs) = x @ ''&'' @ join_amp xs"

definition canonical_query_from_pairs :: "'w s3_env \<Rightarrow> (string \<times> string) list \<Rightarrow> string" where
  "canonical_query_from_pairs env pairs =
     join_amp (map (\<lambda>(k, v). k @ ''='' @ v)
       (foldr insert_pair (map (\<lambda>(k, v). (se_segment env k, se_segment env v)) pairs) []))"

subsection \<open>Signing\<close>

definition derive_signing_key :: "'w s3_env \<Rightarrow> string \<Rightarrow> string \<Rightarrow> string \<Rightarrow> string" where
  "derive_signing_key env secret_key datestamp region =
     se_hmac env (se_hmac env (se_hmac env (se_hmac env (''AWS4'' @ secret_key) datestamp) region) SERVICE) ''aws4_request''"

record sign_input =
  si_secret_key :: string
  si_region :: string
  si_datestamp :: string
  si_amz_date :: string
  si_scope :: string
  si_method :: string
  si_canonical_uri :: string
  si_query :: string
  si_host :: string

definition canonical_request :: "sign_input \<Rightarrow> string" where
  "canonical_request i =
     si_method i @ [CHR 0x0A] @ si_canonical_uri i @ [CHR 0x0A] @ si_query i @ [CHR 0x0A] @
     ''host:'' @ si_host i @ [CHR 0x0A, CHR 0x0A] @ ''host'' @ [CHR 0x0A] @ ''UNSIGNED-PAYLOAD''"

definition sign :: "'w s3_env \<Rightarrow> sign_input \<Rightarrow> string" where
  "sign env i =
     (let string_to_sign = ''AWS4-HMAC-SHA256'' @ [CHR 0x0A] @ si_amz_date i @ [CHR 0x0A] @ si_scope i @ [CHR 0x0A] @
                             se_sha256_hex env (canonical_request i)
      in se_hex env (se_hmac env (derive_signing_key env (si_secret_key i) (si_datestamp i) (si_region i)) string_to_sign))"

definition signed_url :: "'w s3_env \<Rightarrow> s3_config \<Rightarrow> string \<Rightarrow> string \<Rightarrow> string \<Rightarrow> string \<Rightarrow> string \<Rightarrow> string \<Rightarrow> string \<Rightarrow> string" where
  "signed_url env config scheme host amz_date datestamp verb uri query =
     scheme @ ''://'' @ host @ uri @ ''?'' @ query @ ''&X-Amz-Signature='' @
     sign env \<lparr>si_secret_key = sc_secret_key config, si_region = sc_region config, si_datestamp = datestamp,
               si_amz_date = amz_date, si_scope = s3_scope datestamp config, si_method = verb,
               si_canonical_uri = uri, si_query = query, si_host = host\<rparr>"

subsection \<open>Presigning\<close>

record presign_outcome =
  po_json :: string
  po_method :: string
  po_expires :: nat

definition do_presign :: "'w s3_env \<Rightarrow> s3_config \<Rightarrow> string \<Rightarrow> bool \<Rightarrow> (s3_error, presign_outcome) result" where
  "do_presign env config payload_json allow_private =
     (case se_presign env payload_json of
        Inl e \<Rightarrow> Inl (s3_signing (''invalid s3 payload: '' @ e))
      | Inr payload \<Rightarrow>
          (case normalize_method (pp_method payload) of
             Inl e \<Rightarrow> Inl (s3_signing e)
           | Inr verb \<Rightarrow>
               if verb = ''DELETE'' \<and> \<not> sc_allow_delete config
               then Inl (s3_forbidden ''s3 DELETE is disabled (set config.s3.allow_delete = true to enable)'')
               else if trim (pp_key payload) = [] then Inl (s3_signing ''s3 sign_url requires a non-empty key'')
               else (let expires = clamp_expires (pp_expires payload) config in
                     case se_timestamps env of
                       Inl e \<Rightarrow> Inl (s3_signing e)
                     | Inr (amz_date, datestamp, now_secs) \<Rightarrow>
                         (case resolve_host (se_dns env) config allow_private of
                            Inl e \<Rightarrow> Inl (s3_signing e)
                          | Inr (scheme, host) \<Rightarrow>
                              (let uri = build_uri env config (pp_key payload);
                                   query = build_canonical_query env (sc_access_key config) (s3_scope datestamp config) amz_date expires;
                                   url = signed_url env config scheme host amz_date datestamp verb uri query
                               in Inr \<lparr>po_json = se_print env (JObj [(''url'', JStr url), (''method'', JStr verb),
                                                                       (''expires'', JNum (show_nat expires))]),
                                       po_method = verb, po_expires = expires\<rparr>)))))"

definition iso8601_expiration :: "'w s3_env \<Rightarrow> int \<Rightarrow> nat \<Rightarrow> (string, string) result" where
  "iso8601_expiration env now_secs expires =
     (if 2 ^ 63 \<le> expires then Inl ''expires out of range: out of range integral type conversion attempted''
      else if 2 ^ 63 \<le> now_secs + int expires then Inl ''expiration overflow''
      else (case se_iso env (now_secs + int expires) of
              None \<Rightarrow> Inl ''invalid expiration timestamp''
            | Some t \<Rightarrow> Inr t))"

definition post_policy :: "s3_config \<Rightarrow> string \<Rightarrow> string \<Rightarrow> string \<Rightarrow> string \<Rightarrow> json" where
  "post_policy config key credential amz_date expiration =
     JObj [(''expiration'', JStr expiration),
           (''conditions'', JArr [JObj [(''bucket'', JStr (sc_bucket config))], JObj [(''key'', JStr key)],
              JObj [(''x-amz-algorithm'', JStr ''AWS4-HMAC-SHA256'')], JObj [(''x-amz-credential'', JStr credential)],
              JObj [(''x-amz-date'', JStr amz_date)],
              JArr [JStr ''content-length-range'', JNum ''0'', JNum (show_nat (sc_max_upload_size config))]])]"

definition do_presign_post :: "'w s3_env \<Rightarrow> s3_config \<Rightarrow> string \<Rightarrow> bool \<Rightarrow> (s3_error, presign_outcome) result" where
  "do_presign_post env config payload_json allow_private =
     (case se_presign_post env payload_json of
        Inl e \<Rightarrow> Inl (s3_signing (''invalid s3 payload: '' @ e))
      | Inr (key, requested) \<Rightarrow>
          if trim key = [] then Inl (s3_signing ''s3 upload_form requires a non-empty key'')
          else if sc_max_upload_size config = 0
          then Inl (s3_signing ''config.s3.max_upload_size is required for upload_form'')
          else (let expires = clamp_expires requested config in
                case se_timestamps env of
                  Inl e \<Rightarrow> Inl (s3_signing e)
                | Inr (amz_date, datestamp, now_secs) \<Rightarrow>
                    (case resolve_host (se_dns env) config allow_private of
                       Inl e \<Rightarrow> Inl (s3_signing e)
                     | Inr (scheme, host) \<Rightarrow>
                         (case iso8601_expiration env now_secs expires of
                            Inl e \<Rightarrow> Inl (s3_signing e)
                          | Inr expiration \<Rightarrow>
                              (let credential = sc_access_key config @ ''/'' @ s3_scope datestamp config;
                                   policy_b64 = se_base64 env (se_print env (post_policy config key credential amz_date expiration));
                                   signature = se_hex env (se_hmac env
                                     (derive_signing_key env (sc_secret_key config) datestamp (sc_region config)) policy_b64)
                               in Inr \<lparr>po_json = se_print env (JObj
                                     [(''url'', JStr (post_url env scheme host config)),
                                      (''fields'', JObj [(''key'', JStr key), (''X-Amz-Algorithm'', JStr ''AWS4-HMAC-SHA256''),
                                         (''X-Amz-Credential'', JStr credential), (''X-Amz-Date'', JStr amz_date),
                                         (''Policy'', JStr policy_b64), (''X-Amz-Signature'', JStr signature)]),
                                      (''max_bytes'', JNum (show_nat (sc_max_upload_size config))),
                                      (''expires'', JNum (show_nat expires))]),
                                   po_method = ''POST'', po_expires = expires\<rparr>)))))"

subsection \<open>Folder totals\<close>

fun sum_segments :: "nat \<Rightarrow> nat \<Rightarrow> string list \<Rightarrow> (string, nat \<times> nat) result" where
  "sum_segments total_b count [] = Inr (total_b, count)"
| "sum_segments total_b count (segment # segments) =
     (let raw = trim (hd (split_str ''</Size>'' segment)) in
      case parse_usize raw of
        None \<Rightarrow> Inl (''malformed S3 <Size> value: '' @ raw)
      | Some v \<Rightarrow>
          if usize_max < total_b + v then Inl ''size sum overflow''
          else if usize_max < count + 1 then Inl ''object count overflow''
          else sum_segments (total_b + v) (count + 1) segments)"

definition sum_sizes :: "string \<Rightarrow> (string, nat \<times> nat) result" where
  "sum_sizes xml = sum_segments 0 0 (tl (split_str ''<Size>'' xml))"

definition extract_tag :: "string \<Rightarrow> string \<Rightarrow> string \<Rightarrow> string option" where
  "extract_tag xml opening closing =
     (case split_str opening xml of
        before # rest # more_parts \<Rightarrow> Some (trim (hd (split_str closing rest)))
      | _ \<Rightarrow> None)"

definition build_list_url ::
  "'w s3_env \<Rightarrow> s3_config \<Rightarrow> string \<Rightarrow> string \<Rightarrow> string \<Rightarrow> string option \<Rightarrow> (string, string) result" where
  "build_list_url env config scheme host pfx token =
     (case se_timestamps env of
        Inl e \<Rightarrow> Inl e
      | Inr (amz_date, datestamp, now_secs) \<Rightarrow>
          (let pairs = [(''X-Amz-Algorithm'', ''AWS4-HMAC-SHA256''),
                        (''X-Amz-Credential'', sc_access_key config @ ''/'' @ s3_scope datestamp config),
                        (''X-Amz-Date'', amz_date), (''X-Amz-Expires'', ''60''), (''X-Amz-SignedHeaders'', ''host''),
                        (''list-type'', ''2''), (''max-keys'', ''1000'')] @
                       (if pfx \<noteq> [] then [(''prefix'', pfx)] else []) @
                       (case token of Some t \<Rightarrow> [(''continuation-token'', t)] | None \<Rightarrow> [])
           in Inr (signed_url env config scheme host amz_date datestamp ''GET'' (list_uri env config)
                     (canonical_query_from_pairs env pairs))))"

definition status_success :: "u16 \<Rightarrow> bool" where
  "status_success s \<longleftrightarrow> 200 \<le> unat s \<and> unat s < 300"

text \<open>One page: the result, the request it sent and the store afterwards.\<close>

definition fetch_list_page ::
  "'w s3_env \<Rightarrow> s3_config \<Rightarrow> string \<Rightarrow> string \<Rightarrow> string \<Rightarrow> string option \<Rightarrow> 'w \<Rightarrow>
   (string, nat \<times> nat \<times> string option) result \<times> s3_request list \<times> 'w" where
  "fetch_list_page env config scheme host pfx token w =
     (case build_list_url env config scheme host pfx token of
        Inl e \<Rightarrow> (Inl e, [], w)
      | Inr url \<Rightarrow>
          (let req = \<lparr>s3r_method = ''GET'', s3r_url = url\<rparr> in
           case se_send env req w of
             (Inl e, w') \<Rightarrow> (Inl (''s3 list request failed: '' @ e), [req], w')
           | (Inr resp, w') \<Rightarrow>
               ((case s3p_text resp of
                   Inl e \<Rightarrow> Inl (''s3 list read failed: '' @ e)
                 | Inr body \<Rightarrow>
                     if \<not> status_success (s3p_status resp)
                     then Inl (''s3 list returned HTTP '' @ show_nat (unat (s3p_status resp)) @ '': '' @ take_chars 200 body)
                     else (case sum_sizes body of
                             Inl e \<Rightarrow> Inl e
                           | Inr (bytes, objects) \<Rightarrow>
                               Inr (bytes, objects,
                                    (case extract_tag body ''<NextContinuationToken>'' ''</NextContinuationToken>'' of
                                       Some tok \<Rightarrow> if tok \<noteq> [] then Some tok else None
                                     | None \<Rightarrow> None)))),
                [req], w')))"

record 'w s3_state =
  ss_collector :: "s3_metric list"
  ss_sent :: "s3_request list"
  ss_store :: 'w

definition usage_metric :: "nat \<Rightarrow> nat \<Rightarrow> s3_metric" where
  "usage_metric bytes objects =
     \<lparr>sm_action = ''usage'', sm_method = ''GET'', sm_expires = 0, sm_bytes = Some bytes, sm_objects = Some objects\<rparr>"

definition op_limit_error :: "nat \<Rightarrow> s3_error" where
  "op_limit_error max_ops =
     \<lparr>s3e_fault = S3_OP_LIMIT, s3e_message = ''too many operations: limit is '' @ show_nat max_ops @ '' per execution'',
      s3e_details = None\<rparr>"

text \<open>The loop of \<^verbatim>\<open>do_usage\<close>; every turn records a metric, so it ends at the operation limit.\<close>

function usage_loop ::
  "'w s3_env \<Rightarrow> s3_config \<Rightarrow> string \<Rightarrow> string \<Rightarrow> string \<Rightarrow> nat \<Rightarrow> nat \<Rightarrow> nat \<Rightarrow> string option \<Rightarrow> 'w s3_state \<Rightarrow>
   (s3_error, nat \<times> nat) result \<times> 'w s3_state" where
  "usage_loop env config scheme host pfx max_ops total_bytes total_objects token st =
     (if \<not> check_op_limit (ss_collector st) max_ops then (Inl (op_limit_error max_ops), st)
      else case fetch_list_page env config scheme host pfx token (ss_store st) of
             (Inl e, sent, w) \<Rightarrow> (Inl (s3_upstream e), st\<lparr>ss_sent := ss_sent st @ sent, ss_store := w\<rparr>)
           | (Inr (bytes, objects, next), sent, w) \<Rightarrow>
               (let st' = st\<lparr>ss_collector := ss_collector st @ [usage_metric bytes objects],
                             ss_sent := ss_sent st @ sent, ss_store := w\<rparr> in
                if usize_max < total_bytes + bytes then (Inl (s3_signing ''usage byte total overflow''), st')
                else if usize_max < total_objects + objects then (Inl (s3_signing ''usage object total overflow''), st')
                else (case next of
                        Some t \<Rightarrow>
                          usage_loop env config scheme host pfx max_ops (total_bytes + bytes) (total_objects + objects)
                            (Some t) st'
                      | None \<Rightarrow> (Inr (total_bytes + bytes, total_objects + objects), st'))))"
  by pat_completeness auto
termination
  by (relation "measure (\<lambda>(env, config, scheme, host, pfx, max_ops, b, objs, token, st). max_ops - length (ss_collector st))")
     (auto simp: check_op_limit_def)

declare usage_loop.simps [simp del]

definition do_usage :: "'w s3_env \<Rightarrow> s3_config \<Rightarrow> string \<Rightarrow> bool \<Rightarrow> nat \<Rightarrow> 'w s3_state \<Rightarrow> (s3_error, string) result \<times> 'w s3_state"
where
  "do_usage env config payload_json allow_private max_ops st =
     (case se_prefix env payload_json of
        Inl e \<Rightarrow> (Inl (s3_signing (''invalid s3 payload: '' @ e)), st)
      | Inr pfx \<Rightarrow>
          (case resolve_host (se_dns env) config allow_private of
             Inl e \<Rightarrow> (Inl (s3_signing e), st)
           | Inr (scheme, host) \<Rightarrow>
               (case se_client env of
                  Inl e \<Rightarrow> (Inl (s3_signing (''failed to build s3 client: '' @ e)), st)
                | Inr u \<Rightarrow>
                    (case usage_loop env config scheme host pfx max_ops 0 0 None st of
                       (Inl e, st') \<Rightarrow> (Inl e, st')
                     | (Inr (bytes, objects), st') \<Rightarrow>
                         (Inr (se_print env (JObj [(''prefix'', JStr pfx), (''bytes'', JNum (show_nat bytes)),
                                                   (''objects'', JNum (show_nat objects))])), st')))))"

subsection \<open>Deletion\<close>

definition build_delete_url :: "'w s3_env \<Rightarrow> s3_config \<Rightarrow> string \<Rightarrow> string \<Rightarrow> string \<Rightarrow> (string, string) result" where
  "build_delete_url env config scheme host key =
     (case se_timestamps env of
        Inl e \<Rightarrow> Inl e
      | Inr (amz_date, datestamp, now_secs) \<Rightarrow>
          (let pairs = [(''X-Amz-Algorithm'', ''AWS4-HMAC-SHA256''),
                        (''X-Amz-Credential'', sc_access_key config @ ''/'' @ s3_scope datestamp config),
                        (''X-Amz-Date'', amz_date), (''X-Amz-Expires'', ''60''), (''X-Amz-SignedHeaders'', ''host'')]
           in Inr (signed_url env config scheme host amz_date datestamp ''DELETE'' (build_uri env config key)
                     (canonical_query_from_pairs env pairs))))"

definition delete_metric :: s3_metric where
  "delete_metric = \<lparr>sm_action = ''delete'', sm_method = ''DELETE'', sm_expires = 0, sm_bytes = None, sm_objects = None\<rparr>"

definition do_delete :: "'w s3_env \<Rightarrow> s3_config \<Rightarrow> string \<Rightarrow> bool \<Rightarrow> 'w s3_state \<Rightarrow> (s3_error, string) result \<times> 'w s3_state" where
  "do_delete env config payload_json allow_private st =
     (if \<not> sc_allow_delete config
      then (Inl (s3_forbidden ''s3 delete is disabled (set config.s3.allow_delete = true to enable)''), st)
      else case se_delete_key env payload_json of
             Inl e \<Rightarrow> (Inl (s3_signing (''invalid s3 payload: '' @ e)), st)
           | Inr key \<Rightarrow>
               if trim key = [] then (Inl (s3_signing ''s3 delete requires a non-empty key''), st)
               else (case resolve_host (se_dns env) config allow_private of
                       Inl e \<Rightarrow> (Inl (s3_signing e), st)
                     | Inr (scheme, host) \<Rightarrow>
                         (case build_delete_url env config scheme host key of
                            Inl e \<Rightarrow> (Inl (s3_signing e), st)
                          | Inr url \<Rightarrow>
                              (case se_client env of
                                 Inl e \<Rightarrow> (Inl (s3_signing (''failed to build s3 client: '' @ e)), st)
                               | Inr u \<Rightarrow>
                                   (let req = \<lparr>s3r_method = ''DELETE'', s3r_url = url\<rparr> in
                                    case se_send env req (ss_store st) of
                                      (Inl e, w) \<Rightarrow>
                                        (Inl (s3_upstream (''s3 delete request failed: '' @ e)),
                                         st\<lparr>ss_sent := ss_sent st @ [req], ss_store := w\<rparr>)
                                    | (Inr resp, w) \<Rightarrow>
                                        ((if status_success (s3p_status resp)
                                          then Inr (se_print env (JObj [(''key'', JStr key), (''deleted'', JBool True)]))
                                          else (case s3p_text resp of
                                                  Inl e \<Rightarrow> Inl (s3_upstream (''s3 delete read failed: '' @ e))
                                                | Inr body \<Rightarrow>
                                                    Inl (s3_upstream_status
                                                      (''s3 delete returned HTTP '' @ show_nat (unat (s3p_status resp)) @ '': '' @
                                                       take_chars 200 body) (s3p_status resp)))),
                                         st\<lparr>ss_collector := ss_collector st @ [delete_metric],
                                            ss_sent := ss_sent st @ [req], ss_store := w\<rparr>))))))"

subsection \<open>The host function\<close>

definition s3_dispatch :: "'w s3_env \<Rightarrow> s3_config \<Rightarrow> string \<Rightarrow> string \<Rightarrow> bool \<Rightarrow> (s3_error, presign_outcome) result" where
  "s3_dispatch env config action payload_json allow_private =
     (if action = ''presign'' then do_presign env config payload_json allow_private
      else if action = ''presign_post'' then do_presign_post env config payload_json allow_private
      else Inl (s3_signing (''unknown s3 action: '' @ action)))"

definition build_metric :: "string \<Rightarrow> (s3_error, presign_outcome) result \<Rightarrow> s3_metric" where
  "build_metric action outcome =
     \<lparr>sm_action = action, sm_method = (case outcome of Inr out \<Rightarrow> po_method out | Inl e \<Rightarrow> []),
      sm_expires = (case outcome of Inr out \<Rightarrow> po_expires out | Inl e \<Rightarrow> 0), sm_bytes = None, sm_objects = None\<rparr>"

definition s3_native ::
  "'w s3_env \<Rightarrow> s3_config \<Rightarrow> nat \<Rightarrow> bool \<Rightarrow> 'w s3_state \<Rightarrow> string \<Rightarrow> string \<Rightarrow> (s3_error, string) result \<times> 'w s3_state" where
  "s3_native env config max_ops allow_private st action payload_json =
     (if \<not> check_op_limit (ss_collector st) max_ops then (Inl (op_limit_error max_ops), st)
      else if action = ''usage'' then do_usage env config payload_json allow_private max_ops st
      else if action = ''delete'' then do_delete env config payload_json allow_private st
      else (let outcome = s3_dispatch env config action payload_json allow_private
            in (map_sum id po_json outcome, st\<lparr>ss_collector := ss_collector st @ [build_metric action outcome]\<rparr>)))"

subsection \<open>What a call can do\<close>
























definition sample_s3_config :: s3_config where
  "sample_s3_config =
     \<lparr>sc_endpoint = ''http://store'', sc_region = ''r'', sc_bucket = ''b'', sc_access_key = ''k'', sc_secret_key = ''s'',
      sc_path_style = True, sc_expires = default_expires, sc_max_expires = default_max_expires, sc_max_upload_size = 0,
      sc_allow_delete = True\<rparr>"

text \<open>A text that starts with no hexadecimal digit and no colon is not an address.\<close>

lemma parse_ip_name:
  assumes "hex_val c = None" and "digit_val c = None" and "c \<noteq> CHR '':''"
  shows "parse_ip (c # s) = None"
proof -
  have v4: "read_ipv4 (c # s) = None" and v6: "read_v6_group (c # s) = None"
    using assms by (simp_all add: read_ipv4_def read_v4_octet_def read_v6_group_def)
  have "read_groups (Suc n) 0 (c # s) = ([], False, c # s)" for n using v4 v6 by (simp add: separator_def)
  from this [of 7] have "read_groups 8 0 (c # s) = ([], False, c # s)" by (simp add: numeral_eq_Suc)
  then show ?thesis using assms(3) v4 by (simp add: parse_ip_def read_ipv6_def)
qed

lemmas resolve_host_defs = resolve_host_def split_once_def split_host_port_def rsplit_once_def endpoint_port_def
  trim_brackets_def block_private_ip_def Let_def to_ascii_lowercase_def to_ascii_lower_def



text \<open>Failed requests are not counted against the operation limit. With a store that cannot be reached, any number of
  deletions in one execution each send a request while the collector stays as it was.\<close>

lemma failed_deletes_unmetered:
  assumes "sc_allow_delete config" and "\<And>r w. \<exists>e w'. se_send env r w = (Inl e, w')" and "0 < max_ops"
    and "se_delete_key env pj = Inr key" and "trim key \<noteq> []" and "resolve_host (se_dns env) config ap = Inr (scheme, host)"
    and "se_timestamps env = Inr ts" and "se_client env = Inr ()" and "ss_collector st = []"
  shows "ss_collector (((\<lambda>s. snd (s3_native env config max_ops ap s ''delete'' pj)) ^^ n) st) = [] \<and>
    length (ss_sent (((\<lambda>s. snd (s3_native env config max_ops ap s ''delete'' pj)) ^^ n) st)) = length (ss_sent st) + n"
proof (induction n)
  case 0
  show ?case using assms(9) by simp
next
  case (Suc n)
  let ?s = "((\<lambda>s. snd (s3_native env config max_ops ap s ''delete'' pj)) ^^ n) st"
  obtain url where url: "build_delete_url env config scheme host key = Inr url"
    using assms(7) by (cases ts) (simp add: build_delete_url_def Let_def)
  obtain e w where "se_send env \<lparr>s3r_method = ''DELETE'', s3r_url = url\<rparr> (ss_store ?s) = (Inl e, w)" using assms(2) by blast
  then have "snd (s3_native env config max_ops ap ?s ''delete'' pj) =
      ?s\<lparr>ss_sent := ss_sent ?s @ [\<lparr>s3r_method = ''DELETE'', s3r_url = url\<rparr>], ss_store := w\<rparr>"
    using Suc assms(1,3-6,8) url by (simp add: s3_native_def check_op_limit_def do_delete_def Let_def)
  then show ?case using Suc by simp
qed

text \<open>The endpoint check does not see past user information. An endpoint whose authority carries a user part is looked up as a
  whole; when that name does not resolve, the loopback address behind it is accepted and becomes the host of every URL.\<close>

lemma endpoint_userinfo_unchecked:
  "resolve_host (\<lambda>h p. None) (sample_s3_config\<lparr>sc_endpoint := ''http://u@127.0.0.1:9000/''\<rparr>) False =
     Inr (''http'', ''u@127.0.0.1:9000'') \<and>
   resolve_host (\<lambda>h p. None) (sample_s3_config\<lparr>sc_endpoint := ''http://127.0.0.1:9000/''\<rparr>) False =
     Inl (ssrf_message (PrivateLiteral (V4 (Ipv4 127 0 0 1))))"
proof
  have port: "parse_usize ''9000'' = Some 9000" by (simp add: parse_usize_def digit_val_def usize_max_def)
  show "resolve_host (\<lambda>h p. None) (sample_s3_config\<lparr>sc_endpoint := ''http://u@127.0.0.1:9000/''\<rparr>) False =
     Inr (''http'', ''u@127.0.0.1:9000'')"
    by (simp add: resolve_host_defs sample_s3_config_def parse_ip_name hex_val_def digit_val_def port)
  have "show_ipv4 (Ipv4 127 0 0 1) = ''127.0.0.1''" by (simp add: show_ipv4_def show_nat.simps char_of_def bit_0)
  then have ip: "parse_ip ''127.0.0.1'' = Some (V4 (Ipv4 127 0 0 1))" using parse_show_ipv4 by metis
  have "is_private_ip (V4 (Ipv4 127 0 0 1))" by (simp add: v4_is_loopback.simps)
  then show "resolve_host (\<lambda>h p. None) (sample_s3_config\<lparr>sc_endpoint := ''http://127.0.0.1:9000/''\<rparr>) False =
     Inl (ssrf_message (PrivateLiteral (V4 (Ipv4 127 0 0 1))))"
    by (simp add: resolve_host_defs sample_s3_config_def ip port digit_val_def del: ssrf_message.simps)
qed

end
