(* ===== verification/Sys.thy ===== *)
theory Sys
  imports Mux
begin

text \<open>
  The standard library behind \<^verbatim>\<open>$std.crypto\<close> and \<^verbatim>\<open>$std.datetime\<close>, \<^verbatim>\<open>runlet-core/src/sys.rs\<close>: one native function that takes a domain,
  an operation and a JSON payload, and holds the plaintext of the secrets.

  Arguments of the model: the hashes, HMAC and codecs (\<open>crypto_ops\<close>), chrono and chrono-tz (\<open>chrono\<close>: dates \<open>'n\<close>, zones \<open>'z\<close>,
  instants are epoch milliseconds), serde's reader of the payload and of an integer literal.
\<close>

type_synonym secret_store = "string \<rightharpoonup> string"

record sys_config =
  sy_env :: "(string \<times> json) list"
  sy_secrets :: "(string \<times> json) list"

definition secret_store_of :: "sys_config \<Rightarrow> secret_store" where
  "secret_store_of c = map_of (List.map_filter (\<lambda>(n, v). case v of JStr s \<Rightarrow> Some (n, s) | _ \<Rightarrow> None) (sy_secrets c))"

definition secret_names :: "sys_config \<Rightarrow> string list" where
  "secret_names c = map fst (filter (\<lambda>(n, v). case v of JStr s \<Rightarrow> True | _ \<Rightarrow> False) (sy_secrets c))"

record crypto_ops =
  co_sha256_hex :: "string \<Rightarrow> string"
  co_sha512_hex :: "string \<Rightarrow> string"
  co_hmac_sha256 :: "string \<Rightarrow> string \<Rightarrow> string"
  co_hmac_sha512 :: "string \<Rightarrow> string \<Rightarrow> string"
  co_uuid :: string
  co_hex :: "string \<Rightarrow> string"
  co_unhex :: "string \<Rightarrow> (string, string) result"
  co_base64 :: "string \<Rightarrow> string"
  co_unbase64 :: "string \<Rightarrow> (string, string) result"
  co_base64url :: "string \<Rightarrow> string"
  co_unbase64url :: "string \<Rightarrow> (string, string) result"
  co_percent :: "string \<Rightarrow> string"
  co_unpercent :: "string \<Rightarrow> (string, string) result"

record ('n, 'z) chrono =
  ch_now :: "(string, int) result"
  ch_representable :: "int \<Rightarrow> bool"
  ch_utc :: 'z
  ch_zone :: "string \<Rightarrow> 'z option"
  ch_parse_rfc3339 :: "string \<Rightarrow> int option"
  ch_parse_date :: "string \<Rightarrow> int option"
  ch_add_months :: "int \<Rightarrow> int \<Rightarrow> int option"
  ch_local_date :: "'z \<Rightarrow> int \<Rightarrow> 'n"
  ch_from_local :: "'z \<Rightarrow> 'n \<Rightarrow> nat \<Rightarrow> nat \<Rightarrow> nat \<Rightarrow> nat \<Rightarrow> int option"
  ch_time_ok :: "nat \<Rightarrow> nat \<Rightarrow> nat \<Rightarrow> nat \<Rightarrow> bool"
  ch_ymd :: "'n \<Rightarrow> int \<times> nat \<times> nat"
  ch_from_ymd :: "int \<Rightarrow> nat \<Rightarrow> nat \<Rightarrow> 'n option"
  ch_with_month :: "'n \<Rightarrow> nat \<Rightarrow> 'n option"
  ch_with_day :: "'n \<Rightarrow> nat \<Rightarrow> 'n option"
  ch_pred :: "'n \<Rightarrow> 'n option"
  ch_weekday :: "'n \<Rightarrow> nat"
  ch_add_days :: "'n \<Rightarrow> nat \<Rightarrow> 'n option"
  ch_sub_days :: "'n \<Rightarrow> nat \<Rightarrow> 'n option"
  ch_clock :: "'z \<Rightarrow> int \<Rightarrow> nat \<times> nat \<times> nat \<times> nat"
  ch_ordinal :: "'n \<Rightarrow> nat"
  ch_iso_week :: "'n \<Rightarrow> nat \<times> int"
  ch_rfc3339 :: "'z option \<Rightarrow> int \<Rightarrow> string"
  ch_i64 :: "string \<Rightarrow> int option"

subsection \<open>Payload fields\<close>

definition quoted :: "string \<Rightarrow> string" where
  "quoted s = [CHR 0x27] @ s @ [CHR 0x27]"

fun obj_get :: "string \<Rightarrow> json \<Rightarrow> json option" where
  "obj_get key (JObj fs) = map_of (rev fs) key"
| "obj_get key _ = None"

fun as_str :: "json \<Rightarrow> string option" where
  "as_str (JStr s) = Some s"
| "as_str _ = None"

definition field_str :: "json \<Rightarrow> string \<Rightarrow> (string, string) result" where
  "field_str payload key =
     (case Option.bind (obj_get key payload) as_str of
        Some s \<Rightarrow> Inr s
      | None \<Rightarrow> Inl (''missing string field '' @ quoted key))"

fun as_i64 :: "('n, 'z) chrono \<Rightarrow> json \<Rightarrow> int option" where
  "as_i64 ch (JNum n) = ch_i64 ch n"
| "as_i64 ch _ = None"

definition field_i64 :: "('n, 'z) chrono \<Rightarrow> json \<Rightarrow> string \<Rightarrow> (string, int) result" where
  "field_i64 ch payload key =
     (case Option.bind (obj_get key payload) (as_i64 ch) of
        Some n \<Rightarrow> Inr n
      | None \<Rightarrow> Inl (''missing integer field '' @ quoted key))"

subsection \<open>Crypto\<close>

definition resolve_key :: "json \<Rightarrow> secret_store \<Rightarrow> (string, string) result" where
  "resolve_key payload secrets =
     (case Option.bind (obj_get ''key_ref'' payload) as_str of
        Some name \<Rightarrow>
          (case secrets name of Some plain \<Rightarrow> Inr plain | None \<Rightarrow> Inl (''unknown secret: '' @ quoted name))
      | None \<Rightarrow> field_str payload ''key'')"

definition encode_bytes :: "crypto_ops \<Rightarrow> string \<Rightarrow> string \<Rightarrow> (string, string) result" where
  "encode_bytes co bytes encoding =
     (if encoding = ''hex'' then Inr (co_hex co bytes)
      else if encoding = ''base64'' then Inr (co_base64 co bytes)
      else if encoding = ''base64url'' then Inr (co_base64url co bytes)
      else Inl (''unsupported encoding: '' @ quoted encoding))"

definition hmac_op :: "crypto_ops \<Rightarrow> json \<Rightarrow> secret_store \<Rightarrow> (string, json) result" where
  "hmac_op co payload secrets =
     (case field_str payload ''algo'' of
        Inl e \<Rightarrow> Inl e
      | Inr algo \<Rightarrow>
          (case resolve_key payload secrets of
             Inl e \<Rightarrow> Inl e
           | Inr key \<Rightarrow>
               (case field_str payload ''msg'' of
                  Inl e \<Rightarrow> Inl e
                | Inr msg \<Rightarrow>
                    (let encoding = (case Option.bind (obj_get ''encoding'' payload) as_str of Some e \<Rightarrow> e | None \<Rightarrow> ''hex'') in
                     if algo = ''sha256'' then map_sum id JStr (encode_bytes co (co_hmac_sha256 co key msg) encoding)
                     else if algo = ''sha512'' then map_sum id JStr (encode_bytes co (co_hmac_sha512 co key msg) encoding)
                     else Inl (''unsupported hmac algorithm: '' @ quoted algo)))))"

text \<open>The position that the standard library adds to the message of a UTF-8 error is left out.\<close>

definition decode_utf8 :: "(string, string) result \<Rightarrow> (string, json) result" where
  "decode_utf8 decoded =
     (case decoded of
        Inl e \<Rightarrow> Inl e
      | Inr bytes \<Rightarrow> if valid_utf8 bytes then Inr (JStr bytes) else Inl ''decoded bytes are not valid utf-8'')"

definition prefixed :: "string \<Rightarrow> (string, 'a) result \<Rightarrow> (string, 'a) result" where
  "prefixed p r = map_sum (\<lambda>e. p @ e) id r"

definition encoding_dispatch :: "crypto_ops \<Rightarrow> string \<Rightarrow> json \<Rightarrow> (string, json) result" where
  "encoding_dispatch co opname payload =
     (case field_str payload ''data'' of
        Inl e \<Rightarrow> Inl e
      | Inr data \<Rightarrow>
          (if opname = ''base64_encode'' then Inr (JStr (co_base64 co data))
           else if opname = ''base64_decode'' then decode_utf8 (prefixed ''invalid base64: '' (co_unbase64 co data))
           else if opname = ''base64url_encode'' then Inr (JStr (co_base64url co data))
           else if opname = ''base64url_decode'' then decode_utf8 (prefixed ''invalid base64: '' (co_unbase64url co data))
           else if opname = ''hex_encode'' then Inr (JStr (co_hex co data))
           else if opname = ''hex_decode'' then decode_utf8 (prefixed ''invalid hex: '' (co_unhex co data))
           else if opname = ''url_encode'' then Inr (JStr (co_percent co data))
           else if opname = ''url_decode'' then map_sum (\<lambda>e. ''invalid percent-encoding: '' @ e) JStr (co_unpercent co data)
           else Inl (''unknown encoding op: '' @ quoted opname)))"

definition crypto_dispatch :: "crypto_ops \<Rightarrow> string \<Rightarrow> json \<Rightarrow> secret_store \<Rightarrow> (string, json) result" where
  "crypto_dispatch co opname payload secrets =
     (if opname = ''sha256'' then map_sum id (\<lambda>d. JStr (co_sha256_hex co d)) (field_str payload ''data'')
      else if opname = ''sha512'' then map_sum id (\<lambda>d. JStr (co_sha512_hex co d)) (field_str payload ''data'')
      else if opname = ''hmac'' then hmac_op co payload secrets
      else if opname = ''uuid'' then Inr (JStr (co_uuid co))
      else if opname \<in> {''base64_encode'', ''base64_decode'', ''base64url_encode'', ''base64url_decode'', ''hex_encode'',
                        ''hex_decode'', ''url_encode'', ''url_decode''}
      then encoding_dispatch co opname payload
      else Inl (''unknown crypto op: '' @ quoted opname))"

subsection \<open>Dates\<close>

definition in_i64 :: "int \<Rightarrow> bool" where
  "in_i64 n \<longleftrightarrow> - (2 ^ 63) \<le> n \<and> n < 2 ^ 63"

definition checked_i64 :: "int \<Rightarrow> string \<Rightarrow> (string, int) result" where
  "checked_i64 n e = (if in_i64 n then Inr n else Inl e)"

definition json_int :: "int \<Rightarrow> json" where
  "json_int n = JNum (if n < 0 then CHR ''-'' # show_nat (nat (- n)) else show_nat (nat n))"

definition instant_at :: "('n, 'z) chrono \<Rightarrow> int \<Rightarrow> (string, int) result" where
  "instant_at ch ms = (if ch_representable ch ms then Inr ms else Inl ''timestamp out of range'')"

definition parse_zone :: "('n, 'z) chrono \<Rightarrow> string \<Rightarrow> (string, 'z) result" where
  "parse_zone ch name =
     (case ch_zone ch name of Some z \<Rightarrow> Inr z | None \<Rightarrow> Inl (''unknown timezone: '' @ quoted name))"

definition resolve_zone :: "('n, 'z) chrono \<Rightarrow> json \<Rightarrow> (string, 'z) result" where
  "resolve_zone ch payload =
     (case Option.bind (obj_get ''zone'' payload) as_str of
        None \<Rightarrow> Inr (ch_utc ch)
      | Some name \<Rightarrow> parse_zone ch name)"

definition from_local :: "('n, 'z) chrono \<Rightarrow> 'z \<Rightarrow> 'n \<Rightarrow> nat \<Rightarrow> nat \<Rightarrow> nat \<Rightarrow> nat \<Rightarrow> (string, int) result" where
  "from_local ch tz date h mi s ms =
     (case ch_from_local ch tz date h mi s ms of
        Some t \<Rightarrow> Inr t
      | None \<Rightarrow> Inl ''local time does not exist in the given zone'')"

definition parse_date_str :: "('n, 'z) chrono \<Rightarrow> string \<Rightarrow> (string, int) result" where
  "parse_date_str ch text_in =
     (let trimmed = trim text_in in
      case ch_parse_rfc3339 ch trimmed of
        Some ms \<Rightarrow> Inr ms
      | None \<Rightarrow>
          (case ch_parse_date ch trimmed of
             Some ms \<Rightarrow> Inr ms
           | None \<Rightarrow> Inl (''cannot parse date: '' @ quoted text_in)))"

definition parse_input :: "('n, 'z) chrono \<Rightarrow> json \<Rightarrow> (string, int) result" where
  "parse_input ch input =
     (case input of
        JNum n \<Rightarrow> (case ch_i64 ch n of Some ms \<Rightarrow> Inr ms | None \<Rightarrow> Inl ''epoch millis must be an integer'')
      | JStr s \<Rightarrow> parse_date_str ch s
      | _ \<Rightarrow> Inl ''datetime input must be an ISO string or epoch millis'')"

definition datetime_parse :: "('n, 'z) chrono \<Rightarrow> json \<Rightarrow> (string, json) result" where
  "datetime_parse ch payload =
     (case obj_get ''input'' payload of
        None \<Rightarrow> Inl (''missing '' @ quoted ''input'')
      | Some input \<Rightarrow> map_sum id json_int (parse_input ch input))"

definition part_i64 :: "('n, 'z) chrono \<Rightarrow> json \<Rightarrow> string \<Rightarrow> int \<Rightarrow> (string, int) result" where
  "part_i64 ch parts key dflt =
     (case obj_get key parts of
        None \<Rightarrow> Inr dflt
      | Some v \<Rightarrow> (case as_i64 ch v of Some n \<Rightarrow> Inr n | None \<Rightarrow> Inl (quoted key @ '' must be an integer'')))"

definition part_u32 :: "('n, 'z) chrono \<Rightarrow> json \<Rightarrow> string \<Rightarrow> nat \<Rightarrow> (string, nat) result" where
  "part_u32 ch parts key dflt =
     (case obj_get key parts of
        None \<Rightarrow> Inr dflt
      | Some v \<Rightarrow>
          (case as_i64 ch v of
             Some n \<Rightarrow> if 0 \<le> n \<and> n < 2 ^ 32 then Inr (nat n) else Inl (quoted key @ '' must be a non-negative integer'')
           | None \<Rightarrow> Inl (quoted key @ '' must be a non-negative integer'')))"

text \<open>The early returns of the code as a bind of results.\<close>

definition datetime_from :: "('n, 'z) chrono \<Rightarrow> json \<Rightarrow> (string, json) result" where
  "datetime_from ch payload =
     (case obj_get ''parts'' payload of
        None \<Rightarrow> Inl (''missing '' @ quoted ''parts'')
      | Some parts \<Rightarrow>
          and_then (part_i64 ch parts ''year'' 0) (\<lambda>y.
          if \<not> (- (2 ^ 31) \<le> y \<and> y < 2 ^ 31) then Inl ''year out of range'' else
          and_then (part_u32 ch parts ''month'' 1) (\<lambda>mo.
          and_then (part_u32 ch parts ''day'' 1) (\<lambda>d.
          and_then (part_u32 ch parts ''hour'' 0) (\<lambda>h.
          and_then (part_u32 ch parts ''minute'' 0) (\<lambda>mi.
          and_then (part_u32 ch parts ''second'' 0) (\<lambda>s.
          and_then (part_u32 ch parts ''millisecond'' 0) (\<lambda>ms.
          case ch_from_ymd ch y mo d of
            None \<Rightarrow> Inl ''date parts are out of range''
          | Some date \<Rightarrow>
              if \<not> ch_time_ok ch h mi s ms then Inl ''date parts are out of range'' else
              and_then (resolve_zone ch payload) (\<lambda>tz.
              map_sum id json_int (from_local ch tz date h mi s ms))))))))))"

definition datetime_add :: "('n, 'z) chrono \<Rightarrow> json \<Rightarrow> (string, json) result" where
  "datetime_add ch payload =
     and_then (field_i64 ch payload ''ms'') (\<lambda>ms.
     and_then (instant_at ch ms) (\<lambda>base.
     and_then (field_i64 ch payload ''months'') (\<lambda>months.
     and_then (field_i64 ch payload ''fixed_ms'') (\<lambda>fixed_ms.
     if 2 ^ 32 \<le> \<bar>months\<bar> then Inl ''month arithmetic overflow'' else
     case ch_add_months ch base months of
       None \<Rightarrow> Inl ''datetime arithmetic overflow''
     | Some shifted \<Rightarrow>
         and_then (checked_i64 (shifted + fixed_ms) ''datetime arithmetic overflow'') (\<lambda>out.
         and_then (instant_at ch out) (\<lambda>u. Inr (json_int out)))))))"

definition days_in_month :: "('n, 'z) chrono \<Rightarrow> int \<Rightarrow> nat \<Rightarrow> (string, nat) result" where
  "days_in_month ch year month =
     (if 12 \<le> month \<and> 2 ^ 31 \<le> year + 1 then Inl ''year out of range''
      else (let (next_year, next_month) = (if 12 \<le> month then (year + 1, 1) else (year, month + 1)) in
            case ch_from_ymd ch next_year next_month 1 of
              None \<Rightarrow> Inl ''invalid date''
            | Some first_of_next \<Rightarrow>
                (case ch_pred ch first_of_next of
                   None \<Rightarrow> Inl ''date out of range''
                 | Some d \<Rightarrow> Inr (snd (snd (ch_ymd ch d))))))"

definition datetime_parts :: "('n, 'z) chrono \<Rightarrow> json \<Rightarrow> (string, json) result" where
  "datetime_parts ch payload =
     and_then (resolve_zone ch payload) (\<lambda>tz.
     and_then (field_i64 ch payload ''ms'') (\<lambda>ms.
     and_then (instant_at ch ms) (\<lambda>at.
     let date = ch_local_date ch tz at; (year, month, day) = ch_ymd ch date; (h, mi, s, milli) = ch_clock ch tz at;
         (week, week_year) = ch_iso_week ch date in
     if month = 0 then Inl ''quarter computation overflow'' else
     and_then (days_in_month ch year month) (\<lambda>days.
     Inr (JObj [(''year'', json_int year), (''month'', JNum (show_nat month)), (''day'', JNum (show_nat day)),
                (''hour'', JNum (show_nat h)), (''minute'', JNum (show_nat mi)), (''second'', JNum (show_nat s)),
                (''millisecond'', JNum (show_nat milli)), (''weekday'', JNum (show_nat (ch_weekday ch date + 1))),
                (''quarter'', JNum (show_nat ((month - 1) div 3 + 1))), (''day_of_year'', JNum (show_nat (ch_ordinal ch date))),
                (''iso_week'', JObj [(''week'', JNum (show_nat week)), (''week_year'', json_int week_year)]),
                (''days_in_month'', JNum (show_nat days))])))))"

definition week_boundary :: "('n, 'z) chrono \<Rightarrow> 'n \<Rightarrow> bool \<Rightarrow> (string, 'n) result" where
  "week_boundary ch date at_end =
     (case ch_sub_days ch date (ch_weekday ch date) of
        None \<Rightarrow> Inl ''week boundary out of range''
      | Some monday \<Rightarrow>
          if at_end
          then (case ch_add_days ch monday 6 of Some d \<Rightarrow> Inr d | None \<Rightarrow> Inl ''week boundary out of range'')
          else Inr monday)"

definition month_boundary :: "('n, 'z) chrono \<Rightarrow> 'n \<Rightarrow> bool \<Rightarrow> (string, 'n) result" where
  "month_boundary ch date at_end =
     (case ch_ymd ch date of (year, month, d) \<Rightarrow>
        and_then (if at_end then days_in_month ch year month else Inr 1) (\<lambda>day.
        case ch_with_day ch date day of Some b \<Rightarrow> Inr b | None \<Rightarrow> Inl ''month boundary out of range''))"

definition quarter_boundary :: "('n, 'z) chrono \<Rightarrow> 'n \<Rightarrow> bool \<Rightarrow> (string, 'n) result" where
  "quarter_boundary ch date at_end =
     (case ch_ymd ch date of (year, month, d) \<Rightarrow>
        if month = 0 then Inl ''quarter boundary out of range''
        else (let first_of_quarter = (month - 1) div 3 * 3 + 1;
                  target_month = (if at_end then first_of_quarter + 2 else first_of_quarter)
              in case Option.bind (ch_with_day ch date 1) (\<lambda>first. ch_with_month ch first target_month) of
                   None \<Rightarrow> Inl ''quarter boundary out of range''
                 | Some anchored \<Rightarrow> if at_end then month_boundary ch anchored True else Inr anchored))"

definition year_boundary :: "('n, 'z) chrono \<Rightarrow> 'n \<Rightarrow> bool \<Rightarrow> (string, 'n) result" where
  "year_boundary ch date at_end =
     (let (month, day) = (if at_end then (12, 31) else (1, 1)) in
      case Option.bind (ch_with_month ch date month) (\<lambda>anchored. ch_with_day ch anchored day) of
        Some b \<Rightarrow> Inr b
      | None \<Rightarrow> Inl ''year boundary out of range'')"

definition boundary_date :: "('n, 'z) chrono \<Rightarrow> 'n \<Rightarrow> string \<Rightarrow> bool \<Rightarrow> (string, 'n) result" where
  "boundary_date ch date unit_name at_end =
     (if unit_name = ''day'' then Inr date
      else if unit_name = ''week'' then week_boundary ch date at_end
      else if unit_name = ''month'' then month_boundary ch date at_end
      else if unit_name = ''quarter'' then quarter_boundary ch date at_end
      else if unit_name = ''year'' then year_boundary ch date at_end
      else Inl (''unknown boundary unit: '' @ quoted unit_name))"

definition datetime_boundary :: "('n, 'z) chrono \<Rightarrow> json \<Rightarrow> bool \<Rightarrow> (string, json) result" where
  "datetime_boundary ch payload at_end =
     and_then (field_str payload ''unit'') (\<lambda>unit_name.
     and_then (resolve_zone ch payload) (\<lambda>tz.
     and_then (field_i64 ch payload ''ms'') (\<lambda>ms.
     and_then (instant_at ch ms) (\<lambda>at.
     and_then (boundary_date ch (ch_local_date ch tz at) unit_name at_end) (\<lambda>target.
     map_sum id json_int
       (if at_end then from_local ch tz target 23 59 59 999 else from_local ch tz target 0 0 0 0))))))"

definition datetime_iso :: "('n, 'z) chrono \<Rightarrow> json \<Rightarrow> (string, json) result" where
  "datetime_iso ch payload =
     and_then (field_i64 ch payload ''ms'') (\<lambda>ms.
     and_then (instant_at ch ms) (\<lambda>at.
     case Option.bind (obj_get ''zone'' payload) as_str of
       None \<Rightarrow> Inr (JStr (ch_rfc3339 ch None at))
     | Some name \<Rightarrow> and_then (parse_zone ch name) (\<lambda>tz. Inr (JStr (ch_rfc3339 ch (Some tz) at)))))"

text \<open>A negative year keeps its sign inside the width, as the formatter does.\<close>

definition pad_int :: "nat \<Rightarrow> int \<Rightarrow> string" where
  "pad_int width n = (if n < 0 then CHR ''-'' # pad (width - 1) (show_nat (nat (- n))) else pad width (show_nat (nat n)))"

definition pattern_tokens :: "int \<Rightarrow> nat \<Rightarrow> nat \<Rightarrow> nat \<times> nat \<times> nat \<times> nat \<Rightarrow> (string \<times> string) list" where
  "pattern_tokens year month day clock =
     (case clock of (h, mi, s, ms) \<Rightarrow>
        [(''YYYY'', pad_int 4 year), (''SSS'', pad 3 (show_nat ms)), (''YY'', pad 2 (show_nat (nat (year mod 100)))),
         (''MM'', pad 2 (show_nat month)), (''DD'', pad 2 (show_nat day)), (''HH'', pad 2 (show_nat h)),
         (''mm'', pad 2 (show_nat mi)), (''ss'', pad 2 (show_nat s))])"

fun match_token :: "(string \<times> string) list \<Rightarrow> string \<Rightarrow> (string \<times> string) option" where
  "match_token [] rest = None"
| "match_token ((token, v) # tokens) rest =
     (case strip_prefix token rest of Some tail \<Rightarrow> Some (v, tail) | None \<Rightarrow> match_token tokens rest)"

text \<open>The scan, with the remaining length as fuel: every turn takes at least one character.\<close>

fun render_from :: "(string \<times> string) list \<Rightarrow> nat \<Rightarrow> string \<Rightarrow> string" where
  "render_from tokens fuel [] = []"
| "render_from tokens 0 (c # cs) = []"
| "render_from tokens (Suc fuel) (c # cs) =
     (case match_token tokens (c # cs) of
        Some (v, tail) \<Rightarrow> v @ render_from tokens fuel tail
      | None \<Rightarrow> c # render_from tokens fuel cs)"

definition render_pattern :: "string \<Rightarrow> (string \<times> string) list \<Rightarrow> string" where
  "render_pattern pat tokens = render_from tokens (length pat) pat"

definition datetime_format :: "('n, 'z) chrono \<Rightarrow> json \<Rightarrow> (string, json) result" where
  "datetime_format ch payload =
     and_then (resolve_zone ch payload) (\<lambda>tz.
     and_then (field_i64 ch payload ''ms'') (\<lambda>ms.
     and_then (instant_at ch ms) (\<lambda>at.
     and_then (field_str payload ''pattern'') (\<lambda>pat.
     case ch_ymd ch (ch_local_date ch tz at) of (year, month, day) \<Rightarrow>
       Inr (JStr (render_pattern pat (pattern_tokens year month day (ch_clock ch tz at))))))))"

definition split_duration :: "nat \<Rightarrow> nat \<times> nat \<times> nat \<times> nat" where
  "split_duration total_seconds =
     (let after_days = total_seconds mod 86400; after_hours = after_days mod 3600
      in (total_seconds div 86400, after_days div 3600, after_hours div 60, after_hours mod 60))"

text \<open>Rust's integer division truncates toward zero.\<close>

definition trunc_div :: "int \<Rightarrow> int \<Rightarrow> int" where
  "trunc_div a b = (if a < 0 then - ((- a) div b) else a div b)"

definition datetime_diff :: "('n, 'z) chrono \<Rightarrow> json \<Rightarrow> (string, json) result" where
  "datetime_diff ch payload =
     and_then (field_i64 ch payload ''a'') (\<lambda>a.
     and_then (field_i64 ch payload ''b'') (\<lambda>b.
     and_then (checked_i64 (a - b) ''datetime diff overflow'') (\<lambda>total_ms.
     let total_seconds = trunc_div total_ms 1000; (days, hours, minutes, seconds) = split_duration (nat \<bar>total_seconds\<bar>)
     in Inr (JObj [(''total_ms'', json_int total_ms), (''total_seconds'', json_int total_seconds),
                   (''days'', JNum (show_nat days)), (''hours'', JNum (show_nat hours)),
                   (''minutes'', JNum (show_nat minutes)), (''seconds'', JNum (show_nat seconds))]))))"

definition datetime_dispatch :: "('n, 'z) chrono \<Rightarrow> string \<Rightarrow> json \<Rightarrow> (string, json) result" where
  "datetime_dispatch ch opname payload =
     (if opname = ''now'' then map_sum id json_int (ch_now ch)
      else if opname = ''parse'' then datetime_parse ch payload
      else if opname = ''from'' then datetime_from ch payload
      else if opname = ''add'' then datetime_add ch payload
      else if opname = ''parts'' then datetime_parts ch payload
      else if opname = ''start_of'' then datetime_boundary ch payload False
      else if opname = ''end_of'' then datetime_boundary ch payload True
      else if opname = ''iso'' then datetime_iso ch payload
      else if opname = ''format'' then datetime_format ch payload
      else if opname = ''diff'' then datetime_diff ch payload
      else Inl (''unknown datetime op: '' @ quoted opname))"

definition sys_dispatch ::
  "crypto_ops \<Rightarrow> ('n, 'z) chrono \<Rightarrow> (string \<Rightarrow> (string, json) result) \<Rightarrow> string \<Rightarrow> string \<Rightarrow> string \<Rightarrow> secret_store \<Rightarrow>
   (string, json) result" where
  "sys_dispatch co ch parse domain opname payload secrets =
     (case parse payload of
        Inl e \<Rightarrow> Inl (''invalid payload: '' @ e)
      | Inr parsed \<Rightarrow>
          (if domain = ''crypto'' then crypto_dispatch co opname parsed secrets
           else if domain = ''datetime'' then datetime_dispatch ch opname parsed
           else Inl (''unknown sys domain: '' @ quoted domain)))"

text \<open>The scan's fuel is enough, and the pattern's length is the least that is always enough: every turn takes a character.\<close>

lemma match_token_shortens:
  "\<forall>(t, v) \<in> set tokens. t \<noteq> [] \<Longrightarrow> match_token tokens s = Some (v, rest) \<Longrightarrow> length rest < length s"
proof (induction tokens s rule: match_token.induct)
  case (2 token w tokens s)
  then show ?case
    by (auto simp: strip_prefix_Some split: option.splits)
qed simp

lemma render_from_fuel:
  assumes tokens: "\<forall>(t, v) \<in> set tokens. t \<noteq> []" and "length s \<le> n" and "length s \<le> k"
  shows "render_from tokens n s = render_from tokens k s"
  using assms(2,3)
proof (induction n arbitrary: s k)
  case (Suc n)
  show ?case
  proof (cases s)
    case (Cons c cs)
    with Suc.prems obtain j where k: "k = Suc j" by (cases k) auto
    show ?thesis
    proof (cases "match_token tokens s")
      case None
      then show ?thesis using Suc.IH [of cs j] Suc.prems k Cons by simp
    next
      case (Some p)
      then obtain v rest where p: "match_token tokens s = Some (v, rest)" by (cases p) auto
      then have "length rest \<le> n" "length rest \<le> j" using match_token_shortens [OF tokens p] Suc.prems k by simp_all
      then show ?thesis using Suc.IH [of rest j] p k Cons by simp
    qed
  qed simp
qed simp

lemma render_pattern_steps:
  assumes "\<forall>(t, v) \<in> set tokens. t \<noteq> []"
  shows "render_pattern [] tokens = []"
    "render_pattern (c # cs) tokens =
       (case match_token tokens (c # cs) of
          Some (v, rest) \<Rightarrow> v @ render_pattern rest tokens
        | None \<Rightarrow> c # render_pattern cs tokens)"
proof -
  show "render_pattern [] tokens = []" by (simp add: render_pattern_def)
  have "render_from tokens (length cs) rest = render_pattern rest tokens"
    if "match_token tokens (c # cs) = Some (v, rest)" for v rest
    using match_token_shortens [OF assms that] render_from_fuel [OF assms, of rest "length cs" "length rest"]
    by (simp add: render_pattern_def)
  then show "render_pattern (c # cs) tokens =
       (case match_token tokens (c # cs) of
          Some (v, rest) \<Rightarrow> v @ render_pattern rest tokens
        | None \<Rightarrow> c # render_pattern cs tokens)"
    by (cases "match_token tokens (c # cs)") (auto simp: render_pattern_def)
qed

subsection \<open>Secrets are used, not read\<close>

text \<open>
  Two stores a script cannot tell apart by keyed hashing: the same names, and for each the same digest of every message.
\<close>

definition same_digests :: "crypto_ops \<Rightarrow> secret_store \<Rightarrow> secret_store \<Rightarrow> bool" where
  "same_digests co s t \<longleftrightarrow>
     dom s = dom t \<and>
     (\<forall>name a b msg. s name = Some a \<and> t name = Some b \<longrightarrow>
        co_hmac_sha256 co a msg = co_hmac_sha256 co b msg \<and> co_hmac_sha512 co a msg = co_hmac_sha512 co b msg)"

lemma hmac_op_secret:
  assumes "same_digests co s t"
  shows "hmac_op co payload s = hmac_op co payload t"
proof (cases "Option.bind (obj_get ''key_ref'' payload) as_str")
  case None
  then have "resolve_key payload s = resolve_key payload t" by (simp add: resolve_key_def)
  then show ?thesis by (simp only: hmac_op_def)
next
  case (Some name)
  show ?thesis
  proof (cases "s name")
    case None
    then have "t name = None" using assms unfolding same_digests_def by (metis domIff)
    then have "resolve_key payload s = resolve_key payload t" using None Some by (simp add: resolve_key_def)
    then show ?thesis by (simp only: hmac_op_def)
  next
    case s: (Some a)
    then obtain b where t: "t name = Some b" using assms unfolding same_digests_def by (metis domD domI)
    have "co_hmac_sha256 co a msg = co_hmac_sha256 co b msg" "co_hmac_sha512 co a msg = co_hmac_sha512 co b msg" for msg
      using assms s t unfolding same_digests_def by blast+
    moreover have "resolve_key payload s = Inr a" "resolve_key payload t = Inr b" using s t Some by (simp_all add: resolve_key_def)
    ultimately show ?thesis by (simp add: hmac_op_def Let_def split: sum.split)
  qed
qed

fun run_sys ::
  "crypto_ops \<Rightarrow> ('n, 'z) chrono \<Rightarrow> (string \<Rightarrow> (string, json) result) \<Rightarrow> secret_store \<Rightarrow>
   ((string, json) result list \<Rightarrow> (string \<times> string \<times> string) option) \<Rightarrow> nat \<Rightarrow> (string, json) result list \<Rightarrow>
   (string, json) result list" where
  "run_sys co ch parse secrets script 0 replies = replies"
| "run_sys co ch parse secrets script (Suc n) replies =
     (case script replies of
        None \<Rightarrow> replies
      | Some (domain, opname, payload) \<Rightarrow>
          run_sys co ch parse secrets script n (replies @ [sys_dispatch co ch parse domain opname payload secrets]))"

text \<open>C39: a secret can be used but not extracted. Whatever calls a script makes, adaptively and in any number, everything the native
  library answers is the same for two secret stores with the same names and the same keyed digests: the plaintext
  influences a script only through HMAC. What the script is told about the configuration are the names.\<close>

theorem secrets_use_not_extract:
  assumes "same_digests co (secret_store_of c) (secret_store_of d)"
  shows "run_sys co ch parse (secret_store_of c) script n replies = run_sys co ch parse (secret_store_of d) script n replies"
proof -
  have "sys_dispatch co ch parse dm opn pl (secret_store_of c) = sys_dispatch co ch parse dm opn pl (secret_store_of d)"
    for dm opn pl
    using hmac_op_secret [OF assms] by (simp add: sys_dispatch_def crypto_dispatch_def split: sum.split)
  then show ?thesis by (induction n arbitrary: replies) (simp_all split: option.split)
qed

lemma secret_names_store: "set (secret_names c) = dom (secret_store_of c)"
proof -
  have "map fst (List.map_filter (\<lambda>(n, v). case v of JStr s \<Rightarrow> Some (n, s) | _ \<Rightarrow> None) xs) =
      map fst (filter (\<lambda>(n, v). case v of JStr s \<Rightarrow> True | _ \<Rightarrow> False) xs)" for xs :: "(string \<times> json) list"
    by (induction xs) (auto simp: map_filter_simps split: json.split)
  then show ?thesis unfolding secret_names_def secret_store_of_def dom_map_of_conv_image_fst by (metis list.set_map)
qed

definition sample_crypto :: crypto_ops where
  "sample_crypto =
     \<lparr>co_sha256_hex = (\<lambda>s. []), co_sha512_hex = (\<lambda>s. []), co_hmac_sha256 = (\<lambda>k m. show_nat (length k) @ m),
      co_hmac_sha512 = (\<lambda>k m. show_nat (length k) @ m), co_uuid = [], co_hex = id, co_unhex = Inr, co_base64 = id,
      co_unbase64 = Inr, co_base64url = id, co_unbase64url = Inr, co_percent = id, co_unpercent = Inr\<rparr>"

theorem secrets_use_not_extract_witness:
  "\<forall>(ch :: (unit, unit) chrono) parse script.
     run_sys sample_crypto ch parse (secret_store_of \<lparr>sy_env = [], sy_secrets = [(''k'', JStr ''ab'')]\<rparr>) script 5 [] =
     run_sys sample_crypto ch parse (secret_store_of \<lparr>sy_env = [], sy_secrets = [(''k'', JStr ''cd'')]\<rparr>) script 5 []"
proof (intro allI secrets_use_not_extract)
  show "same_digests sample_crypto (secret_store_of \<lparr>sy_env = [], sy_secrets = [(''k'', JStr ''ab'')]\<rparr>)
     (secret_store_of \<lparr>sy_env = [], sy_secrets = [(''k'', JStr ''cd'')]\<rparr>)"
    by (auto simp: same_digests_def secret_store_of_def map_filter_simps sample_crypto_def split: if_splits)
qed

subsection \<open>Periods\<close>

text \<open>
  What the code relies on of chrono's calendar: setting a field keeps the others, the first of the next month has the
  last day of this one before it.
\<close>

definition calendar_laws :: "('n, 'z) chrono \<Rightarrow> (int \<Rightarrow> nat \<Rightarrow> nat) \<Rightarrow> bool" where
  "calendar_laws ch last_day \<longleftrightarrow>
     (\<forall>d y m k. ch_ymd ch d = (y, m, k) \<longrightarrow> 1 \<le> m \<and> m \<le> 12 \<and> 1 \<le> k \<and> k \<le> last_day y m) \<and>
     (\<forall>d e y m k j. ch_ymd ch d = (y, m, k) \<and> ch_with_day ch d j = Some e \<longrightarrow> ch_ymd ch e = (y, m, j)) \<and>
     (\<forall>d e y m k j. ch_ymd ch d = (y, m, k) \<and> ch_with_month ch d j = Some e \<longrightarrow> ch_ymd ch e = (y, j, k)) \<and>
     (\<forall>y m e f. 1 \<le> m \<and> m < 12 \<and> ch_from_ymd ch y (m + 1) 1 = Some e \<and> ch_pred ch e = Some f \<longrightarrow>
        ch_ymd ch f = (y, m, last_day y m)) \<and>
     (\<forall>y e f. ch_from_ymd ch (y + 1) 1 1 = Some e \<and> ch_pred ch e = Some f \<longrightarrow> ch_ymd ch f = (y, 12, last_day y 12))"

lemma calendar_laws_dest:
  assumes "calendar_laws ch last_day"
  shows "ch_ymd ch d = (y, m, k) \<Longrightarrow> 1 \<le> m \<and> m \<le> 12"
    "ch_ymd ch d = (y, m, k) \<Longrightarrow> ch_with_day ch d j = Some e \<Longrightarrow> ch_ymd ch e = (y, m, j)"
    "ch_ymd ch d = (y, m, k) \<Longrightarrow> ch_with_month ch d j = Some e \<Longrightarrow> ch_ymd ch e = (y, j, k)"
    "1 \<le> m \<Longrightarrow> m < 12 \<Longrightarrow> ch_from_ymd ch y (m + 1) 1 = Some e \<Longrightarrow> ch_pred ch e = Some f \<Longrightarrow>
       ch_ymd ch f = (y, m, last_day y m)"
    "ch_from_ymd ch (y + 1) 1 1 = Some e \<Longrightarrow> ch_pred ch e = Some f \<Longrightarrow> ch_ymd ch f = (y, 12, last_day y 12)"
  using assms unfolding calendar_laws_def by (elim conjE; metis)+

lemma days_in_month_exact:
  assumes "calendar_laws ch last_day" and "1 \<le> m" and "m \<le> 12" and "days_in_month ch y m = Inr n"
  shows "n = last_day y m"
proof (cases "m = 12")
  case True
  then obtain e f where "ch_from_ymd ch (y + 1) 1 1 = Some e" "ch_pred ch e = Some f" "n = snd (snd (ch_ymd ch f))"
    using assms(4) by (auto simp: days_in_month_def split: option.splits if_splits)
  moreover from this have "ch_ymd ch f = (y, 12, last_day y 12)" using calendar_laws_dest(5) [OF assms(1)] by blast
  ultimately show ?thesis using True by simp
next
  case False
  then have m: "m < 12" using assms(3) by simp
  then obtain e f where "ch_from_ymd ch y (m + 1) 1 = Some e" "ch_pred ch e = Some f" "n = snd (snd (ch_ymd ch f))"
    using assms(4) by (auto simp: days_in_month_def split: option.splits if_splits)
  moreover from this m assms(2) have "ch_ymd ch f = (y, m, last_day y m)" using calendar_laws_dest(4) [OF assms(1)] by blast
  ultimately show ?thesis by simp
qed

lemma month_boundary_exact:
  assumes laws: "calendar_laws ch last_day" and "month_boundary ch date at_end = Inr b" and ymd: "ch_ymd ch date = (y, m, k)"
  shows "ch_ymd ch b = (y, m, if at_end then last_day y m else 1)"
proof -
  have m: "1 \<le> m" "m \<le> 12" using calendar_laws_dest(1) [OF laws ymd] by simp_all
  from assms(2) obtain day where day: "(if at_end then days_in_month ch y m else Inr 1) = Inr day"
    "ch_with_day ch date day = Some b"
    by (auto simp: month_boundary_def ymd and_then_def split: sum.splits option.splits)
  have "day = (if at_end then last_day y m else 1)"
    using day(1) days_in_month_exact [OF laws m] by (auto split: if_splits)
  then show ?thesis using calendar_laws_dest(2) [OF laws ymd day(2)] by simp
qed

lemma quarter_boundary_steps:
  assumes "quarter_boundary ch date at_end = Inr b" and "ch_ymd ch date = (y, m, k)"
  shows "\<exists>fst_d anchored. ch_with_day ch date 1 = Some fst_d \<and>
     ch_with_month ch fst_d (if at_end then (m - 1) div 3 * 3 + 1 + 2 else (m - 1) div 3 * 3 + 1) = Some anchored \<and>
     (if at_end then month_boundary ch anchored True else Inr anchored) = Inr b"
  using assms by (cases at_end) (auto simp: quarter_boundary_def Let_def split: option.splits bind_splits if_splits)

text \<open>A Gregorian calendar over triples, which meets the laws.\<close>

definition greg_last :: "int \<Rightarrow> nat \<Rightarrow> nat" where
  "greg_last y m =
     (if m = 2 then (if y mod 4 = 0 \<and> (y mod 100 \<noteq> 0 \<or> y mod 400 = 0) then 29 else 28)
      else if m \<in> {4, 6, 9, 11} then 30 else 31)"

definition greg_ok :: "int \<times> nat \<times> nat \<Rightarrow> bool" where
  "greg_ok d = (case d of (y, m, k) \<Rightarrow> 1 \<le> m \<and> m \<le> 12 \<and> 1 \<le> k \<and> k \<le> greg_last y m)"

definition greg_ymd :: "int \<times> nat \<times> nat \<Rightarrow> int \<times> nat \<times> nat" where
  "greg_ymd d = (if greg_ok d then d else (0, 1, 1))"

definition greg_some :: "int \<times> nat \<times> nat \<Rightarrow> (int \<times> nat \<times> nat) option" where
  "greg_some d = (if greg_ok d then Some d else None)"

definition greg_pred :: "int \<times> nat \<times> nat \<Rightarrow> (int \<times> nat \<times> nat) option" where
  "greg_pred d =
     (case greg_ymd d of (y, m, k) \<Rightarrow>
        if 1 < k then Some (y, m, k - 1)
        else if 1 < m then Some (y, m - 1, greg_last y (m - 1)) else Some (y - 1, 12, 31))"

definition gregorian :: "(int \<times> nat \<times> nat, unit) chrono" where
  "gregorian =
     \<lparr>ch_now = Inl [], ch_representable = (\<lambda>x. True), ch_utc = (), ch_zone = (\<lambda>x. Some ()), ch_parse_rfc3339 = (\<lambda>x. None),
      ch_parse_date = (\<lambda>x. None), ch_add_months = (\<lambda>x y. None), ch_local_date = (\<lambda>z x. (1970, 1, 1)),
      ch_from_local = (\<lambda>a b c d e f. None), ch_time_ok = (\<lambda>a b c d. True), ch_ymd = greg_ymd,
      ch_from_ymd = (\<lambda>y m k. greg_some (y, m, k)),
      ch_with_month = (\<lambda>d j. case greg_ymd d of (y, m, k) \<Rightarrow> greg_some (y, j, k)),
      ch_with_day = (\<lambda>d j. case greg_ymd d of (y, m, k) \<Rightarrow> greg_some (y, m, j)),
      ch_pred = greg_pred, ch_weekday = (\<lambda>d. 0), ch_add_days = (\<lambda>d n. None), ch_sub_days = (\<lambda>d n. None),
      ch_clock = (\<lambda>z x. (0, 0, 0, 0)), ch_ordinal = (\<lambda>d. 1), ch_iso_week = (\<lambda>d. (1, 1970)), ch_rfc3339 = (\<lambda>z x. []),
      ch_i64 = (\<lambda>s. None)\<rparr>"

lemma greg_last_bounds: "28 \<le> greg_last y m" "greg_last y 12 = 31"
  by (simp_all add: greg_last_def)

lemma greg_some_ymd: "greg_some d = Some e \<Longrightarrow> greg_ymd e = d"
  by (auto simp: greg_some_def greg_ymd_def split: if_splits)

lemma greg_ymd_ok: "greg_ok (greg_ymd d)"
  by (simp add: greg_ymd_def greg_ok_def greg_last_def)

lemma greg_ymd_range: "greg_ymd d = (y, m, k) \<Longrightarrow> 1 \<le> m \<and> m \<le> 12 \<and> 1 \<le> k \<and> k \<le> greg_last y m"
  using greg_ymd_ok [of d] by (simp add: greg_ok_def)

lemma greg_pred_first:
  assumes "greg_some (y, Suc m, 1) = Some e" and "greg_pred e = Some f" and "1 \<le> m"
  shows "greg_ymd f = (y, m, greg_last y m)"
proof -
  have "greg_ymd e = (y, Suc m, 1)" and "m \<le> 11"
    using greg_some_ymd [OF assms(1)] assms(1) by (auto simp: greg_some_def greg_ok_def split: if_splits)
  then have "f = (y, m, greg_last y m)" using assms(2,3) by (simp add: greg_pred_def)
  then show ?thesis using \<open>m \<le> 11\<close> assms(3) greg_last_bounds(1) [of y m] by (simp add: greg_ymd_def greg_ok_def)
qed

lemma greg_pred_new_year:
  assumes "greg_some (y + 1, 1, 1) = Some e" and "greg_pred e = Some f"
  shows "greg_ymd f = (y, 12, greg_last y 12)"
  using greg_some_ymd [OF assms(1)] assms(2)
  by (auto simp: greg_pred_def greg_ymd_def greg_ok_def greg_last_def split: if_splits)

lemma gregorian_laws: "calendar_laws gregorian greg_last"
  unfolding calendar_laws_def
proof (intro conjI allI impI, goal_cases)
  case (5 d e y m k j)
  then show ?case by (auto simp: gregorian_def dest: greg_some_ymd)
next
  case (6 d e y m k j)
  then show ?case by (auto simp: gregorian_def dest: greg_some_ymd)
next
  case (7 y m e f)
  then show ?case using greg_pred_first [of y m e f] by (simp add: gregorian_def)
next
  case (8 y e f)
  then show ?case using greg_pred_new_year [of y e f] by (simp add: gregorian_def)
qed (simp_all add: gregorian_def greg_ymd_range del: One_nat_def)

text \<open>Period boundaries are exact. When the start (end) of a month, quarter or year of a date is computed, it is the first
  (last) day of the first (last) month of that period, in the same year; the quarter's months are the three that
  contain the date's month.\<close>

lemma boundary_exact:
  assumes laws: "calendar_laws ch last_day" and run: "boundary_date ch date unit_name at_end = Inr b"
    and ymd: "ch_ymd ch date = (y, m, k)" and unit: "unit_name \<in> {''month'', ''quarter'', ''year''}"
  shows "let first = (if unit_name = ''month'' then m else if unit_name = ''quarter'' then (m - 1) div 3 * 3 + 1 else 1);
             final = (if unit_name = ''month'' then m else if unit_name = ''quarter'' then first + 2 else 12)
         in first \<le> m \<and> m \<le> final \<and>
            ch_ymd ch b = (y, if at_end then final else first,
                           if at_end then (if unit_name = ''year'' then 31 else last_day y final) else 1)"
proof -
  have m: "1 \<le> m" "m \<le> 12" using calendar_laws_dest(1) [OF laws ymd] by simp_all
  note wd = calendar_laws_dest(2) [OF laws] and wm = calendar_laws_dest(3) [OF laws]
  consider (month) "unit_name = ''month''" | (quarter) "unit_name = ''quarter''" | (year) "unit_name = ''year''"
    using unit by blast
  then show ?thesis
  proof cases
    case month
    then show ?thesis using month_boundary_exact [OF laws _ ymd] run by (simp add: boundary_date_def)
  next
    case quarter
    let ?f = "(m - 1) div 3 * 3 + 1"
    let ?t = "if at_end then ?f + 2 else ?f"
    have range: "?f \<le> m" "m \<le> ?f + 2" using m by linarith+
    have "quarter_boundary ch date at_end = Inr b" using run quarter by (simp add: boundary_date_def)
    from quarter_boundary_steps [OF this ymd] obtain fst_d anchored
      where d: "ch_with_day ch date 1 = Some fst_d" "ch_with_month ch fst_d ?t = Some anchored"
      and b: "(if at_end then month_boundary ch anchored True else Inr anchored) = Inr b" by blast
    have "ch_ymd ch anchored = (y, ?t, 1)" using wm [OF wd [OF ymd d(1)] d(2)] .
    then show ?thesis using b month_boundary_exact [OF laws _ \<open>ch_ymd ch anchored = _\<close>, of True] range quarter
      by (auto split: if_splits)
  next
    case year
    from run year obtain anchored where d: "ch_with_month ch date (if at_end then 12 else 1) = Some anchored"
      "ch_with_day ch anchored (if at_end then 31 else 1) = Some b"
      by (auto simp: boundary_date_def year_boundary_def Let_def split: option.splits bind_splits if_splits)
    show ?thesis using wd [OF wm [OF ymd d(1)] d(2)] year m by (auto split: if_splits)
  qed
qed

text \<open>A difference is split into days, hours, minutes and seconds without loss, each within its range.\<close>

lemma split_duration_exact:
  "case split_duration n of (d, h, m, s) \<Rightarrow> n = d * 86400 + h * 3600 + m * 60 + s \<and> h < 24 \<and> m < 60 \<and> s < 60"
proof -
  have "n mod 86400 div 3600 < 24" by (simp add: div_less_iff_less_mult)
  moreover have "n mod 86400 mod 3600 div 60 < 60" by (simp add: div_less_iff_less_mult)
  ultimately show ?thesis by (simp add: split_duration_def Let_def)
qed

end
