(* ===== verification/Event_Pipeline.thy ===== *)
theory Event_Pipeline
  imports Observability
begin

text \<open>
  The event pipeline of \<^verbatim>\<open>runlet/src/events.rs\<close>: two bounded channels, one for usage and audit events, one for diagnostic logs,
  each drained by a writer task that prints one line per event to the standard output.

  A run is a sequence of actions of the requests, the writers, the clock and the shutdown, in any interleaving; an
  action that cannot happen in a state has no successor there. What is used of the channels is their documentation: a
  send waits for a free slot up to its time-out, fails when the receiver is gone, and what was sent is received in
  order. \<^verbatim>\<open>println!\<close> panics when the standard output cannot be written, which ends the writer task and drops its receiver.
  The serialiser is the argument \<open>print\<close>.
\<close>

subsection \<open>The envelope\<close>

definition EVENT_SCHEMA_VERSION :: nat where
  "EVENT_SCHEMA_VERSION = 1"

record stamped_event =
  se_version :: nat
  se_id :: string
  se_ts :: nat
  se_event :: event

definition now_unix_millis :: "nat option \<Rightarrow> nat" where
  "now_unix_millis since_epoch = (case since_epoch of None \<Rightarrow> 0 | Some ms \<Rightarrow> ms)"

definition stamp :: "string \<Rightarrow> nat option \<Rightarrow> event \<Rightarrow> stamped_event" where
  "stamp uuid since_epoch ev =
     \<lparr>se_version = EVENT_SCHEMA_VERSION, se_id = uuid, se_ts = now_unix_millis since_epoch, se_event = ev\<rparr>"

definition opt_field :: "string \<Rightarrow> json option \<Rightarrow> (string \<times> json) list" where
  "opt_field key v = (case v of None \<Rightarrow> [] | Some j \<Rightarrow> [(key, j)])"

definition ops_json :: "capability_ops \<Rightarrow> json" where
  "ops_json c =
     JObj (map (\<lambda>(k, n). (k, JNum (show_nat n)))
       [(''db'', co_db c), (''mongo'', co_mongo c), (''http'', co_http c), (''mail'', co_mail c), (''s3'', co_s3 c),
        (''redis'', co_redis c), (''amq'', co_amq c), (''auth'', co_auth c)])"

fun body_fields :: "event_body \<Rightarrow> (string \<times> json) list" where
  "body_fields (Usage u) =
     [(''type'', JStr ''usage''), (''outcome'', JStr (ub_outcome u)), (''exec_time_us'', JNum (show_nat (ub_exec_time_us u))),
      (''input_bytes'', JNum (show_nat (ub_input_bytes u))), (''ops'', ops_json (ub_ops u))]"
| "body_fields (Audit a) =
     [(''type'', JStr ''audit''), (''decision'', JStr (ab_decision a))] @ opt_field ''reason'' (map_option JStr (ab_reason a)) @
     opt_field ''detail'' (ab_detail a)"
| "body_fields (Log l) =
     [(''type'', JStr ''log''), (''level'', JStr (lb_level l)), (''template'', JStr (lb_template l)),
      (''properties'', lb_properties l), (''message'', JStr (lb_message l)), (''seq'', JNum (show_nat (unat (lb_seq l))))] @
     opt_field ''offset_us'' (map_option (\<lambda>n. JNum (show_nat n)) (lb_offset_us l))"

definition event_json :: "stamped_event \<Rightarrow> json" where
  "event_json s =
     (let ev = se_event s in
      JObj ([(''v'', JNum (show_nat (se_version s))), (''event_id'', JStr (se_id s)), (''ts'', JNum (show_nat (se_ts s)))] @
            opt_field ''tenant'' (map_option JStr (ev_tenant ev)) @ opt_field ''user'' (map_option JStr (ev_user ev)) @
            opt_field ''plan'' (map_option JStr (ev_plan ev)) @ [(''trace_id'', JStr (ev_trace_id ev))] @
            body_fields (ev_body ev)))"

subsection \<open>Channels, sink and writers\<close>

record channel =
  cn_bound :: nat
  cn_queue :: "stamped_event list"
  cn_open :: bool
  cn_dropped :: u64

text \<open>
  \<open>pl_waiting\<close> holds the sends of \<^verbatim>\<open>record\<close> that are in progress, with the instant at which each stops waiting; \<open>pl_sinks\<close> is
  whether a handle of the sink is alive.
\<close>

record pipeline =
  pl_events :: channel
  pl_logs :: channel
  pl_block_timeout :: nat
  pl_waiting :: "(stamped_event \<times> nat) list"
  pl_clock :: nat
  pl_sinks :: bool
  pl_stdout :: "string list"
  pl_warnings :: "string list"

definition channel_new :: "nat \<Rightarrow> channel" where
  "channel_new bound = \<lparr>cn_bound = bound, cn_queue = [], cn_open = True, cn_dropped = 0\<rparr>"

definition spawn :: "nat \<Rightarrow> nat \<Rightarrow> nat \<Rightarrow> nat \<Rightarrow> pipeline" where
  "spawn bound log_bound block_timeout now =
     \<lparr>pl_events = channel_new (max bound 1), pl_logs = channel_new (max log_bound 1), pl_block_timeout = block_timeout,
      pl_waiting = [], pl_clock = now, pl_sinks = True, pl_stdout = [], pl_warnings = []\<rparr>"

definition channel_push :: "stamped_event \<Rightarrow> channel \<Rightarrow> channel" where
  "channel_push ev c = c\<lparr>cn_queue := cn_queue c @ [ev]\<rparr>"

definition channel_drop :: "channel \<Rightarrow> channel" where
  "channel_drop c = c\<lparr>cn_dropped := cn_dropped c + 1\<rparr>"

definition has_room :: "channel \<Rightarrow> bool" where
  "has_room c \<longleftrightarrow> cn_open c \<and> length (cn_queue c) < cn_bound c"

text \<open>One turn of \<^verbatim>\<open>writer_loop\<close>: an event is received and its line printed, or the serialiser's error is logged.\<close>

definition write_line :: "(json \<Rightarrow> (string, string) result) \<Rightarrow> stamped_event \<Rightarrow> pipeline \<Rightarrow> pipeline" where
  "write_line print ev p =
     (case print (event_json ev) of
        Inr line \<Rightarrow> p\<lparr>pl_stdout := pl_stdout p @ [line]\<rparr>
      | Inl e \<Rightarrow> p\<lparr>pl_warnings := pl_warnings p @ [''event serialize error: '' @ e]\<rparr>)"

definition channel_dead :: "channel \<Rightarrow> channel" where
  "channel_dead c = c\<lparr>cn_open := False, cn_queue := []\<rparr>"

datatype pipe_action =
    BeginRecord stamped_event
  | EndSent nat
  | EndDropped nat
  | RecordLog stamped_event
  | WriteEvent
  | WriteLog
  | EventWriterDies
  | LogWriterDies
  | Tick nat
  | DropSinks

definition drop_nth :: "nat \<Rightarrow> 'a list \<Rightarrow> 'a list" where
  "drop_nth i xs = take i xs @ drop (Suc i) xs"

fun pipe_step :: "(json \<Rightarrow> (string, string) result) \<Rightarrow> pipe_action \<Rightarrow> pipeline \<Rightarrow> pipeline option" where
  "pipe_step print (BeginRecord ev) p =
     (if pl_sinks p then Some (p\<lparr>pl_waiting := pl_waiting p @ [(ev, pl_clock p + pl_block_timeout p)]\<rparr>) else None)"
| "pipe_step print (EndSent i) p =
     (if i < length (pl_waiting p) \<and> has_room (pl_events p)
      then Some (p\<lparr>pl_waiting := drop_nth i (pl_waiting p),
                    pl_events := channel_push (fst (pl_waiting p ! i)) (pl_events p)\<rparr>)
      else None)"
| "pipe_step print (EndDropped i) p =
     (if i < length (pl_waiting p) \<and> (snd (pl_waiting p ! i) \<le> pl_clock p \<or> \<not> cn_open (pl_events p))
      then Some (p\<lparr>pl_waiting := drop_nth i (pl_waiting p), pl_events := channel_drop (pl_events p)\<rparr>)
      else None)"
| "pipe_step print (RecordLog ev) p =
     (if pl_sinks p
      then Some (if has_room (pl_logs p) then p\<lparr>pl_logs := channel_push ev (pl_logs p)\<rparr>
                 else p\<lparr>pl_logs := channel_drop (pl_logs p)\<rparr>)
      else None)"
| "pipe_step print WriteEvent p =
     (case cn_queue (pl_events p) of
        [] \<Rightarrow> None
      | ev # rest \<Rightarrow> Some (write_line print ev (p\<lparr>pl_events := (pl_events p)\<lparr>cn_queue := rest\<rparr>\<rparr>)))"
| "pipe_step print WriteLog p =
     (case cn_queue (pl_logs p) of
        [] \<Rightarrow> None
      | ev # rest \<Rightarrow> Some (write_line print ev (p\<lparr>pl_logs := (pl_logs p)\<lparr>cn_queue := rest\<rparr>\<rparr>)))"
| "pipe_step print EventWriterDies p = Some (p\<lparr>pl_events := channel_dead (pl_events p)\<rparr>)"
| "pipe_step print LogWriterDies p = Some (p\<lparr>pl_logs := channel_dead (pl_logs p)\<rparr>)"
| "pipe_step print (Tick n) p = Some (p\<lparr>pl_clock := pl_clock p + n\<rparr>)"
| "pipe_step print DropSinks p = (if pl_waiting p = [] then Some (p\<lparr>pl_sinks := False\<rparr>) else None)"

fun pipe_run :: "(json \<Rightarrow> (string, string) result) \<Rightarrow> pipe_action list \<Rightarrow> pipeline \<Rightarrow> pipeline option" where
  "pipe_run print [] p = Some p"
| "pipe_run print (a # acts) p = Option.bind (pipe_step print a p) (pipe_run print acts)"

text \<open>\<^verbatim>\<open>EventPipeline::shutdown\<close> waits for each writer in turn, each within the budget; the results of the joins are arguments.\<close>

datatype join_result = Joined nat | JoinFailed nat string | StillRunning

definition FLUSH_BUDGET :: nat where
  "FLUSH_BUDGET = 5000"

definition await_writer :: "string \<Rightarrow> string \<Rightarrow> join_result \<Rightarrow> nat \<times> string list" where
  "await_writer task flush r =
     (case r of
        Joined ms \<Rightarrow> if ms \<le> FLUSH_BUDGET then (ms, []) else (FLUSH_BUDGET, [flush @ '' event flush exceeded shutdown budget; proceeding''])
      | JoinFailed ms e \<Rightarrow>
          if ms \<le> FLUSH_BUDGET then (ms, [task @ '' writer task join error: '' @ e])
          else (FLUSH_BUDGET, [flush @ '' event flush exceeded shutdown budget; proceeding''])
      | StillRunning \<Rightarrow> (FLUSH_BUDGET, [flush @ '' event flush exceeded shutdown budget; proceeding'']))"

definition pipeline_shutdown :: "join_result \<Rightarrow> join_result \<Rightarrow> nat \<times> string list" where
  "pipeline_shutdown writer log_writer =
     (let (t, w) = await_writer ''event'' ''usage/audit'' writer; (t', w') = await_writer ''log event'' ''log'' log_writer
      in (t + t', w @ w'))"

subsection \<open>The pipeline implements the sink\<close>

text \<open>
  What each action is for the sink of theory \<open>Observability\<close>: a send that ends well or badly, a log entry that is taken or
  not; the writers, the clock and the shutdown are internal.
\<close>

fun sink_effect :: "pipeline \<Rightarrow> pipe_action \<Rightarrow> log_sink \<Rightarrow> log_sink" where
  "sink_effect p (EndSent i) s = sink_record True s (se_event (fst (pl_waiting p ! i)))"
| "sink_effect p (EndDropped i) s = sink_record False s (se_event (fst (pl_waiting p ! i)))"
| "sink_effect p (RecordLog ev) s = sink_record_log (has_room (pl_logs p)) s (se_event ev)"
| "sink_effect p _ s = s"

fun sink_run :: "(json \<Rightarrow> (string, string) result) \<Rightarrow> pipe_action list \<Rightarrow> pipeline \<Rightarrow> log_sink \<Rightarrow> log_sink" where
  "sink_run print [] p s = s"
| "sink_run print (a # acts) p s =
     (case pipe_step print a p of None \<Rightarrow> s | Some p' \<Rightarrow> sink_run print acts p' (sink_effect p a s))"

definition empty_sink :: log_sink where
  "empty_sink = \<lparr>sk_tx = [], sk_dropped = 0, sk_log_tx = [], sk_log_dropped = 0\<rparr>"

definition event_lines :: "(json \<Rightarrow> (string, string) result) \<Rightarrow> stamped_event list \<Rightarrow> string list" where
  "event_lines print evs =
     concat (map (\<lambda>ev. case print (event_json ev) of Inr line \<Rightarrow> [line] | Inl e \<Rightarrow> []) evs)"

definition writers_alive :: "pipe_action list \<Rightarrow> bool" where
  "writers_alive acts \<longleftrightarrow> EventWriterDies \<notin> set acts \<and> LogWriterDies \<notin> set acts"

fun begun_records :: "pipe_action list \<Rightarrow> nat" where
  "begun_records [] = 0"
| "begun_records (BeginRecord ev # acts) = Suc (begun_records acts)"
| "begun_records (a # acts) = begun_records acts"

lemma event_lines_simps [simp]:
  "event_lines print [] = []"
  "event_lines print (xs @ ys) = event_lines print xs @ event_lines print ys"
  by (simp_all add: event_lines_def)

lemma write_line_fields [simp]:
  "pl_events (write_line print ev p) = pl_events p" "pl_logs (write_line print ev p) = pl_logs p"
  "pl_waiting (write_line print ev p) = pl_waiting p" "pl_clock (write_line print ev p) = pl_clock p"
  "pl_sinks (write_line print ev p) = pl_sinks p" "pl_block_timeout (write_line print ev p) = pl_block_timeout p"
  "pl_stdout (write_line print ev p) = pl_stdout p @ event_lines print [ev]"
  by (simp_all add: write_line_def event_lines_def split: sum.split)

lemma shuffles_snoc:
  "zs \<in> shuffles xs ys \<Longrightarrow> zs @ us \<in> shuffles (xs @ us) ys"
proof (induction xs ys arbitrary: zs rule: shuffles.induct)
  case (1 ys)
  have "ys @ us \<in> shuffles us ys"
    by (induction ys) (auto intro: Cons_in_shuffles_rightI)
  then show ?case using 1 by simp
next
  case (2 xs)
  then show ?case by simp
next
  case (3 x xs y ys)
  then show ?case by auto
qed

lemma shuffles_snoc_right: "zs \<in> shuffles xs ys \<Longrightarrow> zs @ us \<in> shuffles xs (ys @ us)"
  using shuffles_snoc [of zs ys xs us] by (simp add: shuffles_commutes)

text \<open>The invariant ties the pipeline to the sink and to the events already written.\<close>

definition pipe_inv ::
  "(json \<Rightarrow> (string, string) result) \<Rightarrow> nat \<Rightarrow> nat \<Rightarrow> pipeline \<Rightarrow> log_sink \<Rightarrow> stamped_event list \<Rightarrow> stamped_event list \<Rightarrow>
   nat \<Rightarrow> nat \<Rightarrow> bool" where
  "pipe_inv print b lb p s written wlogs begun drops \<longleftrightarrow>
     cn_open (pl_events p) \<and> cn_open (pl_logs p) \<and> cn_bound (pl_events p) = b \<and> cn_bound (pl_logs p) = lb \<and>
     length (cn_queue (pl_events p)) \<le> b \<and> length (cn_queue (pl_logs p)) \<le> lb \<and>
     cn_dropped (pl_events p) = sk_dropped s \<and> cn_dropped (pl_logs p) = sk_log_dropped s \<and>
     map se_event (written @ cn_queue (pl_events p)) = sk_tx s \<and>
     map se_event (wlogs @ cn_queue (pl_logs p)) = sk_log_tx s \<and>
     pl_stdout p \<in> shuffles (event_lines print written) (event_lines print wlogs) \<and>
     sk_dropped s = of_nat drops \<and> begun = length (sk_tx s) + drops + length (pl_waiting p)"

lemma length_drop_nth: "i < length xs \<Longrightarrow> Suc (length (drop_nth i xs)) = length xs"
  by (simp add: drop_nth_def)

lemmas channel_ops = channel_push_def channel_drop_def channel_dead_def has_room_def sink_record_def sink_record_log_def

lemma pipe_step_inv_quiet:
  assumes "pipe_inv print b lb p s written wlogs begun drops" and "pipe_step print a p = Some p'" and "writers_alive [a]"
    and "\<forall>i. a \<noteq> EndDropped i" and "a \<noteq> WriteEvent" and "a \<noteq> WriteLog"
  shows "pipe_inv print b lb p' (sink_effect p a s) written wlogs (begun + begun_records [a]) drops"
proof (cases a)
  case (EndSent i)
  then show ?thesis
    using assms length_drop_nth [of i "pl_waiting p"] by (auto simp: pipe_inv_def channel_ops split: if_splits)
qed (use assms in \<open>auto simp: pipe_inv_def channel_ops writers_alive_def split: if_splits\<close>)

lemma pipe_step_inv:
  assumes "pipe_inv print b lb p s written wlogs begun drops" and "pipe_step print a p = Some p'" and "writers_alive [a]"
  shows "\<exists>written' wlogs' drops'. pipe_inv print b lb p' (sink_effect p a s) written' wlogs' (begun + begun_records [a]) drops'"
proof (cases a)
  case (EndDropped i)
  then have "pipe_inv print b lb p' (sink_effect p a s) written wlogs begun (Suc drops)"
    using assms length_drop_nth [of i "pl_waiting p"] by (auto simp: pipe_inv_def channel_ops split: if_splits)
  then show ?thesis using EndDropped by auto
next
  case WriteEvent
  then obtain ev rest where q: "cn_queue (pl_events p) = ev # rest"
    and p': "p' = write_line print ev (p\<lparr>pl_events := (pl_events p)\<lparr>cn_queue := rest\<rparr>\<rparr>)"
    using assms(2) by (auto split: list.splits)
  have "pipe_inv print b lb p' (sink_effect p a s) (written @ [ev]) wlogs begun drops"
    using assms(1) WriteEvent shuffles_snoc q unfolding p' by (auto simp: pipe_inv_def)
  then show ?thesis using WriteEvent by auto
next
  case WriteLog
  then obtain ev rest where q: "cn_queue (pl_logs p) = ev # rest"
    and p': "p' = write_line print ev (p\<lparr>pl_logs := (pl_logs p)\<lparr>cn_queue := rest\<rparr>\<rparr>)"
    using assms(2) by (auto split: list.splits)
  have "pipe_inv print b lb p' (sink_effect p a s) written (wlogs @ [ev]) begun drops"
    using assms(1) WriteLog shuffles_snoc_right q unfolding p' by (auto simp: pipe_inv_def)
  then show ?thesis using WriteLog by auto
qed (use pipe_step_inv_quiet [OF assms] in blast)+

lemma begun_records_Cons: "begun_records (a # acts) = begun_records [a] + begun_records acts"
  by (cases a) simp_all

lemma pipe_run_inv:
  assumes "pipe_inv print b lb p s written wlogs begun drops" and "pipe_run print acts p = Some p'" and "writers_alive acts"
  shows "\<exists>written' wlogs' drops'. pipe_inv print b lb p' (sink_run print acts p s) written' wlogs' (begun + begun_records acts) drops'"
  using assms
proof (induction acts arbitrary: p s written wlogs begun drops)
  case Nil
  then show ?case by auto
next
  case (Cons a acts)
  then obtain q where q: "pipe_step print a p = Some q" "pipe_run print acts q = Some p'" by (auto split: bind_splits)
  have alive: "writers_alive [a]" "writers_alive acts" using Cons.prems(3) by (auto simp: writers_alive_def)
  from pipe_step_inv [OF Cons.prems(1) q(1) alive(1)] obtain w l d
    where "pipe_inv print b lb q (sink_effect p a s) w l (begun + begun_records [a]) d" by blast
  from Cons.IH [OF this q(2) alive(2)] show ?case using q(1) begun_records_Cons [of a acts] by (auto simp: add.assoc)
qed

lemma spawn_inv: "pipe_inv print (max b 1) (max lb 1) (spawn b lb t now) empty_sink [] [] 0 0"
  by (simp add: pipe_inv_def spawn_def channel_new_def empty_sink_def)

subsection \<open>Isolation\<close>

fun is_log_action :: "pipe_action \<Rightarrow> bool" where
  "is_log_action (RecordLog ev) = True"
| "is_log_action WriteLog = True"
| "is_log_action LogWriterDies = True"
| "is_log_action _ = False"

definition precious_view :: "pipeline \<Rightarrow> channel \<times> (stamped_event \<times> nat) list \<times> nat \<times> nat \<times> bool" where
  "precious_view p = (pl_events p, pl_waiting p, pl_block_timeout p, pl_clock p, pl_sinks p)"

lemma log_action_unseen: "pipe_step print a p = Some p' \<Longrightarrow> is_log_action a \<Longrightarrow> precious_view p' = precious_view p"
  by (cases a) (auto simp: precious_view_def split: if_splits list.splits)

lemma precious_step:
  assumes "precious_view p = precious_view q" and "pipe_step print a p = Some p'" and "\<not> is_log_action a"
  shows "\<exists>q'. pipe_step print a q = Some q' \<and> precious_view p' = precious_view q'"
  using assms by (cases a) (auto simp: precious_view_def split: if_splits list.splits)

lemma precious_run:
  assumes "precious_view p = precious_view q" and "pipe_run print acts p = Some p'"
  shows "\<exists>q'. pipe_run print (filter (\<lambda>a. \<not> is_log_action a) acts) q = Some q' \<and> precious_view p' = precious_view q'"
  using assms
proof (induction acts arbitrary: p q)
  case Nil
  then show ?case by simp
next
  case (Cons a acts)
  then obtain r where r: "pipe_step print a p = Some r" "pipe_run print acts r = Some p'" by (auto split: bind_splits)
  show ?case
  proof (cases "is_log_action a")
    case True
    then show ?thesis using Cons.IH [OF _ r(2), of q] log_action_unseen [OF r(1)] Cons.prems(1) by simp
  next
    case False
    obtain r' where r': "pipe_step print a q = Some r'" "precious_view r = precious_view r'"
      using precious_step [OF Cons.prems(1) r(1) False] by blast
    show ?thesis using Cons.IH [OF r'(2) r(2)] r'(1) False by simp
  qed
qed

subsection \<open>Draining\<close>

definition backlog :: "pipeline \<Rightarrow> nat" where
  "backlog p = length (cn_queue (pl_events p)) + length (cn_queue (pl_logs p))"

lemma write_shrinks: "pipe_step print a p = Some p' \<Longrightarrow> a \<in> {WriteEvent, WriteLog} \<Longrightarrow> Suc (backlog p') = backlog p"
  by (auto simp: backlog_def split: list.splits)

lemma write_enabled: "0 < backlog p \<Longrightarrow> \<exists>a \<in> {WriteEvent, WriteLog}. \<exists>p'. pipe_step print a p = Some p'"
  by (auto simp: backlog_def split: list.splits)

lemma pipe_run_append: "pipe_run print (xs @ ys) p = Option.bind (pipe_run print xs p) (pipe_run print ys)"
  by (induction xs arbitrary: p) (simp_all split: bind_split)

lemma sink_run_append:
  "pipe_run print xs p = Some q \<Longrightarrow> sink_run print (xs @ ys) p s = sink_run print ys q (sink_run print xs p s)"
  by (induction xs arbitrary: p s) (auto split: bind_splits)

lemma writes_leave_sink: "set acts \<subseteq> {WriteEvent, WriteLog} \<Longrightarrow> sink_run print acts p s = s"
  by (induction acts arbitrary: p) (auto split: option.split)

lemma writes_bounded:
  "pipe_run print acts p = Some p' \<Longrightarrow> set acts \<subseteq> {WriteEvent, WriteLog} \<Longrightarrow> length acts + backlog p' = backlog p"
proof (induction acts arbitrary: p)
  case (Cons a acts)
  then obtain r where "pipe_step print a p = Some r" "pipe_run print acts r = Some p'" by (auto split: bind_splits)
  then show ?case using Cons write_shrinks [of print a p r] by fastforce
qed simp

lemma drains:
  "\<exists>acts p'. set acts \<subseteq> {WriteEvent, WriteLog} \<and> pipe_run print acts p = Some p' \<and> backlog p' = 0"
proof (induction "backlog p" arbitrary: p)
  case 0
  then show ?case by (intro exI [of _ "[]"]) simp
next
  case (Suc n)
  then obtain a r where a: "a \<in> {WriteEvent, WriteLog}" "pipe_step print a p = Some r"
    using write_enabled [of p print] by (metis zero_less_Suc)
  then have "n = backlog r" using write_shrinks [of print a p r] Suc(2) by simp
  from Suc(1) [OF this] obtain acts p' where
    "set acts \<subseteq> {WriteEvent, WriteLog}" "pipe_run print acts r = Some p'" "backlog p' = 0" by blast
  then show ?case using a by (intro exI [of _ "a # acts"] exI [of _ p']) simp
qed

lemma shutdown_time: "fst (pipeline_shutdown w l) \<le> 2 * FLUSH_BUDGET"
  by (auto simp: pipeline_shutdown_def await_writer_def split: join_result.split)

subsection \<open>Properties\<close>

text \<open>C10: the event pipeline implements the sink. In every interleaving of requests, writers and clock in which the writers live, the
  drop counters are those of the sink, every event it took is printed or queued, in the order taken, once and
  unaltered; the standard output is a merge of the two streams' lines; the queues keep their bounds; and every
  \<^verbatim>\<open>record\<close> was taken, counted as dropped or is still waiting.\<close>

theorem pipeline_refines_sink:
  assumes "pipe_run print acts (spawn b lb t now) = Some p" and "writers_alive acts"
    and "s = sink_run print acts (spawn b lb t now) empty_sink"
  shows "cn_dropped (pl_events p) = sk_dropped s \<and> cn_dropped (pl_logs p) = sk_log_dropped s \<and>
    length (cn_queue (pl_events p)) \<le> max b 1 \<and> length (cn_queue (pl_logs p)) \<le> max lb 1 \<and>
    (\<exists>written wlogs drops.
       map se_event (written @ cn_queue (pl_events p)) = sk_tx s \<and> map se_event (wlogs @ cn_queue (pl_logs p)) = sk_log_tx s \<and>
       pl_stdout p \<in> shuffles (event_lines print written) (event_lines print wlogs) \<and>
       cn_dropped (pl_events p) = of_nat drops \<and>
       begun_records acts = length (sk_tx s) + drops + length (pl_waiting p))"
  using pipe_run_inv [OF spawn_inv assms(1,2)] unfolding pipe_inv_def assms(3) [symmetric] by auto

text \<open>Diagnostics cannot displace billing. Take away from any run every action of the diagnostic channel, its entries, its writer
  and its writer's death: what is left is a run, and the usage and audit channel, its drop counter and the requests
  waiting for it are exactly the same.\<close>

lemma log_isolation:
  assumes "pipe_run print acts p = Some p'"
  shows "\<exists>q. pipe_run print (filter (\<lambda>a. \<not> is_log_action a) acts) p = Some q \<and> precious_view p' = precious_view q"
  by (rule precious_run [OF refl assms])

text \<open>C11: shutdown flushes. Once the last handle of the sink is gone, the writers can only drain: every sequence of their turns is as
  long as the backlog it removes, so it ends, and where no turn is left everything the sink ever took has been
  printed; such an end can always be reached.\<close>

theorem shutdown_flushes:
  assumes "pipe_run print acts (spawn b lb t now) = Some p" and "writers_alive acts" and "\<not> pl_sinks p"
    and "s = sink_run print acts (spawn b lb t now) empty_sink"
  shows "(\<forall>turns q. set turns \<subseteq> {WriteEvent, WriteLog} \<longrightarrow> pipe_run print turns p = Some q \<longrightarrow>
            length turns + backlog q = backlog p \<and>
            (backlog q = 0 \<longrightarrow> (\<exists>evs logs. map se_event evs = sk_tx s \<and> map se_event logs = sk_log_tx s \<and>
               pl_stdout q \<in> shuffles (event_lines print evs) (event_lines print logs)))) \<and>
         (\<exists>turns q. set turns \<subseteq> {WriteEvent, WriteLog} \<and> pipe_run print turns p = Some q \<and> backlog q = 0) \<and>
         (\<forall>ev. pipe_step print (BeginRecord ev) p = None \<and> pipe_step print (RecordLog ev) p = None)"
proof (intro conjI allI impI)
  fix turns q
  assume turns: "set turns \<subseteq> {WriteEvent, WriteLog}" and run: "pipe_run print turns p = Some q"
  show "length turns + backlog q = backlog p" by (rule writes_bounded [OF run turns])
  assume empty: "backlog q = 0"
  have "pipe_run print (acts @ turns) (spawn b lb t now) = Some q" using assms(1) run by (simp add: pipe_run_append)
  moreover have "writers_alive (acts @ turns)" using assms(2) turns by (auto simp: writers_alive_def)
  ultimately obtain w l n d where
    "pipe_inv print (max b 1) (max lb 1) q (sink_run print (acts @ turns) (spawn b lb t now) empty_sink) w l n d"
    using pipe_run_inv [OF spawn_inv] by blast
  moreover have "sink_run print (acts @ turns) (spawn b lb t now) empty_sink = s"
    using sink_run_append [OF assms(1)] writes_leave_sink [OF turns] assms(4) by simp
  ultimately show "\<exists>evs logs. map se_event evs = sk_tx s \<and> map se_event logs = sk_log_tx s \<and>
      pl_stdout q \<in> shuffles (event_lines print evs) (event_lines print logs)"
    using empty by (intro exI [of _ w] exI [of _ l]) (simp add: pipe_inv_def backlog_def)
next
  show "\<exists>turns q. set turns \<subseteq> {WriteEvent, WriteLog} \<and> pipe_run print turns p = Some q \<and> backlog q = 0" by (rule drains)
qed (use assms(3) in simp_all)

definition sample_event :: "nat \<Rightarrow> stamped_event" where
  "sample_event n =
     stamp (show_nat n) None
       (event_new None None None ''t'' (Audit \<lparr>ab_decision = ''allowed'', ab_reason = None, ab_detail = None\<rparr>))"

definition sample_print :: "json \<Rightarrow> (string, string) result" where
  "sample_print j = (case j of JObj (_ # (_, JStr uuid) # _) \<Rightarrow> Inr uuid | _ \<Rightarrow> Inl [])"

definition sample_acts :: "pipe_action list" where
  "sample_acts =
     [BeginRecord (sample_event 1), EndSent 0, BeginRecord (sample_event 2), RecordLog (sample_event 3), Tick 5, EndDropped 0,
      WriteLog, DropSinks]"

definition sample_pipeline :: pipeline where
  "sample_pipeline = the (pipe_run sample_print sample_acts (spawn 1 1 5 0))"

lemma sample_pipe_run: "pipe_run sample_print sample_acts (spawn 1 1 5 0) = Some sample_pipeline"
  unfolding sample_pipeline_def by code_simp

lemma sample_pipe_facts:
  "writers_alive sample_acts" "\<not> pl_sinks sample_pipeline" "cn_dropped (pl_events sample_pipeline) = 1"
  "backlog sample_pipeline = 1" "begun_records sample_acts = 2"
  by code_simp+

theorem pipeline_refines_sink_witness:
  "begun_records sample_acts = 2 \<and>
   cn_dropped (pl_events sample_pipeline) = sk_dropped (sink_run sample_print sample_acts (spawn 1 1 5 0) empty_sink)"
  using pipeline_refines_sink [OF sample_pipe_run sample_pipe_facts(1) refl] sample_pipe_facts(5) by simp

theorem shutdown_flushes_witness:
  "\<exists>turns q. set turns \<subseteq> {WriteEvent, WriteLog} \<and> pipe_run sample_print turns sample_pipeline = Some q \<and> backlog q = 0"
  using shutdown_flushes [OF sample_pipe_run sample_pipe_facts(1,2) refl] by blast

text \<open>
  When a writer dies, what is queued is gone and no counter says so: the event was taken by the sink, it is neither
  printed nor queued, and the drop counter stays at zero.
\<close>

lemma dead_writer_loses_uncounted:
  "\<exists>p. pipe_run sample_print [BeginRecord (sample_event 1), EndSent 0, EventWriterDies] (spawn 4 4 5 0) = Some p \<and>
       cn_queue (pl_events p) = [] \<and> pl_stdout p = [] \<and> cn_dropped (pl_events p) = 0 \<and>
       length (sk_tx (sink_run sample_print [BeginRecord (sample_event 1), EndSent 0, EventWriterDies] (spawn 4 4 5 0) empty_sink)) = 1"
  by (simp add: spawn_def channel_new_def has_room_def channel_push_def channel_dead_def drop_nth_def empty_sink_def
      sink_record_def)

end
