(* ===== verification/Exposition.thy ===== *)
theory Exposition
  imports Logic_Host
begin

text \<open>
  The text of \<^verbatim>\<open>GET /metrics\<close>: \<^verbatim>\<open>LatencyHistogram::render_series\<close>, \<^verbatim>\<open>CapabilityLatencies::render\<close> and \<^verbatim>\<open>Metrics::render\<close> of
  \<^verbatim>\<open>runlet-core/src/metrics.rs\<close>, and the handler of \<^verbatim>\<open>runlet/src/handler/telemetry.rs\<close> that adds the drop counters of the event
  pipeline. A reader of the exposition format shows what a scrape sees.
\<close>

subsection \<open>Rendering\<close>

abbreviation newline :: char where "newline \<equiv> CHR 0x0A"
abbreviation quote :: char where "quote \<equiv> CHR 0x22"

definition line :: "string \<Rightarrow> string" where
  "line s = s @ [newline]"

definition show_u64 :: "u64 \<Rightarrow> string" where
  "show_u64 w = show_nat (unat w)"

definition LATENCY_BUCKET_LABELS :: "string list" where
  "LATENCY_BUCKET_LABELS =
     [''0.001'', ''0.005'', ''0.01'', ''0.025'', ''0.05'', ''0.1'', ''0.25'', ''0.5'', ''1'', ''2.5'', ''5'', ''10'']"

definition label :: "string \<Rightarrow> string \<Rightarrow> string" where
  "label key v = key @ ''='' @ [quote] @ v @ [quote]"

definition bucket_labels :: "string \<Rightarrow> string \<Rightarrow> string" where
  "bucket_labels extra le =
     (if extra = [] then ''{'' @ label ''le'' le @ ''}'' else ''{'' @ extra @ '','' @ label ''le'' le @ ''}'')"

fun bucket_lines :: "string \<Rightarrow> string \<Rightarrow> u64 \<Rightarrow> string list \<Rightarrow> u64 list \<Rightarrow> string list" where
  "bucket_lines name extra cumulative (l # ls) (c # cs) =
     (let cumulative' = saturating_add cumulative c
      in (name @ ''_bucket'' @ bucket_labels extra l @ '' '' @ show_u64 cumulative') # bucket_lines name extra cumulative' ls cs)"
| "bucket_lines name extra cumulative _ _ = []"

definition series_lines :: "string \<Rightarrow> string \<Rightarrow> latency_histogram \<Rightarrow> string list" where
  "series_lines name extra h =
     (let suffix = (if extra = [] then [] else ''{'' @ extra @ ''}'');
          whole = unat (lh_sum_us h) div 1000000; frac = unat (lh_sum_us h) mod 1000000
      in bucket_lines name extra 0 LATENCY_BUCKET_LABELS (lh_buckets h) @
         [name @ ''_bucket'' @ bucket_labels extra ''+Inf'' @ '' '' @ show_u64 (lh_count h),
          name @ ''_sum'' @ suffix @ '' '' @ show_nat whole @ ''.'' @ pad 6 (show_nat frac),
          name @ ''_count'' @ suffix @ '' '' @ show_u64 (lh_count h)])"

definition render_series :: "string \<Rightarrow> string \<Rightarrow> latency_histogram \<Rightarrow> string" where
  "render_series name extra h = join_with [newline] (series_lines name extra h)"

definition help_type :: "string \<Rightarrow> string \<Rightarrow> string \<Rightarrow> string" where
  "help_type name help kind = line (''# HELP '' @ name @ '' '' @ help) @ line (''# TYPE '' @ name @ '' '' @ kind)"

definition histogram_render :: "string \<Rightarrow> string \<Rightarrow> latency_histogram \<Rightarrow> string" where
  "histogram_render name help h = help_type name help ''histogram'' @ line (render_series name [] h)"

definition capability_labels :: "(string \<times> capability) list" where
  "capability_labels =
     [(''db'', CapDb), (''mongo'', CapMongo), (''http'', CapHttp), (''mail'', CapMail), (''s3'', CapS3), (''redis'', CapRedis),
      (''amq'', CapAmq), (''auth'', CapAuth)]"

definition capability_render :: "(capability \<Rightarrow> latency_histogram) \<Rightarrow> string" where
  "capability_render hists =
     (let name = ''runlet_capability_op_duration_seconds''
      in help_type name ''Per-capability operation latency.'' ''histogram'' @
         line (join_with [newline] (map (\<lambda>(l, cap). render_series name (label ''capability'' l) (hists cap)) capability_labels)))"

record bytecode_cache_stats =
  cs_entries :: u64
  cs_hits :: u64
  cs_misses :: u64
  cs_stored :: u64

text \<open>The number of resident entries is the cache library's answer.\<close>

definition cache_stats :: "u64 \<Rightarrow> ('h, 'b) bytecode_cache \<Rightarrow> bytecode_cache_stats" where
  "cache_stats entry_count c =
     \<lparr>cs_entries = entry_count, cs_hits = bc_hits c, cs_misses = bc_misses c, cs_stored = bc_stored c\<rparr>"

definition labelled :: "string \<Rightarrow> string \<Rightarrow> string \<Rightarrow> string \<Rightarrow> string" where
  "labelled name key v num = line (name @ ''{'' @ label key v @ ''}'' @ '' '' @ num)"

definition plain_sample :: "string \<Rightarrow> string \<Rightarrow> string" where
  "plain_sample name num = line (name @ '' '' @ num)"

definition metrics_render :: "metrics \<Rightarrow> nat \<Rightarrow> nat \<Rightarrow> u64 \<Rightarrow> bytecode_cache_stats \<Rightarrow> string" where
  "metrics_render m bulkhead_available bulkhead_total breaker_trips cache =
     help_type ''runlet_executions_total'' ''Executions by terminal outcome.'' ''counter'' @
     labelled ''runlet_executions_total'' ''outcome'' ''success'' (show_u64 (mx_success m)) @
     labelled ''runlet_executions_total'' ''outcome'' ''script_error'' (show_u64 (mx_script_error m)) @
     labelled ''runlet_executions_total'' ''outcome'' ''capability_error'' (show_u64 (mx_capability_error m)) @
     labelled ''runlet_executions_total'' ''outcome'' ''timeout'' (show_u64 (mx_timeout m)) @
     labelled ''runlet_executions_total'' ''outcome'' ''memory_limit'' (show_u64 (mx_memory_limit m)) @
     labelled ''runlet_executions_total'' ''outcome'' ''malformed_response'' (show_u64 (mx_malformed_response m)) @
     labelled ''runlet_executions_total'' ''outcome'' ''internal_error'' (show_u64 (mx_internal_error m)) @
     help_type ''runlet_rejections_total'' ''Requests rejected before execution (bad body, routing, oversized).'' ''counter'' @
     plain_sample ''runlet_rejections_total'' (show_u64 (mx_rejections m)) @
     help_type ''runlet_overload_total'' ''Requests shed by a concurrency limit.'' ''counter'' @
     labelled ''runlet_overload_total'' ''scope'' ''global'' (show_u64 (mx_overload_global m)) @
     labelled ''runlet_overload_total'' ''scope'' ''partition'' (show_u64 (mx_overload_partition m)) @
     help_type ''runlet_db_breaker_trips_total'' ''Cumulative db circuit-breaker open transitions.'' ''counter'' @
     plain_sample ''runlet_db_breaker_trips_total'' (show_u64 breaker_trips) @
     help_type ''runlet_bulkhead_permits_available'' ''Free global bulkhead permits right now.'' ''gauge'' @
     plain_sample ''runlet_bulkhead_permits_available'' (show_nat bulkhead_available) @
     help_type ''runlet_bulkhead_permits_total'' ''Configured global bulkhead capacity.'' ''gauge'' @
     plain_sample ''runlet_bulkhead_permits_total'' (show_nat bulkhead_total) @
     histogram_render ''runlet_execution_duration_seconds'' ''Execution wall-clock latency.'' (mx_exec_latency m) @
     capability_render (mx_cap_latency m) @
     help_type ''runlet_bytecode_cache_entries'' ''Compiled-bytecode cache: resident entries.'' ''gauge'' @
     plain_sample ''runlet_bytecode_cache_entries'' (show_u64 (cs_entries cache)) @
     help_type ''runlet_bytecode_cache_events_total'' ''Compiled-bytecode cache events by kind (hit/miss/stored).'' ''counter'' @
     labelled ''runlet_bytecode_cache_events_total'' ''event'' ''hit'' (show_u64 (cs_hits cache)) @
     labelled ''runlet_bytecode_cache_events_total'' ''event'' ''miss'' (show_u64 (cs_misses cache)) @
     labelled ''runlet_bytecode_cache_events_total'' ''event'' ''stored'' (show_u64 (cs_stored cache))"

text \<open>The handler: the drop counters exist when the event pipeline does.\<close>

definition metrics_body ::
  "metrics \<Rightarrow> nat \<Rightarrow> nat \<Rightarrow> bytecode_cache_stats \<Rightarrow> u64 option \<Rightarrow> u64 option \<Rightarrow> string" where
  "metrics_body m available capacity cache event_dropped log_event_dropped =
     metrics_render m available capacity 0 cache @
     (case event_dropped of
        None \<Rightarrow> []
      | Some n \<Rightarrow>
          help_type ''runlet_events_dropped_total''
            ''SLO signal: usage/audit events dropped after the block-with-timeout window (a revenue/compliance leak; alert if > 0).''
            ''counter'' @
          plain_sample ''runlet_events_dropped_total'' (show_u64 n)) @
     (case log_event_dropped of
        None \<Rightarrow> []
      | Some n \<Rightarrow>
          help_type ''runlet_log_events_dropped_total'' ''Diagnostic log events dropped due to a full buffer.'' ''counter'' @
          plain_sample ''runlet_log_events_dropped_total'' (show_u64 n))"

subsection \<open>Reading it back\<close>

text \<open>
  A reader of the format: comment lines and empty lines carry no sample, any other line is a series, a space and a
  number. Numbers have at most six decimals here and are read in millionths.
\<close>

definition read_millionths :: "string \<Rightarrow> nat option" where
  "read_millionths v =
     (case split_on CHR ''.'' v of
        [w] \<Rightarrow> map_option (\<lambda>n. n * 1000000) (read_digits 0 w)
      | [w, f] \<Rightarrow>
          if length f = 6
          then (case (read_digits 0 w, read_digits 0 f) of (Some n, Some k) \<Rightarrow> Some (n * 1000000 + k) | _ \<Rightarrow> None)
          else None
      | _ \<Rightarrow> None)"

definition scrape_line :: "string \<Rightarrow> (string \<times> nat option) list" where
  "scrape_line l =
     (if l = [] \<or> hd l = CHR ''#'' then []
      else [(rev (tl (dropWhile (\<lambda>c. c \<noteq> CHR '' '') (rev l))), read_millionths (rev (takeWhile (\<lambda>c. c \<noteq> CHR '' '') (rev l))))])"

definition scrape :: "string \<Rightarrow> (string \<times> nat option) list" where
  "scrape t = concat (map scrape_line (split_on newline t))"

definition no_char :: "char \<Rightarrow> string \<Rightarrow> bool" where
  "no_char c s \<longleftrightarrow> c \<notin> set s"

lemma no_char_simps [simp]:
  "no_char c []" "no_char c (d # s) \<longleftrightarrow> d \<noteq> c \<and> no_char c s" "no_char c (s @ t) \<longleftrightarrow> no_char c s \<and> no_char c t"
  by (auto simp: no_char_def)

lemma show_nat_no_char [simp]: "digit_val c = None \<Longrightarrow> no_char c (show_nat n)"
  using show_nat_digits [of c n] by (auto simp: no_char_def)

lemma no_digit_chars [simp]:
  "digit_val newline = None" "digit_val CHR '' '' = None" "digit_val CHR ''.'' = None"
  by (simp_all add: digit_val_def)

lemma pad_no_char [simp]: "digit_val c = None \<Longrightarrow> no_char c s \<Longrightarrow> no_char c (pad k s)"
  by (auto simp: no_char_def pad_def digit_val_def)

lemma show_u64_no_char [simp]: "digit_val c = None \<Longrightarrow> no_char c (show_u64 w)"
  by (simp add: show_u64_def)

lemma split_on_line: "no_char d s \<Longrightarrow> split_on d (s @ d # t) = s # split_on d t"
  by (induction s) (auto split: list.splits simp: split_on_nonempty)

lemma split_on_none: "no_char d s \<Longrightarrow> split_on d s = [s]"
  by (induction s) auto

lemma scrape_line_text:
  assumes "no_char newline l"
  shows "scrape (line l @ t) = scrape_line l @ scrape t"
  using assms split_on_line [of newline l t] by (simp add: scrape_def line_def)

lemma scrape_Nil [simp]: "scrape [] = []"
  by (simp add: scrape_def scrape_line_def)

lemma scrape_comment: "scrape_line (CHR ''#'' # l) = []"
  by (simp add: scrape_line_def)

lemma takeWhile_no_char: "no_char d v \<Longrightarrow> takeWhile (\<lambda>c. c \<noteq> d) (v @ d # k) = v"
  by (induction v) auto

lemma dropWhile_no_char: "no_char d v \<Longrightarrow> dropWhile (\<lambda>c. c \<noteq> d) (v @ d # k) = d # k"
  by (induction v) auto

lemma scrape_sample:
  assumes "no_char CHR '' '' v" and "k \<noteq> []" and "hd k \<noteq> CHR ''#''"
  shows "scrape_line (k @ '' '' @ v) = [(k, read_millionths v)]"
proof -
  have v: "no_char CHR '' '' (rev v)" using assms(1) by (simp add: no_char_def)
  have "rev (k @ '' '' @ v) = rev v @ CHR '' '' # rev k" by simp
  then show ?thesis
    using assms(2,3) takeWhile_no_char [OF v, of "rev k"] dropWhile_no_char [OF v, of "rev k"]
    by (simp add: scrape_line_def)
qed

lemma read_digits_pad: "n \<le> usize_max \<Longrightarrow> read_digits 0 (pad k (show_nat n)) = Some n"
proof -
  have "read_digits 0 (replicate j CHR ''0'' @ s) = read_digits 0 s" for j s
    by (induction j) (simp_all add: digit_val_def)
  then show "n \<le> usize_max \<Longrightarrow> read_digits 0 (pad k (show_nat n)) = Some n"
    by (simp add: pad_def read_digits_show_nat)
qed

lemma u64_usize: "unat (w :: u64) \<le> usize_max"
proof -
  have "unat w < 2 ^ LENGTH(64)" by (rule unsigned_less)
  then show ?thesis by (simp add: usize_max_def)
qed

lemma read_show_nat: "n \<le> usize_max \<Longrightarrow> read_millionths (show_nat n) = Some (n * 1000000)"
  using split_on_none [of "CHR ''.''" "show_nat n"] by (simp add: read_millionths_def read_digits_show_nat)

lemma read_show_u64: "read_millionths (show_u64 w) = Some (unat w * 1000000)"
  by (simp add: show_u64_def read_show_nat u64_usize)

lemma length_show_nat: "n < 10 ^ Suc k \<Longrightarrow> length (show_nat n) \<le> Suc k"
proof (induction k arbitrary: n)
  case 0
  then show ?case by (simp add: show_nat.simps)
next
  case (Suc k)
  show ?case
  proof (cases "n < 10")
    case False
    have "n div 10 < 10 ^ Suc k" using Suc.prems by (simp add: less_mult_imp_div_less)
    then show ?thesis using Suc.IH [of "n div 10"] False by (simp add: show_nat.simps [of n])
  qed (simp add: show_nat.simps)
qed

lemma read_sum:
  assumes "w \<le> usize_max" and "f < 1000000"
  shows "read_millionths (show_nat w @ ''.'' @ pad 6 (show_nat f)) = Some (w * 1000000 + f)"
proof -
  have "split_on CHR ''.'' (show_nat w @ CHR ''.'' # pad 6 (show_nat f)) = [show_nat w, pad 6 (show_nat f)]"
    by (simp add: split_on_line split_on_none)
  moreover have "length (pad 6 (show_nat f)) = 6" using length_show_nat [of f 5] assms(2) by (simp add: pad_def)
  moreover have "f \<le> usize_max" using assms(2) by (simp add: usize_max_def)
  ultimately show ?thesis using assms(1) by (simp add: read_millionths_def read_digits_show_nat read_digits_pad)
qed

subsection \<open>What a scrape sees\<close>

definition hist_ok :: "latency_histogram \<Rightarrow> bool" where
  "hist_ok h \<longleftrightarrow> length (lh_buckets h) = 12"

definition hist_samples :: "string \<Rightarrow> string \<Rightarrow> latency_histogram \<Rightarrow> (string \<times> nat option) list" where
  "hist_samples name extra h =
     (let suffix = (if extra = [] then [] else ''{'' @ extra @ ''}'')
      in map (\<lambda>(le, n). (name @ ''_bucket'' @ bucket_labels extra le, Some (unat n * 1000000)))
           (zip (LATENCY_BUCKET_LABELS @ [''+Inf'']) (render_buckets h)) @
         [(name @ ''_sum'' @ suffix, Some (unat (lh_sum_us h))), (name @ ''_count'' @ suffix, Some (unat (lh_count h) * 1000000))])"

lemma scrape_join:
  assumes "ls \<noteq> []" and "list_all (no_char newline) ls"
  shows "scrape (line (join_with [newline] ls) @ t) = concat (map scrape_line ls) @ scrape t"
  using assms
proof (induction ls)
  case (Cons x xs)
  show ?case
  proof (cases xs)
    case Nil
    then show ?thesis using Cons.prems by (simp add: scrape_line_text)
  next
    case (Cons y ys)
    then have "line (join_with [newline] (x # xs)) @ t = line x @ line (join_with [newline] xs) @ t"
      by (simp add: line_def)
    then show ?thesis using Cons.IH Cons.prems Cons by (simp add: scrape_line_text)
  qed
qed simp

definition series_name :: "string \<Rightarrow> bool" where
  "series_name name \<longleftrightarrow> name \<noteq> [] \<and> hd name \<noteq> CHR ''#'' \<and> no_char newline name"

lemma scrape_named:
  assumes "series_name name" and "no_char CHR '' '' v"
  shows "scrape_line (name @ k @ '' '' @ v) = [(name @ k, read_millionths v)]"
  using scrape_sample [of v "name @ k"] assms by (simp add: series_name_def)

lemma bucket_labels_no_newline: "no_char newline extra \<Longrightarrow> no_char newline le \<Longrightarrow> no_char newline (bucket_labels extra le)"
  by (simp add: bucket_labels_def label_def)

lemma bucket_lines_scrape:
  assumes "series_name name" and "no_char newline extra" and "list_all (no_char newline) ls"
  shows "concat (map scrape_line (bucket_lines name extra cum ls cs)) =
      map (\<lambda>(le, n). (name @ ''_bucket'' @ bucket_labels extra le, Some (unat n * 1000000))) (zip ls (cumulate cum cs))"
    "list_all (no_char newline) (bucket_lines name extra cum ls cs)"
  using assms(3)
proof (induction ls arbitrary: cum cs)
  case (Cons l ls)
  note named = scrape_named [OF assms(1), of "show_u64 (saturating_add cum c)" "''_bucket'' @ bucket_labels extra l" for cum c]
  {
    case 1
    then show ?case using Cons.IH(1) named by (cases cs) (simp_all add: Let_def read_show_u64)
  next
    case 2
    then show ?case
      using Cons.IH(2) assms(1,2) bucket_labels_no_newline [of extra l]
      by (cases cs) (simp_all add: Let_def series_name_def)
  }
qed simp_all

lemma length_cumulate [simp]: "length (cumulate acc cs) = length cs"
  by (induction cs arbitrary: acc) (simp_all add: Let_def)

lemma labels_ok: "list_all (no_char newline) LATENCY_BUCKET_LABELS" "length LATENCY_BUCKET_LABELS = 12"
  by (simp_all add: LATENCY_BUCKET_LABELS_def)

lemma series_scrape:
  assumes "series_name name" and "no_char newline extra" and "hist_ok h"
  shows "concat (map scrape_line (series_lines name extra h)) = hist_samples name extra h"
    "list_all (no_char newline) (series_lines name extra h)" "series_lines name extra h \<noteq> []"
proof -
  let ?suffix = "if extra = [] then [] else ''{'' @ extra @ ''}''"
  let ?w = "unat (lh_sum_us h) div 1000000" and ?f = "unat (lh_sum_us h) mod 1000000"
  note sl = scrape_named [OF assms(1)]
  have w: "?w \<le> usize_max" using u64_usize [of "lh_sum_us h"] div_le_dividend le_trans by blast
  have "no_char CHR '' '' (show_nat ?w @ ''.'' @ pad 6 (show_nat ?f))" by simp
  note sum_line = sl [OF this, of "''_sum'' @ ?suffix"]
  have rs: "read_millionths (show_nat ?w @ ''.'' @ pad 6 (show_nat ?f)) = Some (unat (lh_sum_us h))"
    using read_sum [OF w, of ?f] by simp
  have u: "no_char CHR '' '' (show_u64 (lh_count h))" by simp
  note inf_line = sl [OF u, of "''_bucket'' @ bucket_labels extra ''+Inf''"] and count_line = sl [OF u, of "''_count'' @ ?suffix"]
  have zip: "zip (LATENCY_BUCKET_LABELS @ [''+Inf'']) (render_buckets h) =
      zip LATENCY_BUCKET_LABELS (cumulate 0 (lh_buckets h)) @ [(''+Inf'', lh_count h)]"
    using assms(3) labels_ok(2) by (simp add: render_buckets_def hist_ok_def)
  show "concat (map scrape_line (series_lines name extra h)) = hist_samples name extra h"
    using sum_line inf_line count_line rs
    unfolding series_lines_def hist_samples_def Let_def zip map_append concat_append
      bucket_lines_scrape(1) [OF assms(1,2) labels_ok(1)]
    by (simp add: read_show_u64)
  show "list_all (no_char newline) (series_lines name extra h)"
    using bucket_lines_scrape(2) [OF assms(1,2) labels_ok(1)] assms(1,2) bucket_labels_no_newline [of extra "''+Inf''"]
    by (simp add: series_lines_def Let_def series_name_def)
  show "series_lines name extra h \<noteq> []" by (simp add: series_lines_def Let_def)
qed

definition counter_sample :: "string \<Rightarrow> string \<Rightarrow> string \<Rightarrow> u64 \<Rightarrow> string \<times> nat option" where
  "counter_sample name key v w = (name @ ''{'' @ label key v @ ''}'', Some (unat w * 1000000))"

definition metrics_samples ::
  "metrics \<Rightarrow> nat \<Rightarrow> nat \<Rightarrow> bytecode_cache_stats \<Rightarrow> u64 option \<Rightarrow> u64 option \<Rightarrow> (string \<times> nat option) list" where
  "metrics_samples m available capacity cache event_dropped log_event_dropped =
     [counter_sample ''runlet_executions_total'' ''outcome'' ''success'' (mx_success m),
      counter_sample ''runlet_executions_total'' ''outcome'' ''script_error'' (mx_script_error m),
      counter_sample ''runlet_executions_total'' ''outcome'' ''capability_error'' (mx_capability_error m),
      counter_sample ''runlet_executions_total'' ''outcome'' ''timeout'' (mx_timeout m),
      counter_sample ''runlet_executions_total'' ''outcome'' ''memory_limit'' (mx_memory_limit m),
      counter_sample ''runlet_executions_total'' ''outcome'' ''malformed_response'' (mx_malformed_response m),
      counter_sample ''runlet_executions_total'' ''outcome'' ''internal_error'' (mx_internal_error m),
      (''runlet_rejections_total'', Some (unat (mx_rejections m) * 1000000)),
      counter_sample ''runlet_overload_total'' ''scope'' ''global'' (mx_overload_global m),
      counter_sample ''runlet_overload_total'' ''scope'' ''partition'' (mx_overload_partition m),
      (''runlet_db_breaker_trips_total'', Some 0),
      (''runlet_bulkhead_permits_available'', Some (available * 1000000)),
      (''runlet_bulkhead_permits_total'', Some (capacity * 1000000))] @
     hist_samples ''runlet_execution_duration_seconds'' [] (mx_exec_latency m) @
     concat (map (\<lambda>(l, cap). hist_samples ''runlet_capability_op_duration_seconds'' (label ''capability'' l) (mx_cap_latency m cap))
       capability_labels) @
     [(''runlet_bytecode_cache_entries'', Some (unat (cs_entries cache) * 1000000)),
      counter_sample ''runlet_bytecode_cache_events_total'' ''event'' ''hit'' (cs_hits cache),
      counter_sample ''runlet_bytecode_cache_events_total'' ''event'' ''miss'' (cs_misses cache),
      counter_sample ''runlet_bytecode_cache_events_total'' ''event'' ''stored'' (cs_stored cache)] @
     (case event_dropped of None \<Rightarrow> [] | Some n \<Rightarrow> [(''runlet_events_dropped_total'', Some (unat n * 1000000))]) @
     (case log_event_dropped of None \<Rightarrow> [] | Some n \<Rightarrow> [(''runlet_log_events_dropped_total'', Some (unat n * 1000000))])"

lemma scrape_help:
  "no_char newline name \<Longrightarrow> no_char newline help \<Longrightarrow> no_char newline kind \<Longrightarrow> scrape (help_type name help kind @ t) = scrape t"
  by (simp add: help_type_def scrape_line_text scrape_comment)

lemma scrape_labelled:
  assumes "series_name name" and "no_char newline key" and "no_char newline v"
  shows "scrape (labelled name key v (show_u64 w) @ t) = counter_sample name key v w # scrape t"
  using scrape_named [OF assms(1), of "show_u64 w" "''{'' @ label key v @ ''}''"] assms
  by (simp add: labelled_def scrape_line_text counter_sample_def read_show_u64 series_name_def label_def)

lemma scrape_plain:
  assumes "series_name name" and "n \<le> usize_max"
  shows "scrape (plain_sample name (show_nat n) @ t) = (name, Some (n * 1000000)) # scrape t"
  using scrape_named [OF assms(1), of "show_nat n" "[]"] assms
  by (simp add: plain_sample_def scrape_line_text read_show_nat series_name_def)

lemma scrape_histogram:
  assumes "series_name name" and "no_char newline help" and "hist_ok h"
  shows "scrape (histogram_render name help h @ t) = hist_samples name [] h @ scrape t"
  using assms series_scrape [OF assms(1) _ assms(3), of "[]"]
  by (simp add: histogram_render_def render_series_def scrape_help scrape_join series_name_def)

lemma scrape_series_list:
  assumes "series_name name" and "\<And>l cap. (l, cap) \<in> set caps \<Longrightarrow> no_char newline l \<and> hist_ok (hists cap)" and "caps \<noteq> []"
  shows "scrape (line (join_with [newline] (map (\<lambda>(l, cap). render_series name (label ''capability'' l) (hists cap)) caps)) @ t) =
    concat (map (\<lambda>(l, cap). hist_samples name (label ''capability'' l) (hists cap)) caps) @ scrape t"
  using assms(2,3)
proof (induction caps)
  case (Cons c caps)
  obtain l cap where c: "c = (l, cap)" by fastforce
  let ?text = "\<lambda>cs. join_with [newline] (map (\<lambda>(l, cap). render_series name (label ''capability'' l) (hists cap)) cs)"
  have nl: "no_char newline (label ''capability'' l)" and ok: "hist_ok (hists cap)" using Cons.prems(1) c by (auto simp: label_def)
  note first = scrape_join [OF series_scrape(3,2) [OF assms(1) nl ok], folded render_series_def, unfolded series_scrape(1) [OF assms(1) nl ok]]
  show ?case
  proof (cases "caps = []")
    case True
    then show ?thesis using first c by simp
  next
    case False
    then have joined: "line (?text (c # caps)) @ t = line (render_series name (label ''capability'' l) (hists cap)) @ line (?text caps) @ t"
      using c by (cases caps) (simp_all add: line_def)
    have "scrape (line (?text caps) @ t) =
        concat (map (\<lambda>(l, cap). hist_samples name (label ''capability'' l) (hists cap)) caps) @ scrape t"
      using Cons.prems(1) False by (intro Cons.IH) auto
    then show ?thesis using first c unfolding joined by simp
  qed
qed simp

lemma scrape_capabilities:
  assumes "\<forall>cap. hist_ok (hists cap)"
  shows "scrape (capability_render hists @ t) =
    concat (map (\<lambda>(l, cap). hist_samples ''runlet_capability_op_duration_seconds'' (label ''capability'' l) (hists cap))
      capability_labels) @ scrape t"
proof -
  have "no_char newline l \<and> hist_ok (hists cap)" if "(l, cap) \<in> set capability_labels" for l cap
    using that assms by (auto simp: capability_labels_def)
  moreover have "capability_labels \<noteq> []" by (simp add: capability_labels_def)
  moreover have "series_name ''runlet_capability_op_duration_seconds''" by (simp add: series_name_def)
  ultimately show ?thesis
    using scrape_series_list [of "''runlet_capability_op_duration_seconds''" capability_labels hists t]
    by (simp add: capability_render_def Let_def scrape_help)
qed

lemma scrape_plain_u64:
  "series_name name \<Longrightarrow> scrape (plain_sample name (show_u64 w) @ t) = (name, Some (unat w * 1000000)) # scrape t"
  using scrape_plain [of name "unat w"] u64_usize by (simp add: show_u64_def)

lemmas scrape_pieces = scrape_help scrape_labelled scrape_plain scrape_plain_u64 scrape_histogram scrape_capabilities

lemmas scrape_last = scrape_labelled [where t = "[]", simplified] scrape_plain_u64 [where t = "[]", simplified]

lemma scrape_metrics_render:
  assumes "hist_ok (mx_exec_latency m)" and "\<forall>cap. hist_ok (mx_cap_latency m cap)"
    and "available \<le> usize_max" and "capacity \<le> usize_max"
  shows "scrape (metrics_render m available capacity 0 cache @ t) =
    metrics_samples m available capacity cache None None @ scrape t"
  using assms unfolding metrics_render_def metrics_samples_def append_assoc
  by (simp add: scrape_pieces series_name_def)

text \<open>The series names do not depend on the values.\<close>

definition hist_keys :: "string \<Rightarrow> string \<Rightarrow> string list" where
  "hist_keys name extra =
     (let suffix = (if extra = [] then [] else ''{'' @ extra @ ''}'')
      in map (\<lambda>le. name @ ''_bucket'' @ bucket_labels extra le) (LATENCY_BUCKET_LABELS @ [''+Inf'']) @
         [name @ ''_sum'' @ suffix, name @ ''_count'' @ suffix])"

lemma hist_samples_keys:
  assumes "hist_ok h"
  shows "map fst (hist_samples name extra h) = hist_keys name extra"
proof -
  have "map fst (zip (LATENCY_BUCKET_LABELS @ [''+Inf'']) (render_buckets h)) = LATENCY_BUCKET_LABELS @ [''+Inf'']"
    using assms labels_ok(2) by (simp add: render_buckets_def hist_ok_def)
  then have "map (\<lambda>x. f (fst x)) (zip (LATENCY_BUCKET_LABELS @ [''+Inf'']) (render_buckets h)) =
      map f (LATENCY_BUCKET_LABELS @ [''+Inf''])" for f :: "string \<Rightarrow> string"
    by (metis (no_types, lifting) comp_apply list.map_comp map_ext)
  then show ?thesis
    unfolding hist_samples_def hist_keys_def Let_def map_append map_map
    by (simp add: comp_def case_prod_unfold)
qed

text \<open>The family of a series, and the capability it is about.\<close>

definition key_family :: "string \<Rightarrow> string" where
  "key_family k = takeWhile (\<lambda>c. c \<noteq> CHR ''{'') k"

definition key_value :: "string \<Rightarrow> string" where
  "key_value k = takeWhile (\<lambda>c. c \<noteq> quote) (tl (dropWhile (\<lambda>c. c \<noteq> quote) k))"

lemma key_family_brace: "no_char CHR ''{'' s \<Longrightarrow> key_family (s @ CHR ''{'' # t) = s" "no_char CHR ''{'' s \<Longrightarrow> key_family s = s"
  by (simp_all add: key_family_def takeWhile_no_char) (auto simp: no_char_def takeWhile_eq_all_conv)

lemma hist_keys_family:
  assumes "no_char CHR ''{'' name" and "k \<in> set (hist_keys name extra)"
  shows "key_family k \<in> {name @ ''_bucket'', name @ ''_sum'', name @ ''_count''}"
proof -
  have b: "key_family (name @ ''_bucket'' @ bucket_labels extra le) = name @ ''_bucket''" for le
    using key_family_brace(1) [of "name @ ''_bucket''"] assms(1) by (simp add: bucket_labels_def)
  have s: "key_family (name @ e @ (if extra = [] then [] else ''{'' @ extra @ ''}'')) = name @ e" if "no_char CHR ''{'' e" for e
    using key_family_brace [of "name @ e"] assms(1) that by simp
  from assms(2) show ?thesis
    using b s [of "''_sum''"] s [of "''_count''"] by (auto simp: hist_keys_def Let_def split: if_splits)
qed

lemma hist_keys_value:
  assumes "no_char quote name" and "no_char quote l" and "k \<in> set (hist_keys name (label ''capability'' l))"
  shows "key_value k = l"
proof -
  have v: "key_value (s @ ''{capability='' @ quote # l @ quote # t) = l" if "no_char quote s" for s t
    using that assms(2) dropWhile_no_char [of quote "s @ ''{capability=''"] by (simp add: key_value_def takeWhile_no_char)
  have b: "key_value (name @ ''_bucket'' @ bucket_labels (label ''capability'' l) le) = l" for le
    using v [of "name @ ''_bucket''"] assms(1) by (simp add: bucket_labels_def label_def)
  have e: "key_value (name @ x @ ''{'' @ label ''capability'' l @ ''}'') = l" if "no_char quote x" for x
    using v [of "name @ x" "''}''"] assms(1) that by (simp add: label_def)
  have "label ''capability'' l \<noteq> []" by (simp add: label_def)
  then have "k \<in> (\<lambda>le. name @ ''_bucket'' @ bucket_labels (label ''capability'' l) le) ` UNIV \<or>
      k = name @ ''_sum'' @ ''{'' @ label ''capability'' l @ ''}'' \<or> k = name @ ''_count'' @ ''{'' @ label ''capability'' l @ ''}''"
    using assms(3) by (auto simp: hist_keys_def Let_def)
  then show ?thesis using b e [of "''_sum''"] e [of "''_count''"] by auto
qed

lemma distinct_hist_keys: "distinct (hist_keys name extra)"
proof -
  have "distinct (LATENCY_BUCKET_LABELS @ [''+Inf''])" by (simp add: LATENCY_BUCKET_LABELS_def)
  moreover have "inj (\<lambda>le. name @ ''_bucket'' @ bucket_labels extra le)"
    by (rule injI) (simp add: bucket_labels_def label_def split: if_splits)
  ultimately have "distinct (map (\<lambda>le. name @ ''_bucket'' @ bucket_labels extra le) (LATENCY_BUCKET_LABELS @ [''+Inf'']))"
    unfolding distinct_map by (blast intro: inj_on_subset)
  then show ?thesis by (auto simp: hist_keys_def Let_def)
qed

definition capability_keys :: "string list" where
  "capability_keys =
     concat (map (\<lambda>(l, cap). hist_keys ''runlet_capability_op_duration_seconds'' (label ''capability'' l)) capability_labels)"

lemma distinct_capability_keys: "distinct capability_keys"
proof -
  let ?keys = "\<lambda>l. hist_keys ''runlet_capability_op_duration_seconds'' (label ''capability'' l)"
  have kv: "key_value k = l" if "no_char quote l" "k \<in> set (?keys l)" for k l
    by (rule hist_keys_value [OF _ that]) simp
  have apart: "set (?keys l) \<inter> set (?keys r) = {}" if "no_char quote l" "no_char quote r" "l \<noteq> r" for l r
    using kv [OF that(1)] kv [OF that(2)] that(3) by (metis disjoint_iff)
  have "distinct (concat (map ?keys ls))" if "distinct ls" "list_all (no_char quote) ls" for ls
    using that
  proof (induction ls)
    case (Cons l ls)
    then have "set (?keys l) \<inter> set (?keys r) = {}" if "r \<in> set ls" for r
      using that by (intro apart) (auto simp: list_all_iff)
    then show ?case using Cons distinct_hist_keys by auto
  qed simp
  from this [of "map fst capability_labels"] show ?thesis
    by (simp add: capability_keys_def capability_labels_def)
qed

definition static_keys :: "string list" where
  "static_keys =
     map fst
       [counter_sample ''runlet_executions_total'' ''outcome'' ''success'' 0,
        counter_sample ''runlet_executions_total'' ''outcome'' ''script_error'' 0,
        counter_sample ''runlet_executions_total'' ''outcome'' ''capability_error'' 0,
        counter_sample ''runlet_executions_total'' ''outcome'' ''timeout'' 0,
        counter_sample ''runlet_executions_total'' ''outcome'' ''memory_limit'' 0,
        counter_sample ''runlet_executions_total'' ''outcome'' ''malformed_response'' 0,
        counter_sample ''runlet_executions_total'' ''outcome'' ''internal_error'' 0,
        (''runlet_rejections_total'', None),
        counter_sample ''runlet_overload_total'' ''scope'' ''global'' 0,
        counter_sample ''runlet_overload_total'' ''scope'' ''partition'' 0,
        (''runlet_db_breaker_trips_total'', None), (''runlet_bulkhead_permits_available'', None),
        (''runlet_bulkhead_permits_total'', None), (''runlet_bytecode_cache_entries'', None),
        counter_sample ''runlet_bytecode_cache_events_total'' ''event'' ''hit'' 0,
        counter_sample ''runlet_bytecode_cache_events_total'' ''event'' ''miss'' 0,
        counter_sample ''runlet_bytecode_cache_events_total'' ''event'' ''stored'' 0,
        (''runlet_events_dropped_total'', None), (''runlet_log_events_dropped_total'', None)]"

lemma distinct_static_keys: "distinct static_keys"
  by (simp add: static_keys_def counter_sample_def label_def)

lemma static_key_families:
  "k \<in> set static_keys \<Longrightarrow>
   key_family k \<in> {''runlet_executions_total'', ''runlet_rejections_total'', ''runlet_overload_total'',
     ''runlet_db_breaker_trips_total'', ''runlet_bulkhead_permits_available'', ''runlet_bulkhead_permits_total'',
     ''runlet_bytecode_cache_entries'', ''runlet_bytecode_cache_events_total'', ''runlet_events_dropped_total'',
     ''runlet_log_events_dropped_total''}"
  by (auto simp: static_keys_def counter_sample_def key_family_def)

lemma key_groups_apart:
  "set static_keys \<inter> set (hist_keys ''runlet_execution_duration_seconds'' []) = {}"
  "set static_keys \<inter> set capability_keys = {}"
  "set (hist_keys ''runlet_execution_duration_seconds'' []) \<inter> set capability_keys = {}"
proof -
  have h: "key_family k \<in> {''runlet_execution_duration_seconds_bucket'', ''runlet_execution_duration_seconds_sum'',
      ''runlet_execution_duration_seconds_count''}" if "k \<in> set (hist_keys ''runlet_execution_duration_seconds'' [])" for k
    using hist_keys_family [OF _ that] by simp
  have c: "key_family k \<in> {''runlet_capability_op_duration_seconds_bucket'', ''runlet_capability_op_duration_seconds_sum'',
      ''runlet_capability_op_duration_seconds_count''}" if "k \<in> set capability_keys" for k
    using that hist_keys_family [of "''runlet_capability_op_duration_seconds''" k]
    by (fastforce simp: capability_keys_def)
  note st = static_key_families
  show "set static_keys \<inter> set (hist_keys ''runlet_execution_duration_seconds'' []) = {}" using st h by fastforce
  show "set static_keys \<inter> set capability_keys = {}" using st c by fastforce
  show "set (hist_keys ''runlet_execution_duration_seconds'' []) \<inter> set capability_keys = {}" using h c by fastforce
qed

lemma distinct_between:
  assumes "distinct (a @ d)" and "set (a @ d) \<subseteq> S" and "S \<inter> set b = {}" and "S \<inter> set c = {}" and "set b \<inter> set c = {}"
    and "distinct b" and "distinct c"
  shows "distinct (a @ b @ c @ d)"
  using assms by auto

lemma metrics_samples_keys:
  assumes "hist_ok (mx_exec_latency m)" and "\<forall>cap. hist_ok (mx_cap_latency m cap)"
  shows "distinct (map fst (metrics_samples m available capacity cache ed led))"
proof -
  let ?keys = "map fst (metrics_samples m available capacity cache ed led)"
  let ?first = "take 13 static_keys" and ?hist = "hist_keys ''runlet_execution_duration_seconds'' []"
  let ?rest = "take 4 (drop 13 static_keys) @ (if ed = None then [] else [''runlet_events_dropped_total'']) @
    (if led = None then [] else [''runlet_log_events_dropped_total''])"
  have "map fst (concat (map (\<lambda>(l, cap). hist_samples ''runlet_capability_op_duration_seconds'' (label ''capability'' l) (mx_cap_latency m cap))
      capability_labels)) = capability_keys"
    using hist_samples_keys assms(2) by (simp add: capability_keys_def map_concat comp_def case_prod_unfold)
  then have keys: "?keys = ?first @ ?hist @ capability_keys @ ?rest"
    using hist_samples_keys [OF assms(1)]
    by (simp add: metrics_samples_def static_keys_def counter_sample_def split: option.split)
  have sub: "set (?first @ ?rest) \<subseteq> set static_keys" by (auto simp: static_keys_def)
  have dist: "distinct (?first @ ?rest)" by (simp add: static_keys_def counter_sample_def label_def)
  show ?thesis
    unfolding keys by (rule distinct_between [OF dist sub key_groups_apart distinct_hist_keys distinct_capability_keys])
qed

subsection \<open>Property\<close>

text \<open>C40: a scrape reads the counters back. Reading the text of the metrics endpoint yields exactly one sample per series, no two of
  the same name and labels: each counter and gauge with its value, each histogram's cumulative buckets, count and
  sum, the sum to the microsecond; the drop counters of the event pipeline appear exactly when the pipeline runs.\<close>

theorem exposition_roundtrip:
  assumes "hist_ok (mx_exec_latency m)" and "\<forall>cap. hist_ok (mx_cap_latency m cap)"
    and "available \<le> usize_max" and "capacity \<le> usize_max"
  shows "scrape (metrics_body m available capacity cache event_dropped log_event_dropped) =
      metrics_samples m available capacity cache event_dropped log_event_dropped \<and>
    distinct (map fst (scrape (metrics_body m available capacity cache event_dropped log_event_dropped)))"
proof -
  have "scrape (metrics_body m available capacity cache event_dropped log_event_dropped) =
      metrics_samples m available capacity cache event_dropped log_event_dropped"
    unfolding metrics_body_def scrape_metrics_render [OF assms]
    by (simp add: metrics_samples_def scrape_pieces scrape_last series_name_def split: option.split)
  then show ?thesis using metrics_samples_keys [OF assms(1,2)] by simp
qed

theorem exposition_roundtrip_witness:
  "distinct (map fst (scrape (metrics_body metrics_default 3 4 \<lparr>cs_entries = 1, cs_hits = 2, cs_misses = 3, cs_stored = 1\<rparr> (Some 0) None)))"
  by (rule exposition_roundtrip [THEN conjunct2])
    (simp_all add: hist_ok_def metrics_default_def latency_histogram_default_def usize_max_def)

end
