(* ===== verification/Template.thy ===== *)
theory Template
  imports Error_Taxonomy "HOL-Library.Multiset" "HOL-Library.List_Lexorder" "HOL-Library.Char_ord"
begin

text \<open>
  String templates, \<^verbatim>\<open>runlet-core/src/template.rs\<close>: the native function behind \<^verbatim>\<open>$std.template\<close>. minijinja is an argument:
  compiling a source, rendering with a setting of undefined values and escaping, and the set of undeclared variables,
  which comes in the order of a hash table.
\<close>

datatype auto_escape = EscapeHtml | EscapeNone

text \<open>How an undefined value is printed: as minijinja does, or as the placeholder.\<close>

record 't minijinja =
  mj_compile :: "string \<Rightarrow> (string, 't) result"
  mj_render :: "auto_escape \<Rightarrow> string option \<Rightarrow> 't \<Rightarrow> json \<Rightarrow> (string, string) result"
  mj_undeclared :: "'t \<Rightarrow> string list"
  mj_read_json :: "string \<Rightarrow> (string, json) result"
  mj_read_opts :: "string \<Rightarrow> (string, bool \<times> string) result"

record render_opts =
  ro_html :: bool
  ro_missing :: string

definition parse_opts :: "'t minijinja \<Rightarrow> string \<Rightarrow> (string, render_opts) result" where
  "parse_opts mj opts_json =
     (if trim opts_json = [] then Inr \<lparr>ro_html = False, ro_missing = []\<rparr>
      else (case mj_read_opts mj opts_json of
              Inl e \<Rightarrow> Inl (''invalid template options: '' @ e)
            | Inr (html, missing) \<Rightarrow> Inr \<lparr>ro_html = html, ro_missing = missing\<rparr>))"

definition template_check :: "'t minijinja \<Rightarrow> string \<Rightarrow> (string, unit) result" where
  "template_check mj source = map_sum id (\<lambda>t. ()) (mj_compile mj source)"

definition template_render :: "'t minijinja \<Rightarrow> string \<Rightarrow> string \<Rightarrow> string \<Rightarrow> (string, string) result" where
  "template_render mj source context_json opts_json =
     (case parse_opts mj opts_json of
        Inl e \<Rightarrow> Inl e
      | Inr opts \<Rightarrow>
          (case mj_read_json mj context_json of
             Inl e \<Rightarrow> Inl (''invalid template context: '' @ e)
           | Inr ctx \<Rightarrow>
               (let escape = (if ro_html opts then EscapeHtml else EscapeNone);
                    placeholder = (if ro_missing opts = [] then None else Some (ro_missing opts))
                in case mj_compile mj source of
                     Inl e \<Rightarrow> Inl e
                   | Inr t \<Rightarrow> mj_render mj escape placeholder t ctx)))"

definition template_fields :: "'t minijinja \<Rightarrow> string \<Rightarrow> (string, string list) result" where
  "template_fields mj source = map_sum id (\<lambda>t. sort (mj_undeclared mj t)) (mj_compile mj source)"

text \<open>The replies, \<^verbatim>\<open>{"v": ...}\<close> and \<^verbatim>\<open>{"list": [...]}\<close>; \<open>print\<close> is the serialiser.\<close>

definition template_value_json :: "(json \<Rightarrow> (string, string) result) \<Rightarrow> string \<Rightarrow> string" where
  "template_value_json print v = json_envelope ''v'' (printed print (quoted_text []) (JStr v))"

definition template_list_json :: "(json \<Rightarrow> (string, string) result) \<Rightarrow> string list \<Rightarrow> string" where
  "template_list_json print vs = json_envelope ''list'' (printed print ''[]'' (JArr (map JStr vs)))"

definition template_dispatch ::
  "(json \<Rightarrow> (string, string) result) \<Rightarrow> 't minijinja \<Rightarrow> string \<Rightarrow> string \<Rightarrow> string \<Rightarrow> string \<Rightarrow> (string, string) result" where
  "template_dispatch print mj opname source arg2 arg3 =
     (if opname = ''check'' then map_sum id (\<lambda>u. template_value_json print []) (template_check mj source)
      else if opname = ''render'' then map_sum id (template_value_json print) (template_render mj source arg2 arg3)
      else if opname = ''fields'' then map_sum id (template_list_json print) (template_fields mj source)
      else Inl (''unknown template op: '' @ opname))"

definition template_native ::
  "(json \<Rightarrow> (string, string) result) \<Rightarrow> 't minijinja \<Rightarrow> string \<Rightarrow> string \<Rightarrow> string \<Rightarrow> string \<Rightarrow> string" where
  "template_native print mj opname source arg2 arg3 =
     (case template_dispatch print mj opname source arg2 arg3 of Inr json \<Rightarrow> json | Inl e \<Rightarrow> error_json print e)"

text \<open>A source that does not compile is reported with the same message when it is checked, rendered and asked for its fields.\<close>

lemma syntax_errors_agree:
  assumes "template_check mj source = Inl e"
  shows "template_fields mj source = Inl e"
    and "parse_opts mj opts = Inr ro \<Longrightarrow> mj_read_json mj ctx = Inr j \<Longrightarrow> template_render mj source ctx opts = Inl e"
proof -
  have "mj_compile mj source = Inl e" using assms by (cases "mj_compile mj source") (simp_all add: template_check_def)
  then show "template_fields mj source = Inl e"
    and "parse_opts mj opts = Inr ro \<Longrightarrow> mj_read_json mj ctx = Inr j \<Longrightarrow> template_render mj source ctx opts = Inl e"
    by (simp_all add: template_fields_def template_render_def Let_def)
qed

text \<open>The order of the hash table does not show: the reply depends on the multiset of names only.\<close>

lemma fields_hash_order:
  assumes "\<And>t. mset (f t) = mset (mj_undeclared mj t)"
  shows "template_native print (mj\<lparr>mj_undeclared := f\<rparr>) opname source arg2 arg3 = template_native print mj opname source arg2 arg3"
proof -
  have "sort (f t) = sort (mj_undeclared mj t)" for t
    using assms [of t] by (metis properties_for_sort mset_sort sorted_sort)
  then show ?thesis
    by (simp add: template_native_def template_dispatch_def template_check_def template_fields_def template_render_def parse_opts_def
        cong: sum.case_cong)
qed

end
