(* ===== verification/Surface.thy ===== *)
theory Surface
  imports Engine Decimal S3 Sys Template
begin

text \<open>
  The surface a script sees, \<^verbatim>\<open>runlet-core/src/engine/inject.rs\<close> and the injection steps of \<^verbatim>\<open>engine/mod.rs\<close>: the \<^verbatim>\<open>$std\<close> namespace built
  from framework units, each evaluated from its source or from bytecode compiled when the pool was warmed up, the
  native functions, and what of them the deterministic profile withholds.

  Arguments of the model: QuickJS (compiling a unit, evaluating a source or a compiled unit, setting a global) and the
  texts of the framework's JavaScript files. Compiled units are modules (\<^verbatim>\<open>Module::declare\<close>) while sources are evaluated as
  scripts (\<^verbatim>\<open>Ctx::eval\<close>), so which unit runs is stated here, and not that both ways have the same effect.
\<close>

subsection \<open>Units\<close>

record js_texts =
  jt_std :: string
  jt_std_project :: string
  jt_std_freeze :: string
  jt_std_lazy :: string
  jt_bridge :: string
  jt_ffi :: string
  jt_decimal :: string
  jt_money :: string
  jt_text :: string
  jt_list :: string
  jt_dict :: string
  jt_template :: string
  jt_check :: string
  jt_sys :: string
  jt_datetime :: string
  jt_emit :: string
  jt_log :: string
  jt_io :: string
  jt_http :: string
  jt_s3 :: string







subsection \<open>The compiled surface\<close>

record ('b, 'v) js_engine =
  js_compile :: "string \<Rightarrow> string \<Rightarrow> (string, 'b) result"
  js_eval :: "string \<Rightarrow> 'v \<Rightarrow> (string, 'v) result"
  js_eval_bytecode :: "'b \<Rightarrow> 'v \<Rightarrow> (string, 'v) result"
  js_set_global :: "string \<Rightarrow> 'v \<Rightarrow> (string, 'v) result"

record 'b precompiled_surface =
  ps_std :: 'b
  ps_bridge :: 'b
  ps_ffi :: 'b
  ps_std_lazy :: 'b
  ps_std_project :: 'b
  ps_std_freeze :: 'b
  ps_build_units :: "(string \<times> 'b) list"
  ps_datetime_full :: 'b
  ps_datetime_deterministic :: 'b




subsection \<open>Injection\<close>

text \<open>A context: the globals set by the host so far, in order, and the realm behind them.\<close>

record 'v js_context =
  cx_natives :: "string list"
  cx_realm :: 'v

definition in_realm :: "('v \<Rightarrow> (string, 'v) result) \<Rightarrow> 'v js_context \<Rightarrow> (string, 'v js_context) result" where
  "in_realm f cx = map_sum id (\<lambda>v. cx\<lparr>cx_realm := v\<rparr>) (f (cx_realm cx))"

definition set_native :: "('b, 'v) js_engine \<Rightarrow> string \<Rightarrow> 'v js_context \<Rightarrow> (string, 'v js_context) result" where
  "set_native js name cx =
     map_sum id (\<lambda>v. \<lparr>cx_natives = cx_natives cx @ [name], cx_realm = v\<rparr>) (js_set_global js name (cx_realm cx))"

definition inject_unit ::
  "('b, 'v) js_engine \<Rightarrow> 'b option \<Rightarrow> string \<Rightarrow> 'v js_context \<Rightarrow> (string, 'v js_context) result" where
  "inject_unit js surface source cx =
     (case surface of
        Some bytecode \<Rightarrow> in_realm (js_eval_bytecode js bytecode) cx
      | None \<Rightarrow> in_realm (js_eval js source) cx)"

definition inject_std_bootstrap ::
  "('b, 'v) js_engine \<Rightarrow> js_texts \<Rightarrow> 'b precompiled_surface option \<Rightarrow> 'v js_context \<Rightarrow> (string, 'v js_context) result" where
  "inject_std_bootstrap js t surface = inject_unit js (map_option ps_std surface) (jt_std t)"

definition project_std_globals ::
  "('b, 'v) js_engine \<Rightarrow> js_texts \<Rightarrow> 'b precompiled_surface option \<Rightarrow> 'v js_context \<Rightarrow> (string, 'v js_context) result" where
  "project_std_globals js t surface = inject_unit js (map_option ps_std_project surface) (jt_std_project t)"


definition inject_bridge ::
  "('b, 'v) js_engine \<Rightarrow> js_texts \<Rightarrow> 'b precompiled_surface option \<Rightarrow> 'v js_context \<Rightarrow> (string, 'v js_context) result" where
  "inject_bridge js t surface cx =
     and_then (inject_unit js (map_option ps_bridge surface) (jt_bridge t) cx)
       (inject_unit js (map_option ps_ffi surface) (jt_ffi t))"


definition context_post_step :: "(json \<Rightarrow> (string, string) result) \<Rightarrow> sys_config \<Rightarrow> (string, string) result" where
  "context_post_step print cfg =
     and_then (print (JObj (sy_env cfg))) (\<lambda>env_json.
     and_then (print (JArr (map JStr (secret_names cfg)))) (\<lambda>names_json.
     Inr (''$std.env = '' @ env_json @ ''; $std.secrets = globalThis.__sysMakeSecrets('' @ names_json @ '');'')))"

definition inject_lazy_std ::
  "('b, 'v) js_engine \<Rightarrow> js_texts \<Rightarrow> (json \<Rightarrow> (string, string) result) \<Rightarrow> sys_config option \<Rightarrow> 'b precompiled_surface option \<Rightarrow>
   'v js_context \<Rightarrow> (string, 'v js_context) result" where
  "inject_lazy_std js t print sys_config surface cx =
     and_then (set_native js ''__decimal'' cx) (\<lambda>cx1.
     and_then (set_native js ''__default_currency'' cx1) (\<lambda>cx2.
     and_then (set_native js ''__sys'' cx2) (\<lambda>cx3.
     and_then (set_native js ''__template'' cx3) (\<lambda>cx4.
     and_then (case sys_config of Some cfg \<Rightarrow> context_post_step print cfg | None \<Rightarrow> Inr []) (\<lambda>sys_post.
     and_then (set_native js ''__stdBuild'' cx4) (\<lambda>cx5.
     inject_unit js (map_option ps_std_lazy surface) (jt_std_lazy t) cx5))))))"

definition inject_named ::
  "('b, 'v) js_engine \<Rightarrow> string \<Rightarrow> string \<Rightarrow> 'v js_context \<Rightarrow> (string, 'v js_context) result" where
  "inject_named js name wrapper cx = and_then (set_native js name cx) (in_realm (js_eval js wrapper))"

text \<open>\<^verbatim>\<open>inject_log\<close> also publishes the level floor, a number, which its wrapper reads.\<close>

definition inject_log_surface ::
  "('b, 'v) js_engine \<Rightarrow> js_texts \<Rightarrow> 'v js_context \<Rightarrow> (string, 'v js_context) result" where
  "inject_log_surface js t cx = and_then (set_native js ''__logFloor'' cx) (inject_named js ''__log'' (jt_log t))"

fun eval_all :: "('b, 'v) js_engine \<Rightarrow> string list \<Rightarrow> 'v js_context \<Rightarrow> (string, 'v js_context) result" where
  "eval_all js [] cx = Inr cx"
| "eval_all js (w # ws) cx = and_then (in_realm (js_eval js w) cx) (eval_all js ws)"

definition inject_mux_wrappers ::
  "('b, 'v) js_engine \<Rightarrow> js_texts \<Rightarrow> 'w mux_params \<Rightarrow> 'v js_context \<Rightarrow> (string, 'v js_context) result" where
  "inject_mux_wrappers js t mp cx =
     (case inject_registry mp of
        None \<Rightarrow> Inr cx
      | Some wrappers \<Rightarrow> and_then (inject_named js ''__io'' (jt_io t) cx) (eval_all js wrappers))"

text \<open>\<open>http_client\<close> is whether the HTTP client could be built.\<close>

definition inject_apis ::
  "('b, 'v) js_engine \<Rightarrow> js_texts \<Rightarrow> profile \<Rightarrow> string list \<Rightarrow> (string, unit) result \<Rightarrow> s3_config option \<Rightarrow> 'v js_context \<Rightarrow>
   (string, 'v js_context) result" where
  "inject_apis js t profile allowed_hosts http_client s3_config cx =
     (if profile \<noteq> Full then Inr cx
      else and_then
             (if allowed_hosts = [] then Inr cx
              else and_then http_client (\<lambda>u. inject_named js ''__http'' (jt_http t) cx))
             (\<lambda>cx1. case s3_config of None \<Rightarrow> Inr cx1 | Some cfg \<Rightarrow> inject_named js ''__s3'' (jt_s3 t) cx1))"

text \<open>The steps of \<^verbatim>\<open>run\<close> up to the evaluation of the script.\<close>

definition setup_context ::
  "('b, 'v) js_engine \<Rightarrow> js_texts \<Rightarrow> (json \<Rightarrow> (string, string) result) \<Rightarrow> 'w exec_params \<Rightarrow> sys_config option \<Rightarrow>
   (string, unit) result \<Rightarrow> s3_config option \<Rightarrow> 'b precompiled_surface option \<Rightarrow> 'v js_context \<Rightarrow> (string, 'v js_context) result" where
  "setup_context js t print p sys_config http_client s3_config surface cx =
     and_then (inject_std_bootstrap js t surface cx) (\<lambda>cx1.
     and_then (inject_bridge js t surface cx1) (\<lambda>cx2.
     and_then (inject_lazy_std js t print sys_config surface cx2) (\<lambda>cx3.
     and_then (inject_named js ''__emit'' (jt_emit t) cx3) (\<lambda>cx4.
     and_then (inject_log_surface js t cx4) (\<lambda>cx5.
     and_then (if xp_profile p = Full then inject_mux_wrappers js t (xp_mux p) cx5 else Inr cx5) (\<lambda>cx6.
     and_then (inject_apis js t (xp_profile p) (xp_allowed_hosts p) http_client s3_config cx6) (\<lambda>cx7.
     project_std_globals js t surface cx7)))))))"

subsection \<open>The native functions of the standard library\<close>

fun decimal_out_json :: "(json \<Rightarrow> (string, string) result) \<Rightarrow> decimal_out \<Rightarrow> string" where
  "decimal_out_json print (Scalar v) = json_envelope ''v'' (printed print (quoted_text ''0'') (JStr v))"
| "decimal_out_json print (DecimalList vs) = json_envelope ''list'' (printed print ''[]'' (JArr (map JStr vs)))"

definition decimal_native ::
  "(json \<Rightarrow> (string, string) result) \<Rightarrow> 'd decimal_ops \<Rightarrow> string \<Rightarrow> string \<Rightarrow> string \<Rightarrow> string \<Rightarrow> string" where
  "decimal_native print ops opname lhs rhs aux =
     (case decimal_dispatch ops opname lhs rhs aux of Inr out \<Rightarrow> decimal_out_json print out | Inl e \<Rightarrow> error_json print e)"

definition sys_value_json :: "(json \<Rightarrow> (string, string) result) \<Rightarrow> json \<Rightarrow> string" where
  "sys_value_json print v =
     (case print v of
        Inr inner \<Rightarrow> json_envelope ''v'' inner
      | Inl e \<Rightarrow> json_envelope ''error'' (quoted_text ''failed to encode result''))"

definition sys_native ::
  "(json \<Rightarrow> (string, string) result) \<Rightarrow> crypto_ops \<Rightarrow> ('n, 'z) chrono \<Rightarrow> (string \<Rightarrow> (string, json) result) \<Rightarrow> sys_config option \<Rightarrow>
   string \<Rightarrow> string \<Rightarrow> string \<Rightarrow> string" where
  "sys_native print co ch parse sys_config domain opname payload =
     (let secrets = (case sys_config of Some cfg \<Rightarrow> secret_store_of cfg | None \<Rightarrow> Map.empty)
      in case sys_dispatch co ch parse domain opname payload secrets of
           Inr v \<Rightarrow> sys_value_json print v
         | Inl e \<Rightarrow> error_json print e)"

definition s3_error_json :: "(json \<Rightarrow> (string, string) result) \<Rightarrow> s3_error \<Rightarrow> string" where
  "s3_error_json print e = capability_fault_json print SrcS3 (s3e_fault e) (s3e_message e) (s3e_details e)"

text \<open>
  A call of a native function of the standard library by its global name: what surrounds it is the environment, of which
  the clock, the generator of random identifiers and the order of a hash table can change from one run to the next.
\<close>

record ('d, 'n, 'z, 't) std_env =
  sv_print :: "json \<Rightarrow> (string, string) result"
  sv_parse :: "string \<Rightarrow> (string, json) result"
  sv_decimal :: "'d decimal_ops"
  sv_crypto :: crypto_ops
  sv_chrono :: "('n, 'z) chrono"
  sv_template :: "'t minijinja"
  sv_config :: "sys_config option"

definition std_native :: "('d, 'n, 'z, 't) std_env \<Rightarrow> string \<Rightarrow> string list \<Rightarrow> string option" where
  "std_native e name args =
     (if name = ''__decimal'' then
        (case args of [a, b, c, d] \<Rightarrow> Some (decimal_native (sv_print e) (sv_decimal e) a b c d) | _ \<Rightarrow> None)
      else if name = ''__sys'' then
        (case args of
           [a, b, c] \<Rightarrow> Some (sys_native (sv_print e) (sv_crypto e) (sv_chrono e) (sv_parse e) (sv_config e) a b c)
         | _ \<Rightarrow> None)
      else if name = ''__template'' then
        (case args of [a, b, c, d] \<Rightarrow> Some (template_native (sv_print e) (sv_template e) a b c d) | _ \<Rightarrow> None)
      else None)"

definition ambient_variant ::
  "('d, 'n, 'z, 't) std_env \<Rightarrow> ('d, 'n, 'z, 't) std_env \<Rightarrow> bool" where
  "ambient_variant e e' \<longleftrightarrow>
     (\<exists>now uuid f. (\<forall>t. mset (f t) = mset (mj_undeclared (sv_template e) t)) \<and>
        e' = e\<lparr>sv_crypto := (sv_crypto e)\<lparr>co_uuid := uuid\<rparr>, sv_chrono := (sv_chrono e)\<lparr>ch_now := now\<rparr>,
               sv_template := (sv_template e)\<lparr>mj_undeclared := f\<rparr>\<rparr>)"

text \<open>What of the system library reads the clock and the generator.\<close>

lemmas branch_congs = sum.case_cong option.case_cong prod.case_cong if_cong

lemma crypto_ambient:
  assumes "opname \<noteq> ''uuid''"
  shows "crypto_dispatch (co\<lparr>co_uuid := u\<rparr>) opname payload secrets = crypto_dispatch co opname payload secrets"
proof -
  have "encode_bytes (co\<lparr>co_uuid := u\<rparr>) = encode_bytes co" by (simp add: encode_bytes_def fun_eq_iff)
  then have "hmac_op (co\<lparr>co_uuid := u\<rparr>) payload secrets = hmac_op co payload secrets"
    by (simp add: hmac_op_def Let_def cong: branch_congs)
  then show ?thesis using assms by (simp add: crypto_dispatch_def encoding_dispatch_def cong: branch_congs)
qed

lemma chrono_ambient_fields:
  "field_i64 (ch\<lparr>ch_now := n\<rparr>) = field_i64 ch" "instant_at (ch\<lparr>ch_now := n\<rparr>) = instant_at ch"
  "resolve_zone (ch\<lparr>ch_now := n\<rparr>) = resolve_zone ch" "parse_zone (ch\<lparr>ch_now := n\<rparr>) = parse_zone ch"
  "from_local (ch\<lparr>ch_now := n\<rparr>) = from_local ch" "days_in_month (ch\<lparr>ch_now := n\<rparr>) = days_in_month ch"
  "part_i64 (ch\<lparr>ch_now := n\<rparr>) = part_i64 ch" "part_u32 (ch\<lparr>ch_now := n\<rparr>) = part_u32 ch"
  "parse_input (ch\<lparr>ch_now := n\<rparr>) = parse_input ch"
proof -
  have a: "as_i64 (ch\<lparr>ch_now := n\<rparr>) = as_i64 ch"
  proof
    fix j
    show "as_i64 (ch\<lparr>ch_now := n\<rparr>) j = as_i64 ch j" by (cases j) simp_all
  qed
  have z: "parse_zone (ch\<lparr>ch_now := n\<rparr>) = parse_zone ch" by (simp add: parse_zone_def fun_eq_iff)
  show "parse_zone (ch\<lparr>ch_now := n\<rparr>) = parse_zone ch" by (rule z)
  show "field_i64 (ch\<lparr>ch_now := n\<rparr>) = field_i64 ch" "instant_at (ch\<lparr>ch_now := n\<rparr>) = instant_at ch"
    "resolve_zone (ch\<lparr>ch_now := n\<rparr>) = resolve_zone ch" "from_local (ch\<lparr>ch_now := n\<rparr>) = from_local ch"
    "days_in_month (ch\<lparr>ch_now := n\<rparr>) = days_in_month ch" "part_i64 (ch\<lparr>ch_now := n\<rparr>) = part_i64 ch"
    "part_u32 (ch\<lparr>ch_now := n\<rparr>) = part_u32 ch"
    by (simp_all add: fun_eq_iff field_i64_def instant_at_def resolve_zone_def from_local_def days_in_month_def part_i64_def
        part_u32_def a z Let_def cong: branch_congs)
  show "parse_input (ch\<lparr>ch_now := n\<rparr>) = parse_input ch"
    by (simp add: fun_eq_iff parse_input_def parse_date_str_def Let_def split: json.split cong: branch_congs)
qed

lemma boundary_ambient: "boundary_date (ch\<lparr>ch_now := n\<rparr>) = boundary_date ch"
proof -
  have "month_boundary (ch\<lparr>ch_now := n\<rparr>) = month_boundary ch"
    by (simp add: fun_eq_iff month_boundary_def chrono_ambient_fields cong: branch_congs)
  then show ?thesis
    by (simp add: fun_eq_iff boundary_date_def week_boundary_def quarter_boundary_def year_boundary_def Let_def
        cong: branch_congs)
qed

lemma datetime_ambient:
  assumes "opname \<noteq> ''now''"
  shows "datetime_dispatch (ch\<lparr>ch_now := n\<rparr>) opname payload = datetime_dispatch ch opname payload"
  using assms
  by (simp add: datetime_dispatch_def datetime_parse_def datetime_from_def datetime_add_def datetime_parts_def
      datetime_boundary_def datetime_iso_def datetime_format_def datetime_diff_def chrono_ambient_fields boundary_ambient
      cong: branch_congs)

lemma sys_native_ambient:
  assumes "\<not> (domain = ''crypto'' \<and> opname = ''uuid'')" and "\<not> (domain = ''datetime'' \<and> opname = ''now'')"
  shows "sys_native print (co\<lparr>co_uuid := u\<rparr>) (ch\<lparr>ch_now := n\<rparr>) parse cfg domain opname payload =
    sys_native print co ch parse cfg domain opname payload"
proof -
  have "sys_dispatch (co\<lparr>co_uuid := u\<rparr>) (ch\<lparr>ch_now := n\<rparr>) parse domain opname payload sec =
      sys_dispatch co ch parse domain opname payload sec" for sec
    using assms crypto_ambient [where co = co and u = u and opname = opname] datetime_ambient [where ch = ch and n = n and opname = opname]
    by (cases "parse payload") (auto simp: sys_dispatch_def)
  then show ?thesis by (simp add: sys_native_def)
qed

subsection \<open>Bytecode and source\<close>







subsection \<open>Which natives there are\<close>

lemma natives_of_steps:
  "in_realm f cx = Inr cx' \<Longrightarrow> cx_natives cx' = cx_natives cx"
  "set_native js name cx = Inr cx' \<Longrightarrow> cx_natives cx' = cx_natives cx @ [name]"
  "inject_unit js sf src cx = Inr cx' \<Longrightarrow> cx_natives cx' = cx_natives cx"
proof -
  show r: "in_realm f cx = Inr cx' \<Longrightarrow> cx_natives cx' = cx_natives cx" for f
    by (cases "f (cx_realm cx)") (auto simp: in_realm_def)
  show "set_native js name cx = Inr cx' \<Longrightarrow> cx_natives cx' = cx_natives cx @ [name]"
    by (cases "js_set_global js name (cx_realm cx)") (auto simp: set_native_def)
  show "inject_unit js sf src cx = Inr cx' \<Longrightarrow> cx_natives cx' = cx_natives cx"
    using r by (simp add: inject_unit_def split: option.splits)
qed

lemma natives_of_injections:
  "inject_named js name wrapper cx = Inr cx' \<Longrightarrow> cx_natives cx' = cx_natives cx @ [name]"
  "eval_all js ws cx = Inr cx' \<Longrightarrow> cx_natives cx' = cx_natives cx"
  "inject_mux_wrappers js t mp cx = Inr cx' \<Longrightarrow>
     cx_natives cx' = cx_natives cx @ (if inject_registry mp = None then [] else [''__io''])"
  "inject_apis js t profile hosts client s3 cx = Inr cx' \<Longrightarrow>
     cx_natives cx' = cx_natives cx @ (if profile = Full \<and> hosts \<noteq> [] then [''__http''] else []) @
       (if profile = Full \<and> s3 \<noteq> None then [''__s3''] else [])"
  "inject_log_surface js t cx = Inr cx' \<Longrightarrow> cx_natives cx' = cx_natives cx @ [''__logFloor'', ''__log'']"
  "inject_lazy_std js t print cfg sf cx = Inr cx' \<Longrightarrow>
     cx_natives cx' = cx_natives cx @ [''__decimal'', ''__default_currency'', ''__sys'', ''__template'', ''__stdBuild'']"
proof -
  show named: "inject_named js name wrapper cx = Inr cx' \<Longrightarrow> cx_natives cx' = cx_natives cx @ [name]" for name wrapper cx cx'
    using natives_of_steps by (fastforce simp: inject_named_def and_then_Inr)
  show all: "eval_all js ws cx = Inr cx' \<Longrightarrow> cx_natives cx' = cx_natives cx" for ws cx cx'
    by (induction ws arbitrary: cx) (fastforce simp: and_then_Inr dest: natives_of_steps)+
  show "inject_mux_wrappers js t mp cx = Inr cx' \<Longrightarrow>
     cx_natives cx' = cx_natives cx @ (if inject_registry mp = None then [] else [''__io''])"
    using named all by (fastforce simp: inject_mux_wrappers_def and_then_Inr split: option.splits)
  show "inject_apis js t profile hosts client s3 cx = Inr cx' \<Longrightarrow>
     cx_natives cx' = cx_natives cx @ (if profile = Full \<and> hosts \<noteq> [] then [''__http''] else []) @
       (if profile = Full \<and> s3 \<noteq> None then [''__s3''] else [])"
    by (cases "profile = Full"; cases "hosts = []"; cases s3) (auto simp: inject_apis_def and_then_Inr dest!: named)
  show "inject_log_surface js t cx = Inr cx' \<Longrightarrow> cx_natives cx' = cx_natives cx @ [''__logFloor'', ''__log'']"
    by (auto simp: inject_log_surface_def and_then_Inr dest!: named natives_of_steps(2))
  assume "inject_lazy_std js t print cfg sf cx = Inr cx'"
  then obtain c1 c2 c3 c4 c5 where steps: "set_native js ''__decimal'' cx = Inr c1" "set_native js ''__default_currency'' c1 = Inr c2"
    "set_native js ''__sys'' c2 = Inr c3" "set_native js ''__template'' c3 = Inr c4" "set_native js ''__stdBuild'' c4 = Inr c5"
    "inject_unit js (map_option ps_std_lazy sf) (jt_std_lazy t) c5 = Inr cx'"
    unfolding inject_lazy_std_def and_then_Inr by blast
  then show "cx_natives cx' = cx_natives cx @ [''__decimal'', ''__default_currency'', ''__sys'', ''__template'', ''__stdBuild'']"
    using steps(1-5) [THEN natives_of_steps(2)] steps(6) [THEN natives_of_steps(3)] by simp
qed

subsection \<open>Properties\<close>


text \<open>C23: the globals a script finds. Besides what the framework's own scripts define, the host sets exactly these globals before a
  script is evaluated: the natives of the standard library with its builder and the default currency, the natives of
  the two channels with the level floor, and the capability mux, the HTTP client and the object store only in the full
  profile and only when the request brings a registry or fallback, allowed hosts, or an object-store configuration.\<close>

theorem native_authority:
  assumes "setup_context js t print p cfg client s3 surface \<lparr>cx_natives = [], cx_realm = v\<rparr> = Inr cx"
  shows "cx_natives cx =
    [''__decimal'', ''__default_currency'', ''__sys'', ''__template'', ''__stdBuild'', ''__emit'', ''__logFloor'', ''__log''] @
    (if mux_injected p then [''__io''] else []) @ (if http_injected p then [''__http''] else []) @
    (if xp_profile p = Full \<and> s3 \<noteq> None then [''__s3''] else [])"
proof -
  let ?cx = "\<lparr>cx_natives = [], cx_realm = v\<rparr>"
  obtain c1 c2 c3 c4 c5 c6 c7 where steps: "inject_std_bootstrap js t surface ?cx = Inr c1" "inject_bridge js t surface c1 = Inr c2"
    "inject_lazy_std js t print cfg surface c2 = Inr c3" "inject_named js ''__emit'' (jt_emit t) c3 = Inr c4"
    "inject_log_surface js t c4 = Inr c5"
    "(if xp_profile p = Full then inject_mux_wrappers js t (xp_mux p) c5 else Inr c5) = Inr c6"
    "inject_apis js t (xp_profile p) (xp_allowed_hosts p) client s3 c6 = Inr c7" "project_std_globals js t surface c7 = Inr cx"
    using assms unfolding setup_context_def and_then_Inr by blast
  have "cx_natives c1 = []" using steps(1) by (auto simp: inject_std_bootstrap_def dest!: natives_of_steps(3))
  moreover have "cx_natives c2 = cx_natives c1"
    using steps(2) by (auto simp: inject_bridge_def and_then_Inr dest!: natives_of_steps(3))
  moreover have "cx_natives c6 = cx_natives c5 @ (if mux_injected p then [''__io''] else [])"
    using steps(6) by (auto simp: mux_injected_def split: if_splits dest!: natives_of_injections(3))
  moreover have "cx_natives cx = cx_natives c7" using steps(8) by (auto simp: project_std_globals_def dest!: natives_of_steps(3))
  moreover note natives_of_injections(6) [OF steps(3)] natives_of_injections(1) [OF steps(4)]
    natives_of_injections(5) [OF steps(5)] natives_of_injections(4) [OF steps(7)]
  ultimately show ?thesis by (simp add: http_injected_def)
qed

text \<open>C24: where ambient state enters. Between two runs whose environments differ only in the clock, the random identifiers and the
  order of hash tables, a call of a native of the standard library answers the same, except for the two operations
  \<^verbatim>\<open>datetime.now\<close> and \<^verbatim>\<open>crypto.uuid\<close> of the system library; these answer with the clock and the identifier, and since the
  system library's native is a global in both profiles, so they do in the deterministic one.\<close>

theorem ambient_confined:
  assumes "ambient_variant e e'"
  shows "(std_native e' name args = std_native e name args \<or>
      name = ''__sys'' \<and> (\<exists>payload. args = [''datetime'', ''now'', payload] \<or> args = [''crypto'', ''uuid'', payload])) \<and>
    (sv_parse e payload = Inr j \<longrightarrow>
       std_native e ''__sys'' [''crypto'', ''uuid'', payload] = Some (sys_value_json (sv_print e) (JStr (co_uuid (sv_crypto e)))) \<and>
       (ch_now (sv_chrono e) = Inr now \<longrightarrow>
          std_native e ''__sys'' [''datetime'', ''now'', payload] = Some (sys_value_json (sv_print e) (json_int now))))"
proof -
  obtain n u f where f: "\<forall>t. mset (f t) = mset (mj_undeclared (sv_template e) t)"
    and e': "e' = e\<lparr>sv_crypto := (sv_crypto e)\<lparr>co_uuid := u\<rparr>, sv_chrono := (sv_chrono e)\<lparr>ch_now := n\<rparr>,
      sv_template := (sv_template e)\<lparr>mj_undeclared := f\<rparr>\<rparr>"
    using assms unfolding ambient_variant_def by blast
  have template: "template_native (sv_print e) ((sv_template e)\<lparr>mj_undeclared := f\<rparr>) a b c d =
      template_native (sv_print e) (sv_template e) a b c d" for a b c d
    using f by (intro fields_hash_order) simp
  have "std_native e' name args = std_native e name args"
    if "\<not> (name = ''__sys'' \<and> (\<exists>payload. args = [''datetime'', ''now'', payload] \<or> args = [''crypto'', ''uuid'', payload]))"
  proof (cases "name = ''__sys''")
    case True
    then have "\<not> (a = ''crypto'' \<and> b = ''uuid'')" "\<not> (a = ''datetime'' \<and> b = ''now'')" if "args = [a, b, c]" for a b c
      using that \<open>\<not> (name = _ \<and> _)\<close> by auto
    note same = sys_native_ambient [OF this]
    show ?thesis using True by (auto simp: std_native_def e' same split: list.split)
  next
    case False
    then show ?thesis using template by (simp add: std_native_def e' split: list.split)
  qed
  moreover have "std_native e ''__sys'' [''crypto'', ''uuid'', payload] = Some (sys_value_json (sv_print e) (JStr (co_uuid (sv_crypto e))))"
    if "sv_parse e payload = Inr j"
    using that by (simp add: std_native_def sys_native_def sys_dispatch_def crypto_dispatch_def Let_def)
  moreover have "std_native e ''__sys'' [''datetime'', ''now'', payload] = Some (sys_value_json (sv_print e) (json_int now))"
    if "sv_parse e payload = Inr j" "ch_now (sv_chrono e) = Inr now"
    using that by (simp add: std_native_def sys_native_def sys_dispatch_def datetime_dispatch_def Let_def)
  ultimately show ?thesis by blast
qed

definition sample_js_engine :: "(string, string list) js_engine" where
  "sample_js_engine =
     \<lparr>js_compile = (\<lambda>name src. Inr src), js_eval = (\<lambda>src v. Inr (v @ [src])), js_eval_bytecode = (\<lambda>b v. Inr (v @ [b])),
      js_set_global = (\<lambda>name v. Inr (v @ [name]))\<rparr>"

definition sample_texts :: js_texts where
  "sample_texts =
     \<lparr>jt_std = ''std'', jt_std_project = ''project'', jt_std_freeze = ''freeze'', jt_std_lazy = ''lazy'', jt_bridge = ''bridge'',
      jt_ffi = ''ffi'', jt_decimal = ''d'', jt_money = ''m'', jt_text = ''t'', jt_list = ''l'', jt_dict = ''di'', jt_template = ''te'',
      jt_check = ''c'', jt_sys = ''s'', jt_datetime = ''dt'', jt_emit = ''e'', jt_log = ''lo'', jt_io = ''io'', jt_http = ''h'',
      jt_s3 = ''s3''\<rparr>"



definition sample_params :: "unit exec_params" where
  "sample_params =
     \<lparr>xp_script = [], xp_profile = Deterministic, xp_timeout_ms = 0,
      xp_mux = \<lparr>mp_registry = registry_default, mp_fallback = None, mp_enabled_io = [], mp_max_ops = 0, mp_allow_private = False\<rparr>,
      xp_allowed_hosts = [''a''], xp_max_ops = 0, xp_max_emit_kind_len = 0,
      xp_log_limits = sample_limits, xp_max_output_size = 0, xp_allow_private = False, xp_wildcard_hosts = False\<rparr>"

theorem native_authority_witness:
  "\<exists>cx. setup_context sample_js_engine sample_texts (\<lambda>j. Inr []) sample_params None (Inr ()) None None \<lparr>cx_natives = [], cx_realm = []\<rparr> = Inr cx \<and>
     cx_natives cx = [''__decimal'', ''__default_currency'', ''__sys'', ''__template'', ''__stdBuild'', ''__emit'', ''__logFloor'', ''__log'']"
proof -
  have "\<exists>cx. setup_context sample_js_engine sample_texts (\<lambda>j. Inr []) sample_params None (Inr ()) None None \<lparr>cx_natives = [], cx_realm = []\<rparr> = Inr cx"
    by (simp add: setup_context_def inject_std_bootstrap_def inject_bridge_def inject_lazy_std_def inject_log_surface_def inject_named_def inject_apis_def
        project_std_globals_def inject_unit_def in_realm_def set_native_def and_then_def sample_js_engine_def sample_params_def)
  then show ?thesis using native_authority by (fastforce simp: sample_params_def mux_injected_def http_injected_def)
qed

definition sample_std_env :: "(rat, int \<times> nat \<times> nat, unit, unit) std_env" where
  "sample_std_env =
     \<lparr>sv_print = (\<lambda>j. case j of JNum n \<Rightarrow> Inr n | _ \<Rightarrow> Inr []), sv_parse = (\<lambda>s. Inr JNull), sv_decimal = sample_decimal,
      sv_crypto = sample_crypto, sv_chrono = gregorian\<lparr>ch_now := Inr 7\<rparr>,
      sv_template = \<lparr>mj_compile = (\<lambda>s. Inr ()), mj_render = (\<lambda>a b c d. Inr []), mj_undeclared = (\<lambda>t. [''a'', ''b'']),
        mj_read_json = (\<lambda>s. Inr JNull), mj_read_opts = (\<lambda>s. Inl [])\<rparr>,
      sv_config = None\<rparr>"

theorem ambient_confined_witness:
  "\<exists>e'. ambient_variant sample_std_env e' \<and> std_native e' ''__template'' [''fields'', [], [], []] = std_native sample_std_env ''__template'' [''fields'', [], [], []] \<and>
     std_native sample_std_env ''__sys'' [''datetime'', ''now'', []] = Some (sys_value_json (sv_print sample_std_env) (json_int 7))"
proof -
  let ?e = "sample_std_env"
  let ?e' = "?e\<lparr>sv_crypto := (sv_crypto ?e)\<lparr>co_uuid := ''u''\<rparr>, sv_chrono := (sv_chrono ?e)\<lparr>ch_now := Inr 8\<rparr>,
    sv_template := (sv_template ?e)\<lparr>mj_undeclared := (\<lambda>t. [''b'', ''a''])\<rparr>\<rparr>"
  have variant: "ambient_variant ?e ?e'"
    unfolding ambient_variant_def by (rule exI [of _ "Inr 8"], rule exI [of _ "''u''"], rule exI [of _ "\<lambda>t. [''b'', ''a'']"])
      (simp add: sample_std_env_def)
  have "ch_now (sv_chrono ?e) = Inr 7" "sv_parse ?e [] = Inr JNull" by (simp_all add: sample_std_env_def)
  then show ?thesis using ambient_confined [OF variant, of "''__template''" "[''fields'', [], [], []]" "[]" JNull 7] variant by auto
qed

end
