(* ===== verification/Boot.thy ===== *)
theory Boot
  imports Server Logic_Host Catalogue Broker Event_Pipeline Sys
begin

text \<open>
  The process from start to stop: \<^verbatim>\<open>main\<close> of \<^verbatim>\<open>runlet/src/main.rs\<close>, which composes the components in a fixed order, and
  \<^verbatim>\<open>ContractVerifier::new\<close> of \<^verbatim>\<open>runlet/src/contract.rs\<close>.

  \<open>boot_env\<close> is the process environment: the configuration file as serde reads it (\<open>Inr None\<close> when there is none), the two
  variables, the file system, the HTTP client builders, QuickJS, the number of processors, the QUIC endpoint and the socket.
  tokio's semaphores and channels refuse more than \<open>max_permits\<close> with a panic, which ends the process. Telemetry is fail-open
  and changes nothing here; log lines are not modelled.
\<close>

subsection \<open>The environment and its failures\<close>

record 'r boot_env =
  bo_file :: "(string, config option) result"
  bo_access_token :: "string option"
  bo_allow_unauthenticated :: "string option"
  bo_parse :: "string \<Rightarrow> parsed_url option"
  bo_dns :: "string \<Rightarrow> u16 \<Rightarrow> dns_answer"
  bo_dir :: "string \<Rightarrow> fs_node"
  bo_jwks_client :: "(string, unit) result"
  bo_local_client :: "(string, unit) result"
  bo_create_runtime :: "engine_config \<Rightarrow> (string \<rightharpoonup> string) \<Rightarrow> nat \<Rightarrow> (string, 'r) result"
  bo_surface :: "(string, unit) result"
  bo_parallelism :: "nat option"
  bo_hex :: "string \<Rightarrow> (string, u8 list) result"
  bo_endpoint :: "u8 list \<Rightarrow> (string, unit) result"
  bo_now :: nat
  bo_bind :: "ip_addr \<Rightarrow> u16 \<Rightarrow> (string, unit) result"

datatype boot_failure =
    ConfigUnreadable string
  | LimitsRejected nat nat
  | ExposureRefused boot_error
  | ScriptsRejected load_error
  | ModulesRejected load_error
  | ClientFailed string
  | PoolFailed string
  | TransportRejected string
  | CapabilitiesRejected registry_error
  | PermitsPanicked nat
  | BindFailed string

definition or_fail :: "('a \<Rightarrow> 'b) \<Rightarrow> ('a, 'c) result \<Rightarrow> ('b, 'c) result" where
  "or_fail f r = (case r of Inl e \<Rightarrow> Inl (f e) | Inr v \<Rightarrow> Inr v)"

definition permits :: "nat \<Rightarrow> (boot_failure, unit) result" where
  "permits n = (if n \<le> max_permits then Inr () else Inl (PermitsPanicked n))"

subsection \<open>The stages\<close>

definition boot_load :: "'r boot_env \<Rightarrow> (boot_failure, config) result" where
  "boot_load env =
     and_then (or_fail ConfigUnreadable (bo_file env)) (\<lambda>file.
     or_fail (\<lambda>(size, ceiling). LimitsRejected size ceiling)
       (load_config file (bo_access_token env) (bo_allow_unauthenticated env)))"

definition boot_catalogues ::
  "'r boot_env \<Rightarrow> config \<Rightarrow> (boot_failure, (string \<rightharpoonup> string) \<times> (string \<rightharpoonup> string)) result" where
  "boot_catalogues env cfg =
     (let max_size = ec_max_script_size (cf_engine cfg) in
      and_then (case cf_scripts_dir cfg of
                  None \<Rightarrow> Inr Map.empty
                | Some dir \<Rightarrow> or_fail ScriptsRejected (registry_load max_size (bo_dir env dir))) (\<lambda>scripts.
      and_then (case cf_modules_dir cfg of
                  None \<Rightarrow> Inr Map.empty
                | Some dir \<Rightarrow> or_fail ModulesRejected (module_load max_size (bo_dir env dir))) (\<lambda>modules.
      Inr (scripts, modules))))"

text \<open>Instants of theory \<open>Contract\<close> are in seconds here.\<close>

definition verifier_new :: "contract_config \<Rightarrow> verifier_config" where
  "verifier_new cc = \<lparr>vf_supported_ctr = cc_supported_ctr cc, vf_min_refresh = unat (cc_min_refresh_secs cc)\<rparr>"

definition boot_contract :: "'r boot_env \<Rightarrow> config \<Rightarrow> (boot_failure, verifier_config option) result" where
  "boot_contract env cfg =
     (if tc_enabled (cf_trusted cfg) \<and> cc_enabled (tc_contract (cf_trusted cfg))
      then and_then (or_fail ClientFailed (bo_jwks_client env)) (\<lambda>u. Inr (Some (verifier_new (tc_contract (cf_trusted cfg)))))
      else Inr None)"

definition trusted_of :: "config \<Rightarrow> verifier_config option \<Rightarrow> trusted_runtime option" where
  "trusted_of cfg contract =
     (if tc_enabled (cf_trusted cfg)
      then Some \<lparr>tr_headers = tc_headers (cf_trusted cfg),
                 tr_capability_entitlements = tc_capability_entitlements (cf_trusted cfg),
                 tr_allowed_principal_kinds = tc_allowed_principal_kinds (cf_trusted cfg), tr_contract = contract\<rparr>
      else None)"

definition quota_plans_of :: "config \<Rightarrow> plan_limits option" where
  "quota_plans_of cfg =
     (if tc_enabled (cf_trusted cfg) \<and> tc_quota_enabled (cf_trusted cfg) then Some (tc_quota_plans (cf_trusted cfg)) else None)"

definition boot_pipeline :: "'r boot_env \<Rightarrow> config \<Rightarrow> (boot_failure, pipeline option) result" where
  "boot_pipeline env cfg =
     (let ev = cf_events cfg in
      if evc_enabled ev
      then and_then (permits (max (evc_buffer ev) 1)) (\<lambda>u.
           and_then (permits (max (evc_log_buffer ev) 1)) (\<lambda>u'.
           Inr (Some (spawn (evc_buffer ev) (evc_log_buffer ev) (unat (evc_block_timeout_ms ev)) (bo_now env)))))
      else Inr None)"

text \<open>\<^verbatim>\<open>AppState\<close>: its immutable and its mutable half.\<close>

definition app_of ::
  "config \<Rightarrow> (string \<rightharpoonup> string) \<Rightarrow> nat \<Rightarrow> verifier_config option \<Rightarrow> bool \<Rightarrow> app_config" where
  "app_of cfg registry max_concurrent contract events =
     \<lparr>ac_registry = registry, ac_engine = cf_engine cfg, ac_error_debug = cf_error_debug cfg,
      ac_local_resources = map_of (cf_local_resources cfg), ac_bulkhead_capacity = max_concurrent,
      ac_access_token = cf_access_token cfg, ac_trusted = trusted_of cfg contract, ac_events = events,
      ac_batch = cf_batch cfg, ac_timeout_retryable = cf_timeout_retryable cfg,
      ac_retry_after_seconds = cf_retry_after_seconds cfg, ac_default_currency = cf_default_currency cfg\<rparr>"

definition world_of :: "'s semaphore_ops \<Rightarrow> config \<Rightarrow> nat \<Rightarrow> ('k, 's) world" where
  "world_of ops cfg max_concurrent =
     \<lparr>wd_gates = gate_new ops max_concurrent (resolved_partition_buckets (cf_engine cfg))
                   (ec_max_concurrent_per_partition (cf_engine cfg)),
      wd_quota = map_option tenant_quota_new (quota_plans_of cfg), wd_keys = key_cache_default,
      wd_metrics = metrics_default, wd_events = []\<rparr>"

subsection \<open>The routes\<close>

datatype endpoint = Health | Scrape | Execute | BatchExecute

definition batch_body_limit :: "config \<Rightarrow> nat" where
  "batch_body_limit cfg = max (bt_max_input_bytes (cf_batch cfg)) (max_body_size (cf_engine cfg))"

text \<open>Method, path, handler and the largest body it reads.\<close>

definition routes :: "config \<Rightarrow> (string \<times> string \<times> endpoint \<times> nat) list" where
  "routes cfg =
     (let body_limit = max_body_size (cf_engine cfg)
      in [(''GET'', ''/health'', Health, body_limit), (''GET'', ''/metrics'', Scrape, body_limit),
          (''POST'', ''/execute'', Execute, body_limit), (''POST'', ''/batch'', BatchExecute, batch_body_limit cfg)])"

subsection \<open>The process\<close>

record ('k, 's, 'w, 'r, 'h, 'b) process =
  pr_config :: config
  pr_app :: app_config
  pr_world :: "('k, 's) world"
  pr_host :: "('w, 'r, 'h, 'b) logic_host"
  pr_modules :: "string \<rightharpoonup> string"
  pr_transport :: broker_transport
  pr_pipeline :: "pipeline option"
  pr_routes :: "(string \<times> string \<times> endpoint \<times> nat) list"

definition boot ::
  "'s semaphore_ops \<Rightarrow> 'r boot_env \<Rightarrow> (boot_failure, ('k, 's, 'w, 'r, 'h, 'b) process) result" where
  "boot ops env =
     and_then (boot_load env) (\<lambda>cfg.
     and_then (or_fail ExposureRefused (check_exposure (bo_parse env) (bo_dns env) cfg)) (\<lambda>u.
     and_then (boot_catalogues env cfg) (\<lambda>(scripts, modules).
     and_then (boot_contract env cfg) (\<lambda>contract.
     and_then (or_fail PoolFailed (pool_new (bo_create_runtime env (cf_engine cfg) modules) (bo_surface env)
                 (ec_pool_size (cf_engine cfg)) (bo_parallelism env))) (\<lambda>pool.
     let max_concurrent = resolved_max_concurrent (cf_engine cfg) (jp_size pool) in
     and_then (permits (ec_max_concurrent_per_partition (cf_engine cfg))) (\<lambda>u1.
     and_then (or_fail TransportRejected (transport_from_config (bo_hex env) (bo_endpoint env) (cf_broker_socket cfg)
                 (cf_broker_quic cfg))) (\<lambda>transport.
     and_then (or_fail ClientFailed (bo_local_client env)) (\<lambda>u2.
     and_then (or_fail CapabilitiesRejected (host_build pool (cache_new DEFAULT_MIN_SOURCE_BYTES) scripts (cf_engine cfg)
                 (cf_debug cfg) [] None)) (\<lambda>host.
     and_then (boot_pipeline env cfg) (\<lambda>pipeline.
     and_then (permits max_concurrent) (\<lambda>u3.
     and_then (or_fail BindFailed (bo_bind env (cf_host cfg) (cf_port cfg))) (\<lambda>u4.
     Inr \<lparr>pr_config = cfg, pr_app = app_of cfg scripts max_concurrent contract (pipeline \<noteq> None),
          pr_world = world_of ops cfg max_concurrent, pr_host = host, pr_modules = modules, pr_transport = transport,
          pr_pipeline = pipeline, pr_routes = routes cfg\<rparr>))))))))))))"

text \<open>After the listener has drained: the pool is disposed, then the writers are awaited. The joins of the two writers are arguments;
  the result carries the milliseconds waited and the warnings.\<close>

definition shutdown ::
  "join_result \<Rightarrow> join_result \<Rightarrow> ('k, 's, 'w, 'r, 'h, 'b) process \<Rightarrow> ('k, 's, 'w, 'r, 'h, 'b) process \<times> nat \<times> string list" where
  "shutdown writer log_writer p =
     (p\<lparr>pr_host := host_shutdown (pr_host p)\<rparr>,
      case pr_pipeline p of None \<Rightarrow> (0, []) | Some pl \<Rightarrow> pipeline_shutdown writer log_writer)"

subsection \<open>Facts\<close>

lemma or_fail_Inr [simp]: "or_fail f r = Inr v \<longleftrightarrow> r = Inr v"
  by (simp add: or_fail_def split: sum.split)

lemma permits_Inr [simp]: "permits n = Inr u \<longleftrightarrow> n \<le> max_permits"
  by (simp add: permits_def)

lemma boot_load_Inr:
  "boot_load env = Inr cfg \<longleftrightarrow>
   (\<exists>file. bo_file env = Inr file \<and> load_config file (bo_access_token env) (bo_allow_unauthenticated env) = Inr cfg)"
  by (simp add: boot_load_def and_then_Inr)

lemma host_build_bare:
  "host_build pool cache registry limits private [] None = Inr h \<Longrightarrow>
   lh_pool h = pool \<and> lh_cache h = cache \<and> lh_registry h = registry \<and> lh_limits h = limits \<and> lh_allow_private_targets h = private"
  by (auto simp: host_build_def split: sum.splits)

text \<open>What a start that succeeded has established.\<close>

lemma boot_Inr:
  assumes "boot ops env = Inr p"
  obtains scripts modules contract pool n where "boot_load env = Inr (pr_config p)"
    and "is_ok (check_exposure (bo_parse env) (bo_dns env) (pr_config p))"
    and "boot_catalogues env (pr_config p) = Inr (scripts, modules)"
    and "boot_contract env (pr_config p) = Inr contract"
    and "pool_new (bo_create_runtime env (cf_engine (pr_config p)) modules) (bo_surface env)
           (ec_pool_size (cf_engine (pr_config p))) (bo_parallelism env) = Inr pool"
    and "n = resolved_max_concurrent (cf_engine (pr_config p)) (jp_size pool)" "n \<le> max_permits"
    and "ec_max_concurrent_per_partition (cf_engine (pr_config p)) \<le> max_permits"
    and "boot_pipeline env (pr_config p) = Inr (pr_pipeline p)"
    and "pr_app p = app_of (pr_config p) scripts n contract (pr_pipeline p \<noteq> None)"
    and "pr_world p = world_of ops (pr_config p) n"
    and "lh_pool (pr_host p) = pool" "lh_limits (pr_host p) = cf_engine (pr_config p)"
    and "lh_allow_private_targets (pr_host p) = cf_debug (pr_config p)" "lh_registry (pr_host p) = scripts"
    and "pr_routes p = routes (pr_config p)"
  using assms unfolding boot_def and_then_Inr Let_def
  by (auto simp: and_then_Inr dest!: host_build_bare split: prod.splits)

lemma load_config_Inr:
  assumes "load_config file token allow = Inr cfg"
  shows "ec_max_context_size (cf_engine cfg) * PARSE_HEAP_FACTOR \<le> ec_memory_limit (cf_engine cfg)"
    and "cf_access_token cfg = Some t \<Longrightarrow> token = Some t \<or> (\<exists>c. file = Some c \<and> cf_access_token c = Some t)"
    and "cf_allow_unauthenticated cfg \<Longrightarrow>
      (\<exists>raw. allow = Some raw \<and> is_truthy raw) \<or> (\<exists>c. file = Some c \<and> cf_allow_unauthenticated c)"
  using assms resolve_limits_sound
  by (auto simp: load_config_def apply_auth_overrides_def Let_def config_default_def split: sum.splits option.splits if_splits)

lemma warm_all: "warm create capacity n q = Inr q' \<Longrightarrow> length q' = length q + n"
  by (induction create capacity n q arbitrary: q' rule: warm.induct) (auto simp: queue_push_def split: sum.splits if_splits)

lemma pool_new_warm:
  "pool_new create surface configured parallelism = Inr p \<Longrightarrow> length (jp_idle p) = jp_size p \<and> jp_accepting p \<and> jp_in_flight p = 0"
  by (auto simp: pool_new_def Let_def dest: warm_all split: sum.splits)

subsection \<open>Properties\<close>

text \<open>C5: the process that boots is the server of the other theories. Its state is a start of the server's reachable states;
  in every state reached from there the executions in flight and the free permits make up the capacity resolved from the
  configuration, which is positive, and no bucket gives out more than the partition share; the pool is warm and accepts runs;
  handlers and host have one set of limits, under which a context of the largest accepted size leaves the heap room to parse it.\<close>

theorem boot_starts_server:
  assumes "semaphore ops" and "boot ops env = Inr p" and "engine = cf_engine (pr_config p)"
    and "capacity = resolved_max_concurrent engine (jp_size (lh_pool (pr_host p)))"
    and "reachable = server_reachable (pr_app p) ops hash sd capacity (resolved_partition_buckets engine)
           (ec_max_concurrent_per_partition engine) (quota_plans_of (pr_config p))"
    and "reachable w fls bs"
  shows "reachable (pr_world p) [] [] \<and> 0 < capacity \<and> ac_bulkhead_capacity (pr_app p) = capacity \<and>
    sem_available ops (gt_global (wd_gates w)) + length fls + batch_executions bs = capacity \<and>
    (i < live_buckets (resolved_partition_buckets engine) (ec_max_concurrent_per_partition engine) \<longrightarrow>
       in_bucket (map fl_permit fls) i \<le> ec_max_concurrent_per_partition engine) \<and>
    length (jp_idle (lh_pool (pr_host p))) = jp_size (lh_pool (pr_host p)) \<and> jp_accepting (lh_pool (pr_host p)) \<and>
    ac_engine (pr_app p) = engine \<and> lh_limits (pr_host p) = engine \<and> lh_registry (pr_host p) = ac_registry (pr_app p) \<and>
    ec_max_context_size engine * PARSE_HEAP_FACTOR \<le> ec_memory_limit engine"
proof -
  from assms(2) obtain scripts modules contract pool n where b: "boot_load env = Inr (pr_config p)"
      "pool_new (bo_create_runtime env engine modules) (bo_surface env) (ec_pool_size engine) (bo_parallelism env) = Inr pool"
      "n = resolved_max_concurrent engine (jp_size pool)" "n \<le> max_permits"
      "ec_max_concurrent_per_partition engine \<le> max_permits"
      "pr_app p = app_of (pr_config p) scripts n contract (pr_pipeline p \<noteq> None)" "pr_world p = world_of ops (pr_config p) n"
      "lh_pool (pr_host p) = pool" "lh_limits (pr_host p) = engine" "lh_registry (pr_host p) = scripts"
    unfolding assms(3) by (rule boot_Inr)
  have n: "n = capacity" using b(3,8) assms(4) by simp
  have "reachable (pr_world p) [] []"
    unfolding assms(5) by (rule sv_start) (simp_all add: b(7) world_of_def n assms(3))
  moreover note server_accounted [OF assms(1) b(5) _ assms(6) [unfolded assms(5)], where i = i]
  moreover have "0 < capacity" using resolve_limits_sound by (simp add: assms(4))
  moreover have "ec_max_context_size engine * PARSE_HEAP_FACTOR \<le> ec_memory_limit engine"
    using b(1) load_config_Inr(1) by (auto simp: boot_load_Inr assms(3))
  moreover note pool_new_warm [OF b(2)]
  ultimately show ?thesis using b(4,6,8-10) n by (auto simp: app_of_def assms(3))
qed

text \<open>C6: an exposed server is an authenticated one. When the process booted on an address that is not loopback and a request starts
  executing, the request presented the configured token, which came from the environment or the file, or the operator
  switched the requirement off in one of the two; identities are taken from headers, private targets are reachable and a
  wildcard host is honoured only under the operator's assertion of network isolation; and every box-direct endpoint passed
  the check of local addresses.\<close>

theorem booted_exposure:
  assumes "boot ops env = Inr p" and "\<not> is_loopback (cf_host (pr_config p))"
    and "run_execute_begin (pr_app p) e headers payload w = (Running fl, w')"
  shows "((\<exists>tok. request_authorized headers tok \<and>
             (bo_access_token env = Some tok \<or> (\<exists>c. bo_file env = Inr (Some c) \<and> cf_access_token c = Some tok))) \<or>
          (\<exists>raw. bo_allow_unauthenticated env = Some raw \<and> is_truthy raw) \<or>
          (\<exists>c. bo_file env = Inr (Some c) \<and> cf_allow_unauthenticated c)) \<and>
    (fl_identity fl \<noteq> None \<or> lh_allow_private_targets (pr_host p) \<or> ec_allow_wildcard_hosts (lh_limits (pr_host p)) \<longrightarrow>
       tc_assert_network_isolation (cf_trusted (pr_config p))) \<and>
    (ac_local_resources (pr_app p) name = Some url \<longrightarrow> is_ok (check_local_egress_url (bo_parse env) (bo_dns env) url))"
proof -
  let ?cfg = "pr_config p"
  from assms(1) obtain scripts contract n where b: "boot_load env = Inr ?cfg"
      "is_ok (check_exposure (bo_parse env) (bo_dns env) ?cfg)"
      "pr_app p = app_of ?cfg scripts n contract (pr_pipeline p \<noteq> None)" "lh_limits (pr_host p) = cf_engine ?cfg"
      "lh_allow_private_targets (pr_host p) = cf_debug ?cfg"
    by (rule boot_Inr)
  from b(1) obtain fl0 where f: "bo_file env = Inr fl0"
      "load_config fl0 (bo_access_token env) (bo_allow_unauthenticated env) = Inr ?cfg"
    by (auto simp: boot_load_Inr)
  note x = b(2) [unfolded check_exposure_ok]
  note r = begin_Running [OF assms(3)]
  have auth: "\<forall>tok. cf_access_token ?cfg = Some tok \<longrightarrow> request_authorized headers tok" using r by (simp add: b(3) app_of_def)
  have gate: "cf_access_token ?cfg \<noteq> None \<or> cf_allow_unauthenticated ?cfg" using x assms(2) by blast
  have "(\<exists>tok. request_authorized headers tok \<and>
             (bo_access_token env = Some tok \<or> (\<exists>c. bo_file env = Inr (Some c) \<and> cf_access_token c = Some tok))) \<or>
          (\<exists>raw. bo_allow_unauthenticated env = Some raw \<and> is_truthy raw) \<or>
          (\<exists>c. bo_file env = Inr (Some c) \<and> cf_allow_unauthenticated c)"
  proof (cases "cf_access_token ?cfg")
    case None
    then show ?thesis using gate load_config_Inr(3) [OF f(2)] f(1) by auto
  next
    case (Some tok)
    then show ?thesis using auth load_config_Inr(2) [OF f(2) Some] f(1) by auto
  qed
  moreover have "tc_enabled (cf_trusted ?cfg)" if "fl_identity fl \<noteq> None"
    using r that by (auto simp: accepted_identity_def b(3) app_of_def trusted_of_def split: if_splits)
  then have "tc_assert_network_isolation (cf_trusted ?cfg)"
    if "fl_identity fl \<noteq> None \<or> lh_allow_private_targets (pr_host p) \<or> ec_allow_wildcard_hosts (lh_limits (pr_host p))"
    using x assms(2) that unfolding b(4,5) by blast
  moreover have "is_ok (check_local_egress_url (bo_parse env) (bo_dns env) url)" if "ac_local_resources (pr_app p) name = Some url"
    using x that by (auto simp: b(3) app_of_def dest: map_of_SomeD)
  ultimately show ?thesis by blast
qed

text \<open>The guards come first: a refused exposure ends the start before a directory is read, a runtime created or a socket bound,
  whatever these would give.\<close>

lemma boot_guard_first:
  assumes "boot_load env = Inr cfg" and "check_exposure (bo_parse env) (bo_dns env) cfg = Inl e"
  shows "boot ops (env\<lparr>bo_dir := dirs, bo_create_runtime := create, bo_bind := socket\<rparr>) = Inl (ExposureRefused e)"
proof -
  have "boot_load (env\<lparr>bo_dir := dirs, bo_create_runtime := create, bo_bind := socket\<rparr>) = Inr cfg"
    using assms(1) by (simp add: boot_load_Inr)
  then show ?thesis using assms(2) by (simp add: boot_def and_then_def or_fail_def)
qed

text \<open>Identity settings lie dormant outside trusted mode: whatever contract, admitted principal kinds and quota are configured, and
  checked by the guards, a process booted without trusted mode verifies no contract, admits every request without an identity and
  counts no tenant.\<close>

lemma dormant_identity_settings:
  assumes "boot ops env = Inr p" and "\<not> tc_enabled (cf_trusted (pr_config p))"
  shows "ac_trusted (pr_app p) = None \<and> wd_quota (pr_world p) = None \<and>
    resolve_identity (pr_app p) e headers w = (Inr None, w)"
proof -
  from assms(1) obtain scripts contract n where "pr_app p = app_of (pr_config p) scripts n contract (pr_pipeline p \<noteq> None)"
      "pr_world p = world_of ops (pr_config p) n"
    by (rule boot_Inr)
  then show ?thesis
    using assms(2) by (simp add: app_of_def trusted_of_def world_of_def quota_plans_of_def resolve_identity_def Let_def)
qed

text \<open>Stopping takes at most the two flush budgets, disposes of every warm runtime and refuses every later run.\<close>

lemma shutdown_complete:
  assumes "shutdown writer log_writer p = (p', ms, warnings)"
  shows "ms \<le> 2 * FLUSH_BUDGET \<and> jp_idle (lh_pool (pr_host p')) = [] \<and>
    fst (host_run js env (pr_host p') iv w) = Inl ShuttingDown"
  using assms shutdown_time [of writer log_writer]
  by (auto simp: shutdown_def host_shutdown_def pool_shutdown_def shutdown_store_def host_run_def split: option.splits)

subsection \<open>A start on an exposed address\<close>

definition exposed_config :: config where
  "exposed_config = config_default\<lparr>cf_host := V4 (Ipv4 10 0 0 1), cf_access_token := Some ''t0ken'',
     cf_engine := engine_config_default\<lparr>ec_pool_size := 1, ec_max_context_size := 1024\<rparr>,
     cf_local_resources := [(''ledger'', ''http://127.0.0.1:9000'')]\<rparr>"

definition sample_boot :: "nat boot_env" where
  "sample_boot =
     \<lparr>bo_file = Inr (Some exposed_config), bo_access_token = None, bo_allow_unauthenticated = None,
      bo_parse = (\<lambda>u. Some \<lparr>pu_scheme = ''http'', pu_host = Some ''127.0.0.1'', pu_port = Some 9000\<rparr>),
      bo_dns = (\<lambda>h p. None), bo_dir = (\<lambda>d. DirN []), bo_jwks_client = Inr (), bo_local_client = Inr (),
      bo_create_runtime = (\<lambda>cfg modules n. Inr n), bo_surface = Inr (), bo_parallelism = None, bo_hex = (\<lambda>s. Inl s),
      bo_endpoint = (\<lambda>pin. Inr ()), bo_now = 0, bo_bind = (\<lambda>host port. Inr ())\<rparr>"

definition booted_process :: "(unit, nat, 'w, nat, string, string) process" where
  "booted_process =
     \<lparr>pr_config = exposed_config, pr_app = app_of exposed_config Map.empty 16 None False,
      pr_world = world_of counting exposed_config 16,
      pr_host = host_new sample_pool (cache_new DEFAULT_MIN_SOURCE_BYTES) Map.empty (cf_engine exposed_config) False,
      pr_modules = Map.empty, pr_transport = NoBroker, pr_pipeline = None, pr_routes = routes exposed_config\<rparr>"

abbreviation sample_process :: "(unit, nat, nat, nat, string, string) process" where
  "sample_process \<equiv> booted_process"

lemma sample_load: "boot_load sample_boot = Inr exposed_config"
  by (simp add: boot_load_Inr sample_boot_def load_config_def apply_auth_overrides_def resolve_limits_def exposed_config_def
      config_default_def engine_config_default_def PARSE_HEAP_FACTOR_def Let_def)

lemma sample_ledger: "check_local_egress_url (bo_parse sample_boot) (bo_dns sample_boot) u = Inr ()"
proof -
  have "parse_ip ''127.0.0.1'' = Some (V4 (Ipv4 127 0 0 1))" by code_simp
  moreover have "is_private_ip (V4 (Ipv4 127 0 0 1))" by code_simp
  ultimately show ?thesis
    by (simp add: check_local_egress_url_def sample_boot_def require_private_target_def is_scheme_allowed_def ALLOWED_SCHEMES_def)
qed

lemma sample_exposure: "check_exposure (bo_parse sample_boot) (bo_dns sample_boot) exposed_config = Inr ()"
proof -
  have "is_ok (check_exposure (bo_parse sample_boot) (bo_dns sample_boot) exposed_config)"
    unfolding check_exposure_ok
    by (simp add: exposed_config_def config_default_def trusted_config_default_def contract_config_default_def
        engine_config_default_def sample_ledger)
  then show ?thesis by (auto simp: is_ok_iff)
qed

lemma sample_boots: "boot counting sample_boot = Inr booted_process"
proof -
  let ?engine = "cf_engine exposed_config"
  have c: "?engine = engine_config_default\<lparr>ec_pool_size := 1, ec_max_context_size := 1024\<rparr>" "cf_broker_socket exposed_config = None"
    "cf_broker_quic exposed_config = None" "cf_debug exposed_config = False"
    by (simp_all add: exposed_config_def config_default_def)
  have stages: "boot_catalogues sample_boot exposed_config = Inr (Map.empty, Map.empty)"
    "boot_contract sample_boot exposed_config = Inr None" "boot_pipeline sample_boot exposed_config = Inr None"
    by (simp_all add: boot_catalogues_def boot_contract_def boot_pipeline_def and_then_def exposed_config_def config_default_def
        trusted_config_default_def events_config_default_def Let_def)
  have pool: "pool_new (bo_create_runtime sample_boot ?engine m) (bo_surface sample_boot) (ec_pool_size ?engine)
      (bo_parallelism sample_boot) = Inr sample_pool" for m
    using sample_pool_new by (simp add: sample_boot_def c)
  have host: "host_build sample_pool cache reg ?engine (cf_debug exposed_config) [] None = Inr (host_new sample_pool cache reg ?engine False)"
    for cache reg by (simp add: host_build_def registry_build_def host_new_def registry_default_def c)
  have sizes: "resolved_max_concurrent ?engine (jp_size sample_pool) = 16" "ec_max_concurrent_per_partition ?engine = 0"
    by (simp_all add: c engine_config_default_def resolved_max_concurrent_def usat_mul_def AUTO_CONCURRENCY_FACTOR_def
        sample_pool_def usize_max_def)
  have envs: "bo_local_client sample_boot = Inr ()" "bo_bind sample_boot = (\<lambda>host port. Inr ())"
    by (simp_all add: sample_boot_def)
  show ?thesis
    by (simp add: boot_def and_then_Inr sample_load sample_exposure stages pool host sizes envs permits_def max_permits_def
        transport_from_config_def c(2,3) booted_process_def Let_def)
qed

lemma sample_process_boots: "boot counting sample_boot = Inr sample_process"
  by (rule sample_boots)

theorem boot_starts_server_witness:
  "server_reachable (pr_app sample_process) counting (\<lambda>k. 0) sample_serde 16 256 0 None (pr_world sample_process)
     ([] :: unit inflight list) [] \<and> length (jp_idle (lh_pool (pr_host sample_process))) = 1"
proof -
  have s: "cf_engine (pr_config sample_process) = engine_config_default\<lparr>ec_pool_size := 1, ec_max_context_size := 1024\<rparr>"
    "jp_size (lh_pool (pr_host sample_process)) = 1" "quota_plans_of (pr_config sample_process) = None"
    by (simp_all add: booted_process_def exposed_config_def config_default_def host_new_def sample_pool_def quota_plans_of_def
        trusted_config_default_def)
  have r: "resolved_max_concurrent (cf_engine (pr_config sample_process)) (jp_size (lh_pool (pr_host sample_process))) = 16"
    "resolved_partition_buckets (cf_engine (pr_config sample_process)) = 256"
    "ec_max_concurrent_per_partition (cf_engine (pr_config sample_process)) = 0"
    by (simp_all add: s engine_config_default_def resolved_max_concurrent_def usat_mul_def AUTO_CONCURRENCY_FACTOR_def usize_max_def
        resolved_partition_buckets_def DEFAULT_PARTITION_BUCKETS_def)
  have "server_reachable (pr_app sample_process) counting (\<lambda>k. 0) sample_serde 16 256 0 None (pr_world sample_process)
     ([] :: unit inflight list) []"
    by (rule sv_start) (simp_all add: booted_process_def world_of_def quota_plans_of_def exposed_config_def config_default_def
        trusted_config_default_def engine_config_default_def resolved_partition_buckets_def DEFAULT_PARTITION_BUCKETS_def)
  from boot_starts_server [OF counting.semaphore_axioms sample_process_boots refl refl refl, unfolded r s(3), OF this] show ?thesis
    unfolding s(2) by blast
qed

definition ledger_request :: exec_request where
  "ledger_request = sample_request\<lparr>xr_script := Some ''handler'', xr_key := None,
     xr_config := (xr_config sample_request)\<lparr>rq_io := [''ledger'']\<rparr>\<rparr>"

lemma ledger_request_runs:
  assumes "en_ops e = counting"
  shows "\<exists>fl w'. run_execute_begin (pr_app sample_process) e sample_headers (Inr ledger_request) (pr_world sample_process) =
    (Running fl, w')"
proof -
  let ?w = "pr_world sample_process" and ?cfg = "pr_app sample_process"
  have g: "\<exists>st. acquire_permits counting h (gate_new counting 16 256 0) k = (Granted None, st)" for h k
    by (simp add: acquire_permits_def take_partition_def gate_new_def partition_limiter_new_def counting_def)
  have w: "wd_gates ?w = gate_new counting 16 256 0" "wd_quota ?w = None"
    by (simp_all add: booted_process_def world_of_def exposed_config_def config_default_def engine_config_default_def
        quota_plans_of_def trusted_config_default_def resolved_partition_buckets_def DEFAULT_PARTITION_BUCKETS_def)
  have c: "ac_access_token ?cfg = Some ''t0ken''" "ac_trusted ?cfg = None" "ac_registry ?cfg = Map.empty"
    "ec_max_script_size (ac_engine ?cfg) = 1048576" "ec_max_context_size (ac_engine ?cfg) = 1024"
    "ac_local_resources ?cfg = [''ledger'' \<mapsto> ''http://127.0.0.1:9000'']"
    by (simp_all add: booted_process_def app_of_def exposed_config_def engine_config_default_def config_default_def trusted_of_def
        trusted_config_default_def)
  have q: "xr_script ledger_request = Some ''handler''" "xr_key ledger_request = None" "xr_context ledger_request = ''{}''"
    "rq_io (xr_config ledger_request) = [''ledger'']"
    by (simp_all add: ledger_request_def sample_request_def)
  have "\<exists>fl w'. execute_sized ?cfg e None k ledger_request (Inline ''handler'') ?w = (Running fl, w')" for k
    using g [of "en_hash e" k]
    by (auto simp: execute_sized_def enforce_quota_def open_session_def broker_names_def admit_def q c w assms Let_def)
  then have "\<exists>fl w'. execute_request ?cfg e sample_headers None ledger_request ?w = (Running fl, w')"
    by (simp add: execute_request_def enforce_member_authz_def resolve_script_def validate_input_sizes_def q c Let_def)
  then show ?thesis by (simp add: run_execute_begin_def enforce_auth_def sample_authorized resolve_identity_def c)
qed

theorem booted_exposure_witness:
  "\<exists>fl w'. run_execute_begin (pr_app sample_process) sample_env sample_headers (Inr ledger_request) (pr_world sample_process) =
     (Running fl, w') \<and> request_authorized sample_headers ''t0ken''"
proof -
  obtain fl w' where r: "run_execute_begin (pr_app sample_process) sample_env sample_headers (Inr ledger_request)
      (pr_world sample_process) = (Running fl, w')"
    using ledger_request_runs [of sample_env] by (auto simp: sample_env_def)
  have "\<not> is_loopback (cf_host (pr_config sample_process))"
    by (simp add: booted_process_def exposed_config_def)
  from booted_exposure [OF sample_process_boots this r] r show ?thesis
    by (auto simp: sample_boot_def exposed_config_def config_default_def)
qed

text \<open>Such a configuration passes the guards: a contract is configured and only services are to be admitted.\<close>

lemma dormant_settings_boot:
  assumes "trim url \<noteq> []" and "trim issuer \<noteq> []" and "trim audience \<noteq> []"
  shows "is_ok (check_exposure parse dns (config_default\<lparr>cf_trusted := trusted_config_default\<lparr>
      tc_contract := contract_config_default\<lparr>cc_enabled := True, cc_jwks_url := url, cc_issuer := issuer, cc_audience := audience\<rparr>,
      tc_allowed_principal_kinds := [''service'']\<rparr>\<rparr>))"
  unfolding check_exposure_ok using assms by (simp add: config_default_def trusted_config_default_def)

end
