(* ===== verification/Execution.thy ===== *)
theory Execution
  imports Boot Local_Io
begin

text \<open>
  A request executed on the booted process, from its admission to the POSTs its script causes: \<^verbatim>\<open>execute_blocking\<close> of
  \<^verbatim>\<open>runlet/src/handler/mod.rs\<close> with its parameter, the host, filled in by theory \<open>Logic_Host\<close> and the egress port by theory
  \<open>Local_Io\<close>.

  What the endpoints and the broker do with the n-th call of an execution is the argument \<open>fates\<close>. A call that never returns
  leaves the script where it is: \<open>ew_stuck\<close>. \<open>ew_sent\<close> holds, call by call, the POST of the box followed by the requests its HTTP
  client sent on following redirects.
\<close>

subsection \<open>The egress port\<close>

record 'd egress_world =
  ew_box :: "'d box_state"
  ew_calls :: nat
  ew_sent :: "local_request list list"
  ew_stuck :: bool

definition egress_start :: "'d session_conn box_egress option \<Rightarrow> 'd egress_world" where
  "egress_start be =
     \<lparr>ew_box = (case be of Some b \<Rightarrow> box_state_new b | None \<Rightarrow> \<lparr>bs_broker = None, bs_metrics = Map.empty\<rparr>), ew_calls = 0,
      ew_sent = [], ew_stuck = False\<rparr>"

definition box_port ::
  "'d box_ports \<Rightarrow> (nat \<Rightarrow> local_fate) \<Rightarrow> 'd session_conn box_egress \<Rightarrow> 'd egress_world egress" where
  "box_port ports fates be w name action payload =
     (if ew_stuck w then (Panicked, w)
      else (case box_call ports be (fates (ew_calls w)) (ew_box w) name action payload of
              (r, st, sent) \<Rightarrow>
                (let w' = w\<lparr>ew_box := st, ew_calls := ew_calls w + 1,
                            ew_sent := ew_sent w @ (if sent = [] then [] else [sent])\<rparr>
                 in case r of
                      Ready v \<Rightarrow> (Returned v, w')
                    | Never \<Rightarrow> (Panicked, w'\<lparr>ew_stuck := True\<rparr>))))"

subsection \<open>The execution on the host\<close>

definition to_host ::
  "'d box_ports \<Rightarrow> (nat \<Rightarrow> local_fate) \<Rightarrow> 'd session_conn invocation \<Rightarrow> 'd egress_world host_invocation" where
  "to_host ports fates iv =
     (host_inline (iv_source iv) (iv_context_json iv))
       \<lparr>hv_caps := \<lparr>cs_allowed_hosts = iv_allowed_hosts iv, cs_s3 = iv_s3 iv, cs_sys = iv_sys iv, cs_io = iv_io iv\<rparr>,
        hv_egress := map_option (box_port ports fates) (iv_egress iv), hv_cache_namespace := iv_cache_namespace iv,
        hv_log_level := iv_log_level iv, hv_default_currency := iv_default_currency iv\<rparr>"

definition blocking_run ::
  "('d egress_world, 'r, 'h, 'm, 'b) quickjs \<Rightarrow> exec_env \<Rightarrow> 'd box_ports \<Rightarrow> (nat \<Rightarrow> local_fate) \<Rightarrow>
   ('d egress_world, 'r, 'h, 'b) logic_host \<Rightarrow> app_config \<Rightarrow> 'd session_conn execute_job \<Rightarrow>
   (engine_error, 'd egress_world host_outcome) result \<times> ('d egress_world, 'r, 'h, 'b) logic_host" where
  "blocking_run js xenv ports fates host cfg job =
     (let iv = make_invocation cfg job
      in host_run js xenv host (to_host ports fates iv) (egress_start (iv_egress iv)))"

text \<open>The ports of a process: its bindings, and the broker and the printer of the outside.\<close>

definition process_ports ::
  "'d broker_env \<Rightarrow> (json \<Rightarrow> string) \<Rightarrow> ('k, 's, 'w, 'r, 'h, 'b) process \<Rightarrow> 'd box_ports" where
  "process_ports broker print p = \<lparr>bx_local = ac_local_resources (pr_app p), bx_env = broker, bx_print = print\<rparr>"

text \<open>The host after any number of executions; how QuickJS behaves in each is one of the behaviours \<open>jss\<close>.\<close>

inductive host_after ::
  "('w, 'r, 'h, 'm, 'b) quickjs set \<Rightarrow> ('w, 'r, 'h, 'b) logic_host \<Rightarrow> ('w, 'r, 'h, 'b) logic_host \<Rightarrow> bool" for jss h0 where
  fresh: "host_after jss h0 h0"
| ran: "host_after jss h0 h \<Longrightarrow> js \<in> jss \<Longrightarrow> host_run js xenv h iv w = (r, h') \<Longrightarrow> host_after jss h0 h'"

subsection \<open>Facts\<close>

lemma host_run_keeps:
  "host_run js xenv h iv w = (r, h') \<Longrightarrow>
   lh_limits h' = lh_limits h \<and> lh_capabilities h' = lh_capabilities h \<and> lh_allow_private_targets h' = lh_allow_private_targets h"
  by (auto simp: host_run_def Let_def split: if_splits sum.splits prod.splits)

lemma host_after_keeps:
  assumes "host_after jss h0 h"
  shows "lh_limits h = lh_limits h0 \<and> lh_capabilities h = lh_capabilities h0"
  using assms by (induction rule: host_after.induct) (auto dest: host_run_keeps)

lemma boot_bare_host: "boot ops env = Inr p \<Longrightarrow> lh_capabilities (pr_host p) = registry_default"
  unfolding boot_def and_then_Inr Let_def
  by (auto simp: and_then_Inr host_build_def registry_build_def registry_default_def split: sum.splits prod.splits)

lemma box_call_sent:
  "box_call ports be fate st name action payload = (r, st', sent) \<Longrightarrow> sent \<noteq> [] \<Longrightarrow>
   \<exists>url body. bx_local ports name = Some url \<and>
     sent = build_request be url body # lf_hops fate (build_request be url body)"
  by (auto simp: box_call_def call_local_def Let_def split: option.splits prod.splits)

text \<open>The calls through a port: counted, and their POSTs built from the bindings and the identity alone.\<close>

definition port_inv ::
  "'d box_ports \<Rightarrow> (nat \<Rightarrow> local_fate) \<Rightarrow> 'd session_conn box_egress \<Rightarrow> string list \<Rightarrow> nat \<Rightarrow> 'd egress_world \<Rightarrow> bool" where
  "port_inv ports fates be names n w \<longleftrightarrow>
     ew_calls w \<le> n \<and> length (ew_sent w) \<le> ew_calls w \<and>
     (\<forall>sent \<in> set (ew_sent w). \<exists>name \<in> set names. \<exists>url body k. bx_local ports name = Some url \<and>
        sent = build_request be url body # lf_hops (fates k) (build_request be url body))"

lemma port_inv_call:
  assumes "port_inv ports fates be names n w" and "name \<in> set names"
  shows "port_inv ports fates be names (Suc n) (snd (box_port ports fates be w name action payload))"
proof (cases "ew_stuck w")
  case True
  then show ?thesis using assms by (auto simp: box_port_def port_inv_def)
next
  case False
  obtain r st sent where c: "box_call ports be (fates (ew_calls w)) (ew_box w) name action payload = (r, st, sent)"
    by (metis prod_cases3)
  have "\<exists>name \<in> set names. \<exists>url body k. bx_local ports name = Some url \<and>
      sent = build_request be url body # lf_hops (fates k) (build_request be url body)" if "sent \<noteq> []"
    using box_call_sent [OF c that] assms(2) by blast
  then show ?thesis
    using assms by (cases r) (auto simp: box_port_def False c port_inv_def Let_def)
qed

lemma port_inv_steps:
  assumes "(w0, w) \<in> permitted_step dns mux ^^ n" and "mp_registry mux = registry_default"
    and "mp_fallback mux = Some (box_port ports fates be)" and "port_inv ports fates be (mp_enabled_io mux) 0 w0"
  shows "port_inv ports fates be (mp_enabled_io mux) n w"
  using assms(1)
proof (induction n arbitrary: w)
  case 0
  then show ?case using assms(4) by simp
next
  case (Suc n)
  then obtain v where "(w0, v) \<in> permitted_step dns mux ^^ n" "(v, w) \<in> permitted_step dns mux" by auto
  moreover from this(2) obtain name action payload where "name \<in> set (mp_enabled_io mux)"
    and "w = snd (box_port ports fates be v name action payload)"
    using assms(2,3) by (auto simp: permitted_step_def backend_for_def registry_default_def call_of_def or_else_def)
  ultimately show ?case using Suc.IH port_inv_call by blast
qed

lemma no_names_no_step: "mp_enabled_io mux = [] \<Longrightarrow> (w, w') \<in> permitted_step dns mux ^^ n \<Longrightarrow> w' = w"
  by (cases n) (auto simp: permitted_step_def elim: relpow_Suc_E2)

lemma running_job:
  assumes "run_execute_begin cfg env headers payload w = (Running fl, w')"
  obtains req pkey src session where "payload = Inr req" and "resolve_script (xr_script req) (xr_key req) (ac_registry cfg) = Inr src"
    and "fl_job fl = make_job cfg (fl_identity fl) pkey src (xr_context req) (xr_config req) session"
proof -
  obtain req k where "payload = Inr req"
    and "execute_request cfg env headers (fl_identity fl) req (w\<lparr>wd_keys := k\<rparr>) = (Running fl, w')"
    using begin_Running [OF assms] by blast
  moreover from execute_request_Running [OF this(2)] obtain src pkey
    where "resolve_script (xr_script req) (xr_key req) (ac_registry cfg) = Inr src"
    and "execute_sized cfg env (fl_identity fl) pkey req src (w\<lparr>wd_keys := k\<rparr>) = (Running fl, w')" by blast
  moreover from execute_sized_Running [OF this(2)] obtain session
    where "fl_job fl = make_job cfg (fl_identity fl) pkey src (xr_context req) (xr_config req) session" by blast
  ultimately show thesis using that by blast
qed

lemma blocking_run_world:
  assumes "blocking_run js xenv ports fates host cfg job = (Inr out, host')"
    and "lh_capabilities host = registry_default"
    and "be = \<lparr>be_session = xj_session job, be_tenant = xj_tenant job, be_actor = xj_actor job,
      be_principal_kind = xj_principal_kind job, be_on_behalf_of = xj_on_behalf_of job\<rparr>"
  shows "port_inv ports fates be (rq_io (xj_config job)) (ec_max_ops (lh_limits host)) (ho_world out)"
proof -
  let ?iv = "make_invocation cfg job"
  let ?start = "egress_start (iv_egress ?iv)"
  from assms(1) obtain source run r where run: "engine_run xenv (host_params host (to_host ports fates ?iv) source) run ?start = Inr r"
    and out: "out = outcome_of r"
    unfolding blocking_run_def Let_def by (rule host_run_engine)
  let ?mux = "xp_mux (host_params host (to_host ports fates ?iv) source)"
  have mux: "mp_registry ?mux = registry_default" "mp_enabled_io ?mux = rq_io (xj_config job)"
      "mp_max_ops ?mux = ec_max_ops (lh_limits host)"
      "mp_fallback ?mux = (if rq_io (xj_config job) \<noteq> [] then Some (box_port ports fates be) else None)"
    by (simp_all add: host_params_def to_host_def make_invocation_def host_inline_def with_defaults_def assms(2,3) Let_def)
  obtain n where n: "n \<le> mp_max_ops ?mux" "(?start, ho_world out) \<in> permitted_step (xe_dns xenv) ?mux ^^ n"
    using engine_run_contained [OF run] by (auto simp: out outcome_of_def)
  have start: "port_inv ports fates be names m ?start" for names m by (simp add: port_inv_def egress_start_def)
  have "port_inv ports fates be (mp_enabled_io ?mux) n (ho_world out)"
  proof (cases "rq_io (xj_config job) = []")
    case True
    then show ?thesis using no_names_no_step [OF _ n(2)] start by (simp add: mux)
  next
    case False
    then show ?thesis using port_inv_steps [OF n(2) mux(1) _ start] by (simp add: mux)
  qed
  then show ?thesis using n(1) by (auto simp: port_inv_def mux)
qed

subsection \<open>Properties\<close>

text \<open>C7: from the configuration to the network. On a process that booted, after any number of executions, a request that passed the
  gates runs its script: whatever the script does, it makes at most \<open>max_ops\<close> calls through the egress port, each of which has
  the box send at most one POST of its own. That POST goes to the endpoint the operator bound to a resource the request listed, an
  address that passed the check of local targets at boot, and carries the tenant, the actor, the principal kind and the
  principal acted for of the identity the gates accepted, and no other. What else leaves the box for the call is the redirects
  its client follows from there: at most ten, with the same identity headers and the same body or none, to wherever the
  answers point, which nothing checks.\<close>

theorem executed_egress:
  assumes "boot ops env = Inr p" and "run_execute_begin (pr_app p) e headers payload w = (Running fl, w')"
    and "host_after jss (pr_host p) host"
    and "blocking_run js xenv (process_ports broker print p) fates host (pr_app p) (fl_job fl) = (Inr out, host')"
    and redirects: "\<forall>k q. redirect_chain 10 q (lf_hops (fates k) q)"
  shows "ew_calls (ho_world out) \<le> ec_max_ops (cf_engine (pr_config p)) \<and>
    length (ew_sent (ho_world out)) \<le> ew_calls (ho_world out) \<and>
    (\<forall>sent \<in> set (ew_sent (ho_world out)). \<exists>q hops. sent = q # hops \<and>
       lr_method q = ''POST'' \<and>
       (\<exists>req name. payload = Inr req \<and> name \<in> set (rq_io (xr_config req)) \<and>
          ac_local_resources (pr_app p) name = Some (lr_url q)) \<and>
       is_ok (check_local_egress_url (bo_parse env) (bo_dns env) (lr_url q)) \<and>
       map_of (lr_headers q) TENANT_HEADER = tenant_of (fl_identity fl) \<and>
       map_of (lr_headers q) ACTOR_HEADER = Option.bind (fl_identity fl) id_user \<and>
       map_of (lr_headers q) PRINCIPAL_KIND_HEADER = Option.bind (fl_identity fl) id_principal_kind \<and>
       map_of (lr_headers q) ON_BEHALF_OF_HEADER = Option.bind (fl_identity fl) id_on_behalf_of \<and>
       length hops \<le> 10 \<and>
       (\<forall>h \<in> set hops.
          (lr_method h = ''POST'' \<and> lr_body h = lr_body q \<or> lr_method h = ''GET'' \<and> lr_body h = []) \<and>
          (\<forall>name \<in> set identity_headers. map_of (lr_headers h) name = map_of (lr_headers q) name)))"
proof -
  from assms(2) obtain req pkey src session where req: "payload = Inr req"
    and job: "fl_job fl = make_job (pr_app p) (fl_identity fl) pkey src (xr_context req) (xr_config req) session"
    by (rule running_job)
  from assms(1) obtain scripts contract n where b: "is_ok (check_exposure (bo_parse env) (bo_dns env) (pr_config p))"
      "pr_app p = app_of (pr_config p) scripts n contract (pr_pipeline p \<noteq> None)" "lh_limits (pr_host p) = cf_engine (pr_config p)"
    by (rule boot_Inr)
  have h: "lh_capabilities host = registry_default" "lh_limits host = cf_engine (pr_config p)"
    using host_after_keeps [OF assms(3)] boot_bare_host [OF assms(1)] b(3) by simp_all
  note inv = blocking_run_world [OF assms(4) h(1) refl, unfolded h(2) port_inv_def]
  have ok: "is_ok (check_local_egress_url (bo_parse env) (bo_dns env) url)" if "ac_local_resources (pr_app p) name = Some url" for name url
    using b(1) [unfolded check_exposure_ok] that by (auto simp: b(2) app_of_def dest: map_of_SomeD)
  let ?be = "\<lparr>be_session = session, be_tenant = tenant_of (fl_identity fl),
        be_actor = Option.bind (fl_identity fl) id_user, be_principal_kind = Option.bind (fl_identity fl) id_principal_kind,
        be_on_behalf_of = Option.bind (fl_identity fl) id_on_behalf_of\<rparr>"
  have first: "\<exists>name url body k. name \<in> set (rq_io (xr_config req)) \<and> ac_local_resources (pr_app p) name = Some url \<and>
      sent = build_request ?be url body # lf_hops (fates k) (build_request ?be url body)"
    if "sent \<in> set (ew_sent (ho_world out))" for sent
  proof -
    have "\<forall>sent \<in> set (ew_sent (ho_world out)). \<exists>name \<in> set (rq_io (xr_config req)). \<exists>url body k.
        ac_local_resources (pr_app p) name = Some url \<and>
        sent = build_request ?be url body # lf_hops (fates k) (build_request ?be url body)"
      using inv by (simp add: job make_job_def process_ports_def)
    then show ?thesis using that by blast
  qed
  have hop: "length (lf_hops (fates k) q) \<le> 10 \<and> (\<forall>h \<in> set (lf_hops (fates k) q).
      (lr_method h = lr_method q \<and> lr_body h = lr_body q \<or> lr_method h = ''GET'' \<and> lr_body h = []) \<and>
      (\<forall>name \<in> set identity_headers. map_of (lr_headers h) name = map_of (lr_headers q) name))" for k q
    using redirects redirect_chain_length redirect_chain_hop by blast
  have "\<exists>q hops. sent = q # hops \<and> lr_method q = ''POST'' \<and>
       (\<exists>name. name \<in> set (rq_io (xr_config req)) \<and> ac_local_resources (pr_app p) name = Some (lr_url q)) \<and>
       is_ok (check_local_egress_url (bo_parse env) (bo_dns env) (lr_url q)) \<and>
       map_of (lr_headers q) TENANT_HEADER = tenant_of (fl_identity fl) \<and>
       map_of (lr_headers q) ACTOR_HEADER = Option.bind (fl_identity fl) id_user \<and>
       map_of (lr_headers q) PRINCIPAL_KIND_HEADER = Option.bind (fl_identity fl) id_principal_kind \<and>
       map_of (lr_headers q) ON_BEHALF_OF_HEADER = Option.bind (fl_identity fl) id_on_behalf_of \<and>
       length hops \<le> 10 \<and>
       (\<forall>h \<in> set hops.
          (lr_method h = ''POST'' \<and> lr_body h = lr_body q \<or> lr_method h = ''GET'' \<and> lr_body h = []) \<and>
          (\<forall>name \<in> set identity_headers. map_of (lr_headers h) name = map_of (lr_headers q) name))"
    if "sent \<in> set (ew_sent (ho_world out))" for sent
  proof -
    from first [OF that] obtain name url body k where f: "name \<in> set (rq_io (xr_config req))"
        "ac_local_resources (pr_app p) name = Some url"
        "sent = build_request ?be url body # lf_hops (fates k) (build_request ?be url body)" by blast
    show ?thesis
      using f ok [OF f(2)] hop [where k = k and q = "build_request ?be url body"] build_request_identity [of ?be url body]
      by (intro exI [of _ "build_request ?be url body"] exI [of _ "lf_hops (fates k) (build_request ?be url body)"])
        (auto intro!: exI [of _ name])
  qed
  then show ?thesis using inv req by blast
qed

subsection \<open>A script that calls its ledger\<close>

definition ledger_env :: "(unit, nat, nat session_conn) env" where
  "ledger_env =
     \<lparr>en_ops = counting, en_hash = (\<lambda>k. 0), en_jwt = \<lparr>jwt_header = (\<lambda>_. None), jwt_decode = (\<lambda>_ _. None)\<rparr>,
      en_refresh = \<lparr>re_checked_at = 0, re_stored_at = 0, re_answer = None\<rparr>, en_trace_id = ''trace-1'', en_fresh_id = ''fresh-1'',
      en_connect = (\<lambda>_. Inr \<lparr>sc_daemon = 0, sc_inbox = []\<rparr>),
      en_readers = \<lparr>jr_retryable = (\<lambda>_. None), jr_envelope = (\<lambda>_. Inl ''x''), jr_properties = (\<lambda>_. None)\<rparr>\<rparr>"

definition ledger_script :: script_run where
  "ledger_script = sample_script\<lparr>sr_handler_calls := [HIo ''ledger'' ''get'' ''{}'', HIo ''db'' ''get'' ''{}'']\<rparr>"

definition ledger_js :: "(nat egress_world, nat, string, string, string) quickjs" where
  "ledger_js = \<lparr>qj_create = Inr 0, qj_sha = id, qj_modules = sample_ops, qj_exec = (\<lambda>r p iv m. ledger_script)\<rparr>"

text \<open>The ledger answers with a permanent redirect to a place of its choice.\<close>

definition ledger_fate :: "string \<Rightarrow> nat \<Rightarrow> local_fate" where
  "ledger_fate elsewhere n =
     \<lparr>lf_broker = Answers, lf_hops = (\<lambda>q. [q\<lparr>lr_url := elsewhere\<rparr>]), lf_post = Responds 200 ''{}'', lf_duration_us = 1\<rparr>"

lemma ledger_redirects: "redirect_chain 10 q (lf_hops (ledger_fate elsewhere k) q)"
  by (simp add: ledger_fate_def numeral_eq_Suc redirected_def)

abbreviation ledger_process :: "(unit, nat, nat egress_world, nat, string, string) process" where
  "ledger_process \<equiv> booted_process"

lemma ledger_ports:
  "bx_local (process_ports sample_broker (\<lambda>j. ''{}'') ledger_process) = [''ledger'' \<mapsto> ''http://127.0.0.1:9000'']"
  by (simp add: process_ports_def booted_process_def app_of_def exposed_config_def)

lemma ledger_host:
  "lh_pool (pr_host ledger_process) = sample_pool" "lh_capabilities (pr_host ledger_process) = registry_default"
  "ec_max_ops (lh_limits (pr_host ledger_process)) = 1500" "lh_registry (pr_host ledger_process) = Map.empty"
  by (simp_all add: booted_process_def host_new_def exposed_config_def engine_config_default_def)

text \<open>The call of the listed resource is POSTed; the call of the other one is refused by the mux.\<close>

lemma ledger_run:
  assumes "xj_config job = xr_config ledger_request" and "xj_source job = Inline ''handler''"
  shows "\<exists>out h'. blocking_run ledger_js xenv (process_ports sample_broker (\<lambda>j. ''{}'') ledger_process) (ledger_fate elsewhere)
      (pr_host ledger_process) (pr_app ledger_process) job = (Inr out, h') \<and>
    ew_calls (ho_world out) = 1 \<and> map (map lr_url) (ew_sent (ho_world out)) = [[''http://127.0.0.1:9000'', elsewhere]]"
proof -
  let ?ports = "process_ports sample_broker (\<lambda>j. ''{}'') ledger_process" and ?host = "pr_host ledger_process"
  let ?iv = "make_invocation (pr_app ledger_process) job"
  let ?h = "to_host ?ports (ledger_fate elsewhere) ?iv"
  let ?p = "host_params ?host ?h ''handler''"
  let ?be = "\<lparr>be_session = xj_session job, be_tenant = xj_tenant job, be_actor = xj_actor job,
      be_principal_kind = xj_principal_kind job, be_on_behalf_of = xj_on_behalf_of job\<rparr>"
  have io: "rq_io (xr_config ledger_request) = [''ledger'']" by (simp add: ledger_request_def sample_request_def)
  have h: "hv_code ?h = CodeInline ''handler''" "iv_egress ?iv = Some ?be"
    by (simp_all add: to_host_def host_inline_def with_defaults_def make_invocation_def assms io Let_def)
  have mux: "mp_enabled_io (xp_mux ?p) = [''ledger'']" "mp_registry (xp_mux ?p) = registry_default" "mp_max_ops (xp_mux ?p) = 1500"
      "mp_fallback (xp_mux ?p) = Some (box_port ?ports (ledger_fate elsewhere) ?be)" "xp_profile ?p = Full" "xp_script ?p = ''handler''"
    by (simp_all add: host_params_def to_host_def host_inline_def with_defaults_def make_invocation_def assms io ledger_host Let_def)
  have calls: "calls_made ''handler'' ledger_script = [HIo ''ledger'' ''get'' ''{}'', HIo ''db'' ''get'' ''{}'']"
    by (simp add: calls_made_def ledger_script_def sample_script_def resolve_handler_def)
  have inj: "mux_injected ?p" by (simp add: mux_injected_def inject_registry_def mux)
  have "ew_calls w = 1 \<and> map (map lr_url) (ew_sent w) = [[''http://127.0.0.1:9000'', elsewhere]]"
    if "w = snd (es_io (foldl (host_step xenv ?p) (exec_state_new (egress_start (Some ?be))) (calls_made ''handler'' ledger_script)))" for w
    using that
    by (simp add: calls inj exec_state_new_def io_native_def mux dispatch_def dispatch_inner_def policy_check_def registry_default_def
        call_backend_def backend_for_def or_else_def box_port_def egress_start_def box_call_def ledger_ports call_local_def
        ledger_fate_def is_success_def build_request_def Let_def)
  then show ?thesis
    by (simp add: blocking_run_def host_run_def ledger_host sample_pool_def h mux resolve_source_def pool_acquire_def execute_source_def
        is_es_module_def chomp_def trim_start_def ascii_ws_def ledger_js_def engine_run_def ledger_script_def sample_script_def
        outcome_of_def Let_def)
qed

theorem executed_egress_witness:
  "\<forall>xenv elsewhere. \<exists>fl w' out h' q h.
     run_execute_begin (pr_app ledger_process) ledger_env sample_headers (Inr ledger_request) (pr_world ledger_process) = (Running fl, w') \<and>
     blocking_run ledger_js xenv (process_ports sample_broker (\<lambda>j. ''{}'') ledger_process) (ledger_fate elsewhere)
       (pr_host ledger_process) (pr_app ledger_process) (fl_job fl) = (Inr out, h') \<and>
     ew_sent (ho_world out) = [[q, h]] \<and> lr_url q = ''http://127.0.0.1:9000'' \<and> map_of (lr_headers q) TENANT_HEADER = None \<and>
     lr_url h = elsewhere \<and> (\<forall>name \<in> set identity_headers. map_of (lr_headers h) name = map_of (lr_headers q) name)"
proof (intro allI)
  fix xenv elsewhere
  have app: "pr_app ledger_process = pr_app sample_process" "pr_world ledger_process = pr_world sample_process"
    by (simp_all add: booted_process_def)
  obtain fl w' where r: "run_execute_begin (pr_app ledger_process) ledger_env sample_headers (Inr ledger_request) (pr_world ledger_process) =
      (Running fl, w')"
    using ledger_request_runs [of ledger_env] unfolding app by (auto simp: ledger_env_def)
  have "fl_identity fl = None"
    using begin_Running [OF r]
    by (auto simp: accepted_identity_def booted_process_def app_of_def trusted_of_def exposed_config_def config_default_def
        trusted_config_default_def)
  then have i: "tenant_of (fl_identity fl) = None" by (simp add: tenant_of_def)
  have "xj_config (fl_job fl) = xr_config ledger_request \<and> xj_source (fl_job fl) = Inline ''handler''"
    using r by (rule running_job) (auto simp: make_job_def resolve_script_def ledger_request_def)
  then obtain out h' where b: "blocking_run ledger_js xenv (process_ports sample_broker (\<lambda>j. ''{}'') ledger_process)
      (ledger_fate elsewhere) (pr_host ledger_process) (pr_app ledger_process) (fl_job fl) = (Inr out, h')"
    and "map (map lr_url) (ew_sent (ho_world out)) = [[''http://127.0.0.1:9000'', elsewhere]]"
    using ledger_run [of "fl_job fl" xenv elsewhere] by (elim conjE exE) auto
  then obtain q h where q: "ew_sent (ho_world out) = [[q, h]]" "lr_url q = ''http://127.0.0.1:9000''" "lr_url h = elsewhere" by auto
  have "\<forall>k q. redirect_chain 10 q (lf_hops (ledger_fate elsewhere k) q)" using ledger_redirects by blast
  from executed_egress [OF sample_boots r host_after.fresh [of UNIV] b this] q(1) i
  have "map_of (lr_headers q) TENANT_HEADER = None" "\<forall>name \<in> set identity_headers. map_of (lr_headers h) name = map_of (lr_headers q) name"
    by auto
  then show "\<exists>fl w' out h' q h.
     run_execute_begin (pr_app ledger_process) ledger_env sample_headers (Inr ledger_request) (pr_world ledger_process) = (Running fl, w') \<and>
     blocking_run ledger_js xenv (process_ports sample_broker (\<lambda>j. ''{}'') ledger_process) (ledger_fate elsewhere)
       (pr_host ledger_process) (pr_app ledger_process) (fl_job fl) = (Inr out, h') \<and>
     ew_sent (ho_world out) = [[q, h]] \<and> lr_url q = ''http://127.0.0.1:9000'' \<and> map_of (lr_headers q) TENANT_HEADER = None \<and>
     lr_url h = elsewhere \<and> (\<forall>name \<in> set identity_headers. map_of (lr_headers h) name = map_of (lr_headers q) name)"
    using r b q by blast
qed

end
