(* ===== verification/Spec2Isabelle.thy ===== *)
theory Spec2Isabelle
  imports Runlet_Prelude Keyed_State Error_Taxonomy Breaker Quota Admission Ssrf Identity Contract
    Http_Egress Boot_Config Observability Response Handler Handler_Props Batch Batch_Props Server
    Channels Mux Engine Wire Broker Local_Io Pool Logic_Host Catalogue Decimal S3 Sys
    Event_Pipeline Exposition Template Surface Boot Execution
begin

text \<open>
  \<^bold>\<open>runlet: a verified model of the execution server\<close>

  runlet is an HTTP server (\<^verbatim>\<open>crates/runlet\<close>) that runs tenants' JavaScript in a QuickJS sandbox (\<^verbatim>\<open>crates/runlet-core\<close>)
  and reaches databases, mail and other drivers through a broker process over a wire protocol (\<^verbatim>\<open>crates/runlet-wire\<close>).
  The process reads its configuration, refuses an unsafe exposure, loads scripts and modules, warms up a pool of
  runtimes and serves. A request to \<^verbatim>\<open>/execute\<close> passes a bearer check, the resolution of a trusted identity (from edge
  headers or a signed contract), an entitlement check, the resolution of its script, size limits, a per-tenant quota,
  the opening of a broker session, a per-partition and a global concurrency gate; it is then run on a worker: a
  runtime is taken from the pool, its script compiled or loaded from a cache, the framework and the native functions
  injected, the script evaluated and its handler called; its permits are released, and its outcome becomes a response,
  counters and billing and audit events. A request to \<^verbatim>\<open>/batch\<close> runs many invocations, with a phase before and after them.

  \<^bold>\<open>Theories and the code they model\<close>

  Foundations:

  \<^item> \<open>Runlet_Prelude\<close>: machine words, saturating and checked arithmetic, results, ASCII strings, decimal numbers, the
    collection \<open>runlet_defs\<close>; what the code uses of Rust's standard library.
  \<^item> \<open>Keyed_State\<close>: the locale of state machines whose operations act on one key; interpreted by \<open>Breaker\<close> and \<open>Quota\<close>.
  \<^item> \<open>Error_Taxonomy\<close>: \<^verbatim>\<open>runlet-wire/src/{errors,egress}.rs\<close>, \<^verbatim>\<open>runlet-core/src/{errors,sandbox}.rs\<close>, \<^verbatim>\<open>engine/{types,classify}.rs\<close>,
    \<^verbatim>\<open>runlet/src/status.rs\<close>: envelopes, engine errors, classification of a throw, projection to a status, the fault
    texts of the native functions.

  The request path:

  \<^item> \<open>Quota\<close>: \<^verbatim>\<open>runlet/src/quota.rs\<close>; the abstract specification is the multiset of live guards.
  \<^item> \<open>Admission\<close>: \<^verbatim>\<open>runlet-core/src/partition.rs\<close> and \<^verbatim>\<open>acquire_permits\<close> of \<^verbatim>\<open>runlet/src/handler/gates.rs\<close>; the locales
    \<open>semaphore\<close> (what tokio's semaphore promises) and \<open>permit_pool\<close> (what the gates promise their callers).
  \<^item> \<open>Identity\<close>: \<^verbatim>\<open>runlet/src/{identity,authz}.rs\<close>, \<^verbatim>\<open>runlet-wire/src/ct.rs\<close>, the bearer check of \<^verbatim>\<open>gates.rs\<close>.
  \<^item> \<open>Contract\<close>: \<^verbatim>\<open>runlet/src/contract.rs\<close>: the key cache and the verification of an identity contract.
  \<^item> \<open>Observability\<close>: \<^verbatim>\<open>runlet-core/src/metrics.rs\<close>, \<^verbatim>\<open>runlet/src/events.rs\<close>: counters, histogram, events as the handlers see them.
  \<^item> \<open>Response\<close>: \<^verbatim>\<open>runlet/src/handler/response.rs\<close>.
  \<^item> \<open>Handler\<close>: \<^verbatim>\<open>runlet/src/handler/{mod,gates,telemetry,types}.rs\<close>: the \<^verbatim>\<open>/execute\<close> handler in full, composed as the code
    composes it. \<open>app_config\<close> and \<open>world\<close> are the immutable and the shared mutable part of \<^verbatim>\<open>AppState\<close>, \<open>env\<close> holds the
    outside. \<open>Handler_Props\<close> proves what one request does.
  \<^item> \<open>Batch\<close>: \<^verbatim>\<open>runlet/src/handler/{batch,batch_items,lifecycle}.rs\<close>: the \<^verbatim>\<open>/batch\<close> handler. The prologue, the gates of an
    item, the two lifecycle phases and the rendering are functions; the tasks of the fan-out interleave, so a batch
    is a \<open>batch_state\<close> moved by the step relation \<open>batch_step\<close> (the whole fan-out, with the slots of the batch and the
    permits of the bulkhead). \<open>Batch_Props\<close> proves what one batch does in any environment.
  \<^item> \<open>Server\<close>: the states reachable by any number of requests and batches that interleave on the shared state.

  The engine:

  \<^item> \<open>Channels\<close>: \<^verbatim>\<open>engine/channels.rs\<close>: the effect and log buffers, their budgets, truncation at character boundaries.
  \<^item> \<open>Mux\<close>: \<^verbatim>\<open>runlet-core/src/capability.rs\<close>, the \<^verbatim>\<open>__io\<close> function of \<^verbatim>\<open>engine/channels.rs\<close>, \<^verbatim>\<open>js/io.js\<close> and \<^verbatim>\<open>js/ffi.js\<close>: capability
    registry, trust, dispatch, and how a fault reaches the script.
  \<^item> \<open>Engine\<close>: \<^verbatim>\<open>engine/mod.rs\<close> and the phases of \<^verbatim>\<open>engine/classify.rs\<close>: one execution over a \<open>script_run\<close>, what QuickJS did.
  \<^item> \<open>Template\<close>, \<open>Decimal\<close>, \<open>Sys\<close>, \<open>S3\<close>: \<^verbatim>\<open>runlet-core/src/{template,decimal,sys,s3}.rs\<close>: the native libraries, operation by operation.
  \<^item> \<open>Surface\<close>: \<^verbatim>\<open>engine/inject.rs\<close>, the set-up of \<^verbatim>\<open>engine/mod.rs\<close> and the native bridges: what a script finds in its context.
  \<^item> \<open>Pool\<close>: \<^verbatim>\<open>runlet-core/src/pool.rs\<close>, as a step relation over all interleavings of runs, releases and shutdown.
  \<^item> \<open>Logic_Host\<close>: \<^verbatim>\<open>runlet-core/src/{host,bytecode}.rs\<close>: the bytecode cache under concurrent requests, and a run of the host
    composed of registry, pool, cache and engine.
  \<^item> \<open>Catalogue\<close>: \<^verbatim>\<open>runlet-core/src/{registry,modules}.rs\<close>: the directory scans and the import resolver.

  Egress:

  \<^item> \<open>Ssrf\<close>: \<^verbatim>\<open>runlet-core/src/ssrf.rs\<close> and the standard library's address parser.
  \<^item> \<open>Http_Egress\<close>: \<^verbatim>\<open>runlet-core/src/http.rs\<close>: the guarded HTTP capability.
  \<^item> \<open>Breaker\<close>: \<^verbatim>\<open>runlet-wire/src/breaker.rs\<close>; the abstract specification is the streak of failures in the history.
  \<^item> \<open>Wire\<close>: \<^verbatim>\<open>runlet-wire/src/wire.rs\<close>: messages and framing. \<open>Broker\<close>: \<^verbatim>\<open>runlet/src/broker.rs\<close> and the certificate pin of
    \<^verbatim>\<open>runlet-wire/src/quic.rs\<close>; the abstract specification is a broker that answers each call directly.
    \<open>Local_Io\<close>: \<^verbatim>\<open>runlet/src/local_io.rs\<close>.

  The process:

  \<^item> \<open>Boot_Config\<close>: \<^verbatim>\<open>runlet-core/src/{config,bytesize}.rs\<close>, \<^verbatim>\<open>runlet/src/config/{mod,guards}.rs\<close>: limits and boot guards.
  \<^item> \<open>Event_Pipeline\<close>: the channels, writers and shutdown of \<^verbatim>\<open>runlet/src/events.rs\<close>; it refines the sink of \<open>Observability\<close>.
  \<^item> \<open>Exposition\<close>: the text of \<^verbatim>\<open>/metrics\<close>, \<^verbatim>\<open>runlet-core/src/metrics.rs\<close> and \<^verbatim>\<open>handler/telemetry.rs\<close>.
  \<^item> \<open>Boot\<close>: \<^verbatim>\<open>runlet/src/main.rs\<close>: the start, the routes, the shutdown.
  \<^item> \<open>Execution\<close>: \<^verbatim>\<open>execute_blocking\<close> of \<^verbatim>\<open>runlet/src/handler/mod.rs\<close> with the host, the engine and the egress of the other theories
    in place of its parameters, on the booted process.

  \<^bold>\<open>What the lemmas show\<close>

  \<^item> \<open>Server\<close>, \<open>Boot\<close>: conservation of permits and quota over every interleaving, for the process as it boots from any
    configuration that passes its guards; an exposed process is authenticated. \<open>Execution\<close>: what a script makes the box POST
    goes to operator-bound local endpoints, under the accepted identity.
  \<^item> \<open>Handler_Props\<close>: nothing executes which a gate should have stopped; every request is accounted exactly once in counters
    and events, refused or executed; the status and \<^verbatim>\<open>Retry-After\<close> contract of every response; non-interference of the
    caller-asserted partition in trusted mode.
  \<^item> \<open>Batch_Props\<close>: a batch answers every item once and in order, stays within its ceiling, is never stuck and ends; its
    items pass the gates of a request.
  \<^item> \<open>Engine\<close>, \<open>Logic_Host\<close>, \<open>Surface\<close>: whatever a script does, its effects, calls, logs and output stay within the host's limits
    and the deterministic profile reaches nothing outside but the two ambient operations named there; bytecode, of
    scripts and of the framework, changes no result; the natives of a context are exactly those its profile and request allow.
  \<^item> \<open>Pool\<close>, \<open>Catalogue\<close>, \<open>Contract\<close>, \<open>Quota\<close>, \<open>Breaker\<close>, \<open>Admission\<close>: exact accounting and exact acceptance of each component, the breaker
    and the quota against their abstract specifications.
  \<^item> \<open>Ssrf\<close>, \<open>Http_Egress\<close>, \<open>S3\<close>, \<open>Local_Io\<close>: exact address classification and the guards of outgoing requests.
  \<^item> \<open>Wire\<close>, \<open>Broker\<close>, \<open>Mux\<close>: frames read back exactly; a session without unread answers refines direct calls, and what a time-out
    does to it; which faults reach the script with their retry hint.
  \<^item> \<open>Decimal\<close>, \<open>Sys\<close>, \<open>Template\<close>: allocations add up exactly and follow largest remainders; secrets are used without being
    revealed; periods of the calendar; agreement of the template operations on syntax errors.
  \<^item> \<open>Event_Pipeline\<close>, \<open>Exposition\<close>: events are printed once, in order, or counted as dropped, and flushed at shutdown; a scrape
    reads back the counters.

  \<^bold>\<open>Parameters, bounds\<close>

  Code outside the repository is an argument: the semaphore (laws in \<open>semaphore\<close>), the partition hash, the JWT decoder and
  the key endpoint's answer, the URL parser, the name server's answer, the HTTP clients, serde's readers and printers,
  the broker process, QUIC and hex decoding, QuickJS (\<open>script_run\<close>, \<open>quickjs\<close>, \<open>js_engine\<close>) and the texts of the framework's
  JavaScript files, SHA-256 and HMAC, moka's eviction, the file-system tree, rust_decimal, chrono, the percent
  encoder, minijinja, the clock. tokio's channels and time-outs are modelled by their documentation. Where a theorem
  needs a law of such code it is a hypothesis, and the witness instantiates it.

  Definitions are total. Loops run over lists or have a measure (the directory scan by the weight of the tree, the
  redirect chain as a list of targets); an await that may never end is the value \<open>Never\<close>. The one fuel is the length
  of the pattern in the date formatter of \<open>Sys\<close>, and a lemma there shows that it is enough. Counters are machine words that wrap
  as the code's do; sizes are naturals with saturation written out where the code saturates. Poisoned mutexes are
  modelled where the code handles them.

  \<^bold>\<open>Not modelled\<close>

  QuickJS itself and the JavaScript wrapper files (money, text, lists, dictionaries, dates, check digits), whose Rust side only
  evaluates a text; the TypeScript declarations of \<^verbatim>\<open>types.rs\<close>; tracing and OpenTelemetry set-up and span attributes;
  the TLS and QUIC parameters beyond the certificate pin; \<^verbatim>\<open>Debug\<close> and \<^verbatim>\<open>Display\<close> texts except that of the wire's
  initial message; benchmarks and examples. A handler future dropped because the client disconnected is not
  modelled (a panic of a batch task is), nor a frame cut in the middle by a cancelled write.
\<close>

end
